(* ===== verification/Frp_Prelude.thy ===== *)
theory Frp_Prelude
  imports Main "HOL-Library.Sublist" "HOL-Library.List_Lexorder" "HOL-Library.Char_ord"
begin

text \<open>
  Shared material of the development: the lemma collections, the names of the types that
  several components use, and generic facts about lists, maps and the lexicographic order on
  strings. A Go \<^verbatim>\<open>string\<close> is a byte sequence, so it is modelled by \<open>string\<close> (a list of
  \<open>char\<close>, and a \<open>char\<close> is a byte); \<^verbatim>\<open>strings.Compare\<close> is then the lexicographic order of
  \<open>HOL-Library.List_Lexorder\<close> over \<open>HOL-Library.Char_ord\<close>.
\<close>

section \<open>Lemma collections\<close>

named_theorems route_simps \<open>equations of the vhost routing table\<close>

section \<open>Shared types\<close>

text \<open>Go's \<^verbatim>\<open>map[string]T\<close> and addresses of heap objects that the code shares by pointer.\<close>

type_synonym 'v smap = "string \<rightharpoonup> 'v"
type_synonym addr = nat

text \<open>The result of a Go function that returns \<^verbatim>\<open>(value, error)\<close>: \<open>Inl\<close> is the error.\<close>

type_synonym ('e, 'a) result = "'e + 'a"

abbreviation is_ok :: "('e, 'a) result \<Rightarrow> bool" where
  "is_ok r \<equiv> \<not> isl r"

lemma is_ok_conv: "is_ok r \<longleftrightarrow> (\<exists>x. r = Inr x)"
  by (cases r) auto

section \<open>Lists\<close>

text \<open>Go's \<^verbatim>\<open>append(xs[:i], xs[i+1:]...)\<close> at the first index holding \<open>x\<close> is \<open>remove1\<close>.\<close>

lemma distinct_set_remove1: "distinct xs \<Longrightarrow> set (remove1 x xs) = set xs - {x}"
  by (rule set_remove1_eq)

lemma find_append:
  "List.find P (xs @ ys) = (case List.find P xs of None \<Rightarrow> List.find P ys | Some x \<Rightarrow> Some x)"
  by (induction xs) auto

lemma find_SomeD: "List.find P xs = Some x \<Longrightarrow> x \<in> set xs \<and> P x"
  by (auto simp: find_Some_iff)

text \<open>The first match in a strictly descending list is the greatest match.\<close>

lemma find_desc_greatest:
  fixes f :: "'a \<Rightarrow> 'b::linorder"
  assumes "sorted_wrt (\<lambda>a b. f b < f a) xs" and "List.find P xs = Some x"
    and "y \<in> set xs" and "P y"
  shows "f y \<le> f x"
  using assms
proof (induction xs)
  case Nil
  then show ?case by simp
next
  case (Cons a xs)
  then show ?case by (cases "P a") (auto simp: less_imp_le)
qed

text \<open>
  A list with pairwise different keys has exactly one arrangement with strictly descending
  keys, so the outcome of an unstable sort on it is determined.
\<close>

lemma desc_arrangement_unique:
  fixes f :: "'a \<Rightarrow> 'b::linorder"
  assumes "sorted_wrt (\<lambda>a b. f b < f a) xs" "sorted_wrt (\<lambda>a b. f b < f a) ys" "set xs = set ys"
  shows "xs = ys"
  using assms
proof (induction xs arbitrary: ys)
  case Nil
  then show ?case by simp
next
  case (Cons x xs)
  then obtain y ys' where ys: "ys = y # ys'" by (cases ys) auto
  have "x = y"
  proof (rule ccontr)
    assume "x \<noteq> y"
    with Cons.prems ys have "y \<in> set xs" "x \<in> set ys'" by auto
    with Cons.prems ys have "f y < f x" "f x < f y" by auto
    then show False by simp
  qed
  moreover have "x \<notin> set xs" "y \<notin> set ys'" using Cons.prems ys by auto
  ultimately have "set xs = set ys'" using Cons.prems(3) ys by auto
  with Cons.prems ys have "xs = ys'" by (intro Cons.IH) auto
  with ys \<open>x = y\<close> show ?case by simp
qed

lemma sorted_wrt_rev_sort_key:
  fixes f :: "'a \<Rightarrow> 'b::linorder"
  assumes "distinct (map f xs)"
  shows "sorted_wrt (\<lambda>a b. f b < f a) (rev (sort_key f xs))"
proof -
  have d: "distinct (map f (sort_key f xs))"
    using assms by (simp add: distinct_map)
  have "sorted (map f (sort_key f xs))" by (rule sorted_sort_key)
  with d have "sorted_wrt (<) (map f (sort_key f xs))"
    by (simp add: strict_sorted_iff)
  then show ?thesis by (simp add: sorted_wrt_map sorted_wrt_rev)
qed

section \<open>Prefixes and the lexicographic order\<close>

lemma prefix_imp_le:
  fixes p s :: string
  assumes "prefix p s"
  shows "p \<le> s"
  using assms
proof (induction p arbitrary: s)
  case Nil
  then show ?case by simp
next
  case (Cons c p)
  then obtain s' where "s = c # s'" "prefix p s'" by (cases s) auto
  then show ?case using Cons.IH by simp
qed

text \<open>Of two prefixes of one string, the lexicographically greater is the longer one.\<close>

lemma prefix_le_imp_length_le:
  fixes p q s :: string
  assumes "prefix p s" "prefix q s" "p \<le> q"
  shows "length p \<le> length q"
proof (cases "prefix p q")
  case True
  then show ?thesis by (rule prefix_length_le)
next
  case False
  with assms(1,2) have "prefix q p" by (metis prefix_same_cases)
  then have "q \<le> p" by (rule prefix_imp_le)
  with assms(3) show ?thesis by simp
qed

section \<open>Finite maps\<close>

lemma map_upd_None_triv: "m k = None \<Longrightarrow> m(k := None) = m"
  by (simp add: fun_upd_idem)

lemma dom_map_del: "dom (m(k := None)) = dom m - {k}"
  by auto

text \<open>Removing the only key of a value removes the value.\<close>

lemma ran_del_unique:
  assumes "m k = Some x" "\<And>k'. m k' = Some x \<Longrightarrow> k' = k"
  shows "ran (m(k := None)) = ran m - {x}"
proof -
  have "(m(k := None)) k' = Some y \<longleftrightarrow> m k' = Some y \<and> y \<noteq> x" for k' y
    using assms(1) assms(2) [of k'] by (cases "k' = k") auto
  then show ?thesis unfolding ran_def by blast
qed

end
