(* ===== verification/Metrics.thy ===== *)
theory Metrics
  imports Go_Std "HOL-Library.Word" "HOL-Library.AList"
begin

text \<open>
  Model of \<^verbatim>\<open>pkg/util/metric\<close> and \<^verbatim>\<open>pkg/metrics/mem\<close>: counters, counters by day and the statistics
  the dashboard shows. Counts keep their width (\<open>32 word\<close> and \<open>64 word\<close>, so they wrap). An instant
  is a number of seconds; \<open>midnight\<close> gives the local midnight of the day of an instant, as
  \<^verbatim>\<open>time.Date\<close> computes it from the time zone, and is a parameter. The counters have a single
  owner each, so a pointer to one is modelled by its value. A Go map that the code iterates over is
  an association list.
\<close>

section \<open>Counters\<close>

record StandardCounter =
  count :: "32 word"

definition NewCounter :: StandardCounter where "NewCounter = \<lparr>count = 0\<rparr>"

definition Counter_Count :: "StandardCounter \<Rightarrow> int" where "Counter_Count c = sint (count c)"

definition Counter_Inc :: "32 word \<Rightarrow> StandardCounter \<Rightarrow> StandardCounter" where
  "Counter_Inc n c = c\<lparr>count := count c + n\<rparr>"

definition Counter_Dec :: "32 word \<Rightarrow> StandardCounter \<Rightarrow> StandardCounter" where
  "Counter_Dec n c = c\<lparr>count := count c + (- n)\<rparr>"

definition Counter_Snapshot :: "StandardCounter \<Rightarrow> StandardCounter" where
  "Counter_Snapshot c = \<lparr>count = count c\<rparr>"

definition Counter_Clear :: "StandardCounter \<Rightarrow> StandardCounter" where
  "Counter_Clear c = c\<lparr>count := 0\<rparr>"

section \<open>Counters by day\<close>

record StandardDateCounter =
  reserveDays :: nat
  counts :: "64 word list"
  lastUpdateDate :: int

definition newStandardDateCounter :: "(int \<Rightarrow> int) \<Rightarrow> int \<Rightarrow> nat \<Rightarrow> StandardDateCounter" where
  "newStandardDateCounter midnight now r =
     \<lparr>reserveDays = r, counts = replicate r 0, lastUpdateDate = midnight now\<rparr>"

definition NewDateCounter :: "(int \<Rightarrow> int) \<Rightarrow> int \<Rightarrow> int \<Rightarrow> StandardDateCounter" where
  "NewDateCounter midnight now r = newStandardDateCounter midnight now (nat (if r \<le> 0 then 1 else r))"

text \<open>The number of whole days is \<^verbatim>\<open>int(d.Hours() / 24)\<close>, which truncates.\<close>

definition rotate :: "(int \<Rightarrow> int) \<Rightarrow> int \<Rightarrow> StandardDateCounter \<Rightarrow> StandardDateCounter" where
  "rotate midnight now c =
     (let now' = midnight now;
          days = quot (now' - lastUpdateDate c) 86400
      in if days \<le> 0 then c\<lparr>lastUpdateDate := now'\<rparr>
         else if days \<ge> int (reserveDays c) then c\<lparr>counts := replicate (reserveDays c) 0, lastUpdateDate := now'\<rparr>
         else c\<lparr>counts := map (\<lambda>i. if int i < days then 0 else counts c ! (i - nat days)) [0..<reserveDays c],
                lastUpdateDate := now'\<rparr>)"

definition TodayCount :: "(int \<Rightarrow> int) \<Rightarrow> int \<Rightarrow> StandardDateCounter \<Rightarrow> 64 word \<times> StandardDateCounter" where
  "TodayCount midnight now c = (let c' = rotate midnight now c in (counts c' ! 0, c'))"

text \<open>\<open>None\<close> is the panic of \<^verbatim>\<open>make\<close> with a negative length.\<close>

definition GetLastDaysCount ::
  "(int \<Rightarrow> int) \<Rightarrow> int \<Rightarrow> int \<Rightarrow> StandardDateCounter \<Rightarrow> (64 word list \<times> StandardDateCounter) option" where
  "GetLastDaysCount midnight now lastdays c =
     (let n = (if lastdays > int (reserveDays c) then int (reserveDays c) else lastdays)
      in if n < 0 then None
         else (let c' = rotate midnight now c in Some (map (\<lambda>i. counts c' ! i) [0..<nat n], c')))"

definition DateCounter_Inc :: "(int \<Rightarrow> int) \<Rightarrow> int \<Rightarrow> 64 word \<Rightarrow> StandardDateCounter \<Rightarrow> StandardDateCounter" where
  "DateCounter_Inc midnight now n c =
     (let c' = rotate midnight now c in c'\<lparr>counts := (counts c')[0 := counts c' ! 0 + n]\<rparr>)"

definition DateCounter_Dec :: "(int \<Rightarrow> int) \<Rightarrow> int \<Rightarrow> 64 word \<Rightarrow> StandardDateCounter \<Rightarrow> StandardDateCounter" where
  "DateCounter_Dec midnight now n c =
     (let c' = rotate midnight now c in c'\<lparr>counts := (counts c')[0 := counts c' ! 0 - n]\<rparr>)"

definition DateCounter_Snapshot :: "(int \<Rightarrow> int) \<Rightarrow> int \<Rightarrow> StandardDateCounter \<Rightarrow> StandardDateCounter" where
  "DateCounter_Snapshot midnight now c =
     (newStandardDateCounter midnight now (reserveDays c))\<lparr>counts := map (\<lambda>i. counts c ! i) [0..<reserveDays c]\<rparr>"

definition DateCounter_Clear :: "StandardDateCounter \<Rightarrow> StandardDateCounter" where
  "DateCounter_Clear c = c\<lparr>counts := replicate (reserveDays c) 0\<rparr>"

section \<open>Server statistics\<close>

abbreviation ReserveDays :: int where "ReserveDays \<equiv> 7"

record ProxyStatistics =
  psName :: string
  psProxyType :: string
  psTrafficIn :: StandardDateCounter
  psTrafficOut :: StandardDateCounter
  psCurConns :: StandardCounter
  LastStartTime :: "int option"
  LastCloseTime :: "int option"

text \<open>\<open>None\<close> is the zero time, which is before every other one.\<close>

definition before :: "int option \<Rightarrow> int option \<Rightarrow> bool" where
  "before a b = (case b of None \<Rightarrow> False | Some tb \<Rightarrow> (case a of None \<Rightarrow> True | Some ta \<Rightarrow> ta < tb))"

record ServerStatistics =
  TotalTrafficIn :: StandardDateCounter
  TotalTrafficOut :: StandardDateCounter
  CurConns :: StandardCounter
  ClientCounts :: StandardCounter
  ProxyTypeCounts :: "(string \<times> StandardCounter) list"
  ProxyStatistics_map :: "(string \<times> ProxyStatistics) list"

definition newServerMetrics :: "(int \<Rightarrow> int) \<Rightarrow> int \<Rightarrow> ServerStatistics" where
  "newServerMetrics midnight now =
     \<lparr>TotalTrafficIn = NewDateCounter midnight now ReserveDays, TotalTrafficOut = NewDateCounter midnight now ReserveDays,
      CurConns = NewCounter, ClientCounts = NewCounter, ProxyTypeCounts = [], ProxyStatistics_map = []\<rparr>"

definition useless :: "int \<Rightarrow> ProxyStatistics \<Rightarrow> bool" where
  "useless now d \<longleftrightarrow> LastCloseTime d \<noteq> None \<and> before (LastStartTime d) (LastCloseTime d) \<and>
     now - the (LastCloseTime d) > 7 * 24 * 3600"

definition clearUselessInfo :: "int \<Rightarrow> ServerStatistics \<Rightarrow> (nat \<times> nat) \<times> ServerStatistics" where
  "clearUselessInfo now m =
     ((length (filter (\<lambda>kd. useless now (snd kd)) (ProxyStatistics_map m)), length (ProxyStatistics_map m)),
      m\<lparr>ProxyStatistics_map := filter (\<lambda>kd. \<not> useless now (snd kd)) (ProxyStatistics_map m)\<rparr>)"

definition NewClient :: "ServerStatistics \<Rightarrow> ServerStatistics" where
  "NewClient m = m\<lparr>ClientCounts := Counter_Inc 1 (ClientCounts m)\<rparr>"

definition mem_CloseClient :: "ServerStatistics \<Rightarrow> ServerStatistics" where
  "mem_CloseClient m = m\<lparr>ClientCounts := Counter_Dec 1 (ClientCounts m)\<rparr>"

definition mem_NewProxy :: "(int \<Rightarrow> int) \<Rightarrow> int \<Rightarrow> string \<Rightarrow> string \<Rightarrow> ServerStatistics \<Rightarrow> ServerStatistics" where
  "mem_NewProxy midnight now name proxyType m =
     (let counter = (case map_of (ProxyTypeCounts m) proxyType of Some c \<Rightarrow> c | None \<Rightarrow> NewCounter);
          fresh = \<lparr>psName = name, psProxyType = proxyType, psTrafficIn = NewDateCounter midnight now ReserveDays,
                   psTrafficOut = NewDateCounter midnight now ReserveDays, psCurConns = NewCounter,
                   LastStartTime = None, LastCloseTime = None\<rparr>;
          st = (case map_of (ProxyStatistics_map m) name of
                  Some s \<Rightarrow> if psProxyType s = proxyType then s else fresh
                | None \<Rightarrow> fresh)
      in m\<lparr>ProxyTypeCounts := AList.update proxyType (Counter_Inc 1 counter) (ProxyTypeCounts m),
           ProxyStatistics_map := AList.update name (st\<lparr>LastStartTime := Some now\<rparr>) (ProxyStatistics_map m)\<rparr>)"

definition upd_proxy :: "string \<Rightarrow> (ProxyStatistics \<Rightarrow> ProxyStatistics) \<Rightarrow> ServerStatistics \<Rightarrow> ServerStatistics" where
  "upd_proxy name f m =
     (case map_of (ProxyStatistics_map m) name of
        None \<Rightarrow> m
      | Some s \<Rightarrow> m\<lparr>ProxyStatistics_map := AList.update name (f s) (ProxyStatistics_map m)\<rparr>)"

definition mem_CloseProxy :: "int \<Rightarrow> string \<Rightarrow> string \<Rightarrow> ServerStatistics \<Rightarrow> ServerStatistics" where
  "mem_CloseProxy now name proxyType m =
     upd_proxy name (\<lambda>s. s\<lparr>LastCloseTime := Some now\<rparr>)
       (case map_of (ProxyTypeCounts m) proxyType of
          None \<Rightarrow> m
        | Some c \<Rightarrow> m\<lparr>ProxyTypeCounts := AList.update proxyType (Counter_Dec 1 c) (ProxyTypeCounts m)\<rparr>)"

definition OpenConnection :: "string \<Rightarrow> ServerStatistics \<Rightarrow> ServerStatistics" where
  "OpenConnection name m =
     upd_proxy name (\<lambda>s. s\<lparr>psCurConns := Counter_Inc 1 (psCurConns s)\<rparr>) (m\<lparr>CurConns := Counter_Inc 1 (CurConns m)\<rparr>)"

definition CloseConnection :: "string \<Rightarrow> ServerStatistics \<Rightarrow> ServerStatistics" where
  "CloseConnection name m =
     upd_proxy name (\<lambda>s. s\<lparr>psCurConns := Counter_Dec 1 (psCurConns s)\<rparr>) (m\<lparr>CurConns := Counter_Dec 1 (CurConns m)\<rparr>)"

definition AddTrafficIn :: "(int \<Rightarrow> int) \<Rightarrow> int \<Rightarrow> string \<Rightarrow> 64 word \<Rightarrow> ServerStatistics \<Rightarrow> ServerStatistics" where
  "AddTrafficIn midnight now name n m =
     upd_proxy name (\<lambda>s. s\<lparr>psTrafficIn := DateCounter_Inc midnight now n (psTrafficIn s)\<rparr>)
       (m\<lparr>TotalTrafficIn := DateCounter_Inc midnight now n (TotalTrafficIn m)\<rparr>)"

definition AddTrafficOut :: "(int \<Rightarrow> int) \<Rightarrow> int \<Rightarrow> string \<Rightarrow> 64 word \<Rightarrow> ServerStatistics \<Rightarrow> ServerStatistics" where
  "AddTrafficOut midnight now name n m =
     upd_proxy name (\<lambda>s. s\<lparr>psTrafficOut := DateCounter_Inc midnight now n (psTrafficOut s)\<rparr>)
       (m\<lparr>TotalTrafficOut := DateCounter_Inc midnight now n (TotalTrafficOut m)\<rparr>)"

section \<open>What the dashboard reads\<close>

record ServerStats =
  sTotalTrafficIn :: int
  sTotalTrafficOut :: int
  sCurConns :: int
  sClientCounts :: int
  sProxyTypeCounts :: "(string \<times> int) list"

definition GetServer :: "(int \<Rightarrow> int) \<Rightarrow> int \<Rightarrow> ServerStatistics \<Rightarrow> ServerStats \<times> ServerStatistics" where
  "GetServer midnight now m =
     (let (ti, cin) = TodayCount midnight now (TotalTrafficIn m);
          (to, cout) = TodayCount midnight now (TotalTrafficOut m)
      in (\<lparr>sTotalTrafficIn = sint ti, sTotalTrafficOut = sint to, sCurConns = Counter_Count (CurConns m),
           sClientCounts = Counter_Count (ClientCounts m),
           sProxyTypeCounts = map (\<lambda>(k, c). (k, Counter_Count c)) (ProxyTypeCounts m)\<rparr>,
          m\<lparr>TotalTrafficIn := cin, TotalTrafficOut := cout\<rparr>))"

record ProxyStats =
  pName :: string
  pType :: string
  pTodayTrafficIn :: int
  pTodayTrafficOut :: int
  pLastStartTime :: string
  pLastCloseTime :: string
  pCurConns :: int

text \<open>One row; \<open>fmt\<close> is \<^verbatim>\<open>time.Time.Format\<close> with the layout of the code. Reading rotates the counters.\<close>

definition proxy_row :: "(int \<Rightarrow> string) \<Rightarrow> (int \<Rightarrow> int) \<Rightarrow> int \<Rightarrow> string \<Rightarrow> ProxyStatistics \<Rightarrow> ProxyStats \<times> ProxyStatistics" where
  "proxy_row fmt midnight now name s =
     (let (ti, cin) = TodayCount midnight now (psTrafficIn s);
          (to, cout) = TodayCount midnight now (psTrafficOut s);
          show = (\<lambda>t. case t of None \<Rightarrow> [] | Some x \<Rightarrow> fmt x)
      in (\<lparr>pName = name, pType = psProxyType s, pTodayTrafficIn = sint ti, pTodayTrafficOut = sint to,
           pLastStartTime = show (LastStartTime s), pLastCloseTime = show (LastCloseTime s),
           pCurConns = Counter_Count (psCurConns s)\<rparr>,
          s\<lparr>psTrafficIn := cin, psTrafficOut := cout\<rparr>))"

fun rows_by_type :: "(int \<Rightarrow> string) \<Rightarrow> (int \<Rightarrow> int) \<Rightarrow> int \<Rightarrow> string \<Rightarrow> (string \<times> ProxyStatistics) list \<Rightarrow>
   ProxyStats list \<times> (string \<times> ProxyStatistics) list" where
  "rows_by_type fmt midnight now ty [] = ([], [])"
| "rows_by_type fmt midnight now ty ((name, s) # rest) =
     (case rows_by_type fmt midnight now ty rest of (rows, rest') \<Rightarrow>
        if psProxyType s \<noteq> ty then (rows, (name, s) # rest')
        else (case proxy_row fmt midnight now name s of (row, s') \<Rightarrow> (row # rows, (name, s') # rest')))"

definition GetProxiesByType ::
  "(int \<Rightarrow> string) \<Rightarrow> (int \<Rightarrow> int) \<Rightarrow> int \<Rightarrow> string \<Rightarrow> ServerStatistics \<Rightarrow> ProxyStats list \<times> ServerStatistics" where
  "GetProxiesByType fmt midnight now ty m =
     (case rows_by_type fmt midnight now ty (ProxyStatistics_map m) of (rows, ps) \<Rightarrow> (rows, m\<lparr>ProxyStatistics_map := ps\<rparr>))"

definition GetProxiesByTypeAndName ::
  "(int \<Rightarrow> string) \<Rightarrow> (int \<Rightarrow> int) \<Rightarrow> int \<Rightarrow> string \<Rightarrow> string \<Rightarrow> ServerStatistics \<Rightarrow> ProxyStats option \<times> ServerStatistics" where
  "GetProxiesByTypeAndName fmt midnight now ty proxyName m =
     (case List.find (\<lambda>(name, s). psProxyType s = ty \<and> name = proxyName) (ProxyStatistics_map m) of
        None \<Rightarrow> (None, m)
      | Some (name, s) \<Rightarrow>
          (case proxy_row fmt midnight now name s of
             (row, s') \<Rightarrow> (Some row, m\<lparr>ProxyStatistics_map := AList.update name s' (ProxyStatistics_map m)\<rparr>)))"

record ProxyTrafficInfo =
  tiName :: string
  tiTrafficIn :: "int list"
  tiTrafficOut :: "int list"

definition GetProxyTraffic :: "(int \<Rightarrow> int) \<Rightarrow> int \<Rightarrow> string \<Rightarrow> ServerStatistics \<Rightarrow> ProxyTrafficInfo option \<times> ServerStatistics" where
  "GetProxyTraffic midnight now name m =
     (case map_of (ProxyStatistics_map m) name of
        None \<Rightarrow> (None, m)
      | Some s \<Rightarrow>
          (case (GetLastDaysCount midnight now ReserveDays (psTrafficIn s), GetLastDaysCount midnight now ReserveDays (psTrafficOut s)) of
             (Some (is, cin), Some (os, cout)) \<Rightarrow>
               (Some \<lparr>tiName = name, tiTrafficIn = map sint is, tiTrafficOut = map sint os\<rparr>,
                m\<lparr>ProxyStatistics_map := AList.update name (s\<lparr>psTrafficIn := cin, psTrafficOut := cout\<rparr>) (ProxyStatistics_map m)\<rparr>)
           | _ \<Rightarrow> (None, m)))"

section \<open>Counting by calendar day\<close>

text \<open>The traffic logged on a day.\<close>

definition day_sum :: "(int \<Rightarrow> int) \<Rightarrow> (int \<times> 64 word) list \<Rightarrow> int \<Rightarrow> 64 word" where
  "day_sum day evs d = sum_list (map snd (filter (\<lambda>e. day (fst e) = d) evs))"

lemma day_sum_simps [simp]:
  "day_sum day [] d = 0"
  "day_sum day (evs @ [(t, x)]) d = day_sum day evs d + (if day t = d then x else 0)"
  by (simp_all add: day_sum_def)

text \<open>
  A clock whose days all have 24 hours, as in a time zone without daylight saving. Over such a
  clock a day counter refines the log of all increments: entry \<open>i\<close> is the sum of day \<open>today - i\<close>.
\<close>

locale regular_clock =
  fixes midnight :: "int \<Rightarrow> int" and day :: "int \<Rightarrow> int" and off :: int
  assumes midnight_day: "midnight t = off + 86400 * day t"
    and day_mono: "t \<le> t' \<Longrightarrow> day t \<le> day t'"
begin

definition counts_log :: "(int \<times> 64 word) list \<Rightarrow> int \<Rightarrow> StandardDateCounter \<Rightarrow> bool" where
  "counts_log evs now c \<longleftrightarrow> length (counts c) = reserveDays c \<and> 0 < reserveDays c \<and>
     lastUpdateDate c = midnight now \<and> (\<forall>e \<in> set evs. fst e \<le> now) \<and>
     (\<forall>i < reserveDays c. counts c ! i = day_sum day evs (day now - int i))"

lemma day_sum_future:
  assumes "\<forall>e \<in> set evs. fst e \<le> now" "day now < d"
  shows "day_sum day evs d = 0"
proof -
  have "day (fst e) \<noteq> d" if "e \<in> set evs" for e
    using assms that day_mono [of "fst e" now] by force
  then have "filter (\<lambda>e. day (fst e) = d) evs = []" by (simp add: filter_empty_conv)
  then show ?thesis by (simp add: day_sum_def)
qed

lemma counts_log_rotate:
  assumes "counts_log evs now c" "now \<le> now'"
  shows "counts_log evs now' (rotate midnight now' c)"
proof -
  have c: "length (counts c) = reserveDays c" "0 < reserveDays c" "\<forall>e \<in> set evs. fst e \<le> now"
    "\<forall>i < reserveDays c. counts c ! i = day_sum day evs (day now - int i)"
    and last: "lastUpdateDate c = midnight now"
    using assms(1) by (auto simp: counts_log_def)
  have later: "\<forall>e \<in> set evs. fst e \<le> now'" using c(3) assms(2) by auto
  have le: "day now \<le> day now'" using day_mono assms(2) .
  have "midnight now' - lastUpdateDate c = 86400 * (day now' - day now)"
    by (simp add: last midnight_day algebra_simps)
  with le have days: "quot (midnight now' - lastUpdateDate c) 86400 = day now' - day now"
    by (simp add: quot_nonneg)
  have entry: "day_sum day evs (day now' - int i) =
      (if int i < day now' - day now then 0 else counts c ! (i - nat (day now' - day now)))"
    if "i < reserveDays c" for i
  proof (cases "int i < day now' - day now")
    case True
    then show ?thesis using day_sum_future [OF c(3)] by simp
  next
    case False
    then have "i - nat (day now' - day now) < reserveDays c" "int (i - nat (day now' - day now)) = int i - (day now' - day now)"
      using that le by auto
    then have "counts c ! (i - nat (day now' - day now)) = day_sum day evs (day now - (int i - (day now' - day now)))"
      using c(4) by metis
    also have "day now - (int i - (day now' - day now)) = day now' - int i" by simp
    finally show ?thesis using False by simp
  qed
  consider "day now' - day now \<le> 0" | "day now' - day now > 0" "day now' - day now \<ge> int (reserveDays c)"
    | "day now' - day now > 0" "day now' - day now < int (reserveDays c)" by linarith
  then show ?thesis
    by cases (use c(1,2) later entry le days in \<open>auto simp: counts_log_def rotate_def Let_def\<close>)
qed

lemma counts_log_new: "0 < r \<Longrightarrow> counts_log [] now (newStandardDateCounter midnight now r)"
  by (simp add: counts_log_def newStandardDateCounter_def)

lemma counts_log_Inc:
  assumes "counts_log evs now c" "now \<le> t"
  shows "counts_log (evs @ [(t, x)]) t (DateCounter_Inc midnight t x c)"
  using counts_log_rotate [OF assms]
  by (auto simp: counts_log_def DateCounter_Inc_def Let_def nth_list_update)

lemma counts_log_read:
  assumes "counts_log evs now c" "now \<le> t" "0 \<le> n"
  shows "map_option fst (GetLastDaysCount midnight t n c) =
    Some (map (\<lambda>i. day_sum day evs (day t - int i)) [0..<min (nat n) (reserveDays c)])"
proof -
  have "reserveDays (rotate midnight t c) = reserveDays c" by (simp add: rotate_def Let_def)
  then show ?thesis using counts_log_rotate [OF assms(1,2)] assms(3)
    by (auto simp: counts_log_def GetLastDaysCount_def Let_def min_def)
qed

end

fun log_incs :: "(int \<Rightarrow> int) \<Rightarrow> (int \<times> 64 word) list \<Rightarrow> StandardDateCounter \<Rightarrow> StandardDateCounter" where
  "log_incs midnight [] c = c"
| "log_incs midnight ((t, x) # evs) c = log_incs midnight evs (DateCounter_Inc midnight t x c)"

fun chronological :: "int \<Rightarrow> (int \<times> 64 word) list \<Rightarrow> bool" where
  "chronological t [] = True"
| "chronological t ((u, x) # evs) = (t \<le> u \<and> chronological u evs)"

context regular_clock
begin

lemma counts_log_incs:
  "counts_log evs0 now c \<Longrightarrow> chronological now evs \<Longrightarrow>
     counts_log (evs0 @ evs) (last (now # map fst evs)) (log_incs midnight evs c) \<and>
     reserveDays (log_incs midnight evs c) = reserveDays c"
proof (induction evs arbitrary: evs0 now c)
  case Nil
  then show ?case by simp
next
  case (Cons e evs)
  obtain t x where e: "e = (t, x)" by fastforce
  with Cons.prems have "now \<le> t" "chronological t evs" by auto
  then have "counts_log (evs0 @ [(t, x)]) t (DateCounter_Inc midnight t x c)"
    using counts_log_Inc Cons.prems(1) by simp
  from Cons.IH [OF this \<open>chronological t evs\<close>] e show ?case
    by (simp add: DateCounter_Inc_def rotate_def Let_def)
qed

end

text \<open>C35: with days of 24 hours, a day counter that has received any increments in chronological
  order reports for each of the last days exactly the sum of the increments made on that day, modulo
  \<open>2 ^ 64\<close>, for as many days as it reserves.\<close>

theorem date_counter_refines_log:
  assumes "regular_clock midnight day off" "0 < r" "chronological t0 evs" "last (t0 # map fst evs) \<le> t" "0 \<le> n"
  shows "map_option fst (GetLastDaysCount midnight t n (log_incs midnight evs (NewDateCounter midnight t0 r))) =
    Some (map (\<lambda>i. day_sum day evs (day t - int i)) [0..<min (nat n) (nat r)])"
proof -
  let ?c = "NewDateCounter midnight t0 r"
  have c: "regular_clock.counts_log midnight day [] t0 ?c" "reserveDays ?c = nat r"
    using regular_clock.counts_log_new [OF assms(1), of "nat r" t0] assms(2)
    by (simp_all add: NewDateCounter_def newStandardDateCounter_def)
  note run = regular_clock.counts_log_incs [OF assms(1) c(1) assms(3), simplified append_Nil c(2)]
  from regular_clock.counts_log_read [OF assms(1) conjunct1 [OF run] assms(4,5)] run show ?thesis by simp
qed

text \<open>UTC: every day has 24 hours.\<close>

interpretation utc: regular_clock "\<lambda>t. 86400 * (t div 86400)" "\<lambda>t. t div 86400" 0
  by unfold_locales (simp_all add: zdiv_mono1)

theorem date_counter_refines_log_witness:
  "map_option fst (GetLastDaysCount (\<lambda>t. 86400 * (t div 86400)) 90000 2
      (log_incs (\<lambda>t. 86400 * (t div 86400)) [(10, 5), (20, 6), (86500, 7)]
        (NewDateCounter (\<lambda>t. 86400 * (t div 86400)) 0 7))) = Some [7, 11]"
  using date_counter_refines_log [OF utc.regular_clock_axioms, of 7 0 "[(10, 5), (20, 6), (86500, 7)]" 90000 2]
  by (simp add: day_sum_def upt_rec)

text \<open>When less than 24 hours lie between two midnights, as on the day the clocks are set
  forward, the rotation counts no day: the new day starts with everything counted on the day before,
  and the date is advanced so that the lost rotation is never made up for.\<close>

lemma short_day_is_not_rotated:
  assumes "lastUpdateDate c < midnight now" "midnight now < lastUpdateDate c + 86400"
  shows "TodayCount midnight now c = (counts c ! 0, c\<lparr>lastUpdateDate := midnight now\<rparr>)"
proof -
  have "quot (midnight now - lastUpdateDate c) 86400 = 0" using assms by (simp add: quot_nonneg)
  then show ?thesis by (simp add: TodayCount_def rotate_def Let_def)
qed

text \<open>When a proxy is registered again under its name with another type while a connection of
  the old one is open, closing that connection makes the connection count of the proxy negative.\<close>

lemma proxy_conns_negative:
  "map_option (\<lambda>s. Counter_Count (psCurConns s)) (map_of (ProxyStatistics_map
     (CloseConnection ''web'' (mem_NewProxy id 3 ''web'' ''http'' (mem_CloseProxy 2 ''web'' ''tcp''
       (OpenConnection ''web'' (mem_NewProxy id 1 ''web'' ''tcp'' (newServerMetrics id 0))))))) ''web'') = Some (- 1)"
  by (simp add: CloseConnection_def mem_NewProxy_def mem_CloseProxy_def OpenConnection_def newServerMetrics_def
      upd_proxy_def Counter_Inc_def Counter_Dec_def Counter_Count_def NewCounter_def Let_def)

end
