(* ===== verification/Plugin_Manager.thy ===== *)
theory Plugin_Manager
  imports Go_Std
begin

text \<open>
  Model of \<^verbatim>\<open>pkg/plugin/server\<close>: the server's plugins, external HTTP services that may veto or rewrite
  logins, proxies, pings, work connections and user connections. A plugin's answer is a parameter
  (field \<open>plHandle\<close>): it comes from another process. The messages inside the contents are a type
  parameter. The returned content is \<open>None\<close> when the answer holds a null content; the type
  assertion on it then panics, as it does on a content of another kind.
\<close>

section \<open>Contents, plugins, managers\<close>

record UserInfo =
  uiUser :: string
  uiMetas :: "(string \<times> string) list"
  uiRunID :: string

datatype 'm plugin_content =
    LoginContent 'm string
  | NewProxyContent UserInfo 'm
  | CloseProxyContent UserInfo 'm
  | PingContent UserInfo 'm
  | NewWorkConnContent UserInfo 'm
  | NewUserConnContent UserInfo string string string

datatype plugin_op = OpLogin | OpNewProxy | OpCloseProxy | OpPing | OpNewWorkConn | OpNewUserConn

fun content_op :: "'m plugin_content \<Rightarrow> plugin_op" where
  "content_op (LoginContent _ _) = OpLogin"
| "content_op (NewProxyContent _ _) = OpNewProxy"
| "content_op (CloseProxyContent _ _) = OpCloseProxy"
| "content_op (PingContent _ _) = OpPing"
| "content_op (NewWorkConnContent _ _) = OpNewWorkConn"
| "content_op (NewUserConnContent _ _ _ _) = OpNewUserConn"

record Response =
  Reject :: bool
  RejectReason :: string
  Unchange :: bool

record 'm Plugin =
  plName :: string
  plOps :: "plugin_op list"
  plHandle :: "plugin_op \<Rightarrow> 'm plugin_content \<Rightarrow> (string, Response \<times> 'm plugin_content option) result"

fun IsSupport_ops :: "plugin_op list \<Rightarrow> plugin_op \<Rightarrow> bool" where
  "IsSupport_ops [] op = False"
| "IsSupport_ops (v # vs) op = (if v = op then True else IsSupport_ops vs op)"

abbreviation IsSupport :: "'m Plugin \<Rightarrow> plugin_op \<Rightarrow> bool" where
  "IsSupport p \<equiv> IsSupport_ops (plOps p)"

record 'm PluginManager =
  loginPlugins :: "'m Plugin list"
  newProxyPlugins :: "'m Plugin list"
  closeProxyPlugins :: "'m Plugin list"
  pingPlugins :: "'m Plugin list"
  newWorkConnPlugins :: "'m Plugin list"
  newUserConnPlugins :: "'m Plugin list"

definition NewPluginManager :: "'m PluginManager" where
  "NewPluginManager = \<lparr>loginPlugins = [], newProxyPlugins = [], closeProxyPlugins = [], pingPlugins = [],
     newWorkConnPlugins = [], newUserConnPlugins = []\<rparr>"

definition PluginManager_Register :: "'m Plugin \<Rightarrow> 'm PluginManager \<Rightarrow> 'm PluginManager" where
  "PluginManager_Register p m =
     (let m1 = (if IsSupport p OpLogin then m\<lparr>loginPlugins := loginPlugins m @ [p]\<rparr> else m);
          m2 = (if IsSupport p OpNewProxy then m1\<lparr>newProxyPlugins := newProxyPlugins m1 @ [p]\<rparr> else m1);
          m3 = (if IsSupport p OpCloseProxy then m2\<lparr>closeProxyPlugins := closeProxyPlugins m2 @ [p]\<rparr> else m2);
          m4 = (if IsSupport p OpPing then m3\<lparr>pingPlugins := pingPlugins m3 @ [p]\<rparr> else m3);
          m5 = (if IsSupport p OpNewWorkConn then m4\<lparr>newWorkConnPlugins := newWorkConnPlugins m4 @ [p]\<rparr> else m4)
      in if IsSupport p OpNewUserConn then m5\<lparr>newUserConnPlugins := newUserConnPlugins m5 @ [p]\<rparr> else m5)"

section \<open>Consulting the plugins\<close>

datatype 'm plugin_result = PluginOk "'m plugin_content" | PluginErr string | PluginPanic

definition send_error :: "string \<Rightarrow> string" where
  "send_error what = ''send '' @ what @ '' request to plugin error''"

text \<open>The loop that the five vetoing methods share.\<close>

fun consult :: "string \<Rightarrow> plugin_op \<Rightarrow> 'm Plugin list \<Rightarrow> 'm plugin_content \<Rightarrow> 'm plugin_result" where
  "consult what op [] content = PluginOk content"
| "consult what op (p # ps) content =
     (case plHandle p op content of
        Inl _ \<Rightarrow> PluginErr (send_error what)
      | Inr (res, retContent) \<Rightarrow>
          if Reject res then PluginErr (RejectReason res)
          else if Unchange res then consult what op ps content
          else (case retContent of
                  None \<Rightarrow> PluginPanic
                | Some c \<Rightarrow> if content_op c = op then consult what op ps c else PluginPanic))"

definition PluginManager_Login :: "'m PluginManager \<Rightarrow> 'm plugin_content \<Rightarrow> 'm plugin_result" where
  "PluginManager_Login m content =
     (if length (loginPlugins m) = 0 then PluginOk content else consult ''Login'' OpLogin (loginPlugins m) content)"

definition PluginManager_NewProxy :: "'m PluginManager \<Rightarrow> 'm plugin_content \<Rightarrow> 'm plugin_result" where
  "PluginManager_NewProxy m content =
     (if length (newProxyPlugins m) = 0 then PluginOk content
      else consult ''NewProxy'' OpNewProxy (newProxyPlugins m) content)"

text \<open>Closing is only announced: every plugin is told, and the errors are collected.\<close>

definition PluginManager_CloseProxy :: "'m PluginManager \<Rightarrow> 'm plugin_content \<Rightarrow> string option" where
  "PluginManager_CloseProxy m content =
     (let errs = concat (map (\<lambda>p. case plHandle p OpCloseProxy content of
                                Inl e \<Rightarrow> [''['' @ plName p @ '']: '' @ e] | Inr _ \<Rightarrow> []) (closeProxyPlugins m))
      in if length errs > 0 then Some (''send CloseProxy request to plugin errors: '' @ Join errs ''; '') else None)"

definition PluginManager_Ping :: "'m PluginManager \<Rightarrow> 'm plugin_content \<Rightarrow> 'm plugin_result" where
  "PluginManager_Ping m content =
     (if length (pingPlugins m) = 0 then PluginOk content else consult ''Ping'' OpPing (pingPlugins m) content)"

definition PluginManager_NewWorkConn :: "'m PluginManager \<Rightarrow> 'm plugin_content \<Rightarrow> 'm plugin_result" where
  "PluginManager_NewWorkConn m content =
     (if length (newWorkConnPlugins m) = 0 then PluginOk content
      else consult ''NewWorkConn'' OpNewWorkConn (newWorkConnPlugins m) content)"

definition PluginManager_NewUserConn :: "'m PluginManager \<Rightarrow> 'm plugin_content \<Rightarrow> 'm plugin_result" where
  "PluginManager_NewUserConn m content =
     (if length (newUserConnPlugins m) = 0 then PluginOk content
      else consult ''NewUserConn'' OpNewUserConn (newUserConnPlugins m) content)"

section \<open>Specification: a chain of vetoes\<close>

text \<open>A plugin passes a content on, possibly rewritten.\<close>

definition passes :: "plugin_op \<Rightarrow> 'm Plugin \<Rightarrow> 'm plugin_content \<Rightarrow> 'm plugin_content \<Rightarrow> bool" where
  "passes op p c c' \<longleftrightarrow> (\<exists>res rc. plHandle p op c = Inr (res, rc) \<and> \<not> Reject res \<and>
     (if Unchange res then c' = c else rc = Some c' \<and> content_op c' = op))"

definition refuses :: "string \<Rightarrow> plugin_op \<Rightarrow> 'm Plugin \<Rightarrow> 'm plugin_content \<Rightarrow> string \<Rightarrow> bool" where
  "refuses what op p c e \<longleftrightarrow> (\<exists>x. plHandle p op c = Inl x \<and> e = send_error what) \<or>
     (\<exists>res rc. plHandle p op c = Inr (res, rc) \<and> Reject res \<and> e = RejectReason res)"

inductive pass_chain :: "plugin_op \<Rightarrow> 'm Plugin list \<Rightarrow> 'm plugin_content \<Rightarrow> 'm plugin_content \<Rightarrow> bool" for op where
  pass_nil: "pass_chain op [] c c"
| pass_cons: "passes op p c c1 \<Longrightarrow> pass_chain op ps c1 c2 \<Longrightarrow> pass_chain op (p # ps) c c2"

inductive_cases pass_chain_NilE: "pass_chain op [] c c'"
inductive_cases pass_chain_ConsE: "pass_chain op (p # ps) c c'"

lemma consult_Ok_iff: "consult what op ps c = PluginOk c' \<longleftrightarrow> pass_chain op ps c c'"
proof (induction ps arbitrary: c)
  case Nil
  then show ?case by (auto intro: pass_nil elim: pass_chain_NilE)
next
  case (Cons p ps)
  have "pass_chain op (p # ps) c c' \<longleftrightarrow> (\<exists>c1. passes op p c c1 \<and> pass_chain op ps c1 c')"
    by (blast intro: pass_cons elim: pass_chain_ConsE)
  also have "\<dots> \<longleftrightarrow> consult what op (p # ps) c = PluginOk c'"
    unfolding Cons.IH [symmetric] by (auto simp: passes_def split: sum.split option.split)
  finally show ?case by simp
qed

lemma consult_Err_iff:
  "consult what op ps c = PluginErr e \<longleftrightarrow>
     (\<exists>ps1 p ps2 c1. ps = ps1 @ p # ps2 \<and> pass_chain op ps1 c c1 \<and> refuses what op p c1 e)"
proof (induction ps arbitrary: c)
  case Nil
  then show ?case by simp
next
  case (Cons p ps)
  have "(\<exists>qs q rs c1. p # ps = qs @ q # rs \<and> pass_chain op qs c c1 \<and> refuses what op q c1 e) \<longleftrightarrow>
      refuses what op p c e \<or> (\<exists>c1. passes op p c c1 \<and> consult what op ps c1 = PluginErr e)"
    (is "?L \<longleftrightarrow> ?R")
  proof
    assume ?L
    then obtain qs q rs c1 where q: "p # ps = qs @ q # rs" "pass_chain op qs c c1" "refuses what op q c1 e" by blast
    show ?R
    proof (cases qs)
      case Nil
      with q show ?thesis by (auto elim: pass_chain_NilE)
    next
      case (Cons p' qs')
      with q obtain c2 where "passes op p c c2" "pass_chain op qs' c2 c1" by (auto elim: pass_chain_ConsE)
      with q Cons show ?thesis unfolding Cons.IH by auto
    qed
  next
    assume ?R
    then show ?L
    proof
      assume "refuses what op p c e"
      then show ?L using pass_nil by blast
    next
      assume "\<exists>c1. passes op p c c1 \<and> consult what op ps c1 = PluginErr e"
      then obtain c1 qs q rs c2 where "passes op p c c1" "ps = qs @ q # rs" "pass_chain op qs c1 c2" "refuses what op q c2 e"
        unfolding Cons.IH by blast
      then show ?L using pass_cons by (metis append_Cons)
    qed
  qed
  also have "\<dots> \<longleftrightarrow> consult what op (p # ps) c = PluginErr e"
    by (auto simp: passes_def refuses_def split: sum.split option.split)
  finally show ?case by simp
qed

definition manager_of :: "'m Plugin list \<Rightarrow> 'm PluginManager" where
  "manager_of ps = fold PluginManager_Register ps NewPluginManager"

lemma manager_of_lists:
  "loginPlugins (manager_of ps) = filter (\<lambda>p. IsSupport p OpLogin) ps"
  "newProxyPlugins (manager_of ps) = filter (\<lambda>p. IsSupport p OpNewProxy) ps"
  "closeProxyPlugins (manager_of ps) = filter (\<lambda>p. IsSupport p OpCloseProxy) ps"
  "pingPlugins (manager_of ps) = filter (\<lambda>p. IsSupport p OpPing) ps"
  "newWorkConnPlugins (manager_of ps) = filter (\<lambda>p. IsSupport p OpNewWorkConn) ps"
  "newUserConnPlugins (manager_of ps) = filter (\<lambda>p. IsSupport p OpNewUserConn) ps"
  by (induction ps rule: rev_induct)
    (simp_all add: manager_of_def NewPluginManager_def PluginManager_Register_def Let_def)

lemma consult_nonempty: "(if length ps = 0 then PluginOk c else consult what op ps c) = consult what op ps c"
  by (cases ps) auto

lemma manager_consults:
  "PluginManager_Login (manager_of ps) = consult ''Login'' OpLogin (filter (\<lambda>p. IsSupport p OpLogin) ps)"
  "PluginManager_NewProxy (manager_of ps) = consult ''NewProxy'' OpNewProxy (filter (\<lambda>p. IsSupport p OpNewProxy) ps)"
  "PluginManager_Ping (manager_of ps) = consult ''Ping'' OpPing (filter (\<lambda>p. IsSupport p OpPing) ps)"
  "PluginManager_NewWorkConn (manager_of ps) =
     consult ''NewWorkConn'' OpNewWorkConn (filter (\<lambda>p. IsSupport p OpNewWorkConn) ps)"
  "PluginManager_NewUserConn (manager_of ps) =
     consult ''NewUserConn'' OpNewUserConn (filter (\<lambda>p. IsSupport p OpNewUserConn) ps)"
  unfolding PluginManager_Login_def PluginManager_NewProxy_def PluginManager_Ping_def
    PluginManager_NewWorkConn_def PluginManager_NewUserConn_def consult_nonempty manager_of_lists by simp_all

text \<open>C32: a login, a proxy, a ping, a work connection and a user connection are accepted with a content
  exactly when every plugin registered for that operation passes it on in turn, in the order of
  registration and each seeing what the one before it returned; it is refused exactly when some
  plugin refuses after all earlier ones passed, with that plugin's reason. Plugins that do not
  support the operation are never consulted.\<close>

theorem plugin_chain:
  "\<forall>(call, what, op) \<in> set [(PluginManager_Login, ''Login'', OpLogin), (PluginManager_NewProxy, ''NewProxy'', OpNewProxy),
      (PluginManager_Ping, ''Ping'', OpPing), (PluginManager_NewWorkConn, ''NewWorkConn'', OpNewWorkConn),
      (PluginManager_NewUserConn, ''NewUserConn'', OpNewUserConn)].
     (call (manager_of ps) c = PluginOk c' \<longleftrightarrow> pass_chain op (filter (\<lambda>p. IsSupport p op) ps) c c') \<and>
     (call (manager_of ps) c = PluginErr e \<longleftrightarrow>
        (\<exists>ps1 p ps2 c1. filter (\<lambda>p. IsSupport p op) ps = ps1 @ p # ps2 \<and> pass_chain op ps1 c c1 \<and> refuses what op p c1 e))"
  by (simp add: manager_consults consult_Ok_iff consult_Err_iff)

definition veto :: "unit Plugin" where
  "veto = \<lparr>plName = ''veto'', plOps = [OpLogin],
     plHandle = (\<lambda>_ _. Inr (\<lparr>Reject = True, RejectReason = ''no'', Unchange = True\<rparr>, None))\<rparr>"

theorem plugin_chain_witness:
  "PluginManager_Login (manager_of [veto]) (LoginContent () ''1.2.3.4'') = PluginErr ''no''"
proof -
  have "filter (\<lambda>p. IsSupport p OpLogin) [veto] = [] @ veto # []" by (simp add: veto_def)
  moreover have "refuses ''Login'' OpLogin veto (LoginContent () ''1.2.3.4'') ''no''"
    by (simp add: refuses_def veto_def)
  moreover have "PluginManager_Login (manager_of [veto]) (LoginContent () ''1.2.3.4'') = PluginErr ''no'' \<longleftrightarrow>
      (\<exists>ps1 p ps2 c1. filter (\<lambda>p. IsSupport p OpLogin) [veto] = ps1 @ p # ps2 \<and>
         pass_chain OpLogin ps1 (LoginContent () ''1.2.3.4'') c1 \<and> refuses ''Login'' OpLogin p c1 ''no'')"
    using plugin_chain [of "[veto]" "LoginContent () ''1.2.3.4''" undefined "''no''"]
    by (simp only: list.set ball_simps split_beta fst_conv snd_conv HOL.simp_thms)
  ultimately show ?thesis using pass_nil by blast
qed

end
