(* ===== verification/Vhost_Router.thy ===== *)
theory Vhost_Router
  imports Go_Std
begin

text \<open>
  Model of \<^verbatim>\<open>pkg/util/vhost/router.go\<close>: the routing table of the virtual host layer, a two
  level map from domain and HTTP user to the routes of that pair, kept in descending order of
  location so that the first location that is a prefix of the request path is the longest
  one. Its contract is the locale \<open>route_table\<close> (an abstract map from domain, location and
  user to payload), interpreted on the model at the end.
\<close>

section \<open>State and operations\<close>

datatype router_error = ErrRouterConfigConflict

record 'p Router =
  domain :: string
  location :: string
  httpUser :: string
  payload :: 'p

type_synonym 'p routerByHTTPUser = "'p Router list smap"

record 'p Routers =
  indexByDomain :: "'p routerByHTTPUser smap"

definition NewRouters :: "'p Routers" where
  "NewRouters = \<lparr>indexByDomain = Map.empty\<rparr>"

definition Routers_exist :: "'p Routers \<Rightarrow> string \<Rightarrow> string \<Rightarrow> string \<Rightarrow> 'p Router option" where
  "Routers_exist r host path user =
     (case indexByDomain r host of
        None \<Rightarrow> None
      | Some byUser \<Rightarrow>
          (case byUser user of
             None \<Rightarrow> None
           | Some routers \<Rightarrow> List.find (\<lambda>route. path = location route) routers))"

text \<open>
  \<^verbatim>\<open>sort.Sort(sort.Reverse(ByLocation(vrs)))\<close>. The sort is not stable, but no two entries have
  the same location, so the descending arrangement is unique (\<open>desc_arrangement_unique\<close>).
\<close>

definition sort_reverse_ByLocation :: "'p Router list \<Rightarrow> 'p Router list" where
  "sort_reverse_ByLocation vrs = rev (sort_key location vrs)"

definition Routers_Add ::
  "'p Routers \<Rightarrow> string \<Rightarrow> string \<Rightarrow> string \<Rightarrow> 'p \<Rightarrow> (router_error, 'p Routers) result" where
  "Routers_Add r dm loc user pl =
     (if Routers_exist r dm loc user \<noteq> None then Inl ErrRouterConfigConflict
      else
        (let byUser = (case indexByDomain r dm of None \<Rightarrow> Map.empty | Some m \<Rightarrow> m);
             vrs = (case byUser user of None \<Rightarrow> [] | Some l \<Rightarrow> l);
             vr = \<lparr>domain = dm, location = loc, httpUser = user, payload = pl\<rparr>;
             vrs' = sort_reverse_ByLocation (vrs @ [vr])
         in Inr (r\<lparr>indexByDomain := (indexByDomain r)(dm \<mapsto> byUser(user \<mapsto> vrs'))\<rparr>)))"

definition Routers_Del :: "'p Routers \<Rightarrow> string \<Rightarrow> string \<Rightarrow> string \<Rightarrow> 'p Routers" where
  "Routers_Del r dm loc user =
     (case indexByDomain r dm of
        None \<Rightarrow> r
      | Some byUser \<Rightarrow>
          (case byUser user of
             None \<Rightarrow> r
           | Some vrs \<Rightarrow>
               r\<lparr>indexByDomain := (indexByDomain r)(dm \<mapsto>
                   byUser(user \<mapsto> filter (\<lambda>vr. location vr \<noteq> loc) vrs))\<rparr>))"

definition Routers_Get :: "'p Routers \<Rightarrow> string \<Rightarrow> string \<Rightarrow> string \<Rightarrow> 'p Router option" where
  "Routers_Get r host path user =
     (case indexByDomain r host of
        None \<Rightarrow> None
      | Some byUser \<Rightarrow>
          (case byUser user of
             None \<Rightarrow> None
           | Some vrs \<Rightarrow> List.find (\<lambda>vr. HasPrefix path (location vr)) vrs))"

section \<open>Invariant\<close>

text \<open>The list of a domain and user, empty when there is no entry.\<close>

definition routes_of :: "'p Routers \<Rightarrow> string \<Rightarrow> string \<Rightarrow> 'p Router list" where
  "routes_of r dm user =
     (case indexByDomain r dm of None \<Rightarrow> []
      | Some byUser \<Rightarrow> (case byUser user of None \<Rightarrow> [] | Some vrs \<Rightarrow> vrs))"

abbreviation desc_locations :: "'p Router list \<Rightarrow> bool" where
  "desc_locations vrs \<equiv> sorted_wrt (\<lambda>a b. location b < location a) vrs"

definition routers_inv :: "'p Routers \<Rightarrow> bool" where
  "routers_inv r \<longleftrightarrow>
     (\<forall>dm user. desc_locations (routes_of r dm user) \<and>
        (\<forall>vr \<in> set (routes_of r dm user). domain vr = dm \<and> httpUser vr = user))"

lemma routers_invD:
  assumes "routers_inv r"
  shows "desc_locations (routes_of r dm user)"
    "vr \<in> set (routes_of r dm user) \<Longrightarrow> domain vr = dm \<and> httpUser vr = user"
  using assms unfolding routers_inv_def by auto

lemma desc_locations_distinct: "desc_locations vrs \<Longrightarrow> distinct (map location vrs)"
  by (induction vrs) auto

lemma Routers_exist_routes [route_simps]: "Routers_exist r dm loc user = List.find (\<lambda>vr. loc = location vr) (routes_of r dm user)"
  by (auto simp: Routers_exist_def routes_of_def split: option.split)

lemma Routers_Get_routes [route_simps]: "Routers_Get r dm path user = List.find (\<lambda>vr. HasPrefix path (location vr)) (routes_of r dm user)"
  by (auto simp: Routers_Get_def routes_of_def split: option.split)

lemma routes_of_NewRouters [simp]: "routes_of NewRouters dm user = []"
  by (simp add: routes_of_def NewRouters_def)

lemma routes_of_Del [route_simps]:
  "routes_of (Routers_Del r d l u) dm user =
     (if dm = d \<and> user = u then filter (\<lambda>vr. location vr \<noteq> l) (routes_of r d u) else routes_of r dm user)"
  by (auto simp: Routers_Del_def routes_of_def split: option.split)

lemma Routers_Add_Inl_iff: "isl (Routers_Add r d l u pl) \<longleftrightarrow> Routers_exist r d l u \<noteq> None"
  by (simp add: Routers_Add_def Let_def)

lemma routes_of_Add:
  assumes "Routers_Add r d l u pl = Inr r'"
  shows "routes_of r' dm user =
     (if dm = d \<and> user = u
      then sort_reverse_ByLocation (routes_of r d u @ [\<lparr>domain = d, location = l, httpUser = u, payload = pl\<rparr>])
      else routes_of r dm user)"
  using assms by (auto simp: Routers_Add_def routes_of_def Let_def split: if_splits option.split)

lemma set_sort_reverse [simp]: "set (sort_reverse_ByLocation vrs) = set vrs"
  by (simp add: sort_reverse_ByLocation_def)

lemma Routers_Add_inv:
  assumes "routers_inv r" "Routers_Add r d l u pl = Inr r'"
  shows "routers_inv r'"
proof -
  let ?new = "routes_of r d u @ [\<lparr>domain = d, location = l, httpUser = u, payload = pl\<rparr>]"
  have "Routers_exist r d l u = None" using assms(2) Routers_Add_Inl_iff [of r d l u pl] by auto
  then have "l \<notin> location ` set (routes_of r d u)"
    by (auto simp: Routers_exist_routes find_None_iff)
  then have "distinct (map location ?new)"
    using desc_locations_distinct [OF routers_invD(1) [OF assms(1)]] by simp
  then have "desc_locations (sort_reverse_ByLocation ?new)"
    unfolding sort_reverse_ByLocation_def by (rule sorted_wrt_rev_sort_key)
  with routes_of_Add [OF assms(2)] assms(1) show ?thesis
    unfolding routers_inv_def by auto
qed

lemma Routers_Del_inv: "routers_inv r \<Longrightarrow> routers_inv (Routers_Del r d l u)"
  unfolding routers_inv_def by (auto simp: routes_of_Del sorted_wrt_filter)

section \<open>The abstract route table\<close>

type_synonym route_key = "string \<times> string \<times> string"

definition routes_abs :: "'p Routers \<Rightarrow> route_key \<rightharpoonup> 'p" where
  "routes_abs r = (\<lambda>(d, l, u). map_option payload (Routers_exist r d l u))"

lemma find_location_filter:
  "List.find (\<lambda>vr. l' = location vr) (filter (\<lambda>vr. location vr \<noteq> l) vrs) =
     (if l' = l then None else List.find (\<lambda>vr. l' = location vr) vrs)"
  by (induction vrs) auto

lemma find_location_unique:
  assumes "distinct (map location vrs)" "vr \<in> set vrs"
  shows "List.find (\<lambda>v. location vr = location v) vrs = Some vr"
  using assms
proof (induction vrs)
  case Nil
  then show ?case by simp
next
  case (Cons a vrs)
  show ?case
  proof (cases "vr = a")
    case False
    with Cons.prems have vr: "vr \<in> set vrs" by simp
    then have "location vr \<in> location ` set vrs" by (rule imageI)
    with Cons.prems have "location vr \<noteq> location a" by auto
    with Cons vr show ?thesis by simp
  qed simp
qed

lemma find_location_perm:
  assumes "distinct (map location vrs)" "distinct (map location ws)" "set vrs = set ws"
  shows "List.find (\<lambda>v. l = location v) vrs = List.find (\<lambda>v. l = location v) ws"
proof (cases "l \<in> location ` set vrs")
  case True
  then obtain vr where vr: "vr \<in> set vrs" "l = location vr" by auto
  with assms(3) have "vr \<in> set ws" by simp
  with vr assms(1,2) show ?thesis by (simp add: find_location_unique)
next
  case False
  with assms(3) have "List.find (\<lambda>v. l = location v) vrs = None"
    "List.find (\<lambda>v. l = location v) ws = None" by (auto simp: find_None_iff)
  then show ?thesis by simp
qed

lemma routes_abs_Add:
  assumes "routers_inv r" "Routers_Add r d l u pl = Inr r'"
  shows "routes_abs r' = (routes_abs r)((d, l, u) \<mapsto> pl)"
proof
  fix k :: route_key
  obtain d' l' u' where k: "k = (d', l', u')" by (cases k)
  let ?vr = "\<lparr>domain = d, location = l, httpUser = u, payload = pl\<rparr>"
  have none: "Routers_exist r d l u = None" using assms(2) Routers_Add_Inl_iff [of r d l u pl] by auto
  show "routes_abs r' k = ((routes_abs r)((d, l, u) \<mapsto> pl)) k"
  proof (cases "d' = d \<and> u' = u")
    case True
    have new: "routes_of r' d u = sort_reverse_ByLocation (routes_of r d u @ [?vr])"
      using routes_of_Add [OF assms(2)] by simp
    have "l \<notin> location ` set (routes_of r d u)"
      using none by (auto simp: Routers_exist_routes find_None_iff)
    then have d1: "distinct (map location (routes_of r d u @ [?vr]))"
      using desc_locations_distinct [OF routers_invD(1) [OF assms(1)]] by simp
    have d2: "distinct (map location (routes_of r' d u))"
      using desc_locations_distinct [OF routers_invD(1) [OF Routers_Add_inv [OF assms]]] .
    have "Routers_exist r' d l' u = List.find (\<lambda>v. l' = location v) (routes_of r d u @ [?vr])"
      unfolding Routers_exist_routes using new d1 d2 by (intro find_location_perm) auto
    then show ?thesis using True none k
      by (auto simp: routes_abs_def find_append Routers_exist_routes split: option.split)
  next
    case False
    then show ?thesis using k
      by (auto simp: routes_abs_def Routers_exist_routes routes_of_Add [OF assms(2)])
  qed
qed

lemma routes_abs_Del [route_simps]: "routes_abs (Routers_Del r d l u) = (routes_abs r)((d, l, u) := None)"
  by (auto simp: routes_abs_def Routers_exist_routes routes_of_Del find_location_filter)

lemma routes_abs_conflict: "isl (Routers_Add r d l u pl) \<longleftrightarrow> routes_abs r (d, l, u) \<noteq> None"
  by (simp add: Routers_Add_Inl_iff routes_abs_def)

lemma routes_abs_routes:
  "routes_abs r (d, l, u) \<noteq> None \<longleftrightarrow> (\<exists>vr \<in> set (routes_of r d u). location vr = l)"
  by (auto simp: routes_abs_def Routers_exist_routes find_None_iff)

text \<open>
  The contract that HTTP proxies, HTTP groups and the HTTPS and CONNECT muxers use: adding is
  refused exactly on a taken key, and otherwise adds exactly that key; deleting removes
  exactly that key.
\<close>

locale route_table =
  fixes add :: "'t \<Rightarrow> string \<Rightarrow> string \<Rightarrow> string \<Rightarrow> 'p \<Rightarrow> ('e, 't) result"
    and del :: "'t \<Rightarrow> string \<Rightarrow> string \<Rightarrow> string \<Rightarrow> 't"
    and entries :: "'t \<Rightarrow> route_key \<rightharpoonup> 'p"
    and invar :: "'t \<Rightarrow> bool"
  assumes add_entries: "invar t \<Longrightarrow> add t d l u p = Inr t' \<Longrightarrow> entries t' = (entries t)((d, l, u) \<mapsto> p)"
    and add_conflict: "invar t \<Longrightarrow> isl (add t d l u p) \<longleftrightarrow> entries t (d, l, u) \<noteq> None"
    and del_entries: "invar t \<Longrightarrow> entries (del t d l u) = (entries t)((d, l, u) := None)"
    and invar_add: "invar t \<Longrightarrow> add t d l u p = Inr t' \<Longrightarrow> invar t'"
    and invar_del: "invar t \<Longrightarrow> invar (del t d l u)"
begin

text \<open>Registering and unregistering leaves the table as it was.\<close>

lemma add_del:
  assumes "invar t" "add t d l u p = Inr t'"
  shows "entries (del t' d l u) = entries t"
proof -
  have "entries t (d, l, u) = None" using add_conflict [OF assms(1), of d l u p] assms(2) by simp
  with add_entries [OF assms] del_entries [OF invar_add [OF assms]] show ?thesis
    by (simp add: fun_upd_idem)
qed

text \<open>Registration of a list of keys that stops at the first conflict.\<close>

fun add_all :: "'t \<Rightarrow> (route_key \<times> 'p) list \<Rightarrow> 't \<times> route_key list \<times> bool" where
  "add_all t [] = (t, [], True)"
| "add_all t (((d, l, u), p) # ks) =
     (case add t d l u p of
        Inl _ \<Rightarrow> (t, [], False)
      | Inr t' \<Rightarrow> (case add_all t' ks of (t'', done, ok) \<Rightarrow> (t'', (d, l, u) # done, ok)))"

fun del_all :: "'t \<Rightarrow> route_key list \<Rightarrow> 't" where
  "del_all t [] = t"
| "del_all t ((d, l, u) # ks) = del_all (del t d l u) ks"

lemma del_all_entries:
  "invar t \<Longrightarrow> entries (del_all t ks) = (\<lambda>k. if k \<in> set ks then None else entries t k)"
proof (induction ks arbitrary: t)
  case Nil
  then show ?case by simp
next
  case (Cons k ks)
  obtain d l u where "k = (d, l, u)" by (cases k)
  with Cons show ?case by (auto simp: del_entries invar_del fun_eq_iff)
qed

lemma del_all_invar: "invar t \<Longrightarrow> invar (del_all t ks)"
  by (induction t ks rule: del_all.induct) (auto simp: invar_del)

lemma add_all_entries:
  assumes "invar t" "add_all t ks = (t', done, ok)"
  shows "invar t' \<and> (\<forall>k. k \<notin> set done \<longrightarrow> entries t' k = entries t k) \<and>
    (\<forall>k \<in> set done. entries t k = None)"
  using assms
proof (induction ks arbitrary: t t' "done" ok)
  case Nil
  then show ?case by simp
next
  case (Cons kp ks)
  obtain d l u p where kp: "kp = ((d, l, u), p)" by (metis prod_cases4 prod.exhaust)
  show ?case
  proof (cases "add t d l u p")
    case (Inl e)
    with Cons.prems kp show ?thesis by auto
  next
    case (Inr t1)
    obtain t2 ds ok2 where rec: "add_all t1 ks = (t2, ds, ok2)" by (metis prod_cases3)
    have inv: "invar t1" using Cons.prems(1) Inr by (rule invar_add)
    have IH: "invar t2 \<and> (\<forall>k. k \<notin> set ds \<longrightarrow> entries t2 k = entries t1 k) \<and> (\<forall>k \<in> set ds. entries t1 k = None)"
      by (rule Cons.IH [OF inv rec])
    have e1: "entries t1 = (entries t)((d, l, u) \<mapsto> p)" using Cons.prems(1) Inr by (rule add_entries)
    have e0: "entries t (d, l, u) = None" using add_conflict [OF Cons.prems(1), of d l u p] Inr by simp
    from Cons.prems kp Inr rec have "t' = t2" "done = (d, l, u) # ds" by auto
    with IH e1 e0 show ?thesis by (auto split: if_splits)
  qed
qed

text \<open>Undoing a partial registration restores the table.\<close>

lemma add_all_rollback:
  assumes "invar t" "add_all t ks = (t', done, ok)"
  shows "entries (del_all t' done) = entries t"
  using add_all_entries [OF assms] by (auto simp: del_all_entries fun_eq_iff)

end

interpretation routers: route_table Routers_Add Routers_Del routes_abs routers_inv
  by unfold_locales (auto simp: routes_abs_Add routes_abs_conflict routes_abs_Del Routers_Del_inv
      intro: Routers_Add_inv)

section \<open>Properties\<close>

inductive routers_reach :: "'p Routers \<Rightarrow> bool" where
  start: "routers_reach NewRouters"
| add: "routers_reach r \<Longrightarrow> Routers_Add r d l u pl = Inr r' \<Longrightarrow> routers_reach r'"
| del: "routers_reach r \<Longrightarrow> routers_reach (Routers_Del r d l u)"

lemma routers_reach_inv: "routers_reach r \<Longrightarrow> routers_inv r"
proof (induction rule: routers_reach.induct)
  case start
  show ?case by (simp add: routers_inv_def)
qed (auto intro: Routers_Add_inv Routers_Del_inv)

lemma routers_reach_addI:
  "routers_reach r \<Longrightarrow> is_ok (Routers_Add r d l u pl) \<Longrightarrow> routers_reach (projr (Routers_Add r d l u pl))"
  by (rule routers_reach.add) auto

text \<open>C9: in every table built by registrations and removals, a lookup finds a route exactly when
  some registered location of that host and user is a prefix of the path, and the route it
  returns is a registered one with the longest such location.\<close>

theorem Routers_Get_longest_prefix:
  assumes "routers_reach r"
  shows "(Routers_Get r host path user = None \<longleftrightarrow>
           (\<forall>l. routes_abs r (host, l, user) \<noteq> None \<longrightarrow> \<not> prefix l path)) \<and>
    (\<forall>vr. Routers_Get r host path user = Some vr \<longrightarrow>
       domain vr = host \<and> httpUser vr = user \<and> prefix (location vr) path \<and>
       routes_abs r (host, location vr, user) = Some (payload vr) \<and>
       (\<forall>l. routes_abs r (host, l, user) \<noteq> None \<and> prefix l path \<longrightarrow> length l \<le> length (location vr)))"
proof (intro conjI allI impI)
  note inv = routers_reach_inv [OF assms]
  let ?vrs = "routes_of r host user"
  show "Routers_Get r host path user = None \<longleftrightarrow>
    (\<forall>l. routes_abs r (host, l, user) \<noteq> None \<longrightarrow> \<not> prefix l path)"
    unfolding Routers_Get_routes find_None_iff HasPrefix_iff routes_abs_routes by blast
  fix vr assume "Routers_Get r host path user = Some vr"
  then have f: "List.find (\<lambda>v. HasPrefix path (location v)) ?vrs = Some vr"
    by (simp add: Routers_Get_routes)
  note vr = find_SomeD [OF f]
  show "domain vr = host" "httpUser vr = user" using vr routers_invD(2) [OF inv] by auto
  show pre: "prefix (location vr) path" using vr by (simp add: HasPrefix_iff)
  show "routes_abs r (host, location vr, user) = Some (payload vr)"
    using vr find_location_unique [OF desc_locations_distinct [OF routers_invD(1) [OF inv]]]
    by (simp add: routes_abs_def Routers_exist_routes)
  fix l assume l: "routes_abs r (host, l, user) \<noteq> None \<and> prefix l path"
  then obtain v where v: "v \<in> set ?vrs" "location v = l"
    unfolding routes_abs_routes by auto
  have "location v \<le> location vr"
    using find_desc_greatest [OF routers_invD(1) [OF inv] f v(1)] l v(2) by (simp add: HasPrefix_iff)
  with l v(2) pre show "length l \<le> length (location vr)"
    by (intro prefix_le_imp_length_le [of l path "location vr"]) auto
qed

definition example_routes :: "nat Routers" where
  "example_routes =
     projr (Routers_Add (projr (Routers_Add NewRouters ''a.com'' ''/'' '''' 1)) ''a.com'' ''/api'' '''' 2)"

theorem Routers_Get_longest_prefix_witness:
  "map_option payload (Routers_Get example_routes ''a.com'' ''/api/v1'' '''') = Some 2 \<and>
   length ''/'' \<le> length ''/api''"
proof -
  have r: "routers_reach example_routes" unfolding example_routes_def
    by (intro routers_reach_addI routers_reach.start) code_simp+
  have g: "Routers_Get example_routes ''a.com'' ''/api/v1'' '''' =
    Some \<lparr>domain = ''a.com'', location = ''/api'', httpUser = '''', payload = 2\<rparr>"
    by code_simp
  from Routers_Get_longest_prefix [OF r, of "''a.com''" "''/api/v1''" "''''"] g
  show ?thesis by auto
qed

text \<open>C10: the table refines a map from (domain, location, user) to payload: registering is
  refused exactly when the key is taken, a successful registration adds exactly that key, a
  removal deletes exactly that key, and a registration that is undone leaves the map as it
  was.\<close>

theorem Routers_refine_map:
  assumes "routers_reach r"
  shows "(isl (Routers_Add r d l u pl) \<longleftrightarrow> routes_abs r (d, l, u) \<noteq> None) \<and>
    (\<forall>r'. Routers_Add r d l u pl = Inr r' \<longrightarrow>
       routes_abs r' = (routes_abs r)((d, l, u) \<mapsto> pl) \<and> routes_abs (Routers_Del r' d l u) = routes_abs r) \<and>
    routes_abs (Routers_Del r d l u) = (routes_abs r)((d, l, u) := None)"
proof (intro conjI allI impI)
  note inv = routers_reach_inv [OF assms]
  show "isl (Routers_Add r d l u pl) \<longleftrightarrow> routes_abs r (d, l, u) \<noteq> None"
    by (rule routers.add_conflict [OF inv])
  show "routes_abs (Routers_Del r d l u) = (routes_abs r)((d, l, u) := None)"
    by (rule routers.del_entries [OF inv])
  fix r' assume add: "Routers_Add r d l u pl = Inr r'"
  show "routes_abs r' = (routes_abs r)((d, l, u) \<mapsto> pl)" by (rule routers.add_entries [OF inv add])
  show "routes_abs (Routers_Del r' d l u) = routes_abs r" by (rule routers.add_del [OF inv add])
qed

theorem Routers_refine_map_witness:
  "isl (Routers_Add (NewRouters :: nat Routers) ''a.com'' ''/'' '''' 1)
     \<longleftrightarrow> routes_abs (NewRouters :: nat Routers) (''a.com'', ''/'', '''') \<noteq> None"
  using Routers_refine_map [OF routers_reach.start, of "''a.com''" "''/''" "''''" "1 :: nat"] by simp

end
