(* ===== verification/Util.thy ===== *)
theory Util
  imports Go_Std
begin

text \<open>
  Model of \<^verbatim>\<open>pkg/util/util/util.go\<close>, \<^verbatim>\<open>pkg/util/util/http.go\<close> and
  \<^verbatim>\<open>pkg/util/version/version.go\<close>: the address and host canonicalisation used by the virtual
  host layer, the parser for port ranges such as \<^verbatim>\<open>1000-2000,2001\<close>, the visitor signature
  and the version comparison of the login handshake. MD5 and base64 are parameters.
\<close>

section \<open>Addresses and hosts\<close>

definition CanonicalAddr :: "string \<Rightarrow> int \<Rightarrow> string" where
  "CanonicalAddr host port =
     (if port = 80 \<or> port = 443 then host else JoinHostPort host (Itoa port))"

definition hasPort :: "string \<Rightarrow> bool" where
  "hasPort host =
     (let colons = Count host (CHR '':'')
      in if colons = 0 then False
         else if colons = 1 then True
         else host ! 0 = CHR ''['' \<and> Contains host '']:'')"

text \<open>The error value is dropped by every caller; it is kept here beside the empty host.\<close>

definition CanonicalHost :: "string \<Rightarrow> string \<times> addr_error option" where
  "CanonicalHost host0 =
     (let host = ToLower host0
      in if hasPort host then
           (case SplitHostPort host of
              Inl e \<Rightarrow> ([], Some e)
            | Inr (h, _) \<Rightarrow> (TrimSuffix h ''.'', None))
         else (TrimSuffix host ''.'', None))"

section \<open>Credentials\<close>

text \<open>\<^verbatim>\<open>md5_hex\<close> stands for \<^verbatim>\<open>hex(md5(bytes))\<close>.\<close>

definition GetAuthKey :: "(string \<Rightarrow> string) \<Rightarrow> string \<Rightarrow> int \<Rightarrow> string" where
  "GetAuthKey md5_hex token timestamp = md5_hex (token @ Itoa timestamp)"

definition ConstantTimeEqString :: "string \<Rightarrow> string \<Rightarrow> bool" where
  "ConstantTimeEqString a b \<longleftrightarrow> a = b"

definition GenerateResponseErrorString :: "string \<Rightarrow> string \<Rightarrow> bool \<Rightarrow> string" where
  "GenerateResponseErrorString summary err detailed = (if detailed then err else summary)"

text \<open>\<^verbatim>\<open>b64_decode\<close> stands for \<^verbatim>\<open>base64.StdEncoding.DecodeString\<close>.\<close>

definition ParseBasicAuth :: "(string \<Rightarrow> string option) \<Rightarrow> string \<Rightarrow> (string \<times> string) option" where
  "ParseBasicAuth b64_decode auth =
     (if length auth < length ''Basic '' \<or> ToLower (take (length ''Basic '') auth) \<noteq> ToLower ''Basic ''
      then None
      else (case b64_decode (drop (length ''Basic '') auth) of
          None \<Rightarrow> None
        | Some cs \<Rightarrow>
            (case IndexByte cs (CHR '':'') of
               None \<Rightarrow> None
             | Some s \<Rightarrow> Some (take s cs, drop (s + 1) cs))))"

section \<open>Ranges of numbers\<close>

datatype range_error = RangeSyntax parse_error | RangeInvalid

text \<open>
  The loop \<^verbatim>\<open>for i := min; i <= max; i++\<close> over \<^verbatim>\<open>int64\<close>. \<open>None\<close> is a run that never ends,
  which is what the code does for a range that ends at the largest \<^verbatim>\<open>int64\<close>: the increment
  wraps around and the guard stays true.
\<close>

partial_function (option) range_loop :: "int \<Rightarrow> int \<Rightarrow> int list \<Rightarrow> int list option" where
  "range_loop i mx numbers =
     (if i \<le> mx then range_loop (wrap64 (i + 1)) mx (numbers @ [i]) else Some numbers)"

text \<open>The body of the loop over the comma separated pieces, one piece.\<close>

definition parse_piece :: "string \<Rightarrow> int list \<Rightarrow> (range_error + int list) option" where
  "parse_piece numRangeStr numbers =
     (case Split (CHR ''-'') numRangeStr of
        [a] \<Rightarrow>
          (case ParseInt (TrimSpace a) of
             (_, Some e) \<Rightarrow> Some (Inl (RangeSyntax e))
           | (n, None) \<Rightarrow> Some (Inr (numbers @ [n])))
      | [a, b] \<Rightarrow>
          (case ParseInt (TrimSpace a) of
             (_, Some e) \<Rightarrow> Some (Inl (RangeSyntax e))
           | (mn, None) \<Rightarrow>
               (case ParseInt (TrimSpace b) of
                  (_, Some e) \<Rightarrow> Some (Inl (RangeSyntax e))
                | (mx, None) \<Rightarrow>
                    if mx < mn then Some (Inl RangeInvalid)
                    else map_option Inr (range_loop mn mx numbers)))
      | _ \<Rightarrow> Some (Inl RangeInvalid))"

fun parse_pieces :: "string list \<Rightarrow> int list \<Rightarrow> (range_error + int list) option" where
  "parse_pieces [] numbers = Some (Inr numbers)"
| "parse_pieces (p # ps) numbers =
     (case parse_piece p numbers of
        None \<Rightarrow> None
      | Some (Inl e) \<Rightarrow> Some (Inl e)
      | Some (Inr ns) \<Rightarrow> parse_pieces ps ns)"

definition ParseRangeNumbers :: "string \<Rightarrow> (range_error + int list) option" where
  "ParseRangeNumbers rangeStr = parse_pieces (Split (CHR '','') (TrimSpace rangeStr)) []"

section \<open>Versions\<close>

definition version_string :: string where "version_string = ''MEFrp_Legacy''"

definition Full :: string where "Full = version_string"

definition getSubVersion :: "string \<Rightarrow> nat \<Rightarrow> int" where
  "getSubVersion v position =
     (let arr = Split (CHR ''.'') v
      in if length arr < 3 then 0 else fst (ParseInt (arr ! position)))"

definition Proto :: "string \<Rightarrow> int" where "Proto v = getSubVersion v 0"
definition Major :: "string \<Rightarrow> int" where "Major v = getSubVersion v 1"
definition Minor :: "string \<Rightarrow> int" where "Minor v = getSubVersion v 2"

definition LessThan :: "string \<Rightarrow> string \<Rightarrow> bool" where
  "LessThan client server =
     (if Proto client > Proto server then False
      else if Proto client < Proto server then True
      else if Major client > Major server then False
      else if Major client < Major server then True
      else if Minor client > Minor server then False
      else if Minor client < Minor server then True
      else False)"

definition Compat :: "string \<Rightarrow> bool \<times> string" where
  "Compat client =
     (if LessThan client ''0.18.0''
      then (False, ''Please upgrade your frpc version to at least 0.18.0'')
      else (True, ''''))"

section \<open>Properties\<close>

subsection \<open>The range loop\<close>

lemma range_loop_terminates:
  assumes "min_int64 \<le> i" "mx < max_int64"
  shows "range_loop i mx numbers = Some (numbers @ [i..mx])"
  using assms
proof (induction "nat (mx + 1 - i)" arbitrary: i numbers)
  case 0
  then show ?case by (simp add: range_loop.simps)
next
  case (Suc k)
  then have le: "i \<le> mx" by simp
  have "wrap64 (i + 1) = i + 1" using Suc.prems le by (intro wrap64_id) auto
  then show ?case using Suc le Suc.hyps(1) [of "i + 1" "numbers @ [i]"]
    by (simp add: range_loop.simps [of i] upto.simps [of i])
qed

lemma range_loop_returns_below_max:
  assumes "range_loop i mx numbers = Some r" "i \<le> max_int64"
  shows "mx < max_int64"
proof -
  have "i \<le> max_int64 \<longrightarrow> mx < max_int64"
  proof (rule range_loop.raw_induct [where P = "\<lambda>i mx ns r. i \<le> max_int64 \<longrightarrow> mx < max_int64", OF _ assms(1)])
    fix f :: "int \<Rightarrow> int \<Rightarrow> int list \<Rightarrow> int list option" and i mx numbers r
    assume IH: "\<And>i mx ns r. f i mx ns = Some r \<Longrightarrow> i \<le> max_int64 \<longrightarrow> mx < max_int64"
      and eq: "(if i \<le> mx then f (wrap64 (i + 1)) mx (numbers @ [i]) else Some numbers) = Some r"
    show "i \<le> max_int64 \<longrightarrow> mx < max_int64"
    proof (cases "i \<le> mx")
      case True
      with eq IH [of "wrap64 (i + 1)" mx "numbers @ [i]" r] wrap64_range [of "i + 1"]
      show ?thesis by simp
    next
      case False
      then show ?thesis by auto
    qed
  qed
  with assms(2) show ?thesis by simp
qed

text \<open>How an administrator writes a setting: single ports and ranges, comma separated.\<close>

datatype range_item = Single int | Range int int

fun render_item :: "range_item \<Rightarrow> string" where
  "render_item (Single n) = Itoa n"
| "render_item (Range a b) = Itoa a @ ''-'' @ Itoa b"

fun item_numbers :: "range_item \<Rightarrow> int list" where
  "item_numbers (Single n) = [n]"
| "item_numbers (Range a b) = [a..b]"

fun item_ok :: "range_item \<Rightarrow> bool" where
  "item_ok (Single n) \<longleftrightarrow> 0 \<le> n \<and> n \<le> max_int64"
| "item_ok (Range a b) \<longleftrightarrow> 0 \<le> a \<and> a \<le> b \<and> b < max_int64"

lemma Itoa_chars: "0 \<le> i \<Longrightarrow> c \<in> set (Itoa i) \<Longrightarrow> 48 \<le> (of_char c :: nat) \<and> (of_char c :: nat) \<le> 57"
  using nat_digits_range [of c "nat i"] by (simp add: Itoa_def)

lemma TrimSpace_Itoa: "0 \<le> i \<Longrightarrow> TrimSpace (Itoa i) = Itoa i"
  by (rule TrimSpace_no_space) (auto simp: Itoa_def is_space_digit)

lemma Itoa_no_char:
  "0 \<le> i \<Longrightarrow> (of_char c :: nat) < 48 \<or> 57 < (of_char c :: nat) \<Longrightarrow> c \<notin> set (Itoa i)"
  using Itoa_chars [of i c] by linarith

lemma parse_piece_render:
  assumes "item_ok it"
  shows "parse_piece (render_item it) numbers = Some (Inr (numbers @ item_numbers it))"
proof (cases it)
  case (Single n)
  with assms have n: "0 \<le> n" "n \<le> max_int64" by auto
  then have "CHR ''-'' \<notin> set (Itoa n)" by (intro Itoa_no_char) auto
  with Single n show ?thesis
    by (simp add: parse_piece_def Split_no_sep TrimSpace_Itoa ParseInt_Itoa)
next
  case (Range a b)
  with assms have ab: "0 \<le> a" "a \<le> b" "b < max_int64" by auto
  then have "CHR ''-'' \<notin> set (Itoa a)" "CHR ''-'' \<notin> set (Itoa b)"
    by (simp_all add: Itoa_no_char)
  then have "Split (CHR ''-'') (render_item it) = [Itoa a, Itoa b]"
    using Range by (simp add: Split_append_sep Split_no_sep)
  moreover have "range_loop a b numbers = Some (numbers @ [a..b])"
    using ab by (intro range_loop_terminates) (auto simp: min_int64_def)
  ultimately show ?thesis using ab Range
    by (simp add: parse_piece_def TrimSpace_Itoa ParseInt_Itoa)
qed

lemma parse_pieces_render:
  "\<forall>it \<in> set its. item_ok it \<Longrightarrow>
     parse_pieces (map render_item its) numbers = Some (Inr (numbers @ concat (map item_numbers its)))"
  by (induction its arbitrary: numbers) (auto simp: parse_piece_render)

lemma render_item_chars:
  assumes "item_ok it" "c \<in> set (render_item it)"
  shows "45 = (of_char c :: nat) \<or> 48 \<le> (of_char c :: nat) \<and> (of_char c :: nat) \<le> 57"
proof (cases it)
  case (Single n)
  with assms Itoa_chars [of n c] show ?thesis by simp
next
  case (Range a b)
  with assms Itoa_chars [of a c] Itoa_chars [of b c] show ?thesis by auto
qed

lemma Join_chars: "c \<in> set (Join ws sep) \<Longrightarrow> c \<in> set sep \<or> (\<exists>w \<in> set ws. c \<in> set w)"
  by (induction ws sep rule: Join.induct) auto

lemma ParseRangeNumbers_Nil: "ParseRangeNumbers [] \<noteq> Some (Inr ns)"
  by (simp add: ParseRangeNumbers_def TrimSpace_def parse_piece_def ParseInt_def)

lemma ParseRangeNumbers_items:
  assumes "its \<noteq> []" and "\<forall>it \<in> set its. item_ok it"
  shows "ParseRangeNumbers (Join (map render_item its) '','')
           = Some (Inr (concat (map item_numbers its)))"
proof -
  have c44: "CHR '','' \<notin> set (render_item it)" if "it \<in> set its" for it
    using that assms(2) render_item_chars [of it "CHR '',''"] by auto
  have "\<forall>c \<in> set (Join (map render_item its) '',''). \<not> is_space c"
  proof
    fix c assume "c \<in> set (Join (map render_item its) '','')"
    then have "c = CHR '','' \<or> (\<exists>it \<in> set its. c \<in> set (render_item it))"
      using Join_chars by fastforce
    then show "\<not> is_space c"
      using assms(2) render_item_chars by (fastforce simp: is_space_def)
  qed
  then have "TrimSpace (Join (map render_item its) '','') = Join (map render_item its) '',''"
    by (rule TrimSpace_no_space)
  moreover have "Split (CHR '','') (Join (map render_item its) '','') = map render_item its"
    using c44 assms(1) by (intro Split_Join) auto
  ultimately show ?thesis
    using parse_pieces_render [OF assms(2), of "[]"] by (simp add: ParseRangeNumbers_def)
qed

text \<open>Parsing a written-out list of ports and port ranges yields exactly the listed
  numbers, in the order written, for non-negative bounds below the largest 64-bit integer.\<close>

lemma ParseRangeNumbers_render:
  assumes "its \<noteq> []" and "\<forall>it \<in> set its. item_ok it"
  shows "ParseRangeNumbers (Join (map render_item its) '','')
           = Some (Inr (concat (map item_numbers its)))"
  by (rule ParseRangeNumbers_items [OF assms])


subsection \<open>Hosts\<close>

lemma hasPort_no_colon: "CHR '':'' \<notin> set host \<Longrightarrow> \<not> hasPort host"
  by (simp add: hasPort_def Count_def count_list_0_iff)

lemma lower_char_digit: "48 \<le> (of_char c :: nat) \<Longrightarrow> (of_char c :: nat) \<le> 57 \<Longrightarrow> lower_char c = c"
  by (simp add: lower_char_def)

lemma ToLower_Itoa: "0 \<le> p \<Longrightarrow> ToLower (Itoa p) = Itoa p"
  by (simp add: ToLower_def map_idI lower_char_digit Itoa_chars)

text \<open>A lower-case host name without brackets, colons or a trailing dot is recovered from
  the address that the server advertises for it, whatever the port.\<close>

lemma CanonicalHost_CanonicalAddr:
  assumes "ToLower host = host" "plain_addr_part host" "CHR '':'' \<notin> set host"
    "\<not> HasSuffix host ''.''" "0 \<le> port"
  shows "CanonicalHost (CanonicalAddr host port) = (host, None)"
proof (cases "port = 80 \<or> port = 443")
  case True
  then have "CanonicalAddr host port = host" by (simp add: CanonicalAddr_def)
  with assms show ?thesis
    by (simp add: CanonicalHost_def hasPort_no_colon Let_def TrimSuffix_def)
next
  case False
  let ?p = "Itoa port"
  have p: "plain_addr_part ?p" "CHR '':'' \<notin> set ?p"
    using assms(5) by (simp_all add: plain_addr_part_def Itoa_no_char)
  have addr: "CanonicalAddr host port = JoinHostPort host ?p"
    using False by (simp add: CanonicalAddr_def)
  have j: "JoinHostPort host ?p = host @ '':'' @ ?p" using assms(3) by (simp add: JoinHostPort_def)
  have low: "ToLower (JoinHostPort host ?p) = JoinHostPort host ?p"
    using assms(1) ToLower_Itoa [OF assms(5)] unfolding j
    by (simp add: ToLower_def lower_char_def)
  have "hasPort (JoinHostPort host ?p)" unfolding j hasPort_def Count_def
    using assms(3) p(2) by (simp add: Let_def)
  with low addr SplitHostPort_JoinHostPort [OF assms(2) p] assms(4) show ?thesis
    by (simp add: CanonicalHost_def Let_def TrimSuffix_def)
qed

subsection \<open>Versions\<close>

text \<open>A version as it is printed in a release.\<close>

definition render_version :: "int \<Rightarrow> int \<Rightarrow> int \<Rightarrow> string" where
  "render_version p m n = Join [Itoa p, Itoa m, Itoa n] ''.''"

lemma getSubVersion_render:
  assumes "0 \<le> p" "0 \<le> m" "0 \<le> n" "p \<le> max_int64" "m \<le> max_int64" "n \<le> max_int64"
  shows "Proto (render_version p m n) = p" "Major (render_version p m n) = m"
    "Minor (render_version p m n) = n"
proof -
  have "Split (CHR ''.'') (render_version p m n) = [Itoa p, Itoa m, Itoa n]"
    unfolding render_version_def using assms by (intro Split_Join) (simp_all add: Itoa_no_char)
  with assms show "Proto (render_version p m n) = p" "Major (render_version p m n) = m"
    "Minor (render_version p m n) = n"
    by (simp_all add: Proto_def Major_def Minor_def getSubVersion_def ParseInt_Itoa)
qed

text \<open>On release versions the comparison is the lexicographic order of the three
  numbers.\<close>

lemma LessThan_release:
  assumes "0 \<le> p" "0 \<le> m" "0 \<le> n" "p \<le> max_int64" "m \<le> max_int64" "n \<le> max_int64"
    and "0 \<le> p'" "0 \<le> m'" "0 \<le> n'" "p' \<le> max_int64" "m' \<le> max_int64" "n' \<le> max_int64"
  shows "LessThan (render_version p m n) (render_version p' m' n') \<longleftrightarrow>
    p < p' \<or> p = p' \<and> (m < m' \<or> m = m' \<and> n < n')"
  using getSubVersion_render [OF assms(1-6)] getSubVersion_render [OF assms(7-12)]
  by (auto simp: LessThan_def)

text \<open>The version string that this release's client announces at login is refused by the
  compatibility check of this release's server, since a string without three dot separated
  parts reads as version 0.0.0.\<close>

lemma Compat_own_version:
  "\<not> fst (Compat Full)"
  by (simp add: Compat_def LessThan_def Full_def version_string_def Proto_def Major_def Minor_def
      getSubVersion_def ParseInt_def char_digit_def min_int64_def max_int64_def)

end
