(* ===== verification/Vhost.thy ===== *)
theory Vhost
  imports Vhost_Router Util
begin

text \<open>
  Model of \<^verbatim>\<open>pkg/util/vhost/vhost.go\<close> and \<^verbatim>\<open>pkg/util/vhost/http.go\<close>: the host matching with
  wildcards, the muxer that dispatches HTTPS and CONNECT connections to listeners, and the
  routing and authentication decisions of the HTTP reverse proxy. The functions stored in a
  route (\<^verbatim>\<open>CreateConnFn\<close> and its variants) are opaque references of type \<open>'f\<close>; connections
  themselves, header rewriting and the transport of \<^verbatim>\<open>net/http\<close> are not modelled.
\<close>

section \<open>Host matching\<close>

definition find_router :: "'p Routers \<Rightarrow> string \<Rightarrow> string \<Rightarrow> string \<Rightarrow> 'p Router option" where
  "find_router r inDomain inLocation inUser =
     (case Routers_Get r inDomain inLocation inUser of
        Some vr \<Rightarrow> Some vr
      | None \<Rightarrow> Routers_Get r inDomain inLocation '''')"

text \<open>
  The loop over \<^verbatim>\<open>domainSplit\<close>: replace the first label by a star, look the name up, drop the
  first label; stop when fewer than three labels are left.
\<close>

function wildcard_loop :: "(string \<Rightarrow> 'a option) \<Rightarrow> string list \<Rightarrow> 'a option" where
  "wildcard_loop f domainSplit =
     (if length domainSplit < 3 then None
      else (case f (Join (''*'' # tl domainSplit) ''.'') of
          Some x \<Rightarrow> Some x
        | None \<Rightarrow> wildcard_loop f (tl domainSplit)))"
  by pat_completeness auto
termination
  by (relation "measure (\<lambda>(f, ds). length ds)") auto

declare wildcard_loop.simps [simp del]

definition getVhost :: "'p Routers \<Rightarrow> string \<Rightarrow> string \<Rightarrow> string \<Rightarrow> 'p Router option" where
  "getVhost r dm loc user =
     (case find_router r dm loc user of
        Some vr \<Rightarrow> Some vr
      | None \<Rightarrow>
          (case wildcard_loop (\<lambda>d. find_router r d loc user) (Split (CHR ''.'') dm) of
             Some vr \<Rightarrow> Some vr
           | None \<Rightarrow> find_router r ''*'' loc user))"

section \<open>The muxer\<close>

record RouteConfig_mux =
  mDomain :: string
  mLocation :: string
  mRewriteHost :: string
  mUsername :: string
  mPassword :: string
  mRouteByHTTPUser :: string

record Listener =
  lname :: string
  llocation :: string
  lrouteByHTTPUser :: string
  lrewriteHost :: string
  lusername :: string
  lpassword :: string

text \<open>The registry of a muxer maps to listeners by identity, the address of the listener;
  \<open>closedListeners\<close> are those whose accept channel is closed.\<close>

record Muxer =
  registryRouter :: "(addr \<times> Listener) Routers"
  nextListener :: addr
  closedListeners :: "addr set"

definition NewMuxer :: Muxer where
  "NewMuxer = \<lparr>registryRouter = NewRouters, nextListener = 0, closedListeners = {}\<rparr>"

definition Muxer_Listen :: "Muxer \<Rightarrow> RouteConfig_mux \<Rightarrow> (router_error, addr \<times> Listener) result \<times> Muxer" where
  "Muxer_Listen v cfg =
     (let l = \<lparr>lname = mDomain cfg, llocation = mLocation cfg, lrouteByHTTPUser = mRouteByHTTPUser cfg,
               lrewriteHost = mRewriteHost cfg, lusername = mUsername cfg, lpassword = mPassword cfg\<rparr>;
          al = (nextListener v, l);
          v' = v\<lparr>nextListener := Suc (nextListener v)\<rparr>
      in case Routers_Add (registryRouter v) (mDomain cfg) (mLocation cfg) (mRouteByHTTPUser cfg) al of
           Inl e \<Rightarrow> (Inl e, v')
         | Inr r \<Rightarrow> (Inr al, v'\<lparr>registryRouter := r\<rparr>))"

definition Muxer_getListener :: "Muxer \<Rightarrow> string \<Rightarrow> string \<Rightarrow> string \<Rightarrow> (addr \<times> Listener) option" where
  "Muxer_getListener v name path user =
     (let findRouter = (\<lambda>inName. map_option payload (find_router (registryRouter v) inName path user))
      in case findRouter name of
           Some l \<Rightarrow> Some l
         | None \<Rightarrow>
             (case wildcard_loop findRouter (Split (CHR ''.'') name) of
                Some l \<Rightarrow> Some l
              | None \<Rightarrow> findRouter ''*''))"

text \<open>Closing removes the route and then closes the channel, which panics (\<open>None\<close>) when it is closed
  already.\<close>

definition Listener_Close :: "addr \<times> Listener \<Rightarrow> Muxer \<Rightarrow> Muxer option" where
  "Listener_Close al v =
     (let v1 = v\<lparr>registryRouter := Routers_Del (registryRouter v) (lname (snd al)) (llocation (snd al))
                                     (lrouteByHTTPUser (snd al))\<rparr>
      in if fst al \<in> closedListeners v1 then None
         else Some (v1\<lparr>closedListeners := insert (fst al) (closedListeners v1)\<rparr>))"

text \<open>
  \<^verbatim>\<open>Muxer.handle\<close> up to the hand-over of the connection. The parameters are what the calls it
  makes return: whether the deadlines can be set, the request information extracted by
  \<^verbatim>\<open>vhostFunc\<close> (\<open>None\<close> on error), the optional success hook, and the optional credential check.
\<close>

datatype mux_outcome = MuxClosed | MuxNotFound | MuxAuthFailed | MuxDeliver "addr \<times> Listener"

definition Muxer_handle ::
  "Muxer \<Rightarrow> bool \<Rightarrow> (string \<times> string \<times> string) option \<Rightarrow> bool option \<Rightarrow>
   (string \<Rightarrow> string \<Rightarrow> bool) option \<Rightarrow> bool \<Rightarrow> mux_outcome" where
  "Muxer_handle v deadline_ok reqInfo successHook checkAuth undeadline_ok =
     (if \<not> deadline_ok then MuxClosed
      else (case reqInfo of
          None \<Rightarrow> MuxClosed
        | Some (host, path, hUser) \<Rightarrow>
            (case Muxer_getListener v (ToLower host) (ToLower path) hUser of
               None \<Rightarrow> MuxNotFound
             | Some al \<Rightarrow>
                 if successHook = Some False then MuxClosed
                 else if (case checkAuth of
                            Some chk \<Rightarrow> lusername (snd al) \<noteq> [] \<and> \<not> chk (lusername (snd al)) (lpassword (snd al))
                          | None \<Rightarrow> False)
                 then MuxAuthFailed
                 else if \<not> undeadline_ok then MuxClosed
                 else MuxDeliver al)))"

section \<open>The HTTP reverse proxy\<close>

record 'f RouteConfig =
  Domain :: string
  Location :: string
  RewriteHost :: string
  Username :: string
  Password :: string
  Headers :: "(string \<times> string) list"
  RouteByHTTPUser :: string
  CreateConnFn :: "'f option"
  ChooseEndpointFn :: "'f option"
  CreateConnByEndpointFn :: "'f option"

type_synonym 'f http_routes = "'f RouteConfig Routers"

record RequestRouteInfo =
  infoURL :: string
  infoHost :: string
  infoHTTPUser :: string
  infoRemoteAddr :: string
  infoURLHost :: string
  infoEndpoint :: string

text \<open>What the handler reads of an \<^verbatim>\<open>http.Request\<close>.\<close>

record http_request =
  req_Method :: string
  req_Host :: string
  req_Path :: string
  req_URLHost :: string
  req_RemoteAddr :: string
  req_ProxyAuthorization :: string
  req_BasicAuth :: "(string \<times> string) option"

definition HTTPReverseProxy_Register :: "'f RouteConfig \<Rightarrow> 'f http_routes \<Rightarrow> (router_error, 'f http_routes) result" where
  "HTTPReverseProxy_Register routeCfg r =
     Routers_Add r (Domain routeCfg) (Location routeCfg) (RouteByHTTPUser routeCfg) routeCfg"

definition HTTPReverseProxy_UnRegister :: "'f RouteConfig \<Rightarrow> 'f http_routes \<Rightarrow> 'f http_routes" where
  "HTTPReverseProxy_UnRegister routeCfg r =
     Routers_Del r (Domain routeCfg) (Location routeCfg) (RouteByHTTPUser routeCfg)"

definition GetRouteConfig :: "'f http_routes \<Rightarrow> string \<Rightarrow> string \<Rightarrow> string \<Rightarrow> 'f RouteConfig option" where
  "GetRouteConfig r dm loc user = map_option payload (getVhost r dm loc user)"

definition GetHeaders :: "'f http_routes \<Rightarrow> string \<Rightarrow> string \<Rightarrow> string \<Rightarrow> (string \<times> string) list" where
  "GetHeaders r dm loc user =
     (case getVhost r dm loc user of None \<Rightarrow> [] | Some vr \<Rightarrow> Headers (payload vr))"

datatype 'f dial = DialByEndpoint 'f string string | DialConn 'f string

definition CreateConnection :: "'f http_routes \<Rightarrow> RequestRouteInfo \<Rightarrow> bool \<Rightarrow> 'f dial option" where
  "CreateConnection r info byEndpoint =
     (case getVhost r (fst (CanonicalHost (infoHost info))) (infoURL info) (infoHTTPUser info) of
        None \<Rightarrow> None
      | Some vr \<Rightarrow>
          (case (if byEndpoint then CreateConnByEndpointFn (payload vr) else None) of
             Some fn \<Rightarrow> Some (DialByEndpoint fn (infoEndpoint info) (infoRemoteAddr info))
           | None \<Rightarrow>
               (case CreateConnFn (payload vr) of
                  Some fn \<Rightarrow> Some (DialConn fn (infoRemoteAddr info))
                | None \<Rightarrow> None)))"

definition CheckAuth :: "'f http_routes \<Rightarrow> string \<Rightarrow> string \<Rightarrow> string \<Rightarrow> string \<Rightarrow> string \<Rightarrow> bool" where
  "CheckAuth r dm loc routeUser user passwd =
     (case getVhost r dm loc routeUser of
        None \<Rightarrow> True
      | Some vr \<Rightarrow>
          let checkUser = Username (payload vr); checkPasswd = Password (payload vr)
          in \<not> ((checkUser \<noteq> [] \<or> checkPasswd \<noteq> []) \<and> (checkUser \<noteq> user \<or> checkPasswd \<noteq> passwd)))"

definition basic_user :: "http_request \<Rightarrow> string" where
  "basic_user req = (case req_BasicAuth req of None \<Rightarrow> [] | Some (u, _) \<Rightarrow> u)"

definition basic_passwd :: "http_request \<Rightarrow> string" where
  "basic_passwd req = (case req_BasicAuth req of None \<Rightarrow> [] | Some (_, p) \<Rightarrow> p)"

definition injectRequestInfoToCtx :: "(string \<Rightarrow> string option) \<Rightarrow> http_request \<Rightarrow> RequestRouteInfo" where
  "injectRequestInfoToCtx b64_decode req =
     (let user0 = (if req_URLHost req \<noteq> [] \<and> req_ProxyAuthorization req \<noteq> []
                   then (case ParseBasicAuth b64_decode (req_ProxyAuthorization req) of
                           None \<Rightarrow> [] | Some (u, _) \<Rightarrow> u)
                   else []);
          user = (if user0 = [] then basic_user req else user0)
      in \<lparr>infoURL = req_Path req, infoHost = req_Host req, infoHTTPUser = user,
          infoRemoteAddr = req_RemoteAddr req, infoURLHost = req_URLHost req, infoEndpoint = []\<rparr>)"

text \<open>
  \<^verbatim>\<open>ServeHTTP\<close>: refuse, or serve the request over the connection of a route. \<open>ServeConnect\<close> is
  the hijacked CONNECT path, \<open>ServeProxy\<close> the reverse proxy, each with the dial it makes
  (\<open>None\<close> is the 404 page).
\<close>

datatype 'f serve_outcome = Unauthorized | ServeConnect "'f dial option" | ServeProxy "'f dial option"

definition ServeHTTP :: "(string \<Rightarrow> string option) \<Rightarrow> 'f http_routes \<Rightarrow> http_request \<Rightarrow> 'f serve_outcome" where
  "ServeHTTP b64_decode r req =
     (if \<not> CheckAuth r (fst (CanonicalHost (req_Host req))) (req_Path req) (basic_user req)
             (basic_user req) (basic_passwd req)
      then Unauthorized
      else
        (let info = injectRequestInfoToCtx b64_decode req
         in if req_Method req = ''CONNECT'' then ServeConnect (CreateConnection r info False)
            else ServeProxy (CreateConnection r info True)))"

section \<open>Properties of host matching\<close>

text \<open>The names that are looked up, in order: the host, then a star in front of each proper
  suffix of at least two labels, then the lone star.\<close>

definition wildcard_names :: "string list \<Rightarrow> string list" where
  "wildcard_names labels = map (\<lambda>i. Join (''*'' # drop i labels) ''.'') [1..<length labels - 1]"

definition host_candidates :: "string \<Rightarrow> string list" where
  "host_candidates dm = dm # wildcard_names (Split (CHR ''.'') dm) @ [''*'']"

fun first_hit :: "('a \<Rightarrow> 'b option) \<Rightarrow> 'a list \<Rightarrow> 'b option" where
  "first_hit f [] = None"
| "first_hit f (x # xs) = (case f x of None \<Rightarrow> first_hit f xs | Some y \<Rightarrow> Some y)"

lemma first_hit_append:
  "first_hit f (xs @ ys) = (case first_hit f xs of None \<Rightarrow> first_hit f ys | Some y \<Rightarrow> Some y)"
  by (induction xs) (auto split: option.split)

lemma first_hit_None: "first_hit f xs = None \<longleftrightarrow> (\<forall>x \<in> set xs. f x = None)"
  by (induction xs) (auto split: option.split)

lemma wildcard_names_step:
  assumes "3 \<le> length ds"
  shows "wildcard_names ds = Join (''*'' # tl ds) ''.'' # wildcard_names (tl ds)"
proof -
  obtain a ds' where ds: "ds = a # ds'" using assms by (cases ds) auto
  obtain n where n: "length ds = Suc (Suc (Suc n))"
    using assms by (metis Suc_le_D numeral_3_eq_3 Suc_le_mono)
  have "[1..<length ds - 1] = 1 # map Suc [1..<length ds - 2]"
    by (simp add: n upt_conv_Cons map_Suc_upt del: upt_Suc)
  then show ?thesis using ds by (simp add: wildcard_names_def)
qed

lemma wildcard_loop_first_hit: "wildcard_loop f ds = first_hit f (wildcard_names ds)"
proof (induction f ds rule: wildcard_loop.induct)
  case (1 f ds)
  show ?case
  proof (cases "length ds < 3")
    case True
    then show ?thesis by (auto simp: wildcard_loop.simps [of f ds] wildcard_names_def)
  next
    case False
    with 1 show ?thesis
      by (simp add: wildcard_loop.simps [of f ds] wildcard_names_step split: option.split)
  qed
qed

text \<open>C11: the host lookup of the HTTP proxy and of the muxers is the same: the first of the
  candidate names, in order of decreasing specificity, that has a matching route, a route for
  the request's user being preferred to one for every user under each name.\<close>

theorem getVhost_first_candidate:
  "getVhost r dm loc user = first_hit (\<lambda>d. find_router r d loc user) (host_candidates dm) \<and>
   Muxer_getListener v dm loc user =
     first_hit (\<lambda>d. map_option payload (find_router (registryRouter v) d loc user)) (host_candidates dm)"
  by (simp add: getVhost_def Muxer_getListener_def host_candidates_def wildcard_loop_first_hit
      first_hit_append Let_def split: option.split)

lemma Join_dots: "ds \<noteq> [] \<Longrightarrow> length ds \<le> Suc (Count (Join ds ''.'') (CHR ''.''))"
  by (induction ds "''.''" rule: Join.induct) (auto simp: Count_def)

lemma find_router_None: "\<forall>u. routes_of r d u = [] \<Longrightarrow> find_router r d loc user = None"
  by (simp add: find_router_def Routers_Get_routes)

text \<open>A wildcard with a single label after the star, such as \<^verbatim>\<open>*.com\<close>, is never consulted
  for another host, although the comment above the loop lists it among the names tried.\<close>

lemma two_label_wildcard_never_matches:
  assumes "CHR ''.'' \<notin> set tld" "dm \<noteq> ''*.'' @ tld"
    and "\<forall>d u. d \<noteq> ''*.'' @ tld \<longrightarrow> routes_of r d u = []"
  shows "getVhost r dm loc user = None"
proof -
  have "find_router r d loc user = None" if d: "d \<in> set (host_candidates dm)" for d
  proof (rule find_router_None)
    have "d \<noteq> ''*.'' @ tld"
    proof
      assume eq: "d = ''*.'' @ tld"
      with assms(2) d obtain i where i: "i < length (Split (CHR ''.'') dm) - 1"
        "d = Join (''*'' # drop i (Split (CHR ''.'') dm)) ''.''"
        by (auto simp: host_candidates_def wildcard_names_def)
      let ?rest = "drop i (Split (CHR ''.'') dm)"
      have "2 \<le> length ?rest" using i(1) by auto
      then have "3 \<le> length (''*'' # ?rest)" by simp
      with Join_dots [of "''*'' # ?rest"] i(2) have "2 \<le> Count d (CHR ''.'')" by simp
      moreover have "Count d (CHR ''.'') = 1"
        using eq assms(1) by (simp add: Count_def count_list_0_iff)
      ultimately show False by simp
    qed
    with assms(3) show "\<forall>u. routes_of r d u = []" by simp
  qed
  then show ?thesis
    using getVhost_first_candidate [of r dm loc user NewMuxer] by (simp add: first_hit_None)
qed

definition star_com_routes :: "nat Routers" where
  "star_com_routes = projr (Routers_Add NewRouters ''*.com'' '''' '''' 1)"

section \<open>Properties of authentication\<close>

definition credentials_match :: "'f RouteConfig \<Rightarrow> string \<Rightarrow> string \<Rightarrow> bool" where
  "credentials_match rc user passwd \<longleftrightarrow>
     Username rc = [] \<and> Password rc = [] \<or> Username rc = user \<and> Password rc = passwd"

text \<open>C12: an ordinary request (one without a host in its request line) that is served gets the
  connection of a route whose credentials it presented, or of a route without credentials.\<close>

theorem ServeHTTP_authenticated:
  assumes "req_URLHost req = []" and "ServeHTTP b64_decode r req \<noteq> Unauthorized"
    and "GetRouteConfig r (fst (CanonicalHost (req_Host req))) (req_Path req)
      (infoHTTPUser (injectRequestInfoToCtx b64_decode req)) = Some rc"
  shows "credentials_match rc (basic_user req) (basic_passwd req)"
  using assms
  by (auto simp: ServeHTTP_def injectRequestInfoToCtx_def CheckAuth_def GetRouteConfig_def
      credentials_match_def Let_def split: if_splits option.splits)

definition open_route :: "nat RouteConfig" where
  "open_route = \<lparr>Domain = ''a.com'', Location = '''', RewriteHost = '''', Username = '''', Password = '''',
     Headers = [], RouteByHTTPUser = '''', CreateConnFn = Some 1, ChooseEndpointFn = None,
     CreateConnByEndpointFn = None\<rparr>"

definition admin_route :: "nat RouteConfig" where
  "admin_route = open_route\<lparr>Username := ''admin'', Password := ''secret'', RouteByHTTPUser := ''admin'',
     CreateConnFn := Some 2\<rparr>"

definition two_user_routes :: "nat http_routes" where
  "two_user_routes =
     projr (HTTPReverseProxy_Register admin_route (projr (HTTPReverseProxy_Register open_route NewRouters)))"

definition plain_request :: http_request where
  "plain_request = \<lparr>req_Method = ''GET'', req_Host = ''a.com'', req_Path = ''/'', req_URLHost = '''',
     req_RemoteAddr = ''1.2.3.4:5'', req_ProxyAuthorization = '''', req_BasicAuth = Some (''admin'', ''secret'')\<rparr>"

theorem ServeHTTP_authenticated_witness:
  "credentials_match admin_route (basic_user plain_request) (basic_passwd plain_request)"
proof (rule ServeHTTP_authenticated [of _ "\<lambda>_. None" two_user_routes])
  show "GetRouteConfig two_user_routes (fst (CanonicalHost (req_Host plain_request))) (req_Path plain_request)
      (infoHTTPUser (injectRequestInfoToCtx (\<lambda>_. None) plain_request)) = Some admin_route"
    by code_simp
  show "ServeHTTP (\<lambda>_. None) two_user_routes plain_request \<noteq> Unauthorized" by code_simp
qed (simp add: plain_request_def)

definition proxy_request :: http_request where
  "proxy_request = plain_request\<lparr>req_URLHost := ''a.com'', req_BasicAuth := None,
     req_ProxyAuthorization := ''Basic YWRtaW46eA==''\<rparr>"

definition b64_example :: "string \<Rightarrow> string option" where
  "b64_example s = (if s = ''YWRtaW46eA=='' then Some ''admin:x'' else None)"


section \<open>The muxer\<close>

abbreviation mux_routes :: "Muxer \<Rightarrow> route_key \<rightharpoonup> addr \<times> Listener" where
  "mux_routes v \<equiv> routes_abs (registryRouter v)"

definition listener_key :: "Listener \<Rightarrow> route_key" where
  "listener_key l = (lname l, llocation l, lrouteByHTTPUser l)"

text \<open>Every listener of the registry is open and listed under its own key.\<close>

definition mux_inv :: "Muxer \<Rightarrow> bool" where
  "mux_inv v \<longleftrightarrow> routers_inv (registryRouter v) \<and> (\<forall>a \<in> closedListeners v. a < nextListener v) \<and>
     (\<forall>k al. mux_routes v k = Some al \<longrightarrow>
        listener_key (snd al) = k \<and> fst al < nextListener v \<and> fst al \<notin> closedListeners v) \<and>
     (\<forall>k k' al al'. mux_routes v k = Some al \<longrightarrow> mux_routes v k' = Some al' \<longrightarrow> fst al = fst al' \<longrightarrow> k = k')"

lemma mux_invI:
  assumes "routers_inv (registryRouter v)" "\<And>a. a \<in> closedListeners v \<Longrightarrow> a < nextListener v"
    and "\<And>k al. mux_routes v k = Some al \<Longrightarrow>
      listener_key (snd al) = k \<and> fst al < nextListener v \<and> fst al \<notin> closedListeners v"
    and "\<And>k k' al al'. mux_routes v k = Some al \<Longrightarrow> mux_routes v k' = Some al' \<Longrightarrow> fst al = fst al' \<Longrightarrow> k = k'"
  shows "mux_inv v"
  using assms unfolding mux_inv_def by blast

lemma mux_inv_NewMuxer: "mux_inv NewMuxer"
proof (rule mux_invI)
  show "routers_inv (registryRouter NewMuxer)" by (simp add: NewMuxer_def routers_inv_def)
qed (auto simp: NewMuxer_def routes_abs_def Routers_exist_def NewRouters_def)

lemma mux_invD:
  assumes "mux_inv v"
  shows "routers_inv (registryRouter v)" "a \<in> closedListeners v \<Longrightarrow> a < nextListener v"
    "mux_routes v k = Some al \<Longrightarrow> listener_key (snd al) = k" "mux_routes v k = Some al \<Longrightarrow> fst al < nextListener v"
    "mux_routes v k = Some al \<Longrightarrow> fst al \<notin> closedListeners v"
    "mux_routes v k = Some al \<Longrightarrow> mux_routes v k' = Some al' \<Longrightarrow> fst al = fst al' \<Longrightarrow> k = k'"
  using assms unfolding mux_inv_def by blast+

lemma Muxer_Listen_entries:
  assumes "mux_inv v" "Muxer_Listen v cfg = (Inr al, v')"
  shows "mux_routes v' = (mux_routes v)(listener_key (snd al) \<mapsto> al)" "mux_routes v (listener_key (snd al)) = None"
    "listener_key (snd al) = (mDomain cfg, mLocation cfg, mRouteByHTTPUser cfg)"
    "fst al = nextListener v" "nextListener v' = Suc (nextListener v)" "closedListeners v' = closedListeners v"
    "routers_inv (registryRouter v')"
proof -
  have inv: "routers_inv (registryRouter v)" by (rule mux_invD(1) [OF assms(1)])
  have add: "Routers_Add (registryRouter v) (mDomain cfg) (mLocation cfg) (mRouteByHTTPUser cfg) al = Inr (registryRouter v')"
    and key: "listener_key (snd al) = (mDomain cfg, mLocation cfg, mRouteByHTTPUser cfg)"
    and rest: "fst al = nextListener v" "nextListener v' = Suc (nextListener v)" "closedListeners v' = closedListeners v"
    using assms(2) by (auto simp: Muxer_Listen_def Let_def listener_key_def split: sum.splits)
  show "mux_routes v' = (mux_routes v)(listener_key (snd al) \<mapsto> al)" "routers_inv (registryRouter v')"
    using routers.add_entries [OF inv add] routers.invar_add [OF inv add] key by simp_all
  show "mux_routes v (listener_key (snd al)) = None"
    using routers.add_conflict [OF inv, of "mDomain cfg" "mLocation cfg" "mRouteByHTTPUser cfg" al] add key
    by (metis isl_def sum.disc(2))
qed (use assms(2) in \<open>auto simp: Muxer_Listen_def Let_def listener_key_def split: sum.splits\<close>)

lemma Muxer_Listen_inv:
  assumes "mux_inv v" "Muxer_Listen v cfg = (r, v')"
  shows "mux_inv v'" "isl r \<Longrightarrow> mux_routes v' = mux_routes v"
proof -
  have "mux_inv v' \<and> (isl r \<longrightarrow> mux_routes v' = mux_routes v)"
  proof (cases r)
    case (Inl e)
    then have "v' = v\<lparr>nextListener := Suc (nextListener v)\<rparr>"
      using assms(2) by (auto simp: Muxer_Listen_def Let_def split: sum.splits)
    with assms(1) Inl show ?thesis by (auto simp: mux_inv_def less_SucI)
  next
    case (Inr al)
    with assms(2) have "Muxer_Listen v cfg = (Inr al, v')" by simp
    note new = Muxer_Listen_entries [OF assms(1) this]
    have old: "fst al' < Suc (nextListener v)" "fst al' \<noteq> nextListener v" if "mux_routes v k = Some al'" for k al'
      using mux_invD(4) [OF assms(1) that] by simp_all
    have "nextListener v \<notin> closedListeners v" using mux_invD(2) [OF assms(1)] by blast
    then have "mux_inv v'"
    proof (intro mux_invI)
      show "k = k'" if "mux_routes v' k = Some a1" "mux_routes v' k' = Some a2" "fst a1 = fst a2" for k k' a1 a2
        using that old(2) [of k a1] old(2) [of k' a2] mux_invD(6) [OF assms(1), of k a1 k' a2] new(4)
        unfolding new(1) by (auto split: if_splits)
      show "listener_key (snd a1) = k \<and> fst a1 < nextListener v' \<and> fst a1 \<notin> closedListeners v'"
        if "mux_routes v' k = Some a1" "nextListener v \<notin> closedListeners v" for k a1
        using that old(1) [of k a1] mux_invD(3,5) [OF assms(1), of k a1] new(4) unfolding new(1,5,6)
        by (auto split: if_splits)
    qed (use new(5-7) mux_invD(2) [OF assms(1)] in \<open>auto intro: less_SucI\<close>)
    with Inr show ?thesis by simp
  qed
  then show "mux_inv v'" "isl r \<Longrightarrow> mux_routes v' = mux_routes v" by auto
qed

lemma Listener_Close_listed:
  assumes "mux_inv v" "mux_routes v (listener_key (snd al)) = Some al"
  obtains v' where "Listener_Close al v = Some v'" "mux_inv v'"
    "mux_routes v' = (mux_routes v)(listener_key (snd al) := None)" "fst al \<in> closedListeners v'"
proof -
  let ?v = "v\<lparr>registryRouter := Routers_Del (registryRouter v) (lname (snd al)) (llocation (snd al)) (lrouteByHTTPUser (snd al)),
      closedListeners := insert (fst al) (closedListeners v)\<rparr>"
  have op: "fst al \<notin> closedListeners v" "fst al < nextListener v" "routers_inv (registryRouter v)"
    using mux_invD [OF assms(1)] assms(2) by auto
  have del: "mux_routes ?v = (mux_routes v)(listener_key (snd al) := None)"
    using routers.del_entries [OF op(3)] by (simp add: listener_key_def)
  have other: "fst al' \<noteq> fst al" if "mux_routes v k = Some al'" "k \<noteq> listener_key (snd al)" for k al'
    using that assms(2) mux_invD(6) [OF assms(1)] by blast
  show thesis
  proof (rule that)
    show "Listener_Close al v = Some ?v" using op(1) by (simp add: Listener_Close_def)
    show "mux_routes ?v = (mux_routes v)(listener_key (snd al) := None)" by (rule del)
    show "mux_inv ?v"
    proof (rule mux_invI)
      show "routers_inv (registryRouter ?v)" using routers.invar_del [OF op(3)] by simp
      show "a < nextListener ?v" if "a \<in> closedListeners ?v" for a
        using that op(2) mux_invD(2) [OF assms(1)] by auto
      show "listener_key (snd a1) = k \<and> fst a1 < nextListener ?v \<and> fst a1 \<notin> closedListeners ?v"
        if "mux_routes ?v k = Some a1" for k a1
        using that other [of k a1] mux_invD(3-5) [OF assms(1), of k a1] unfolding del by (auto split: if_splits)
      show "k = k'" if "mux_routes ?v k = Some a1" "mux_routes ?v k' = Some a2" "fst a1 = fst a2" for k k' a1 a2
        using that mux_invD(6) [OF assms(1), of k a1 k' a2] unfolding del by (auto split: if_splits)
    qed
  qed simp
qed

inductive mux_reach :: "Muxer \<Rightarrow> bool" where
  mstart: "mux_reach NewMuxer"
| mlisten: "mux_reach v \<Longrightarrow> Muxer_Listen v cfg = (r, v') \<Longrightarrow> mux_reach v'"
| mclose: "mux_reach v \<Longrightarrow> mux_routes v (listener_key (snd al)) = Some al \<Longrightarrow> Listener_Close al v = Some v' \<Longrightarrow>
    mux_reach v'"

lemma mux_reach_inv: "mux_reach v \<Longrightarrow> mux_inv v"
proof (induction rule: mux_reach.induct)
  case (mclose v al v')
  from Listener_Close_listed [OF mclose.IH mclose.hyps(2)] mclose.hyps(3) show ?case by auto
qed (auto simp: mux_inv_NewMuxer Muxer_Listen_inv)

text \<open>In every state that listening and closing can bring a muxer to, the listener that a
  successful \<open>Muxer_Listen\<close> returns can be closed, which restores the routes; closing it a second time
  panics. A connection is only ever delivered to a listener whose user name is unset or whose
  credentials passed the check.\<close>

lemma Muxer_listen_close:
  assumes "mux_reach v" "Muxer_Listen v cfg = (Inr al, v')"
  shows "(\<exists>v''. Listener_Close al v' = Some v'' \<and> mux_routes v'' = mux_routes v \<and> Listener_Close al v'' = None) \<and>
    (\<forall>w dl info hook chk ud al'. Muxer_handle w dl info hook (Some chk) ud = MuxDeliver al' \<longrightarrow>
       lusername (snd al') = [] \<or> chk (lusername (snd al')) (lpassword (snd al')))"
proof -
  note inv = mux_reach_inv [OF assms(1)]
  note new = Muxer_Listen_entries [OF inv assms(2)]
  have "mux_routes v' (listener_key (snd al)) = Some al" by (simp add: new(1))
  then obtain v'' where v'': "Listener_Close al v' = Some v''" "fst al \<in> closedListeners v''"
    "mux_routes v'' = (mux_routes v')(listener_key (snd al) := None)"
    by (rule Listener_Close_listed [OF Muxer_Listen_inv(1) [OF inv assms(2)]])
  with new(1,2) have "mux_routes v'' = mux_routes v" by (simp add: fun_upd_idem)
  moreover have "Listener_Close al v'' = None" using v''(2) by (simp add: Listener_Close_def)
  ultimately show ?thesis using v''(1) by (auto simp: Muxer_handle_def split: if_splits option.splits)
qed

end
