(* ===== verification/Ports.thy ===== *)
theory Ports
  imports Util
begin

text \<open>
  Model of \<^verbatim>\<open>server/ports/ports.go\<close>: the manager that hands out the remote ports of TCP and
  UDP proxies. The two Go maps \<^verbatim>\<open>reservedPorts\<close> and \<^verbatim>\<open>usedPorts\<close> hold pointers to shared
  \<^verbatim>\<open>PortCtx\<close> objects (closing a used port also marks the reservation), so the objects live in
  a store and the maps hold addresses. What the operating system answers to a bind attempt is
  the parameter \<open>os\<close>, the clock is \<open>now\<close> (in nanoseconds), and \<open>scan\<close> is the order in
  which the runtime enumerates the keys of a Go map: a key that is not in the map is never
  visited. The second half states the manager's contract as a locale, proves client lemmas
  in it and interprets it on the model.
\<close>

section \<open>State\<close>

datatype ports_error = ErrPortAlreadyUsed | ErrPortNotAllowed | ErrPortUnAvailable | ErrNoAvailablePort

definition MinPort :: int where "MinPort = 1"
definition MaxPort :: int where "MaxPort = 65535"
definition MaxPortReservedDuration :: int where "MaxPortReservedDuration = 24 * 3600 * 1000000000"

record PortCtx =
  ProxyName :: string
  Port :: int
  Closed :: bool
  UpdateTime :: int

record port_manager =
  reservedPorts :: "addr smap"
  usedPorts :: "int \<rightharpoonup> addr"
  freePorts :: "int set"
  bindAddr :: string
  netType :: string
  ctxs :: "PortCtx list"

text \<open>The outcome of \<^verbatim>\<open>net.ResolveUDPAddr\<close>, \<^verbatim>\<open>net.ListenUDP\<close> and \<^verbatim>\<open>net.Listen\<close>.\<close>

record os_net =
  resolve_udp_ok :: "string \<Rightarrow> bool"
  listen_udp_ok :: "string \<Rightarrow> bool"
  listen_ok :: "string \<Rightarrow> string \<Rightarrow> bool"

section \<open>Operations\<close>

definition NewPortManager :: "string \<Rightarrow> string \<Rightarrow> int set \<Rightarrow> port_manager" where
  "NewPortManager nt ba allowPorts =
     \<lparr>reservedPorts = Map.empty, usedPorts = Map.empty,
      freePorts = (if allowPorts \<noteq> {} then allowPorts else {MinPort..MaxPort}),
      bindAddr = ba, netType = nt, ctxs = []\<rparr>"

definition isPortAvailable :: "os_net \<Rightarrow> port_manager \<Rightarrow> int \<Rightarrow> bool" where
  "isPortAvailable os pm port =
     (let a = JoinHostPort (bindAddr pm) (Itoa port)
      in if netType pm = ''udp'' then
           (if \<not> resolve_udp_ok os a then False
            else if \<not> listen_udp_ok os a then False
            else True)
         else if \<not> listen_ok os (netType pm) a then False
         else True)"

text \<open>The assignments \<^verbatim>\<open>usedPorts[realPort] = portCtx\<close>, \<^verbatim>\<open>reservedPorts[name] = portCtx\<close>,
  \<^verbatim>\<open>delete(freePorts, realPort)\<close>, shared by the three branches.\<close>

definition take_port :: "string \<Rightarrow> addr \<Rightarrow> int \<Rightarrow> port_manager \<Rightarrow> port_manager" where
  "take_port name a p pm =
     pm\<lparr>usedPorts := (usedPorts pm)(p \<mapsto> a), reservedPorts := (reservedPorts pm)(name \<mapsto> a),
        freePorts := freePorts pm - {p}\<rparr>"

text \<open>
  The loop over \<^verbatim>\<open>freePorts\<close> with its counter: at most five keys are tried. The result is
  the value of \<^verbatim>\<open>realPort\<close> after the loop, 0 when nothing was taken.
\<close>

fun acquire_loop :: "os_net \<Rightarrow> string \<Rightarrow> addr \<Rightarrow> int list \<Rightarrow> nat \<Rightarrow> port_manager \<Rightarrow> int \<times> port_manager" where
  "acquire_loop os name a [] count pm = (0, pm)"
| "acquire_loop os name a (k # ks) count pm =
     (if Suc count > 5 then (0, pm)
      else if isPortAvailable os pm k then (k, take_port name a k pm)
      else acquire_loop os name a ks (Suc count) pm)"

definition set_ctx_port :: "addr \<Rightarrow> int \<Rightarrow> port_manager \<Rightarrow> port_manager" where
  "set_ctx_port a p pm = pm\<lparr>ctxs := (ctxs pm)[a := (ctxs pm ! a)\<lparr>Port := p\<rparr>]\<rparr>"

text \<open>The free keys in the order the runtime yields them.\<close>

definition free_keys :: "int list \<Rightarrow> port_manager \<Rightarrow> int list" where
  "free_keys scan pm = filter (\<lambda>k. k \<in> freePorts pm) scan"

definition PortManager_Acquire ::
  "os_net \<Rightarrow> int \<Rightarrow> int list \<Rightarrow> string \<Rightarrow> int \<Rightarrow> port_manager \<Rightarrow>
   (ports_error, int) result \<times> port_manager" where
  "PortManager_Acquire os now scan name port pm0 =
     (let a = length (ctxs pm0);
          pm = pm0\<lparr>ctxs := ctxs pm0 @ [\<lparr>ProxyName = name, Port = 0, Closed = False, UpdateTime = now\<rparr>]\<rparr>;
          reserved = (if port = 0 then
                        (case reservedPorts pm name of
                           None \<Rightarrow> None
                         | Some r \<Rightarrow>
                             if isPortAvailable os pm (Port (ctxs pm ! r))
                             then Some (Port (ctxs pm ! r)) else None)
                      else None)
      in case reserved of
           Some p \<Rightarrow> (Inr p, set_ctx_port a p (take_port name a p pm))
         | None \<Rightarrow>
             if port = 0 then
               (case acquire_loop os name a (free_keys scan pm) 0 pm of
                  (realPort, pm') \<Rightarrow>
                    if realPort = 0 then (Inl ErrNoAvailablePort, pm')
                    else (Inr realPort, set_ctx_port a realPort pm'))
             else if port \<in> freePorts pm then
               (if isPortAvailable os pm port
                then (Inr port, set_ctx_port a port (take_port name a port pm))
                else (Inl ErrPortUnAvailable, pm))
             else if usedPorts pm port \<noteq> None then (Inl ErrPortAlreadyUsed, pm)
             else (Inl ErrPortNotAllowed, pm))"

definition PortManager_Release :: "int \<Rightarrow> int \<Rightarrow> port_manager \<Rightarrow> port_manager" where
  "PortManager_Release now port pm =
     (case usedPorts pm port of
        Some a \<Rightarrow> pm\<lparr>freePorts := insert port (freePorts pm), usedPorts := (usedPorts pm)(port := None),
                    ctxs := (ctxs pm)[a := (ctxs pm ! a)\<lparr>Closed := True, UpdateTime := now\<rparr>]\<rparr>
      | None \<Rightarrow> pm)"

text \<open>One pass of \<^verbatim>\<open>cleanReservedPortsWorker\<close>.\<close>

definition cleanReservedPorts :: "int \<Rightarrow> port_manager \<Rightarrow> port_manager" where
  "cleanReservedPorts now pm =
     pm\<lparr>reservedPorts := (\<lambda>name. case reservedPorts pm name of
          None \<Rightarrow> None
        | Some a \<Rightarrow> if Closed (ctxs pm ! a) \<and> now - UpdateTime (ctxs pm ! a) > MaxPortReservedDuration
                   then None else Some a)\<rparr>"

section \<open>The invariant\<close>

text \<open>
  \<open>allowed\<close> is the set of ports the manager was created with. Every allowed port is either
  free or used and never both; a used port points to an open context that records that port,
  two used ports never share a context, and a reservation points to a context whose port is
  allowed and that carries the name of the proxy it was made for.
\<close>

definition pm_inv :: "int set \<Rightarrow> port_manager \<Rightarrow> bool" where
  "pm_inv allowed pm \<longleftrightarrow>
     freePorts pm \<inter> dom (usedPorts pm) = {} \<and>
     freePorts pm \<union> dom (usedPorts pm) = allowed \<and>
     (\<forall>p a. usedPorts pm p = Some a \<longrightarrow>
        a < length (ctxs pm) \<and> Port (ctxs pm ! a) = p \<and> \<not> Closed (ctxs pm ! a)) \<and>
     (\<forall>n a. reservedPorts pm n = Some a \<longrightarrow>
        a < length (ctxs pm) \<and> Port (ctxs pm ! a) \<in> allowed \<and> ProxyName (ctxs pm ! a) = n)"

lemma pm_invD:
  assumes "pm_inv allowed pm"
  shows "freePorts pm \<inter> dom (usedPorts pm) = {}" "freePorts pm \<union> dom (usedPorts pm) = allowed"
    "usedPorts pm p = Some a \<Longrightarrow> a < length (ctxs pm)"
    "usedPorts pm p = Some a \<Longrightarrow> Port (ctxs pm ! a) = p"
    "usedPorts pm p = Some a \<Longrightarrow> \<not> Closed (ctxs pm ! a)"
    "reservedPorts pm n = Some r \<Longrightarrow> r < length (ctxs pm)"
    "reservedPorts pm n = Some r \<Longrightarrow> Port (ctxs pm ! r) \<in> allowed"
    "reservedPorts pm n = Some r \<Longrightarrow> ProxyName (ctxs pm ! r) = n"
  using assms unfolding pm_inv_def by auto

lemma NewPortManager_inv:
  "pm_inv (if allowPorts \<noteq> {} then allowPorts else {1..65535}) (NewPortManager nt ba allowPorts)"
  by (simp add: pm_inv_def NewPortManager_def MinPort_def MaxPort_def)

text \<open>All three successful branches end in the same state.\<close>

definition acquired :: "int \<Rightarrow> string \<Rightarrow> int \<Rightarrow> port_manager \<Rightarrow> port_manager" where
  "acquired now name p pm =
     take_port name (length (ctxs pm)) p
       (pm\<lparr>ctxs := ctxs pm @ [\<lparr>ProxyName = name, Port = p, Closed = False, UpdateTime = now\<rparr>]\<rparr>)"

text \<open>A failed acquisition leaves an unreachable context behind and nothing else.\<close>

definition refused :: "int \<Rightarrow> string \<Rightarrow> port_manager \<Rightarrow> port_manager" where
  "refused now name pm =
     pm\<lparr>ctxs := ctxs pm @ [\<lparr>ProxyName = name, Port = 0, Closed = False, UpdateTime = now\<rparr>]\<rparr>"

lemma set_ctx_port_take_port:
  "set_ctx_port (length (ctxs pm)) p (take_port name (length (ctxs pm)) p (refused now name pm))
     = acquired now name p pm"
  by (simp add: set_ctx_port_def take_port_def refused_def acquired_def)

lemma refused_sel [simp]:
  "reservedPorts (refused now name pm) = reservedPorts pm"
  "usedPorts (refused now name pm) = usedPorts pm"
  "freePorts (refused now name pm) = freePorts pm"
  "length (ctxs (refused now name pm)) = Suc (length (ctxs pm))"
  "a < length (ctxs pm) \<Longrightarrow> ctxs (refused now name pm) ! a = ctxs pm ! a"
  by (simp_all add: refused_def nth_append)

lemma isPortAvailable_cong [simp]:
  "isPortAvailable os (refused now name pm) p = isPortAvailable os pm p"
  "isPortAvailable os (take_port name a q pm) p = isPortAvailable os pm p"
  by (simp_all add: isPortAvailable_def refused_def take_port_def)

text \<open>The loop takes the first available of the first five keys.\<close>

lemma acquire_loop_find:
  "acquire_loop os name a ks count pm =
     (case List.find (isPortAvailable os pm) (take (5 - count) ks) of
        None \<Rightarrow> (0, pm) | Some k \<Rightarrow> (k, take_port name a k pm))"
proof (induction os name a ks count pm rule: acquire_loop.induct)
  case (1 os name a count pm)
  then show ?case by simp
next
  case (2 os name a k ks count pm)
  show ?case
  proof (cases "Suc count > 5")
    case False
    then have "5 - count = Suc (5 - Suc count)" by simp
    with False 2 show ?thesis by (simp split: option.splits)
  qed simp
qed

text \<open>The two outcomes of \<open>PortManager_Acquire\<close>, for a manager that never hands out port 0.\<close>

definition reserved_choice :: "os_net \<Rightarrow> string \<Rightarrow> port_manager \<Rightarrow> int option" where
  "reserved_choice os name pm =
     (case reservedPorts pm name of
        None \<Rightarrow> None
      | Some r \<Rightarrow> if isPortAvailable os pm (Port (ctxs pm ! r)) then Some (Port (ctxs pm ! r)) else None)"

definition acquire_choice ::
  "os_net \<Rightarrow> int list \<Rightarrow> string \<Rightarrow> int \<Rightarrow> port_manager \<Rightarrow> (ports_error, int) result" where
  "acquire_choice os scan name port pm =
     (if port = 0 then
        (case reserved_choice os name pm of
           Some p \<Rightarrow> Inr p
         | None \<Rightarrow>
             (case List.find (isPortAvailable os pm) (take 5 (free_keys scan pm)) of
                Some k \<Rightarrow> Inr k | None \<Rightarrow> Inl ErrNoAvailablePort))
      else if port \<in> freePorts pm then
        (if isPortAvailable os pm port then Inr port else Inl ErrPortUnAvailable)
      else if usedPorts pm port \<noteq> None then Inl ErrPortAlreadyUsed
      else Inl ErrPortNotAllowed)"

lemma find_free_key:
  assumes "List.find P (take n (free_keys scan pm)) = Some k"
  shows "k \<in> freePorts pm" "P k"
  using find_SomeD [OF assms] by (auto dest!: in_set_takeD simp: free_keys_def)

lemma free_keys_refused [simp]: "free_keys scan (refused now name pm) = free_keys scan pm"
  by (simp add: free_keys_def refused_def)

lemma PortManager_Acquire_choice:
  assumes "pm_inv allowed pm" "0 \<notin> allowed"
  shows "PortManager_Acquire os now scan name port pm =
    (case acquire_choice os scan name port pm of
       Inl e \<Rightarrow> (Inl e, refused now name pm)
     | Inr p \<Rightarrow> (Inr p, acquired now name p pm))"
proof -
  let ?pm = "refused now name pm"
  have ctx: "ctxs ?pm ! r = ctxs pm ! r" if "reservedPorts pm name = Some r" for r
    using pm_invD(6) [OF assms(1) that] by simp
  have res: "(case reservedPorts ?pm name of None \<Rightarrow> None
      | Some r \<Rightarrow> if isPortAvailable os ?pm (Port (ctxs ?pm ! r)) then Some (Port (ctxs ?pm ! r)) else None)
      = reserved_choice os name pm"
    using ctx by (auto simp: reserved_choice_def split: option.split)
  have av: "isPortAvailable os ?pm = isPortAvailable os pm" by (rule ext) simp
  have fk: "k \<noteq> 0" if "List.find (isPortAvailable os pm) (take 5 (free_keys scan pm)) = Some k" for k
    using find_free_key(1) [OF that] pm_invD(2) [OF assms(1)] assms(2) by auto
  show ?thesis
    unfolding PortManager_Acquire_def Let_def refused_def [symmetric] res acquire_loop_find
      acquire_choice_def
    using fk by (auto simp: set_ctx_port_take_port av split: option.split)
qed

section \<open>Preservation\<close>

lemma refused_inv: "pm_inv allowed pm \<Longrightarrow> pm_inv allowed (refused now name pm)"
  unfolding pm_inv_def by (auto intro: less_SucI)

lemma acquired_sel [simp]:
  "usedPorts (acquired now name p pm) = (usedPorts pm)(p \<mapsto> length (ctxs pm))"
  "reservedPorts (acquired now name p pm) = (reservedPorts pm)(name \<mapsto> length (ctxs pm))"
  "freePorts (acquired now name p pm) = freePorts pm - {p}"
  "length (ctxs (acquired now name p pm)) = Suc (length (ctxs pm))"
  "a < length (ctxs pm) \<Longrightarrow> ctxs (acquired now name p pm) ! a = ctxs pm ! a"
  "ctxs (acquired now name p pm) ! length (ctxs pm) =
     \<lparr>ProxyName = name, Port = p, Closed = False, UpdateTime = now\<rparr>"
  by (simp_all add: acquired_def take_port_def nth_append)

lemma acquired_inv:
  assumes "pm_inv allowed pm" "p \<in> allowed"
  shows "pm_inv allowed (acquired now name p pm)"
  using assms unfolding pm_inv_def by (auto intro: less_SucI)

lemma acquire_choice_allowed:
  assumes "pm_inv allowed pm" "acquire_choice os scan name port pm = Inr p"
  shows "p \<in> allowed" "isPortAvailable os pm p" "port \<noteq> 0 \<Longrightarrow> p = port"
proof -
  have u: "freePorts pm \<subseteq> allowed" using pm_invD(2) [OF assms(1)] by auto
  show "p \<in> allowed" "isPortAvailable os pm p" "port \<noteq> 0 \<Longrightarrow> p = port"
    using assms(2) u find_free_key [of "isPortAvailable os pm" 5 scan pm p] pm_invD(7) [OF assms(1)]
    by (auto simp: acquire_choice_def reserved_choice_def split: if_splits option.splits)
qed

lemma PortManager_Acquire_inv:
  assumes "pm_inv allowed pm" "0 \<notin> allowed"
  shows "pm_inv allowed (snd (PortManager_Acquire os now scan name port pm))"
  using PortManager_Acquire_choice [OF assms, of os now scan name port]
    acquire_choice_allowed(1) [OF assms(1)] assms(1)
  by (auto simp: refused_inv acquired_inv split: sum.splits)

lemma PortManager_Release_inv:
  assumes "pm_inv allowed pm"
  shows "pm_inv allowed (PortManager_Release now port pm)"
proof (cases "usedPorts pm port")
  case None
  with assms show ?thesis by (simp add: PortManager_Release_def)
next
  case (Some a)
  have "b \<noteq> a" if "usedPorts pm p = Some b" "p \<noteq> port" for p b
    using pm_invD(4) [OF assms that(1)] pm_invD(4) [OF assms Some] that(2) by auto
  with Some assms show ?thesis
    unfolding pm_inv_def PortManager_Release_def
    by (auto simp: nth_list_update domIff split: if_splits)
qed

lemma cleanReservedPorts_inv: "pm_inv allowed pm \<Longrightarrow> pm_inv allowed (cleanReservedPorts now pm)"
  unfolding pm_inv_def cleanReservedPorts_def by (auto split: option.splits if_splits)

section \<open>The contract of a port allocator\<close>

text \<open>
  What the proxies and the TCP groups rely on: a success adds the returned port to the held
  set, a requested port is granted exactly or not at all and never while it is held, an
  error changes nothing, and releasing gives the port back.
\<close>

locale port_alloc =
  fixes acquire :: "string \<Rightarrow> int \<Rightarrow> 's \<Rightarrow> ('e, int) result \<times> 's"
    and release :: "int \<Rightarrow> 's \<Rightarrow> 's"
    and held :: "'s \<Rightarrow> int set"
    and invar :: "'s \<Rightarrow> bool"
  assumes acquire_held: "invar s \<Longrightarrow> acquire n p s = (Inr q, s') \<Longrightarrow> held s' = insert q (held s)"
    and acquire_exact: "invar s \<Longrightarrow> p \<noteq> 0 \<Longrightarrow> acquire n p s = (Inr q, s') \<Longrightarrow> q = p \<and> q \<notin> held s"
    and acquire_error: "invar s \<Longrightarrow> acquire n p s = (Inl e, s') \<Longrightarrow> held s' = held s"
    and release_held: "invar s \<Longrightarrow> held (release p s) = held s - {p}"
    and invar_acquire: "invar s \<Longrightarrow> invar (snd (acquire n p s))"
    and invar_release: "invar s \<Longrightarrow> invar (release p s)"
begin

lemma acquire_release:
  assumes "invar s" "acquire n p s = (Inr q, s')" "q \<notin> held s"
  shows "held (release q s') = held s"
proof -
  have "invar s'" using invar_acquire [OF assms(1), of n p] assms(2) by simp
  then have "held (release q s') = held s' - {q}" by (rule release_held)
  with acquire_held [OF assms(1,2)] assms(3) show ?thesis by auto
qed

lemma acquire_invar: "invar s \<Longrightarrow> acquire n p s = (r, s') \<Longrightarrow> invar s'"
  using invar_acquire [of s n p] by simp

text \<open>A requested port that is held is refused, and the held set stays as it was.\<close>

lemma acquire_held_port_refused:
  assumes "invar s" "p \<noteq> 0" "p \<in> held s"
  shows "isl (fst (acquire n p s)) \<and> held (snd (acquire n p s)) = held s"
proof (cases "acquire n p s")
  case (Pair r s')
  show ?thesis
  proof (cases r)
    case (Inl e)
    with Pair acquire_error [OF assms(1)] show ?thesis by simp
  next
    case (Inr q)
    with Pair acquire_exact [OF assms(1,2)] assms(3) show ?thesis by blast
  qed
qed

end

definition pm_ok :: "port_manager \<Rightarrow> bool" where
  "pm_ok pm \<longleftrightarrow> (let allowed = freePorts pm \<union> dom (usedPorts pm) in 0 \<notin> allowed \<and> pm_inv allowed pm)"

lemma pm_okI: "pm_inv allowed pm \<Longrightarrow> 0 \<notin> allowed \<Longrightarrow> pm_ok pm"
  using pm_invD(2) [of allowed pm] by (simp add: pm_ok_def)

lemma pm_okE: "pm_ok pm \<Longrightarrow> (\<And>allowed. pm_inv allowed pm \<Longrightarrow> 0 \<notin> allowed \<Longrightarrow> P) \<Longrightarrow> P"
  unfolding pm_ok_def Let_def by blast

text \<open>The ports a manager may ever grant.\<close>

definition pm_total :: "port_manager \<Rightarrow> int set" where
  "pm_total pm = freePorts pm \<union> dom (usedPorts pm)"

lemma pm_total_acquire: "pm_ok pm \<Longrightarrow> PortManager_Acquire os now scan name port pm = (x, pm') \<Longrightarrow> pm_total pm' = pm_total pm"
  by (metis pm_total_def pm_okE pm_invD(2) PortManager_Acquire_inv snd_conv)

lemma pm_total_release: "pm_ok pm \<Longrightarrow> pm_total (PortManager_Release now port pm) = pm_total pm"
  by (metis pm_total_def pm_okE pm_invD(2) PortManager_Release_inv)

lemma PortManager_Release_held:
  "dom (usedPorts (PortManager_Release now p pm)) = dom (usedPorts pm) - {p}"
  by (auto simp: PortManager_Release_def split: option.splits)

interpretation pmgr: port_alloc "PortManager_Acquire os now scan" "PortManager_Release now'"
  "\<lambda>pm. dom (usedPorts pm)" pm_ok for os now scan now'
proof unfold_locales
  fix s n p q s'
  assume ok: "pm_ok s" and a: "PortManager_Acquire os now scan n p s = (Inr q, s')"
  from ok obtain allowed where inv: "pm_inv allowed s" "0 \<notin> allowed" by (rule pm_okE)
  with a have c: "acquire_choice os scan n p s = Inr q" and s': "s' = acquired now n q s"
    using PortManager_Acquire_choice [OF inv, of os now scan n p] by (auto split: sum.splits)
  show "dom (usedPorts s') = insert q (dom (usedPorts s))" by (simp add: s')
  assume "p \<noteq> 0"
  with c pm_invD(1) [OF inv(1)] show "q = p \<and> q \<notin> dom (usedPorts s)"
    by (auto simp: acquire_choice_def split: if_splits)
next
  fix s n p e s'
  assume ok: "pm_ok s" and a: "PortManager_Acquire os now scan n p s = (Inl e, s')"
  from ok obtain allowed where inv: "pm_inv allowed s" "0 \<notin> allowed" by (rule pm_okE)
  with a show "dom (usedPorts s') = dom (usedPorts s)"
    using PortManager_Acquire_choice [OF inv, of os now scan n p] by (auto split: sum.splits)
next
  fix s n p
  assume "pm_ok s"
  then show "pm_ok (snd (PortManager_Acquire os now scan n p s))"
    by (metis pm_okE pm_okI PortManager_Acquire_inv)
next
  fix s p
  assume "pm_ok s"
  then show "pm_ok (PortManager_Release now' p s)" by (metis pm_okE pm_okI PortManager_Release_inv)
qed (rule PortManager_Release_held)

section \<open>Reachable managers\<close>

inductive port_step :: "port_manager \<Rightarrow> port_manager \<Rightarrow> bool" where
  acquire: "port_step pm (snd (PortManager_Acquire os now scan name port pm))"
| release: "port_step pm (PortManager_Release now port pm)"
| clean: "port_step pm (cleanReservedPorts now pm)"

inductive port_reach :: "port_manager \<Rightarrow> port_manager \<Rightarrow> bool" for pm0 where
  start: "port_reach pm0 pm0"
| step: "port_reach pm0 pm \<Longrightarrow> port_step pm pm' \<Longrightarrow> port_reach pm0 pm'"

lemma port_step_inv: "port_step pm pm' \<Longrightarrow> pm_inv allowed pm \<Longrightarrow> 0 \<notin> allowed \<Longrightarrow> pm_inv allowed pm'"
  by (induction rule: port_step.induct)
    (auto intro: PortManager_Acquire_inv PortManager_Release_inv cleanReservedPorts_inv)

text \<open>C6: in every state that any interleaving of acquisitions, releases and clean-up passes can
  reach from a new manager, each allowed port is free or used but never both, no other port is
  ever handed out, every used port belongs to an open context of its own that records it, and
  every reservation names an allowed port.\<close>

theorem port_manager_invariant:
  assumes "port_reach (NewPortManager nt ba allowPorts) pm" "0 \<notin> allowPorts"
  shows "pm_inv (if allowPorts \<noteq> {} then allowPorts else {1..65535}) pm"
  using assms
proof (induction rule: port_reach.induct)
  case start
  show ?case by (rule NewPortManager_inv)
next
  case (step pm pm')
  then show ?case by (intro port_step_inv [of pm pm']) auto
qed

text \<open>An operating system on which every bind succeeds, for the concrete examples.\<close>

definition os_all :: os_net where
  "os_all = \<lparr>resolve_udp_ok = (\<lambda>_. True), listen_udp_ok = (\<lambda>_. True), listen_ok = (\<lambda>_ _. True)\<rparr>"

theorem port_manager_invariant_witness:
  "pm_inv {7000, 7001}
     (snd (PortManager_Acquire os_all 5 [7000, 7001] ''ssh'' 0 (NewPortManager ''tcp'' ''0.0.0.0'' {7000, 7001})))"
proof -
  have "port_reach (NewPortManager ''tcp'' ''0.0.0.0'' {7000, 7001})
     (snd (PortManager_Acquire os_all 5 [7000, 7001] ''ssh'' 0 (NewPortManager ''tcp'' ''0.0.0.0'' {7000, 7001})))"
    by (rule port_reach.step [OF port_reach.start port_step.acquire])
  from port_manager_invariant [OF this] show ?thesis by simp
qed

text \<open>The documented behaviour of a bind: an address that is in use cannot be bound again.\<close>

definition os_honest :: "os_net \<Rightarrow> port_manager \<Rightarrow> bool" where
  "os_honest os pm \<longleftrightarrow> (\<forall>p \<in> dom (usedPorts pm). \<not> isPortAvailable os pm p)"

lemma acquire_fresh:
  assumes "pm_inv allowed pm" "0 \<notin> allowed" "os_honest os pm"
    and "PortManager_Acquire os now scan name port pm = (Inr p, pm')"
  shows "usedPorts pm p = None" "p \<in> allowed" "isPortAvailable os pm p" "pm' = acquired now name p pm"
proof -
  have c: "acquire_choice os scan name port pm = Inr p" and pm': "pm' = acquired now name p pm"
    using PortManager_Acquire_choice [OF assms(1,2), of os now scan name port] assms(4)
    by (auto split: sum.splits)
  note ok = acquire_choice_allowed [OF assms(1) c]
  with assms(3) show "usedPorts pm p = None" "p \<in> allowed" "isPortAvailable os pm p"
    by (auto simp: os_honest_def)
  show "pm' = acquired now name p pm" by (rule pm')
qed





end
