(* ===== verification/TCP_Group.thy ===== *)
theory TCP_Group
  imports Ports
begin

text \<open>
  Model of \<^verbatim>\<open>server/group/group.go\<close> and \<^verbatim>\<open>server/group/tcp.go\<close>: load balancing groups of TCP
  proxies that share one real listener and one port of the port manager. Groups and their
  listeners are heap objects (a listener keeps a pointer to its group after the controller
  has forgotten the group), so both live in stores. \<^verbatim>\<open>TCPGroupCtl.Listen\<close> looks its group up
  under one lock and listens under another; the two critical sections are separate
  definitions, so that interleavings can be expressed.
\<close>

section \<open>State\<close>

datatype group_error =
    ErrGroupAuthFailed | ErrGroupParamsInvalid | ErrListenerClosed | ErrGroupDifferentPort | ErrProxyRepeated
  | PortError ports_error | NetListenError | RouteConflict | UnknownMultiplexer string

text \<open>The texts of the errors; \<open>osText\<close> is that of a failed bind.\<close>

definition port_error_text :: "ports_error \<Rightarrow> string" where
  "port_error_text e =
     (case e of ErrPortAlreadyUsed \<Rightarrow> ''port already used'' | ErrPortNotAllowed \<Rightarrow> ''port not allowed''
      | ErrPortUnAvailable \<Rightarrow> ''port unavailable'' | ErrNoAvailablePort \<Rightarrow> ''no available port'')"

definition group_error_text :: "string \<Rightarrow> group_error \<Rightarrow> string" where
  "group_error_text osText e =
     (case e of ErrGroupAuthFailed \<Rightarrow> ''group auth failed'' | ErrGroupParamsInvalid \<Rightarrow> ''group params invalid''
      | ErrListenerClosed \<Rightarrow> ''group listener closed'' | ErrGroupDifferentPort \<Rightarrow> ''group should have same remote port''
      | ErrProxyRepeated \<Rightarrow> ''group proxy repeated'' | PortError pe \<Rightarrow> port_error_text pe
      | NetListenError \<Rightarrow> osText | RouteConflict \<Rightarrow> ''router config conflict''
      | UnknownMultiplexer m \<Rightarrow> ''unknown multiplexer ['' @ m @ '']'')"

record TCPGroup =
  tgroup :: string
  tgroupKey :: string
  taddr :: string
  tport :: int
  trealPort :: int
  tlistenAddr :: "string option"
  tacceptClosed :: bool
  tlns :: "addr list"

record TCPGroupListener =
  lgroupName :: string
  lgroup :: addr
  lclosed :: bool

record TCPGroupCtl =
  tgroups :: "addr smap"
  tportManager :: port_manager
  tgs :: "TCPGroup list"
  tlisteners :: "TCPGroupListener list"

section \<open>Operations\<close>

definition NewTCPGroupCtl :: "port_manager \<Rightarrow> TCPGroupCtl" where
  "NewTCPGroupCtl pm = \<lparr>tgroups = Map.empty, tportManager = pm, tgs = [], tlisteners = []\<rparr>"

definition NewTCPGroup :: TCPGroup where
  "NewTCPGroup = \<lparr>tgroup = [], tgroupKey = [], taddr = [], tport = 0, trealPort = 0,
     tlistenAddr = None, tacceptClosed = False, tlns = []\<rparr>"

definition newTCPGroupListener :: "string \<Rightarrow> addr \<Rightarrow> TCPGroupListener" where
  "newTCPGroupListener name gid = \<lparr>lgroupName = name, lgroup = gid, lclosed = False\<rparr>"

text \<open>The first critical section of \<^verbatim>\<open>TCPGroupCtl.Listen\<close>: find or create the group.\<close>

definition TCPGroupCtl_lookup :: "string \<Rightarrow> TCPGroupCtl \<Rightarrow> addr \<times> TCPGroupCtl" where
  "TCPGroupCtl_lookup grp st =
     (case tgroups st grp of
        Some gid \<Rightarrow> (gid, st)
      | None \<Rightarrow>
          (length (tgs st),
           st\<lparr>tgs := tgs st @ [NewTCPGroup], tgroups := (tgroups st)(grp \<mapsto> length (tgs st))\<rparr>))"

definition TCPGroupCtl_RemoveGroup :: "string \<Rightarrow> TCPGroupCtl \<Rightarrow> TCPGroupCtl" where
  "TCPGroupCtl_RemoveGroup grp st = st\<lparr>tgroups := (tgroups st)(grp := None)\<rparr>"

text \<open>The new listener is appended to the group's list in both branches.\<close>

definition add_listener :: "addr \<Rightarrow> string \<Rightarrow> TCPGroup \<Rightarrow> TCPGroupCtl \<Rightarrow> TCPGroupCtl" where
  "add_listener gid grp tg st =
     st\<lparr>tlisteners := tlisteners st @ [newTCPGroupListener grp gid],
        tgs := (tgs st)[gid := tg\<lparr>tlns := tlns tg @ [length (tlisteners st)]\<rparr>]\<rparr>"

definition TCPGroup_Listen ::
  "os_net \<Rightarrow> int \<Rightarrow> int list \<Rightarrow> addr \<Rightarrow> string \<Rightarrow> string \<Rightarrow> string \<Rightarrow> string \<Rightarrow> int \<Rightarrow> TCPGroupCtl \<Rightarrow>
   (group_error, addr \<times> int) result \<times> TCPGroupCtl" where
  "TCPGroup_Listen os now scan gid proxyName grp groupKey address port st =
     (let tg = tgs st ! gid; ln = length (tlisteners st)
      in if tlns tg = [] then
           (case PortManager_Acquire os now scan proxyName port (tportManager st) of
              (Inl e, pm) \<Rightarrow> (Inl (PortError e), st\<lparr>tportManager := pm\<rparr>)
            | (Inr realPort, pm) \<Rightarrow>
                if \<not> listen_ok os ''tcp'' (JoinHostPort address (Itoa port))
                then (Inl NetListenError, st\<lparr>tportManager := pm\<rparr>)
                else
                  (Inr (ln, realPort),
                   add_listener gid grp
                     (tg\<lparr>tgroup := grp, tgroupKey := groupKey, taddr := address, tport := port,
                         trealPort := realPort, tlistenAddr := Some (JoinHostPort address (Itoa port))\<rparr>)
                     (st\<lparr>tportManager := pm\<rparr>)))
         else if tgroup tg \<noteq> grp \<or> taddr tg \<noteq> address then (Inl ErrGroupParamsInvalid, st)
         else if tport tg \<noteq> port then (Inl ErrGroupDifferentPort, st)
         else if tgroupKey tg \<noteq> groupKey then (Inl ErrGroupAuthFailed, st)
         else (Inr (ln, trealPort tg), add_listener gid grp tg st))"

definition TCPGroupCtl_Listen ::
  "os_net \<Rightarrow> int \<Rightarrow> int list \<Rightarrow> string \<Rightarrow> string \<Rightarrow> string \<Rightarrow> string \<Rightarrow> int \<Rightarrow> TCPGroupCtl \<Rightarrow>
   (group_error, addr \<times> int) result \<times> TCPGroupCtl" where
  "TCPGroupCtl_Listen os now scan proxyName grp groupKey address port st =
     (case TCPGroupCtl_lookup grp st of
        (gid, st1) \<Rightarrow> TCPGroup_Listen os now scan gid proxyName grp groupKey address port st1)"

text \<open>\<open>None\<close> is the run-time panic of closing a closed channel.\<close>

definition TCPGroup_CloseListener :: "int \<Rightarrow> addr \<Rightarrow> addr \<Rightarrow> TCPGroupCtl \<Rightarrow> TCPGroupCtl option" where
  "TCPGroup_CloseListener now gid ln st =
     (let tg = (tgs st ! gid)\<lparr>tlns := remove1 ln (tlns (tgs st ! gid))\<rparr>
      in if tlns tg = [] then
           (if tacceptClosed tg then None
            else Some (TCPGroupCtl_RemoveGroup (tgroup tg)
              (st\<lparr>tgs := (tgs st)[gid := tg\<lparr>tacceptClosed := True, tlistenAddr := None\<rparr>],
                  tportManager := PortManager_Release now (trealPort tg) (tportManager st)\<rparr>)))
         else Some (st\<lparr>tgs := (tgs st)[gid := tg]\<rparr>))"

definition TCPGroupListener_Close :: "int \<Rightarrow> addr \<Rightarrow> TCPGroupCtl \<Rightarrow> TCPGroupCtl option" where
  "TCPGroupListener_Close now ln st =
     (let l = tlisteners st ! ln
      in if lclosed l then None
         else TCPGroup_CloseListener now (lgroup l) ln
                (st\<lparr>tlisteners := (tlisteners st)[ln := l\<lparr>lclosed := True\<rparr>]\<rparr>))"

text \<open>
  \<^verbatim>\<open>TCPGroupListener.Accept\<close>: which branch of the \<^verbatim>\<open>select\<close> is ready is the environment's
  choice: \<open>recv\<close> is what the group's channel yields (\<open>None\<close> when nothing is ready).
\<close>

datatype 'c accept_outcome = AcceptBlocks | AcceptErr group_error | AcceptConn 'c

definition TCPGroupListener_Accept :: "bool \<Rightarrow> 'c option option \<Rightarrow> 'c accept_outcome" where
  "TCPGroupListener_Accept prefer_close recv =
     (if prefer_close then AcceptErr ErrListenerClosed
      else (case recv of
          None \<Rightarrow> AcceptBlocks
        | Some None \<Rightarrow> AcceptErr ErrListenerClosed
        | Some (Some c) \<Rightarrow> AcceptConn c))"

section \<open>Invariant\<close>

text \<open>
  An open group is the one registered under its name, holds its real port, has an open accept
  channel and lists exactly its open listeners; two open groups hold different ports.
\<close>

definition group_ok :: "TCPGroupCtl \<Rightarrow> addr \<Rightarrow> bool" where
  "group_ok st gid \<longleftrightarrow>
     (let g = tgs st ! gid in
        distinct (tlns g) \<and>
        (tlns g \<noteq> [] \<longrightarrow> tgroups st (tgroup g) = Some gid \<and>
           trealPort g \<in> dom (usedPorts (tportManager st)) \<and> \<not> tacceptClosed g) \<and>
        (\<forall>ln \<in> set (tlns g). ln < length (tlisteners st) \<and> lgroup (tlisteners st ! ln) = gid \<and>
           \<not> lclosed (tlisteners st ! ln)))"

definition tcp_inv :: "TCPGroupCtl \<Rightarrow> bool" where
  "tcp_inv st \<longleftrightarrow>
     pm_ok (tportManager st) \<and>
     (\<forall>n gid. tgroups st n = Some gid \<longrightarrow> gid < length (tgs st) \<and> \<not> tacceptClosed (tgs st ! gid)) \<and>
     (\<forall>n m gid. tgroups st n = Some gid \<and> tgroups st m = Some gid \<longrightarrow> n = m) \<and>
     (\<forall>gid < length (tgs st). group_ok st gid) \<and>
     (\<forall>g < length (tgs st). \<forall>h < length (tgs st).
        g \<noteq> h \<and> tlns (tgs st ! g) \<noteq> [] \<and> tlns (tgs st ! h) \<noteq> [] \<longrightarrow>
        trealPort (tgs st ! g) \<noteq> trealPort (tgs st ! h)) \<and>
     (\<forall>ln < length (tlisteners st). \<not> lclosed (tlisteners st ! ln) \<longrightarrow>
        lgroup (tlisteners st ! ln) < length (tgs st) \<and>
        ln \<in> set (tlns (tgs st ! lgroup (tlisteners st ! ln))))"

lemma tcp_invD:
  assumes "tcp_inv st"
  shows "pm_ok (tportManager st)"
    "tgroups st n = Some gid \<Longrightarrow> gid < length (tgs st)"
    "tgroups st n = Some gid \<Longrightarrow> \<not> tacceptClosed (tgs st ! gid)"
    "tgroups st n = Some gid \<Longrightarrow> tgroups st m = Some gid \<Longrightarrow> n = m"
    "gid < length (tgs st) \<Longrightarrow> group_ok st gid"
    "g < length (tgs st) \<Longrightarrow> h < length (tgs st) \<Longrightarrow> g \<noteq> h \<Longrightarrow> tlns (tgs st ! g) \<noteq> [] \<Longrightarrow>
       tlns (tgs st ! h) \<noteq> [] \<Longrightarrow> trealPort (tgs st ! g) \<noteq> trealPort (tgs st ! h)"
    "ln < length (tlisteners st) \<Longrightarrow> \<not> lclosed (tlisteners st ! ln) \<Longrightarrow>
       lgroup (tlisteners st ! ln) < length (tgs st) \<and> ln \<in> set (tlns (tgs st ! lgroup (tlisteners st ! ln)))"
  using assms unfolding tcp_inv_def by blast+

lemma tcp_invI [case_names pm reg inj ok ports lns]:
  assumes "pm_ok (tportManager st)"
    "\<And>n gid. tgroups st n = Some gid \<Longrightarrow> gid < length (tgs st) \<and> \<not> tacceptClosed (tgs st ! gid)"
    "\<And>n m gid. tgroups st n = Some gid \<Longrightarrow> tgroups st m = Some gid \<Longrightarrow> n = m"
    "\<And>gid. gid < length (tgs st) \<Longrightarrow> group_ok st gid"
    "\<And>g h. g < length (tgs st) \<Longrightarrow> h < length (tgs st) \<Longrightarrow> g \<noteq> h \<Longrightarrow> tlns (tgs st ! g) \<noteq> [] \<Longrightarrow>
       tlns (tgs st ! h) \<noteq> [] \<Longrightarrow> trealPort (tgs st ! g) \<noteq> trealPort (tgs st ! h)"
    "\<And>ln. ln < length (tlisteners st) \<Longrightarrow> \<not> lclosed (tlisteners st ! ln) \<Longrightarrow>
       lgroup (tlisteners st ! ln) < length (tgs st) \<and> ln \<in> set (tlns (tgs st ! lgroup (tlisteners st ! ln)))"
  shows "tcp_inv st"
  using assms unfolding tcp_inv_def by blast

lemma group_okD:
  assumes "group_ok st gid"
  shows "distinct (tlns (tgs st ! gid))"
    "tlns (tgs st ! gid) \<noteq> [] \<Longrightarrow> tgroups st (tgroup (tgs st ! gid)) = Some gid"
    "tlns (tgs st ! gid) \<noteq> [] \<Longrightarrow> trealPort (tgs st ! gid) \<in> dom (usedPorts (tportManager st))"
    "tlns (tgs st ! gid) \<noteq> [] \<Longrightarrow> \<not> tacceptClosed (tgs st ! gid)"
    "ln \<in> set (tlns (tgs st ! gid)) \<Longrightarrow> ln < length (tlisteners st)"
    "ln \<in> set (tlns (tgs st ! gid)) \<Longrightarrow> lgroup (tlisteners st ! ln) = gid"
    "ln \<in> set (tlns (tgs st ! gid)) \<Longrightarrow> \<not> lclosed (tlisteners st ! ln)"
  using assms unfolding group_ok_def Let_def by blast+

lemma NewTCPGroupCtl_inv: "pm_ok pm \<Longrightarrow> tcp_inv (NewTCPGroupCtl pm)"
  by (simp add: tcp_inv_def NewTCPGroupCtl_def)

lemma lookup_inv:
  assumes "tcp_inv st" "TCPGroupCtl_lookup grp st = (gid, st')"
  shows "tcp_inv st'" "tgroups st' grp = Some gid" "tportManager st' = tportManager st"
    "tlisteners st' = tlisteners st"
proof -
  show "tgroups st' grp = Some gid" "tportManager st' = tportManager st" "tlisteners st' = tlisteners st"
    using assms(2) by (auto simp: TCPGroupCtl_lookup_def split: option.splits)
  show "tcp_inv st'"
  proof (cases "tgroups st grp")
    case (Some g)
    with assms show ?thesis by (simp add: TCPGroupCtl_lookup_def)
  next
    case None
    note D = tcp_invD [OF assms(1)]
    have fresh: "tgroups st n \<noteq> Some (length (tgs st))" for n using D(2) [of n "length (tgs st)"] by auto
    have st': "tgs st' = tgs st @ [NewTCPGroup]" "tgroups st' = (tgroups st)(grp \<mapsto> length (tgs st))"
      "tportManager st' = tportManager st" "tlisteners st' = tlisteners st"
      using None assms(2) by (auto simp: TCPGroupCtl_lookup_def)
    show ?thesis
    proof (rule tcp_invI, goal_cases)
      case 1 show ?case using D(1) st' by simp
    next
      case (2 n g)
      then show ?case using D(2,3) [of n g] st' by (auto simp: nth_append NewTCPGroup_def split: if_splits)
    next
      case (3 n m g)
      then show ?case using D(4) fresh st' by (auto split: if_splits)
    next
      case (4 g)
      show ?case
      proof (cases "g < length (tgs st)")
        case True
        have "tgroups st' (tgroup (tgs st ! g)) = Some g" if "tlns (tgs st ! g) \<noteq> []"
          using group_okD(2) [OF D(5) [OF True] that] st' None by auto
        with True D(5) [OF True] st' show ?thesis by (simp add: group_ok_def Let_def nth_append)
      next
        case False
        with 4 st' show ?thesis by (simp add: group_ok_def Let_def NewTCPGroup_def less_Suc_eq)
      qed
    next
      case (5 g h)
      then show ?case using D(6) [of g h] st' by (auto simp: nth_append NewTCPGroup_def less_Suc_eq split: if_splits)
    next
      case (6 ln)
      then show ?case using D(7) [of ln] st' by (auto simp: nth_append)
    qed
  qed
qed

text \<open>Adding a listener to a registered group that is open, or that has just been opened on a
  port that no other group holds.\<close>

lemma add_listener_inv:
  assumes inv: "tcp_inv st" and gid: "tgroups st grp = Some gid"
    and pm: "pm_ok pm" "dom (usedPorts (tportManager st)) \<subseteq> dom (usedPorts pm)"
    and tg: "tlns tg = tlns (tgs st ! gid)" "tgroup tg = grp" "tacceptClosed tg = tacceptClosed (tgs st ! gid)"
      "trealPort tg \<in> dom (usedPorts pm)"
    and port: "\<And>h. h < length (tgs st) \<Longrightarrow> h \<noteq> gid \<Longrightarrow> tlns (tgs st ! h) \<noteq> [] \<Longrightarrow>
      trealPort tg \<noteq> trealPort (tgs st ! h)"
  shows "tcp_inv (add_listener gid grp tg (st\<lparr>tportManager := pm\<rparr>))" (is "tcp_inv ?st")
proof -
  note D = tcp_invD [OF inv]
  note gl = D(2) [OF gid] and ok = group_okD [OF D(5) [OF D(2) [OF gid]]]
  have st: "tgs ?st = (tgs st)[gid := tg\<lparr>tlns := tlns (tgs st ! gid) @ [length (tlisteners st)]\<rparr>]"
    "tgroups ?st = tgroups st" "tportManager ?st = pm"
    "tlisteners ?st = tlisteners st @ [newTCPGroupListener grp gid]"
    using tg(1) by (simp_all add: add_listener_def)
  show ?thesis
  proof (rule tcp_invI, goal_cases)
    case 1 show ?case using pm(1) st by simp
  next
    case (2 n g)
    then show ?case using D(2,3) [of n g] D(3) [OF gid] tg(3) gl st by (auto simp: nth_list_update)
  next
    case (3 n m g)
    then show ?case using D(4) st by simp
  next
    case (4 g)
    show ?case
    proof (cases "g = gid")
      case True
      have "length (tlisteners st) \<notin> set (tlns (tgs st ! gid))" using ok(5) by blast
      with True ok(1,5,6,7) D(3) [OF gid] gl gid tg(2-4) st show ?thesis
        by (auto simp: group_ok_def Let_def nth_append newTCPGroupListener_def less_SucI)
    next
      case False
      with 4 st have "g < length (tgs st)" by simp
      note okg = group_okD [OF D(5) [OF this]]
      have "trealPort (tgs st ! g) \<in> dom (usedPorts pm)" if "tlns (tgs st ! g) \<noteq> []"
        using okg(3) [OF that] pm(2) by blast
      with False okg(1,2,4,5,6,7) st show ?thesis
        by (auto simp: group_ok_def Let_def nth_append less_SucI)
    qed
  next
    case (5 g h)
    then show ?case using D(6) [of g h] port [of g] port [of h] st gl
      by (auto simp: nth_list_update split: if_splits)
  next
    case (6 ln)
    show ?case
    proof (cases "ln < length (tlisteners st)")
      case True
      with 6 D(7) [of ln] st gl show ?thesis by (auto simp: nth_append nth_list_update)
    next
      case False
      with 6 gl st show ?thesis by (auto simp: nth_append newTCPGroupListener_def less_Suc_eq)
    qed
  qed
qed

text \<open>Changing only the port manager, keeping every port that was held.\<close>

lemma set_pm_inv:
  assumes "tcp_inv st" "pm_ok pm" "dom (usedPorts (tportManager st)) \<subseteq> dom (usedPorts pm)"
  shows "tcp_inv (st\<lparr>tportManager := pm\<rparr>)"
proof -
  note D = tcp_invD [OF assms(1)]
  show ?thesis
  proof (rule tcp_invI, goal_cases)
    case (4 gid)
    then have "group_ok st gid" using D(5) by simp
    with assms(3) show ?case by (auto simp: group_ok_def Let_def)
  qed (use assms(2) D in \<open>auto\<close>)
qed

lemma acquire_pm:
  assumes "pm_ok pm" "PortManager_Acquire os now scan name port pm = (r, pm')"
  shows "pm_ok pm'" "dom (usedPorts pm) \<subseteq> dom (usedPorts pm')"
    "r = Inr p \<Longrightarrow> p \<in> dom (usedPorts pm')"
    "r = Inr p \<Longrightarrow> os_honest os pm \<Longrightarrow> p \<notin> dom (usedPorts pm)"
proof -
  show "pm_ok pm'" using pmgr.acquire_invar [OF assms] .
  show "dom (usedPorts pm) \<subseteq> dom (usedPorts pm')"
    using pmgr.acquire_held [OF assms(1)] pmgr.acquire_error [OF assms(1)] assms(2) by (cases r) blast+
  show "r = Inr p \<Longrightarrow> p \<in> dom (usedPorts pm')" using pmgr.acquire_held [OF assms(1)] assms(2) by blast
  assume r: "r = Inr p" and h: "os_honest os pm"
  from assms(1) obtain allowed where "pm_inv allowed pm" "0 \<notin> allowed" by (rule pm_okE)
  from acquire_fresh(1) [OF this h, of now scan name port p pm'] assms(2) r
  show "p \<notin> dom (usedPorts pm)" by auto
qed

lemma TCPGroup_Listen_inv:
  assumes inv: "tcp_inv st" and gid: "tgroups st grp = Some gid"
    and os: "os_honest os (tportManager st)"
    and eq: "TCPGroup_Listen os now scan gid name grp key address port st = (r, st')"
  shows "tcp_inv st'"
proof (cases "tlns (tgs st ! gid) = []")
  case True
  obtain q pm where acq: "PortManager_Acquire os now scan name port (tportManager st) = (q, pm)" by fastforce
  note A = acquire_pm [OF tcp_invD(1) [OF inv] acq]
  show ?thesis
  proof (cases q)
    case (Inl e)
    with True eq acq set_pm_inv [OF inv A(1,2)] show ?thesis by (simp add: TCPGroup_Listen_def)
  next
    case (Inr p)
    have fresh: "p \<noteq> trealPort (tgs st ! h)" if "h < length (tgs st)" "tlns (tgs st ! h) \<noteq> []" for h
      using group_okD(3) [OF tcp_invD(5) [OF inv that(1)] that(2)] A(4) [OF Inr os] by blast
    let ?tg = "(tgs st ! gid)\<lparr>tgroup := grp, tgroupKey := key, taddr := address, tport := port,
       trealPort := p, tlistenAddr := Some (JoinHostPort address (Itoa port))\<rparr>"
    have "tcp_inv (add_listener gid grp ?tg (st\<lparr>tportManager := pm\<rparr>))"
      by (rule add_listener_inv [OF inv gid A(1,2)]) (use A(3) [OF Inr] fresh in auto)
    with True Inr eq acq set_pm_inv [OF inv A(1,2)] show ?thesis
      by (auto simp: TCPGroup_Listen_def split: if_splits)
  qed
next
  case False
  note D = tcp_invD [OF inv] and gl = tcp_invD(2) [OF inv gid]
  have "tcp_inv (add_listener gid grp (tgs st ! gid) (st\<lparr>tportManager := tportManager st\<rparr>))"
    if "tgroup (tgs st ! gid) = grp"
    by (rule add_listener_inv [OF inv gid D(1)])
      (use that group_okD(3) [OF D(5) [OF gl] False] D(6) [OF gl _ _ False] in auto)
  with False eq inv show ?thesis by (auto simp: TCPGroup_Listen_def Let_def split: if_splits)
qed

text \<open>Closing an open listener: the last one of its group, or another one.\<close>

lemma close_last_inv:
  assumes inv: "tcp_inv st" and gl: "gid < length (tgs st)" and ln: "ln < length (tlisteners st)"
    and last: "tlns (tgs st ! gid) = [ln]"
    and st': "tgroups st' = (tgroups st)(tgroup (tgs st ! gid) := None)"
      "tportManager st' = PortManager_Release now (trealPort (tgs st ! gid)) (tportManager st)"
      "tgs st' = (tgs st)[gid := g']" "tlns g' = []"
      "tlisteners st' = (tlisteners st)[ln := (tlisteners st ! ln)\<lparr>lclosed := True\<rparr>]"
  shows "tcp_inv st'"
proof -
  note D = tcp_invD [OF inv] and ok = group_okD [OF tcp_invD(5) [OF inv gl]]
  have ne: "tlns (tgs st ! gid) \<noteq> []" and lg: "lgroup (tlisteners st ! ln) = gid"
    using last ok(6) [of ln] by auto
  have only: "tgroups st' n \<noteq> Some gid" for n using D(4) [OF ok(2) [OF ne], of n] st'(1) by auto
  show ?thesis
  proof (rule tcp_invI, goal_cases)
    case 1 show ?case using pmgr.invar_release [OF D(1)] st' by simp
  next
    case (2 n g)
    then have "tgroups st n = Some g" using st' by (auto split: if_splits)
    with 2 D(2,3) [of n g] only [of n] st' gl show ?case by (auto simp: nth_list_update)
  next
    case (3 n m g)
    then show ?case using D(4) st' by (auto split: if_splits)
  next
    case (4 g)
    show ?case
    proof (cases "g = gid")
      case False
      with 4 st' have g: "g < length (tgs st)" by simp
      note okg = group_okD [OF D(5) [OF g]]
      have "tgroups st' (tgroup (tgs st ! g)) = Some g \<and>
          trealPort (tgs st ! g) \<in> dom (usedPorts (tportManager st'))" if neg: "tlns (tgs st ! g) \<noteq> []"
        using okg(2,3) [OF neg] ok(2) [OF ne] False D(6) [OF g gl False neg ne]
        unfolding st'(1,2) by (auto simp: pmgr.release_held [OF D(1)])
      moreover have "l \<noteq> ln" if "l \<in> set (tlns (tgs st ! g))" for l using okg(6) [OF that] False lg by auto
      ultimately show ?thesis using False okg(1,4,5,6,7) st' ln
        by (auto simp: group_ok_def Let_def nth_list_update)
    qed (use gl st' in \<open>simp add: group_ok_def\<close>)
  next
    case (5 g h)
    then show ?case using D(6) [of g h] st' gl by (auto simp: nth_list_update split: if_splits)
  next
    case (6 l)
    then have "l \<noteq> ln" using ln st' by auto
    with 6 D(7) [of l] st' last gl show ?case by (auto simp: nth_list_update)
  qed
qed

lemma close_more_inv:
  assumes inv: "tcp_inv st" and gl: "gid < length (tgs st)" and ln: "ln < length (tlisteners st)"
    and mem: "ln \<in> set (tlns (tgs st ! gid))" and more: "remove1 ln (tlns (tgs st ! gid)) \<noteq> []"
    and st': "st' = st\<lparr>tlisteners := (tlisteners st)[ln := (tlisteners st ! ln)\<lparr>lclosed := True\<rparr>],
      tgs := (tgs st)[gid := (tgs st ! gid)\<lparr>tlns := remove1 ln (tlns (tgs st ! gid))\<rparr>]\<rparr>"
  shows "tcp_inv st'"
proof -
  note D = tcp_invD [OF inv] and ok = group_okD [OF tcp_invD(5) [OF inv gl]]
  have ne: "tlns (tgs st ! gid) \<noteq> []" using mem by auto
  have rem: "l \<in> set (remove1 ln (tlns (tgs st ! gid))) \<longleftrightarrow> l \<in> set (tlns (tgs st ! gid)) \<and> l \<noteq> ln" for l
    using ok(1) by (simp add: distinct_set_remove1)
  show ?thesis
  proof (rule tcp_invI, goal_cases)
    case 1 show ?case using D(1) st' by simp
  next
    case (2 n g)
    then show ?case using D(2,3) [of n g] gl st' by (auto simp: nth_list_update)
  next
    case (3 n m g)
    then show ?case using D(4) st' by simp
  next
    case (4 g)
    then have g: "g < length (tgs st)" using st' by simp
    note okg = group_okD [OF D(5) [OF g]]
    show ?case
    proof (cases "g = gid")
      case True
      with gl ok(1) ok(2-4) [OF ne] ok(5-7) ln st' show ?thesis
        by (auto simp: group_ok_def Let_def nth_list_update rem)
    next
      case False
      have "l \<noteq> ln" if "l \<in> set (tlns (tgs st ! g))" for l using okg(6) [OF that] False ok(6) [OF mem] by auto
      with False okg ln st' show ?thesis by (auto simp: group_ok_def Let_def nth_list_update)
    qed
  next
    case (5 g h)
    then show ?case using D(6) [of g h] ne gl st' by (auto simp: nth_list_update split: if_splits)
  next
    case (6 l)
    then have "l \<noteq> ln" using ln st' by auto
    with 6 D(7) [of l] gl ln st' show ?case by (auto simp: nth_list_update rem)
  qed
qed

lemma TCPGroupListener_Close_inv:
  assumes inv: "tcp_inv st" and ln: "ln < length (tlisteners st)" "\<not> lclosed (tlisteners st ! ln)"
    and gid: "gid = lgroup (tlisteners st ! ln)"
  obtains st' where "TCPGroupListener_Close now ln st = Some st'" "tcp_inv st'"
    "lclosed (tlisteners st' ! ln)"
    "dom (usedPorts (tportManager st')) = dom (usedPorts (tportManager st)) -
         (if tlns (tgs st ! gid) = [ln] then {trealPort (tgs st ! gid)} else {})"
    "tgroups st' = (if tlns (tgs st ! gid) = [ln] then (tgroups st)(tgroup (tgs st ! gid) := None) else tgroups st)"
proof -
  note D = tcp_invD [OF inv]
  have gl: "gid < length (tgs st)" and mem: "ln \<in> set (tlns (tgs st ! gid))"
    using D(7) [OF ln] by (auto simp: gid)
  note ok = group_okD [OF D(5) [OF gl]]
  have ne: "tlns (tgs st ! gid) \<noteq> []" using mem by auto
  show ?thesis
  proof (cases "tlns (tgs st ! gid) = [ln]")
    case True
    let ?g = "(tgs st ! gid)\<lparr>tlns := [], tacceptClosed := True, tlistenAddr := None\<rparr>"
    let ?st = "st\<lparr>tlisteners := (tlisteners st)[ln := (tlisteners st ! ln)\<lparr>lclosed := True\<rparr>],
      tgs := (tgs st)[gid := ?g], tgroups := (tgroups st)(tgroup (tgs st ! gid) := None),
      tportManager := PortManager_Release now (trealPort (tgs st ! gid)) (tportManager st)\<rparr>"
    have c: "TCPGroupListener_Close now ln st = Some ?st"
      using ln(2) ok(4) [OF ne] True
      by (simp add: TCPGroupListener_Close_def TCPGroup_CloseListener_def gid [symmetric]
          TCPGroupCtl_RemoveGroup_def)
    have "tcp_inv ?st" by (rule close_last_inv [OF inv gl ln(1) True, where g' = ?g]) simp_all
    with c ln(1) True show ?thesis
      by (intro that [of ?st]) (auto simp: pmgr.release_held [OF D(1)])
  next
    case False
    then have more: "remove1 ln (tlns (tgs st ! gid)) \<noteq> []"
      using mem ok(1) by (cases "tlns (tgs st ! gid)") (auto split: if_splits)
    let ?st = "st\<lparr>tlisteners := (tlisteners st)[ln := (tlisteners st ! ln)\<lparr>lclosed := True\<rparr>],
      tgs := (tgs st)[gid := (tgs st ! gid)\<lparr>tlns := remove1 ln (tlns (tgs st ! gid))\<rparr>]\<rparr>"
    have "TCPGroupListener_Close now ln st = Some ?st"
      using more ln(2)
      by (simp add: TCPGroupListener_Close_def TCPGroup_CloseListener_def gid [symmetric])
    with close_more_inv [OF inv gl ln(1) mem more refl] ln(1) False show ?thesis
      by (intro that [of ?st]) auto
  qed
qed

section \<open>Reachable states\<close>

text \<open>The controller's operations, each run to completion; a \<open>Close\<close> is of an open listener.\<close>

inductive tcp_reach :: "TCPGroupCtl \<Rightarrow> bool" where
  start: "pm_ok pm \<Longrightarrow> tcp_reach (NewTCPGroupCtl pm)"
| listen: "tcp_reach st \<Longrightarrow> os_honest os (tportManager st) \<Longrightarrow>
    TCPGroupCtl_Listen os now scan name grp key address port st = (r, st') \<Longrightarrow> tcp_reach st'"
| close: "tcp_reach st \<Longrightarrow> ln < length (tlisteners st) \<Longrightarrow> \<not> lclosed (tlisteners st ! ln) \<Longrightarrow>
    TCPGroupListener_Close now ln st = Some st' \<Longrightarrow> tcp_reach st'"

lemma TCPGroupCtl_Listen_inv:
  assumes "tcp_inv st" "os_honest os (tportManager st)"
    and "TCPGroupCtl_Listen os now scan name grp key address port st = (r, st')"
  shows "tcp_inv st'"
proof -
  obtain gid st1 where l: "TCPGroupCtl_lookup grp st = (gid, st1)" by fastforce
  note L = lookup_inv [OF assms(1) l]
  from assms(3) l have "TCPGroup_Listen os now scan gid name grp key address port st1 = (r, st')"
    by (simp add: TCPGroupCtl_Listen_def)
  with L assms(2) show ?thesis by (intro TCPGroup_Listen_inv [OF L(1,2)]) auto
qed

lemma tcp_reach_inv: "tcp_reach st \<Longrightarrow> tcp_inv st"
proof (induction rule: tcp_reach.induct)
  case (start pm)
  then show ?case by (rule NewTCPGroupCtl_inv)
next
  case (listen st os now scan name grp key address port r st')
  show ?case by (rule TCPGroupCtl_Listen_inv [OF listen.IH listen.hyps(2,3)])
next
  case (close st ln now st')
  from close.IH close.hyps(2,3) refl obtain st'' where "TCPGroupListener_Close now ln st = Some st''" "tcp_inv st''"
    by (rule TCPGroupListener_Close_inv)
  with close.hyps(4) show ?case by simp
qed


definition example_pm :: port_manager where
  "example_pm = NewPortManager ''tcp'' ''0.0.0.0'' {7000, 7001}"

definition one_listener :: TCPGroupCtl where
  "one_listener = snd (TCPGroupCtl_Listen os_all 1 [] ''ssh1'' ''grp'' ''key'' ''0.0.0.0'' 7000 (NewTCPGroupCtl example_pm))"

lemmas group_eval = TCPGroupCtl_Listen_def TCPGroupCtl_lookup_def NewTCPGroupCtl_def TCPGroup_Listen_def
  PortManager_Acquire_def NewPortManager_def isPortAvailable_def os_all_def NewTCPGroup_def add_listener_def
  set_ctx_port_def take_port_def newTCPGroupListener_def Let_def

lemma example_pm_ok: "pm_ok example_pm"
  unfolding example_pm_def by (rule pm_okI [OF NewPortManager_inv]) simp

lemma one_listener_reach: "tcp_reach one_listener"
proof -
  have "os_honest os_all (tportManager (NewTCPGroupCtl example_pm))"
    by (simp add: os_honest_def NewTCPGroupCtl_def example_pm_def NewPortManager_def)
  from tcp_reach.listen [OF tcp_reach.start [OF example_pm_ok] this prod.collapse [symmetric]]
  show ?thesis unfolding one_listener_def .
qed


section \<open>Joining, leaking, racing\<close>

text \<open>Joining an open group succeeds exactly when the bind address, the requested port and
  the group key are those of the group; it then yields the group's real port and leaves every
  port and every other group alone, and a refusal names the first mismatch and changes
  nothing.\<close>

lemma tcp_group_join:
  assumes "tcp_reach st" "tgroups st grp = Some gid" "tlns (tgs st ! gid) \<noteq> []"
  shows "TCPGroupCtl_Listen os now scan name grp key address port st =
    (if taddr (tgs st ! gid) \<noteq> address then (Inl ErrGroupParamsInvalid, st)
     else if tport (tgs st ! gid) \<noteq> port then (Inl ErrGroupDifferentPort, st)
     else if tgroupKey (tgs st ! gid) \<noteq> key then (Inl ErrGroupAuthFailed, st)
     else (Inr (length (tlisteners st), trealPort (tgs st ! gid)),
           add_listener gid grp (tgs st ! gid) st))"
proof -
  note inv = tcp_reach_inv [OF assms(1)]
  have gl: "gid < length (tgs st)" by (rule tcp_invD(2) [OF inv assms(2)])
  have "tgroup (tgs st ! gid) = grp"
    using tcp_invD(4) [OF inv assms(2)] group_okD(2) [OF tcp_invD(5) [OF inv gl] assms(3)] by blast
  with assms(2,3) show ?thesis
    by (simp add: TCPGroupCtl_Listen_def TCPGroupCtl_lookup_def TCPGroup_Listen_def Let_def)
qed

lemma one_listener_group:
  "tgroups one_listener ''grp'' = Some 0" "tlns (tgs one_listener ! 0) \<noteq> []"
  "taddr (tgs one_listener ! 0) = ''0.0.0.0''" "tport (tgs one_listener ! 0) = 7000"
  "tgroupKey (tgs one_listener ! 0) = ''key''"
  by (simp_all add: one_listener_def example_pm_def group_eval)

text \<open>When the first listener of a group gets its port but the bind of the real address
  fails, the error return does not give the port back: it stays used although no open group
  holds it.\<close>

lemma tcp_group_listen_leaks_port:
  assumes "tcp_reach st" "os_honest os (tportManager st)" "tgroups st grp = None"
    and "PortManager_Acquire os now scan name port (tportManager st) = (Inr p, pm)"
    and "\<not> listen_ok os ''tcp'' (JoinHostPort address (Itoa port))"
    and "TCPGroupCtl_Listen os now scan name grp key address port st = (r, st')"
  shows "r = Inl NetListenError \<and> p \<in> dom (usedPorts (tportManager st')) \<and>
    (\<forall>g < length (tgs st'). tlns (tgs st' ! g) \<noteq> [] \<longrightarrow> trealPort (tgs st' ! g) \<noteq> p)"
proof -
  note inv = tcp_reach_inv [OF assms(1)]
  note A = acquire_pm [OF tcp_invD(1) [OF inv] assms(4)]
  have r: "r = Inl NetListenError" "tportManager st' = pm" "tgs st' = tgs st @ [NewTCPGroup]"
    using assms(3-6)
    by (auto simp: TCPGroupCtl_Listen_def TCPGroupCtl_lookup_def TCPGroup_Listen_def NewTCPGroup_def)
  have "trealPort (tgs st' ! g) \<noteq> p" if "g < length (tgs st')" "tlns (tgs st' ! g) \<noteq> []" for g
  proof -
    have g: "g < length (tgs st)" using that r(3) by (auto simp: NewTCPGroup_def nth_append split: if_splits)
    with that r(3) have "tlns (tgs st ! g) \<noteq> []" by (simp add: nth_append)
    from group_okD(3) [OF tcp_invD(5) [OF inv g] this] A(4) [OF refl assms(2)] g r(3)
    show ?thesis by (auto simp: nth_append)
  qed
  with r A(3) [OF refl] show ?thesis by simp
qed

text \<open>An operating system on which only the address of port 7000 on all interfaces can be bound.\<close>

definition os_one :: os_net where
  "os_one = os_all\<lparr>listen_ok := (\<lambda>_ a. a = ''0.0.0.0:7000'')\<rparr>"

lemma Itoa_7000: "Itoa 7000 = ''7000''"
  by (simp add: Itoa_def nat_digits.simps digit_char_def char_of_eq_iff)

text \<open>The first listener of a group binds the requested port, not the port it acquired: a
  group that asks for any port (0) advertises its acquired port while the listener is bound
  to an address ending in port 0.\<close>

lemma tcp_group_port_zero_bind:
  assumes "tcp_reach st" "tgroups st grp = None"
    and "TCPGroupCtl_Listen os now scan name grp key address 0 st = (Inr (ln, p), st')"
  shows "p \<noteq> 0 \<and> trealPort (tgs st' ! length (tgs st)) = p \<and>
    tlistenAddr (tgs st' ! length (tgs st)) = Some (JoinHostPort address (Itoa 0))"
proof -
  note inv = tcp_reach_inv [OF assms(1)]
  obtain q pm where acq: "PortManager_Acquire os now scan name 0 (tportManager st) = (q, pm)" by fastforce
  from assms(2,3) acq have q: "q = Inr p" and st': "trealPort (tgs st' ! length (tgs st)) = p"
    "tlistenAddr (tgs st' ! length (tgs st)) = Some (JoinHostPort address (Itoa 0))"
    by (auto simp: TCPGroupCtl_Listen_def TCPGroupCtl_lookup_def TCPGroup_Listen_def NewTCPGroup_def
        add_listener_def Let_def split: sum.splits if_splits)
  have "p \<in> dom (usedPorts pm)" "pm_ok pm"
    using acquire_pm [OF tcp_invD(1) [OF inv] acq] q by auto
  then have "p \<noteq> 0" by (auto simp: pm_ok_def Let_def)
  with st' show ?thesis by simp
qed

text \<open>The lookup and the listen of one registration are two critical sections. When the last
  listener of the group is closed between them, the registration succeeds on a group that the
  controller has already forgotten, and closing that listener closes a closed channel, which
  panics.\<close>

lemma tcp_group_close_race:
  "let (gid, st1) = TCPGroupCtl_lookup ''grp'' one_listener;
       st2 = the (TCPGroupListener_Close 5 0 st1);
       (r, st3) = TCPGroup_Listen os_all 6 [] gid ''ssh2'' ''grp'' ''key'' ''0.0.0.0'' 7000 st2
   in r = Inr (1, 7000) \<and> tgroups st3 ''grp'' = None \<and> TCPGroupListener_Close 9 1 st3 = None"
  by (simp add: one_listener_def example_pm_def group_eval TCPGroupListener_Close_def
      TCPGroup_CloseListener_def TCPGroupCtl_RemoveGroup_def PortManager_Release_def)

end
