(* ===== verification/HTTP_Group.thy ===== *)
theory HTTP_Group
  imports Vhost TCP_Group "HOL-Library.Word" "HOL-Library.AList" "HOL-Library.Multiset"
begin

text \<open>
  Model of \<^verbatim>\<open>server/group/http.go\<close>: load balancing groups of HTTP proxies behind one route of
  the virtual host table. A group picks its members in turn with an atomic 64-bit counter,
  which is kept as a \<open>64 word\<close>: the code converts it to a signed \<^verbatim>\<open>int\<close> before taking the
  remainder. Connection functions are references: \<open>ProxyConn\<close> is the method
  \<^verbatim>\<open>GetRealConn\<close> of a proxy, \<open>GroupConn\<close> a method of the group object at an address.
\<close>

section \<open>State\<close>

datatype conn_ref = ProxyConn string | GroupConn addr

record HTTPGroup =
  hgroup :: string
  hgroupKey :: string
  hdomain :: string
  hlocation :: string
  hrouteByHTTPUser :: string
  createFuncs :: "(string \<times> conn_ref option) list"
  pxyNames :: "string list"
  index :: "64 word"

record HTTPGroupController =
  hgroups :: "addr smap"
  vhostRouter :: "conn_ref http_routes"
  hgs :: "HTTPGroup list"

definition NewHTTPGroupController :: "conn_ref http_routes \<Rightarrow> HTTPGroupController" where
  "NewHTTPGroupController r = \<lparr>hgroups = Map.empty, vhostRouter = r, hgs = []\<rparr>"

definition NewHTTPGroup :: HTTPGroup where
  "NewHTTPGroup = \<lparr>hgroup = [], hgroupKey = [], hdomain = [], hlocation = [], hrouteByHTTPUser = [],
     createFuncs = [], pxyNames = [], index = 0\<rparr>"

section \<open>Registration\<close>

text \<open>The first critical section of \<^verbatim>\<open>HTTPGroupController.Register\<close>.\<close>

definition HTTPGroupController_lookup :: "string \<Rightarrow> HTTPGroupController \<Rightarrow> addr \<times> HTTPGroupController" where
  "HTTPGroupController_lookup indexKey st =
     (case hgroups st indexKey of
        Some gid \<Rightarrow> (gid, st)
      | None \<Rightarrow>
          (length (hgs st),
           st\<lparr>hgs := hgs st @ [NewHTTPGroup], hgroups := (hgroups st)(indexKey \<mapsto> length (hgs st))\<rparr>))"

text \<open>The last part of \<^verbatim>\<open>HTTPGroup.Register\<close>: refuse a repeated proxy, else append it.\<close>

definition add_member :: "addr \<Rightarrow> string \<Rightarrow> conn_ref option \<Rightarrow> HTTPGroupController \<Rightarrow>
   (group_error, unit) result \<times> HTTPGroupController" where
  "add_member gid proxyName fn st =
     (let g = hgs st ! gid
      in if map_of (createFuncs g) proxyName \<noteq> None then (Inl ErrProxyRepeated, st)
         else (Inr (), st\<lparr>hgs := (hgs st)[gid := g\<lparr>createFuncs := createFuncs g @ [(proxyName, fn)],
                                                  pxyNames := pxyNames g @ [proxyName]\<rparr>]\<rparr>))"

definition HTTPGroup_Register ::
  "addr \<Rightarrow> string \<Rightarrow> string \<Rightarrow> string \<Rightarrow> conn_ref RouteConfig \<Rightarrow> HTTPGroupController \<Rightarrow>
   (group_error, unit) result \<times> HTTPGroupController" where
  "HTTPGroup_Register gid proxyName grp groupKey rc st =
     (let g = hgs st ! gid
      in if createFuncs g = [] then
           (let tmp = rc\<lparr>CreateConnFn := Some (GroupConn gid), ChooseEndpointFn := Some (GroupConn gid),
                         CreateConnByEndpointFn := Some (GroupConn gid)\<rparr>
            in case Routers_Add (vhostRouter st) (Domain rc) (Location rc) (RouteByHTTPUser rc) tmp of
                 Inl _ \<Rightarrow> (Inl RouteConflict, st)
               | Inr r \<Rightarrow>
                   add_member gid proxyName (CreateConnFn rc)
                     (st\<lparr>vhostRouter := r,
                         hgs := (hgs st)[gid := g\<lparr>hgroup := grp, hgroupKey := groupKey, hdomain := Domain rc,
                           hlocation := Location rc, hrouteByHTTPUser := RouteByHTTPUser rc\<rparr>]\<rparr>))
         else if hgroup g \<noteq> grp \<or> hdomain g \<noteq> Domain rc \<or> hlocation g \<noteq> Location rc \<or>
                 hrouteByHTTPUser g \<noteq> RouteByHTTPUser rc then (Inl ErrGroupParamsInvalid, st)
         else if hgroupKey g \<noteq> groupKey then (Inl ErrGroupAuthFailed, st)
         else add_member gid proxyName (CreateConnFn rc) st)"

definition HTTPGroupController_Register ::
  "string \<Rightarrow> string \<Rightarrow> string \<Rightarrow> conn_ref RouteConfig \<Rightarrow> HTTPGroupController \<Rightarrow>
   (group_error, unit) result \<times> HTTPGroupController" where
  "HTTPGroupController_Register proxyName grp groupKey rc st =
     (case HTTPGroupController_lookup grp st of
        (gid, st1) \<Rightarrow> HTTPGroup_Register gid proxyName grp groupKey rc st1)"

definition HTTPGroup_UnRegister :: "addr \<Rightarrow> string \<Rightarrow> HTTPGroupController \<Rightarrow> bool \<times> HTTPGroupController" where
  "HTTPGroup_UnRegister gid proxyName st =
     (let g = hgs st ! gid;
          g' = g\<lparr>createFuncs := AList.delete proxyName (createFuncs g), pxyNames := remove1 proxyName (pxyNames g)\<rparr>;
          st' = st\<lparr>hgs := (hgs st)[gid := g']\<rparr>
      in if createFuncs g' = [] then
           (True, st'\<lparr>vhostRouter := Routers_Del (vhostRouter st) (hdomain g) (hlocation g) (hrouteByHTTPUser g)\<rparr>)
         else (False, st'))"

definition HTTPGroupController_UnRegister :: "string \<Rightarrow> string \<Rightarrow> HTTPGroupController \<Rightarrow> HTTPGroupController" where
  "HTTPGroupController_UnRegister proxyName grp st =
     (case hgroups st grp of
        None \<Rightarrow> st
      | Some gid \<Rightarrow>
          (case HTTPGroup_UnRegister gid proxyName st of
             (isEmpty, st') \<Rightarrow> if isEmpty then st'\<lparr>hgroups := (hgroups st')(grp := None)\<rparr> else st'))"

section \<open>Picking a member\<close>

datatype 'a pick = PickPanic | PickError | Picked 'a

text \<open>\<^verbatim>\<open>g.pxyNames[int(newIndex)%len(g.pxyNames)]\<close>; a negative index panics.\<close>

definition pick_name :: "64 word \<Rightarrow> string list \<Rightarrow> string pick" where
  "pick_name newIndex names =
     (if names = [] then PickError
      else (let i = rem (sint newIndex) (int (length names))
            in if i < 0 then PickPanic else Picked (names ! nat i)))"

definition HTTPGroup_createConn :: "HTTPGroup \<Rightarrow> conn_ref pick \<times> HTTPGroup" where
  "HTTPGroup_createConn g =
     (let newIndex = index g + 1; g' = g\<lparr>index := newIndex\<rparr>
      in case pick_name newIndex (pxyNames g) of
           PickPanic \<Rightarrow> (PickPanic, g')
         | PickError \<Rightarrow> (PickError, g')
         | Picked name \<Rightarrow>
             (case map_of (createFuncs g) name of
                Some (Some f) \<Rightarrow> (Picked f, g')
              | _ \<Rightarrow> (PickError, g')))"

definition HTTPGroup_chooseEndpoint :: "HTTPGroup \<Rightarrow> string pick \<times> HTTPGroup" where
  "HTTPGroup_chooseEndpoint g =
     (let newIndex = index g + 1; g' = g\<lparr>index := newIndex\<rparr>
      in case pick_name newIndex (pxyNames g) of
           PickPanic \<Rightarrow> (PickPanic, g')
         | PickError \<Rightarrow> (PickError, g')
         | Picked name \<Rightarrow> if name = [] then (PickError, g') else (Picked name, g'))"

definition HTTPGroup_createConnByEndpoint :: "string \<Rightarrow> HTTPGroup \<Rightarrow> conn_ref pick" where
  "HTTPGroup_createConnByEndpoint endpoint g =
     (case map_of (createFuncs g) endpoint of Some (Some f) \<Rightarrow> Picked f | _ \<Rightarrow> PickError)"

section \<open>Round robin\<close>

fun choose_times :: "nat \<Rightarrow> HTTPGroup \<Rightarrow> string pick list \<times> HTTPGroup" where
  "choose_times 0 g = ([], g)"
| "choose_times (Suc n) g =
     (case HTTPGroup_chooseEndpoint g of (p, g1) \<Rightarrow>
        (case choose_times n g1 of (ps, g2) \<Rightarrow> (p # ps, g2)))"

lemma pick_name_small:
  assumes "names \<noteq> []" "unat w < 2 ^ 63"
  shows "pick_name w names = Picked (names ! (unat w mod length names))"
proof -
  have "int (unat w) < int (2 ^ 63)" using assms(2) by (simp only: of_nat_less_iff)
  then have "uint w < 2 ^ 63" by simp
  moreover have "- (2 ^ 63) \<le> uint w" by (rule order_trans [of _ 0]) simp_all
  ultimately have "sint w = uint w"
    using signed_take_bit_int_eq_self [of 63 "uint w"] by (simp add: sint_uint)
  then have s: "sint w = int (unat w)" by simp
  have "rem (int (unat w)) (int (length names)) = int (unat w mod length names)"
    using assms(1) by (subst rem_nonneg) (simp_all add: zmod_int del: uint_nat unat_eq_nat_uint int_nat_eq of_nat_unat)
  with assms(1) s show ?thesis unfolding pick_name_def s Let_def by (simp del: of_nat_unat)
qed

lemma choose_times_names:
  assumes "pxyNames g \<noteq> []" "[] \<notin> set (pxyNames g)" "unat (index g) + n < 2 ^ 63"
  shows "fst (choose_times n g) =
    map (\<lambda>k. Picked (pxyNames g ! (k mod length (pxyNames g)))) [Suc (unat (index g))..<Suc (unat (index g)) + n]"
  using assms
proof (induction n arbitrary: g)
  case 0
  then show ?case by simp
next
  case (Suc n)
  let ?g = "g\<lparr>index := index g + 1\<rparr>"
  have u: "unat (index g + 1) = Suc (unat (index g))"
    using Suc.prems(3) by (simp add: unat_word_ariths)
  have "pxyNames g ! (Suc (unat (index g)) mod length (pxyNames g)) \<noteq> []"
    using Suc.prems(1,2) by (metis length_greater_0_conv mod_less_divisor nth_mem)
  then have c: "HTTPGroup_chooseEndpoint g =
      (Picked (pxyNames g ! (Suc (unat (index g)) mod length (pxyNames g))), ?g)"
    using Suc.prems u by (simp add: HTTPGroup_chooseEndpoint_def pick_name_small Let_def)
  have "fst (choose_times n ?g) = map (\<lambda>k. Picked (pxyNames g ! (k mod length (pxyNames g))))
      [Suc (Suc (unat (index g)))..<Suc (Suc (unat (index g))) + n]"
    using Suc.IH [of ?g] Suc.prems u by simp
  moreover have "fst (choose_times (Suc n) g) =
      fst (HTTPGroup_chooseEndpoint g) # fst (choose_times n (snd (HTTPGroup_chooseEndpoint g)))"
    by (simp split: prod.split)
  ultimately show ?case using c by (simp add: upt_conv_Cons del: upt_Suc choose_times.simps)
qed

text \<open>A window of \<open>n\<close> consecutive numbers, reduced modulo \<open>n\<close>, runs once through \<open>0..<n\<close>.\<close>

lemma mset_mod_window:
  assumes "0 < n"
  shows "image_mset (\<lambda>k. k mod n) (mset [a..<a + n]) = mset [0..<n]"
proof (induction a)
  case 0
  have "map (\<lambda>k. k mod n) [0..<n] = [0..<n]" by (intro map_idI) auto
  then show ?case by (metis add_0 mset_map)
next
  case (Suc a)
  have "mset [a..<Suc a + n] = add_mset (a + n) (mset [a..<a + n])" using assms by simp
  moreover have "mset [a..<Suc a + n] = add_mset a (mset [Suc a..<Suc a + n])"
    using assms by (simp add: upt_conv_Cons del: upt_Suc)
  ultimately have "add_mset ((a + n) mod n) (image_mset (\<lambda>k. k mod n) (mset [a..<a + n])) =
      add_mset (a mod n) (image_mset (\<lambda>k. k mod n) (mset [Suc a..<Suc a + n]))"
    by (metis image_mset_add_mset)
  with Suc show ?case by simp
qed

text \<open>Over any run of as many picks as the group has members, every member is chosen exactly
  once, as long as the pick counter stays below \<open>2 ^ 63\<close>; in particular no pick fails.\<close>

lemma http_group_round_robin:
  assumes "pxyNames g \<noteq> []" "[] \<notin> set (pxyNames g)"
    and "unat (index g) + length (pxyNames g) < 2 ^ 63"
  shows "mset (fst (choose_times (length (pxyNames g)) g)) = mset (map Picked (pxyNames g))"
proof -
  let ?n = "length (pxyNames g)" and ?a = "Suc (unat (index g))"
  have "mset (fst (choose_times ?n g)) =
      image_mset (\<lambda>i. Picked (pxyNames g ! i)) (image_mset (\<lambda>k. k mod ?n) (mset [?a..<?a + ?n]))"
    unfolding choose_times_names [OF assms] by (simp add: multiset.map_comp comp_def del: upt_Suc)
  also have "\<dots> = image_mset (\<lambda>i. Picked (pxyNames g ! i)) (mset [0..<?n])"
    using mset_mod_window [of ?n ?a] assms(1) by (simp del: upt_Suc)
  also have "\<dots> = mset (map Picked (map ((!) (pxyNames g)) [0..<?n]))"
    by (simp add: multiset.map_comp comp_def)
  finally show ?thesis by (simp add: map_nth)
qed

definition three_members :: HTTPGroup where
  "three_members = NewHTTPGroup\<lparr>pxyNames := [''a'', ''b'', ''c''],
     createFuncs := [(''a'', Some (ProxyConn ''a'')), (''b'', Some (ProxyConn ''b'')), (''c'', Some (ProxyConn ''c''))]\<rparr>"

text \<open>In a group of three members the pick that makes the counter \<open>2 ^ 63\<close> panics with an
  index out of range, because the counter is read as a negative signed integer and the
  remainder of Go keeps the sign; the pick before it succeeds.\<close>

lemma http_group_pick_panics_at_sign_bit:
  "fst (HTTPGroup_chooseEndpoint (three_members\<lparr>index := 2 ^ 63 - 1\<rparr>)) = PickPanic \<and>
   fst (HTTPGroup_chooseEndpoint (three_members\<lparr>index := 2 ^ 63 - 2\<rparr>)) = Picked ''b''"
  by (simp add: HTTPGroup_chooseEndpoint_def three_members_def pick_name_def rem_def quot_def Let_def)

section \<open>Groups and their routes\<close>

abbreviation group_route :: "HTTPGroup \<Rightarrow> route_key" where
  "group_route g \<equiv> (hdomain g, hlocation g, hrouteByHTTPUser g)"

text \<open>A group listed under a name: its two views of the members agree, and once it has a member
  its route in the shared table leads back to it.\<close>

definition hgroup_ok :: "conn_ref http_routes \<Rightarrow> string \<Rightarrow> addr \<Rightarrow> HTTPGroup \<Rightarrow> bool" where
  "hgroup_ok r name gid g \<longleftrightarrow>
     map fst (createFuncs g) = pxyNames g \<and> distinct (pxyNames g) \<and>
     (createFuncs g \<noteq> [] \<longrightarrow> hgroup g = name \<and>
        (\<exists>rc. routes_abs r (group_route g) = Some rc \<and> CreateConnFn rc = Some (GroupConn gid)))"

definition http_inv :: "HTTPGroupController \<Rightarrow> bool" where
  "http_inv st \<longleftrightarrow> routers_inv (vhostRouter st) \<and> inj_on (hgroups st) (dom (hgroups st)) \<and>
     (\<forall>name gid. hgroups st name = Some gid \<longrightarrow>
        gid < length (hgs st) \<and> hgroup_ok (vhostRouter st) name gid (hgs st ! gid))"

lemma http_invD:
  assumes "http_inv st" "hgroups st name = Some gid"
  shows "gid < length (hgs st)" "hgroup_ok (vhostRouter st) name gid (hgs st ! gid)"
  using assms unfolding http_inv_def by auto

lemma http_inv_other:
  assumes "http_inv st" "hgroups st n1 = Some g" "hgroups st n2 = Some g"
  shows "n1 = n2"
  using assms unfolding http_inv_def by (metis domI inj_onD)

text \<open>A change of the routing table that keeps every route of a group keeps a listed group in
  order.\<close>

lemma hgroup_ok_routes:
  assumes "hgroup_ok r name gid g"
    and "\<And>k rc. routes_abs r k = Some rc \<Longrightarrow> CreateConnFn rc = Some (GroupConn gid) \<Longrightarrow> routes_abs r' k = Some rc"
  shows "hgroup_ok r' name gid g"
  using assms unfolding hgroup_ok_def by metis

lemma hgroup_ok_no_members: "createFuncs g = [] \<Longrightarrow> pxyNames g = [] \<Longrightarrow> hgroup_ok r name gid g"
  by (simp add: hgroup_ok_def)

lemma http_inv_lookup:
  assumes "http_inv st" "HTTPGroupController_lookup name st = (gid, st')"
  shows "http_inv st' \<and> hgroups st' name = Some gid \<and> vhostRouter st' = vhostRouter st"
proof (cases "hgroups st name")
  case None
  with assms(2) have st': "gid = length (hgs st)"
    "st' = st\<lparr>hgs := hgs st @ [NewHTTPGroup], hgroups := (hgroups st)(name \<mapsto> length (hgs st))\<rparr>"
    by (auto simp: HTTPGroupController_lookup_def)
  have fresh: "hgroups st n \<noteq> Some (length (hgs st))" for n
    using http_invD(1) [OF assms(1), of n "length (hgs st)"] by auto
  have "inj_on ((hgroups st)(name \<mapsto> length (hgs st))) (insert name (dom (hgroups st)))"
    using assms(1) fresh unfolding http_inv_def inj_on_def by (metis domIff fun_upd_apply insert_iff)
  moreover have "hgroup_ok (vhostRouter st) name (length (hgs st)) NewHTTPGroup"
    by (rule hgroup_ok_no_members) (simp_all add: NewHTTPGroup_def)
  ultimately show ?thesis using assms(1) fresh unfolding st' http_inv_def
    by (auto simp: nth_append less_Suc_eq)
next
  case (Some g)
  with assms show ?thesis by (auto simp: HTTPGroupController_lookup_def)
qed

text \<open>Replacing the object of one listed group, with a routing table that keeps the routes of the
  other groups.\<close>

lemma http_inv_update:
  assumes inv: "http_inv st" and listed: "hgroups st name = Some gid" and r': "routers_inv r'"
    and ok: "hgroup_ok r' name gid g'"
    and keep: "\<And>k rc gid'. gid' \<noteq> gid \<Longrightarrow> routes_abs (vhostRouter st) k = Some rc \<Longrightarrow>
      CreateConnFn rc = Some (GroupConn gid') \<Longrightarrow> routes_abs r' k = Some rc"
  shows "http_inv (st\<lparr>hgs := (hgs st)[gid := g'], vhostRouter := r'\<rparr>)"
proof -
  have "n < length (hgs st) \<and> hgroup_ok r' m n ((hgs st)[gid := g'] ! n)" if m: "hgroups st m = Some n" for m n
  proof (cases "n = gid")
    case True
    then have "m = name" using http_inv_other [OF inv m] listed by simp
    with True ok http_invD(1) [OF inv m] show ?thesis by simp
  next
    case False
    have "hgroup_ok r' m n (hgs st ! n)"
      by (rule hgroup_ok_routes [OF http_invD(2) [OF inv m]]) (rule keep [OF False])
    with False http_invD(1) [OF inv m] show ?thesis by simp
  qed
  with inv r' show ?thesis unfolding http_inv_def by simp
qed

lemma http_inv_update_group:
  assumes "http_inv st" "hgroups st name = Some gid" "hgroup_ok (vhostRouter st) name gid g'"
  shows "http_inv (st\<lparr>hgs := (hgs st)[gid := g']\<rparr>)"
  using http_inv_update [OF assms(1,2) _ assms(3)] assms(1) by (simp add: http_inv_def)

lemma hgroup_ok_add:
  assumes "map fst (createFuncs g) = pxyNames g" "distinct (pxyNames g)" "map_of (createFuncs g) p = None"
    and "hgroup g = name" "routes_abs r (group_route g) = Some rc" "CreateConnFn rc = Some (GroupConn gid)"
  shows "hgroup_ok r name gid (g\<lparr>createFuncs := createFuncs g @ [(p, fn)], pxyNames := pxyNames g @ [p]\<rparr>)"
proof -
  have "p \<notin> set (pxyNames g)" using assms(1,3) by (metis list.set_map map_of_eq_None_iff)
  with assms show ?thesis by (simp add: hgroup_ok_def)
qed

lemma http_inv_Register:
  assumes "http_inv st" "HTTPGroupController_Register p name key rc st = (res, st')"
  shows "http_inv st'"
proof -
  obtain gid s where lk: "HTTPGroupController_lookup name st = (gid, s)" by (metis surj_pair)
  with assms(1) have s: "http_inv s" "hgroups s name = Some gid" by (auto dest: http_inv_lookup)
  let ?g = "hgs s ! gid" and ?r = "vhostRouter s"
  have gid: "gid < length (hgs s)" and ok: "hgroup_ok ?r name gid ?g" using http_invD [OF s] by auto
  have rinv: "routers_inv ?r" using s(1) unfolding http_inv_def by simp
  have reg: "HTTPGroup_Register gid p name key rc s = (res, st')"
    using assms(2) lk by (simp add: HTTPGroupController_Register_def)
  show ?thesis
  proof (cases "createFuncs ?g = []")
    case True
    let ?tmp = "rc\<lparr>CreateConnFn := Some (GroupConn gid), ChooseEndpointFn := Some (GroupConn gid),
                   CreateConnByEndpointFn := Some (GroupConn gid)\<rparr>"
    let ?g1 = "?g\<lparr>hgroup := name, hgroupKey := key, hdomain := Domain rc, hlocation := Location rc,
                  hrouteByHTTPUser := RouteByHTTPUser rc\<rparr>"
    show ?thesis
    proof (cases "Routers_Add ?r (Domain rc) (Location rc) (RouteByHTTPUser rc) ?tmp")
      case (Inl e)
      with True reg s(1) show ?thesis by (simp add: HTTPGroup_Register_def Let_def)
    next
      case (Inr r')
      let ?g2 = "?g1\<lparr>createFuncs := createFuncs ?g1 @ [(p, CreateConnFn rc)], pxyNames := pxyNames ?g1 @ [p]\<rparr>"
      have abs: "routes_abs r' = (routes_abs ?r)((Domain rc, Location rc, RouteByHTTPUser rc) \<mapsto> ?tmp)"
        and r'inv: "routers_inv r'"
        using routes_abs_Add [OF rinv Inr] Routers_Add_inv [OF rinv Inr] by auto
      have free: "routes_abs ?r (Domain rc, Location rc, RouteByHTTPUser rc) = None"
        using Inr routes_abs_conflict [of ?r "Domain rc" "Location rc" "RouteByHTTPUser rc" ?tmp] by simp
      have "hgroup_ok r' name gid ?g2"
        by (rule hgroup_ok_add) (use ok True abs in \<open>auto simp: hgroup_ok_def\<close>)
      moreover have "st' = s\<lparr>hgs := (hgs s)[gid := ?g2], vhostRouter := r'\<rparr>"
        using reg True Inr gid by (auto simp: HTTPGroup_Register_def add_member_def Let_def)
      ultimately show ?thesis using s r'inv abs free by (auto intro!: http_inv_update)
    qed
  next
    case False
    have "st' = s \<or> map_of (createFuncs ?g) p = None \<and>
        st' = s\<lparr>hgs := (hgs s)[gid := ?g\<lparr>createFuncs := createFuncs ?g @ [(p, CreateConnFn rc)],
                                        pxyNames := pxyNames ?g @ [p]\<rparr>]\<rparr>"
      using reg False by (auto simp: HTTPGroup_Register_def add_member_def Let_def split: if_splits)
    moreover have "hgroup_ok ?r name gid (?g\<lparr>createFuncs := createFuncs ?g @ [(p, CreateConnFn rc)],
        pxyNames := pxyNames ?g @ [p]\<rparr>)" if "map_of (createFuncs ?g) p = None"
      using ok False that unfolding hgroup_ok_def [of ?r name gid ?g] by (auto intro!: hgroup_ok_add)
    ultimately show ?thesis using http_inv_update_group [OF s] s(1) by auto
  qed
qed

lemma map_fst_delete: "distinct (map fst al) \<Longrightarrow> map fst (AList.delete k al) = remove1 k (map fst al)"
  by (simp add: delete_keys distinct_remove1_removeAll)

text \<open>The state after a member leaves.\<close>

lemma HTTPGroupController_UnRegister_member:
  fixes st :: HTTPGroupController and p :: string and gid :: addr
  defines "g \<equiv> hgs st ! gid"
  defines "g' \<equiv> g\<lparr>createFuncs := AList.delete p (createFuncs g), pxyNames := remove1 p (pxyNames g)\<rparr>"
  assumes "hgroups st name = Some gid"
  shows "HTTPGroupController_UnRegister p name st =
    (if createFuncs g' = []
     then st\<lparr>hgs := (hgs st)[gid := g'],
             vhostRouter := Routers_Del (vhostRouter st) (hdomain g) (hlocation g) (hrouteByHTTPUser g),
             hgroups := (hgroups st)(name := None)\<rparr>
     else st\<lparr>hgs := (hgs st)[gid := g']\<rparr>)"
  using assms by (simp add: HTTPGroupController_UnRegister_def HTTPGroup_UnRegister_def Let_def)

lemma http_inv_forget:
  assumes "http_inv st"
  shows "http_inv (st\<lparr>hgroups := (hgroups st)(name := None)\<rparr>)"
  using assms unfolding http_inv_def by (auto simp: inj_on_def split: if_splits)

lemma http_inv_UnRegister:
  assumes inv: "http_inv st" and listed: "hgroups st name = Some gid" and mem: "p \<in> set (pxyNames (hgs st ! gid))"
  shows "http_inv (HTTPGroupController_UnRegister p name st)"
proof -
  let ?g = "hgs st ! gid" and ?r = "vhostRouter st"
  let ?g' = "?g\<lparr>createFuncs := AList.delete p (createFuncs ?g), pxyNames := remove1 p (pxyNames ?g)\<rparr>"
  let ?r' = "Routers_Del ?r (hdomain ?g) (hlocation ?g) (hrouteByHTTPUser ?g)"
  have ok: "hgroup_ok ?r name gid ?g" using http_invD(2) [OF inv listed] .
  have rinv: "routers_inv ?r" using inv unfolding http_inv_def by simp
  have names: "map fst (createFuncs ?g') = pxyNames ?g'" "distinct (pxyNames ?g')"
    using ok by (auto simp: hgroup_ok_def map_fst_delete)
  from mem ok have ne: "createFuncs ?g \<noteq> []" by (auto simp: hgroup_ok_def)
  show ?thesis
  proof (cases "createFuncs ?g' = []")
    case True
    obtain rc where rc: "routes_abs ?r (group_route ?g) = Some rc" "CreateConnFn rc = Some (GroupConn gid)"
      using ok ne unfolding hgroup_ok_def by auto
    have "hgroup_ok ?r' name gid ?g'" using names True by (simp add: hgroup_ok_def)
    then have "http_inv (st\<lparr>hgs := (hgs st)[gid := ?g'], vhostRouter := ?r'\<rparr>)"
      by (rule http_inv_update [OF inv listed Routers_Del_inv [OF rinv]])
        (use rc in \<open>auto simp: routes_abs_Del\<close>)
    from http_inv_forget [OF this, of name] show ?thesis
      using True unfolding HTTPGroupController_UnRegister_member [OF listed] by simp
  next
    case False
    have "hgroup_ok ?r name gid ?g'" using names ok ne by (simp add: hgroup_ok_def)
    from http_inv_update_group [OF inv listed this] False show ?thesis
      unfolding HTTPGroupController_UnRegister_member [OF listed] by simp
  qed
qed

text \<open>
  The events of the shared routing table: members join and leave groups, and ungrouped proxies
  add a route of their own or remove one they own.
\<close>

inductive http_step :: "HTTPGroupController \<Rightarrow> HTTPGroupController \<Rightarrow> bool" where
  member_joins: "HTTPGroupController_Register p name key rc st = (res, st') \<Longrightarrow> http_step st st'"
| member_leaves: "hgroups st name = Some gid \<Longrightarrow> p \<in> set (pxyNames (hgs st ! gid)) \<Longrightarrow>
    http_step st (HTTPGroupController_UnRegister p name st)"
| proxy_adds: "CreateConnFn rc = Some (ProxyConn p) \<Longrightarrow>
    Routers_Add (vhostRouter st) (Domain rc) (Location rc) (RouteByHTTPUser rc) rc = Inr r' \<Longrightarrow>
    http_step st (st\<lparr>vhostRouter := r'\<rparr>)"
| proxy_removes: "routes_abs (vhostRouter st) (d, l, u) = Some rc \<Longrightarrow> CreateConnFn rc = Some (ProxyConn p) \<Longrightarrow>
    http_step st (st\<lparr>vhostRouter := Routers_Del (vhostRouter st) d l u\<rparr>)"

inductive http_reach :: "HTTPGroupController \<Rightarrow> bool" where
  start: "http_reach (NewHTTPGroupController NewRouters)"
| step: "http_reach st \<Longrightarrow> http_step st st' \<Longrightarrow> http_reach st'"

lemma http_inv_routes:
  assumes "http_inv st" "routers_inv r'"
    and "\<And>k rc gid. routes_abs (vhostRouter st) k = Some rc \<Longrightarrow> CreateConnFn rc = Some (GroupConn gid) \<Longrightarrow>
      routes_abs r' k = Some rc"
  shows "http_inv (st\<lparr>vhostRouter := r'\<rparr>)"
proof -
  have "hgroup_ok r' name gid (hgs st ! gid)" if "hgroups st name = Some gid" for name gid
    by (rule hgroup_ok_routes [OF http_invD(2) [OF assms(1) that]]) (rule assms(3))
  with assms(1,2) show ?thesis unfolding http_inv_def by simp
qed

lemma http_step_inv: "http_step st st' \<Longrightarrow> http_inv st \<Longrightarrow> http_inv st'"
proof (induction rule: http_step.induct)
  case (proxy_adds rc p st r')
  have inv: "routers_inv (vhostRouter st)" using proxy_adds.prems unfolding http_inv_def by simp
  have "routes_abs (vhostRouter st) (Domain rc, Location rc, RouteByHTTPUser rc) = None"
    using proxy_adds.hyps(2) routes_abs_conflict by (metis isl_def sum.distinct(1))
  with routes_abs_Add [OF inv proxy_adds.hyps(2)] show ?case
    using proxy_adds.prems by (auto intro!: http_inv_routes Routers_Add_inv [OF inv proxy_adds.hyps(2)])
next
  case (proxy_removes st d l u rc p)
  then have "routers_inv (vhostRouter st)" unfolding http_inv_def by simp
  with proxy_removes show ?case by (auto intro!: http_inv_routes Routers_Del_inv simp: routes_abs_Del)
qed (auto intro: http_inv_Register http_inv_UnRegister)

lemma http_reach_inv: "http_reach st \<Longrightarrow> http_inv st"
proof (induction rule: http_reach.induct)
  case start
  then show ?case
    by (simp add: http_inv_def NewHTTPGroupController_def routers_inv_def)
qed (rule http_step_inv)

text \<open>Whatever members join and leave and whatever routes ungrouped proxies add and remove,
  a group listed by the controller that has members owns its route: the table maps the group's
  domain, location and user to a configuration that dials through this group, and every member
  name has exactly one connection function.\<close>

lemma http_group_owns_route:
  assumes "http_reach st" "hgroups st name = Some gid" "pxyNames (hgs st ! gid) \<noteq> []"
  shows "(\<exists>rc. routes_abs (vhostRouter st) (group_route (hgs st ! gid)) = Some rc \<and>
            CreateConnFn rc = Some (GroupConn gid)) \<and>
         map fst (createFuncs (hgs st ! gid)) = pxyNames (hgs st ! gid) \<and> distinct (pxyNames (hgs st ! gid))"
  using http_invD(2) [OF http_reach_inv [OF assms(1)] assms(2)] assms(3) by (auto simp: hgroup_ok_def)

definition web_route :: "conn_ref RouteConfig" where
  "web_route = \<lparr>Domain = ''a.org'', Location = ''/'', RewriteHost = [], Username = [], Password = [],
     Headers = [], RouteByHTTPUser = [], CreateConnFn = Some (ProxyConn ''web''),
     ChooseEndpointFn = None, CreateConnByEndpointFn = None\<rparr>"

definition one_member :: HTTPGroupController where
  "one_member = snd (HTTPGroupController_Register ''web'' ''g'' ''k'' web_route (NewHTTPGroupController NewRouters))"

lemma one_member_reach: "http_reach one_member"
  unfolding one_member_def
  by (rule http_reach.step [OF http_reach.start], rule member_joins) (rule prod.collapse [symmetric])

lemma one_member_facts:
  "hgroups one_member ''g'' = Some 0" "pxyNames (hgs one_member ! 0) = [''web'']"
  "group_route (hgs one_member ! 0) = (''a.org'', ''/'', [])"
  by (simp_all add: one_member_def HTTPGroupController_Register_def HTTPGroupController_lookup_def
      NewHTTPGroupController_def NewHTTPGroup_def HTTPGroup_Register_def add_member_def Routers_Add_def
      Routers_exist_def NewRouters_def web_route_def Let_def)

text \<open>When the last member of a group leaves, the route of the group is gone from the table,
  no other route changes, and the controller no longer lists the group; while members remain
  the table is unchanged.\<close>

lemma http_group_leave:
  assumes "http_reach st" "hgroups st name = Some gid" "p \<in> set (pxyNames (hgs st ! gid))"
  shows "let st' = HTTPGroupController_UnRegister p name st in
    if pxyNames (hgs st ! gid) = [p]
    then routes_abs (vhostRouter st') = (routes_abs (vhostRouter st))(group_route (hgs st ! gid) := None) \<and>
         hgroups st' = (hgroups st)(name := None)
    else vhostRouter st' = vhostRouter st \<and> hgroups st' = hgroups st \<and>
         pxyNames (hgs st' ! gid) = remove1 p (pxyNames (hgs st ! gid))"
proof -
  let ?g = "hgs st ! gid"
  have gid: "gid < length (hgs st)" and ok: "hgroup_ok (vhostRouter st) name gid ?g"
    using http_invD [OF http_reach_inv [OF assms(1)] assms(2)] by auto
  have "map fst (AList.delete p (createFuncs ?g)) = remove1 p (pxyNames ?g)"
    using ok by (auto simp: hgroup_ok_def map_fst_delete)
  moreover have "remove1 p (pxyNames ?g) = [] \<longleftrightarrow> pxyNames ?g = [p]"
    using assms(3) by (cases "pxyNames ?g") (auto split: if_splits)
  ultimately have "AList.delete p (createFuncs ?g) = [] \<longleftrightarrow> pxyNames ?g = [p]"
    by (metis Nil_is_map_conv)
  then show ?thesis unfolding HTTPGroupController_UnRegister_member [OF assms(2)]
    using gid by (auto simp: Let_def routes_abs_Del)
qed

end
