(* ===== verification/Acquire_All.thy ===== *)
theory Acquire_All
  imports Frp_Prelude
begin

text \<open>
  The loop that the server's proxies share: listen or register for one domain after the other, remember
  how to undo each step, stop at the first error, and undo in order when the proxy closes. The locale
  \<open>acquisition\<close> states what one step promises, and its lemmas carry the promise to the whole loop. It is
  interpreted for the routes of HTTP proxies, the listeners of HTTPS proxies and the listeners of TCPMUX
  proxies.
\<close>

section \<open>The loops\<close>

text \<open>The handles collected so far are kept when a step fails.\<close>

fun acquire_all :: "('c \<Rightarrow> 'r \<Rightarrow> ('e, 'h) result \<times> 'r) \<Rightarrow> 'c list \<Rightarrow> 'h list \<Rightarrow> 'r \<Rightarrow> ('e, unit) result \<times> 'h list \<times> 'r" where
  "acquire_all acquire [] hs r = (Inr (), hs, r)"
| "acquire_all acquire (c # cs) hs r =
     (case acquire c r of
        (Inl e, r1) \<Rightarrow> (Inl e, hs, r1)
      | (Inr h, r1) \<Rightarrow> acquire_all acquire cs (hs @ [h]) r1)"

fun drop_all :: "('h \<Rightarrow> 'r \<Rightarrow> 'r option) \<Rightarrow> 'h list \<Rightarrow> 'r \<Rightarrow> 'r option" where
  "drop_all undo [] r = Some r"
| "drop_all undo (h # hs) r = (case undo h r of None \<Rightarrow> None | Some r1 \<Rightarrow> drop_all undo hs r1)"

section \<open>The contract of a step\<close>

locale acquisition =
  fixes acquire :: "'c \<Rightarrow> 'r \<Rightarrow> ('e, 'h) result \<times> 'r"
    and undo :: "'h \<Rightarrow> 'r \<Rightarrow> 'r option"
    and key :: "'h \<Rightarrow> 'k"
    and invar :: "'r \<Rightarrow> bool"
    and res :: "'r \<Rightarrow> 'k set"
    and usable :: "'c \<Rightarrow> bool"
  assumes acquire_ok: "invar r \<Longrightarrow> usable c \<Longrightarrow> acquire c r = (Inr h, r') \<Longrightarrow>
      invar r' \<and> key h \<notin> res r \<and> res r' = insert (key h) (res r)"
    and acquire_err: "invar r \<Longrightarrow> usable c \<Longrightarrow> acquire c r = (Inl e, r') \<Longrightarrow> invar r' \<and> res r' = res r"
    and undo_ok: "invar r \<Longrightarrow> key h \<in> res r \<Longrightarrow> \<exists>r'. undo h r = Some r' \<and> invar r' \<and> res r' = res r - {key h}"
begin

text \<open>Whatever the outcome, exactly the keys of the new handles were added.\<close>

lemma acquire_all_res:
  assumes "invar r" "\<forall>c \<in> set cs. usable c" "acquire_all acquire cs hs r = (out, hs', r')"
  obtains new where "hs' = hs @ new" "invar r'" "distinct (map key new)" "key ` set new \<inter> res r = {}"
    "res r' = res r \<union> key ` set new" "\<not> isl out \<longrightarrow> length new = length cs"
  using assms
proof (induction cs arbitrary: hs r thesis)
  case Nil
  from Nil.prems(4) Nil.prems(2) show ?case by (intro Nil.prems(1) [of "[]"]) simp_all
next
  case (Cons c cs)
  obtain o1 r1 where step: "acquire c r = (o1, r1)" by (metis surj_pair)
  show ?case
  proof (cases o1)
    case (Inl e)
    have "invar r1" "res r1 = res r" using acquire_err [of r c e r1] step Inl Cons.prems(2,3) by auto
    with Cons.prems(4) step Inl show ?thesis by (intro Cons.prems(1) [of "[]"]) auto
  next
    case (Inr h)
    have one: "invar r1" "key h \<notin> res r" "res r1 = insert (key h) (res r)"
      using acquire_ok [of r c h r1] step Inr Cons.prems(2,3) by auto
    have "acquire_all acquire cs (hs @ [h]) r1 = (out, hs', r')" using Cons.prems(4) step Inr by simp
    from Cons.IH [OF _ one(1) _ this] Cons.prems(3) obtain new where
      "hs' = (hs @ [h]) @ new" "invar r'" "distinct (map key new)" "key ` set new \<inter> res r1 = {}"
      "res r' = res r1 \<union> key ` set new" "\<not> isl out \<longrightarrow> length new = length cs" by auto
    with one show ?thesis by (intro Cons.prems(1) [of "h # new"]) auto
  qed
qed

text \<open>Undoing all handles removes exactly their keys and never panics.\<close>

lemma drop_all_res:
  assumes "invar r" "distinct (map key hs)" "key ` set hs \<subseteq> res r"
  shows "\<exists>r'. drop_all undo hs r = Some r' \<and> invar r' \<and> res r' = res r - key ` set hs"
  using assms
proof (induction hs arbitrary: r)
  case Nil
  then show ?case by simp
next
  case (Cons h hs)
  obtain r1 where r1: "undo h r = Some r1" "invar r1" "res r1 = res r - {key h}"
    using undo_ok [OF Cons.prems(1), of h] Cons.prems(3) by auto
  have "distinct (map key hs)" "key h \<notin> key ` set hs" "key ` set hs \<subseteq> res r1"
    using Cons.prems(2,3) unfolding r1(3) by (simp_all add: subset_insert_iff insert_Diff_if) blast
  from Cons.IH [OF r1(2) this(1,3)] obtain r' where
    "drop_all undo hs r1 = Some r'" "invar r'" "res r' = res r1 - key ` set hs" by auto
  with r1 show ?case by auto
qed

text \<open>Undoing a loop, complete or not, restores the resources.\<close>

lemma acquire_drop:
  assumes "invar r" "\<forall>c \<in> set cs. usable c" "acquire_all acquire cs [] r = (out, hs, r')"
  shows "\<exists>r''. drop_all undo hs r' = Some r'' \<and> invar r'' \<and> res r'' = res r"
proof -
  from assms obtain new where new: "hs = [] @ new" "invar r'" "distinct (map key new)" "key ` set new \<inter> res r = {}"
    "res r' = res r \<union> key ` set new" by (rule acquire_all_res)
  from drop_all_res [OF new(2,3)] new(1,5) obtain r'' where
    "drop_all undo hs r' = Some r''" "invar r''" "res r'' = res r' - key ` set new" by auto
  with new(4,5) show ?thesis by auto
qed

end

end
