(* ===== verification/Server_Control.thy ===== *)
theory Server_Control
  imports Go_Std "HOL-Library.Word"
begin

text \<open>
  Model of the server's control of one client (\<^verbatim>\<open>server/control.go\<close>) and of the proxy manager shared by
  all clients (\<^verbatim>\<open>server/proxy/proxy.go\<close>): registering and closing proxies with the limit on ports per
  client, the pool of work connections, shutting a control down, and the table of controls. The
  interface \<^verbatim>\<open>proxy.Proxy\<close> is the record \<open>proxy_ops\<close> of its operations on a proxy state \<open>'p\<close> and the
  shared resources \<open>'r\<close> (ports, groups, routes); \<open>'e\<close> is the environment of a call (clock, operating
  system). Its contract is the locale \<open>server_proxy\<close>, interpreted by the TCP proxy in the theory
  \<open>TCP_Proxy\<close>. The outcome of the account service (\<^verbatim>\<open>pkg/api\<close>) and the proxy built from a message are
  inputs.
\<close>

section \<open>Proxies and the proxy manager\<close>

record ('e, 'p, 'r) proxy_ops =
  GetName :: "'p \<Rightarrow> string"
  GetUsedPortsNum :: "'p \<Rightarrow> int"
  Run :: "'e \<Rightarrow> 'p \<Rightarrow> 'r \<Rightarrow> (string, string) result \<times> 'p \<times> 'r"
  Close :: "'e \<Rightarrow> 'p \<Rightarrow> 'r \<Rightarrow> 'r option"

definition ProxyManager_Add :: "string \<Rightarrow> 'p \<Rightarrow> 'p smap \<Rightarrow> (string, 'p smap) result" where
  "ProxyManager_Add name pxy pm =
     (if pm name \<noteq> None then Inl (''proxy name ['' @ name @ ''] is already in use'') else Inr (pm(name \<mapsto> pxy)))"

definition ProxyManager_Exist :: "string \<Rightarrow> 'p smap \<Rightarrow> bool" where
  "ProxyManager_Exist name pm \<longleftrightarrow> pm name \<noteq> None"

definition ProxyManager_Del :: "string \<Rightarrow> 'p smap \<Rightarrow> 'p smap" where
  "ProxyManager_Del name pm = pm(name := None)"

definition ProxyManager_GetByName :: "string \<Rightarrow> 'p smap \<Rightarrow> 'p option" where
  "ProxyManager_GetByName name pm = pm name"

section \<open>Controls\<close>

datatype ctl_msg = ReqWorkConn | NewProxyResp string string string | Pong string

record ('p, 'c) Control =
  cproxies :: "'p smap"
  poolCount :: int
  portsUsedNum :: int
  lastPing :: int
  crunID :: string
  workConnCh :: "'c list"
  workConnCh_closed :: bool
  sendCh :: "ctl_msg list"
  sendCh_closed :: bool
  conn_closed :: bool
  cstarted :: bool
  shutdown_started :: bool
  shutdown_done :: bool
  all_done :: bool

text \<open>\<^verbatim>\<open>make(chan net.Conn, poolCount+10)\<close> panics (\<open>None\<close>) on a negative size.\<close>

definition NewControl :: "int \<Rightarrow> int \<Rightarrow> int \<Rightarrow> string \<Rightarrow> ('p, 'c) Control option" where
  "NewControl now maxPoolCount loginPoolCount runID =
     (let pool = (if loginPoolCount > maxPoolCount then maxPoolCount else loginPoolCount)
      in if pool + 10 < 0 then None
         else Some \<lparr>cproxies = Map.empty, poolCount = pool, portsUsedNum = 0, lastPing = now, crunID = runID,
           workConnCh = [], workConnCh_closed = False, sendCh = [], sendCh_closed = False, conn_closed = False,
           cstarted = False, shutdown_started = False, shutdown_done = False, all_done = False\<rparr>)"

text \<open>Starting a control asks the client for as many work connections as the pool holds.\<close>

definition Control_Start :: "('p, 'c) Control \<Rightarrow> ('p, 'c) Control" where
  "Control_Start ctl = ctl\<lparr>cstarted := True, sendCh := sendCh ctl @ replicate (nat (poolCount ctl)) ReqWorkConn\<rparr>"

definition Control_Close :: "('p, 'c) Control \<Rightarrow> ('p, 'c) Control" where
  "Control_Close ctl = ctl\<lparr>shutdown_started := True\<rparr>"

definition Control_Replaced :: "('p, 'c) Control \<Rightarrow> ('p, 'c) Control" where
  "Control_Replaced ctl = ctl\<lparr>crunID := [], shutdown_started := True\<rparr>"

subsection \<open>Work connections\<close>

text \<open>The channel holds \<open>poolCount + 10\<close> connections. Sending on the closed channel panics; the
  deferred recover then makes the function return a nil error.\<close>

definition RegisterWorkConn :: "'c \<Rightarrow> ('p, 'c) Control \<Rightarrow> string option \<times> ('p, 'c) Control" where
  "RegisterWorkConn c ctl =
     (if workConnCh_closed ctl then (None, ctl)
      else if int (length (workConnCh ctl)) < poolCount ctl + 10 then (None, ctl\<lparr>workConnCh := workConnCh ctl @ [c]\<rparr>)
      else (Some ''work connection pool is full, discarding'', ctl))"

text \<open>What ends the wait for a connection: one arrives, the channel is closed, or time is up.\<close>

datatype 'c wait_outcome = Arrives 'c | ChannelClosed | TimedOut

datatype get_error = ErrCtlClosed | AlreadyClosed | GetTimeout

definition request_conn :: "('p, 'c) Control \<Rightarrow> ('p, 'c) Control" where
  "request_conn ctl = (if sendCh_closed ctl then ctl else ctl\<lparr>sendCh := sendCh ctl @ [ReqWorkConn]\<rparr>)"

definition GetWorkConn :: "'c wait_outcome \<Rightarrow> ('p, 'c) Control \<Rightarrow> (get_error, 'c) result \<times> ('p, 'c) Control" where
  "GetWorkConn wait ctl =
     (case workConnCh ctl of
        c # cs \<Rightarrow> (Inr c, request_conn (ctl\<lparr>workConnCh := cs\<rparr>))
      | [] \<Rightarrow>
          if workConnCh_closed ctl then (Inl ErrCtlClosed, ctl)
          else if sendCh_closed ctl then (Inl AlreadyClosed, ctl)
          else
            (let ctl1 = request_conn ctl
             in case wait of
                  Arrives c \<Rightarrow> (Inr c, request_conn ctl1)
                | ChannelClosed \<Rightarrow> (Inl ErrCtlClosed, ctl1)
                | TimedOut \<Rightarrow> (Inl GetTimeout, ctl1)))"

record StartWorkConn =
  swProxyName :: string
  swSrcAddr :: string
  swSrcPort :: "16 word"
  swDstAddr :: string
  swDstPort :: "16 word"
  swError :: string

definition addr_parts :: "string option \<Rightarrow> string \<times> 16 word" where
  "addr_parts a =
     (case a of
        None \<Rightarrow> ([], 0)
      | Some s \<Rightarrow> (case SplitHostPort s of
                    Inl _ \<Rightarrow> ([], of_int (fst (Atoi [])))
                  | Inr (host, port) \<Rightarrow> (host, of_int (fst (Atoi port)))))"

definition start_work_conn :: "string \<Rightarrow> string option \<Rightarrow> string option \<Rightarrow> StartWorkConn" where
  "start_work_conn name src dst =
     \<lparr>swProxyName = name, swSrcAddr = fst (addr_parts src), swSrcPort = snd (addr_parts src),
      swDstAddr = fst (addr_parts dst), swDstPort = snd (addr_parts dst), swError = []\<rparr>"

text \<open>
  The loop of \<^verbatim>\<open>GetWorkConnFromPool\<close>: \<open>get i\<close> is what round \<open>i\<close> gets from the pool and \<open>write_ok\<close> whether
  the start message can be sent on it. The error of the write is a variable of the loop body, so it
  is gone after the loop. The second component lists the connections that were closed.
\<close>

fun pool_rounds :: "(nat \<Rightarrow> ('err, 'c) result) \<Rightarrow> ('c \<Rightarrow> StartWorkConn \<Rightarrow> bool) \<Rightarrow> StartWorkConn \<Rightarrow> nat \<Rightarrow> nat \<Rightarrow>
   'c option \<Rightarrow> 'c list \<Rightarrow> ('err, 'c option) result \<times> 'c list" where
  "pool_rounds get write_ok m i 0 workConn closed = (Inr workConn, closed)"
| "pool_rounds get write_ok m i (Suc n) workConn closed =
     (case get i of
        Inl e \<Rightarrow> (Inl e, closed)
      | Inr c \<Rightarrow>
          if write_ok c m then (Inr (Some c), closed)
          else pool_rounds get write_ok m (Suc i) n (Some c) (closed @ [c]))"

definition GetWorkConnFromPool ::
  "(nat \<Rightarrow> ('err, 'c) result) \<Rightarrow> ('c \<Rightarrow> StartWorkConn \<Rightarrow> bool) \<Rightarrow> int \<Rightarrow> string \<Rightarrow> string option \<Rightarrow> string option \<Rightarrow>
   ('err, 'c option) result \<times> 'c list" where
  "GetWorkConnFromPool get write_ok pool name src dst =
     pool_rounds get write_ok (start_work_conn name src dst) 0 (nat (pool + 1)) None []"

subsection \<open>Registering and closing proxies\<close>

text \<open>The verdict of the account service: unavailable, refused, accepted or disabled.\<close>

datatype api_outcome = ApiError string | ApiRejects | ApiAccepts

definition RegisterProxy ::
  "('e, 'p, 'r) proxy_ops \<Rightarrow> int \<Rightarrow> 'e \<Rightarrow> api_outcome \<Rightarrow> (string, 'p) result \<Rightarrow> string \<Rightarrow>
   ('p, 'c) Control \<times> 'p smap \<times> 'r \<Rightarrow> ((string, string) result \<times> ('p, 'c) Control \<times> 'p smap \<times> 'r) option" where
  "RegisterProxy ops maxPorts env api pxyRes msgName st =
     (case st of (ctl, pm, r) \<Rightarrow>
        (case api of
           ApiError e \<Rightarrow> Some (Inl e, st)
         | ApiRejects \<Rightarrow> Some (Inl ''invalid proxy configuration'', st)
         | ApiAccepts \<Rightarrow>
             (case pxyRes of
                Inl e \<Rightarrow> Some (Inl e, st)
              | Inr pxy \<Rightarrow>
                  if maxPorts > 0 \<and> portsUsedNum ctl + GetUsedPortsNum ops pxy > maxPorts then
                    Some (Inl ''exceed the max_ports_per_client'', st)
                  else
                    (let ctl1 = (if maxPorts > 0 then ctl\<lparr>portsUsedNum := portsUsedNum ctl + GetUsedPortsNum ops pxy\<rparr> else ctl);
                         undo = (\<lambda>c. if maxPorts > 0 then c\<lparr>portsUsedNum := portsUsedNum c - GetUsedPortsNum ops pxy\<rparr> else c)
                     in if ProxyManager_Exist msgName pm then
                          Some (Inl (''proxy ['' @ msgName @ ''] already exists''), undo ctl1, pm, r)
                        else
                          (case Run ops env pxy r of
                             (Inl e, _, r1) \<Rightarrow> Some (Inl e, undo ctl1, pm, r1)
                           | (Inr remoteAddr, pxy1, r1) \<Rightarrow>
                               (case ProxyManager_Add msgName pxy1 pm of
                                  Inl e \<Rightarrow> (case Close ops env pxy1 r1 of
                                              None \<Rightarrow> None
                                            | Some r2 \<Rightarrow> Some (Inl e, undo ctl1, pm, r2))
                                | Inr pm1 \<Rightarrow>
                                    Some (Inr remoteAddr, ctl1\<lparr>cproxies := (cproxies ctl1)(GetName ops pxy1 \<mapsto> pxy1)\<rparr>,
                                          pm1, r1)))))))"

definition Control_CloseProxy ::
  "('e, 'p, 'r) proxy_ops \<Rightarrow> int \<Rightarrow> 'e \<Rightarrow> string \<Rightarrow> ('p, 'c) Control \<times> 'p smap \<times> 'r \<Rightarrow>
   (('p, 'c) Control \<times> 'p smap \<times> 'r) option" where
  "Control_CloseProxy ops maxPorts env name st =
     (case st of (ctl, pm, r) \<Rightarrow>
        (case cproxies ctl name of
           None \<Rightarrow> Some st
         | Some pxy \<Rightarrow>
             (case Close ops env pxy r of
                None \<Rightarrow> None
              | Some r1 \<Rightarrow>
                  Some ((if maxPorts > 0 then ctl\<lparr>portsUsedNum := portsUsedNum ctl - GetUsedPortsNum ops pxy\<rparr> else ctl)
                          \<lparr>cproxies := (cproxies ctl)(name := None)\<rparr>,
                        ProxyManager_Del (GetName ops pxy) pm, r1))))"

text \<open>Closing the proxies of a list, as the stopper does.\<close>

fun close_proxies :: "('e, 'p, 'r) proxy_ops \<Rightarrow> 'e \<Rightarrow> 'p list \<Rightarrow> 'p smap \<times> 'r \<Rightarrow> ('p smap \<times> 'r) option" where
  "close_proxies ops env [] (pm, r) = Some (pm, r)"
| "close_proxies ops env (pxy # pxys) (pm, r) =
     (case Close ops env pxy r of
        None \<Rightarrow> None
      | Some r1 \<Rightarrow> close_proxies ops env pxys (ProxyManager_Del (GetName ops pxy) pm, r1))"

text \<open>
  \<^verbatim>\<open>stoper\<close> after the shutdown was started. \<open>close_err\<close> says whether closing the control connection
  reports an error, given whether it was closed before, and \<open>drained\<close> whether every pooled connection
  closed without error; \<open>order\<close> is the order in which the map is iterated.
\<close>

definition stoper ::
  "('e, 'p, 'r) proxy_ops \<Rightarrow> 'e \<Rightarrow> (bool \<Rightarrow> bool) \<Rightarrow> bool \<Rightarrow> 'p list \<Rightarrow> ('p, 'c) Control \<times> 'p smap \<times> 'r \<Rightarrow>
   (('p, 'c) Control \<times> 'p smap \<times> 'r) option" where
  "stoper ops env close_err drained order st =
     (case st of (ctl, pm, r) \<Rightarrow>
        (let ctl0 = ctl\<lparr>conn_closed := True\<rparr>
         in if close_err (conn_closed ctl) then Some (ctl0, pm, r)
            else
              (let ctl1 = ctl0\<lparr>sendCh_closed := True, workConnCh_closed := True, workConnCh := []\<rparr>
               in if \<not> drained then Some (ctl1, pm, r)
                  else (case close_proxies ops env order (pm, r) of
                          None \<Rightarrow> None
                        | Some (pm1, r1) \<Rightarrow> Some (ctl1\<lparr>shutdown_done := True, all_done := True\<rparr>, pm1, r1)))))"

text \<open>The reader's exit: the end of the stream, or another error, which closes the connection.\<close>

definition reader_exit :: "bool \<Rightarrow> ('p, 'c) Control \<Rightarrow> ('p, 'c) Control" where
  "reader_exit eof ctl = (if eof then ctl else ctl\<lparr>conn_closed := True\<rparr>)\<lparr>shutdown_started := True\<rparr>"

text \<open>Waiting for a control: it returns when \<^verbatim>\<open>allShutdown\<close> is over (\<open>all_done\<close>), which is so after the stopper has finished
  (\<open>shutdown_done\<close>), or when the wait itself declares it over because the control was never started.\<close>

definition WaitClosed :: "('p, 'c) Control \<Rightarrow> bool \<times> ('p, 'c) Control" where
  "WaitClosed ctl = (if \<not> cstarted ctl then (True, ctl\<lparr>all_done := True\<rparr>) else (all_done ctl, ctl))"

section \<open>Table of controls\<close>

record ('p, 'c) ControlManager =
  ctlsByRunID :: "addr smap"
  ctls :: "('p, 'c) Control list"

definition NewControlManager :: "('p, 'c) ControlManager" where
  "NewControlManager = \<lparr>ctlsByRunID = Map.empty, ctls = []\<rparr>"

definition ControlManager_Add :: "string \<Rightarrow> addr \<Rightarrow> ('p, 'c) ControlManager \<Rightarrow> addr option \<times> ('p, 'c) ControlManager" where
  "ControlManager_Add runID a cm =
     (let old = ctlsByRunID cm runID;
          cm1 = (case old of None \<Rightarrow> cm | Some oa \<Rightarrow> cm\<lparr>ctls := (ctls cm)[oa := Control_Replaced (ctls cm ! oa)]\<rparr>)
      in (old, cm1\<lparr>ctlsByRunID := (ctlsByRunID cm1)(runID \<mapsto> a)\<rparr>))"

definition ControlManager_Del :: "string \<Rightarrow> addr \<Rightarrow> ('p, 'c) ControlManager \<Rightarrow> ('p, 'c) ControlManager" where
  "ControlManager_Del runID a cm =
     (if ctlsByRunID cm runID = Some a then cm\<lparr>ctlsByRunID := (ctlsByRunID cm)(runID := None)\<rparr> else cm)"

text \<open>Closing all controls; \<open>order\<close> is the order in which the map is iterated, and \<^verbatim>\<open>Control.Close\<close> never
  fails.\<close>

definition ControlManager_Close :: "addr list \<Rightarrow> ('p, 'c) ControlManager \<Rightarrow> ('p, 'c) ControlManager" where
  "ControlManager_Close order cm =
     cm\<lparr>ctls := fold (\<lambda>a cs. cs[a := Control_Close (cs ! a)]) order (ctls cm), ctlsByRunID := Map.empty\<rparr>"

definition ControlManager_GetByID :: "string \<Rightarrow> ('p, 'c) ControlManager \<Rightarrow> addr option" where
  "ControlManager_GetByID runID cm = ctlsByRunID cm runID"

section \<open>Work connections: what can go wrong\<close>

lemma pool_rounds_all_fail:
  assumes "\<forall>i. get i = Inr (conn i)" "\<forall>c m. \<not> write_ok c m"
  shows "pool_rounds get write_ok m i n w closed =
    (Inr (if n = 0 then w else Some (conn (i + n - 1))), closed @ map conn [i..<i + n])"
  using assms
proof (induction n arbitrary: i w closed)
  case 0
  then show ?case by simp
next
  case (Suc n)
  have "pool_rounds get write_ok m i (Suc n) w closed =
      pool_rounds get write_ok m (Suc i) n (Some (conn i)) (closed @ [conn i])" using assms by simp
  also have "\<dots> = (Inr (Some (conn (i + n))), closed @ conn i # map conn [Suc i..<Suc i + n])"
    using Suc.IH [OF assms, of "Suc i" "Some (conn i)" "closed @ [conn i]"] by (auto simp del: upt_Suc)
  also have "conn i # map conn [Suc i..<Suc i + n] = map conn [i..<i + Suc n]" by (simp add: upt_conv_Cons del: upt_Suc)
  finally show ?case by simp
qed

text \<open>When the start message can be written to none of the pooled connections, the function still
  reports success and hands out the last connection it tried, which it has closed: the error of
  the write is lost with the scope of the loop.\<close>

lemma pool_returns_closed_conn:
  assumes "\<forall>i. get i = Inr (conn i)" "\<forall>c m. \<not> write_ok c m" "0 \<le> pool"
  shows "\<exists>c closed. GetWorkConnFromPool get write_ok pool name src dst = (Inr (Some c), closed) \<and> c \<in> set closed"
proof -
  have "GetWorkConnFromPool get write_ok pool name src dst = (Inr (Some (conn (nat pool))), map conn [0..<Suc (nat pool)])"
    using assms(3) unfolding GetWorkConnFromPool_def pool_rounds_all_fail [OF assms(1,2)] by (simp add: nat_add_distrib)
  then show ?thesis by auto
qed

text \<open>The pool size of the login message has no lower bound: below -10 the creation of the control
  panics, and for other negative sizes a user's connection is handled with a nil work connection
  although no error is reported.\<close>

lemma negative_pool_count:
  assumes "n < 0" "0 \<le> maxPool"
  shows "(if n < - 10 then NewControl now maxPool n runID = (None :: ('p, 'c) Control option)
     else \<exists>ctl :: ('p, 'c) Control. NewControl now maxPool n runID = Some ctl \<and>
       GetWorkConnFromPool get write_ok (poolCount ctl) name src dst = (Inr None, []))"
  using assms by (auto simp: NewControl_def GetWorkConnFromPool_def Let_def)

section \<open>Shutting a control down\<close>

text \<open>After a read error other than the end of the stream the reader closes the control connection;
  the stopper closes it again, and as that is an error on a closed connection it gives up: the
  proxies of the client stay registered with all their resources, and whoever waits for the control
  to close (a client logging in again with the same id) waits for ever.\<close>

lemma stoper_gives_up_after_read_error:
  assumes "close_err True" "\<not> all_done ctl" "cstarted ctl"
  shows "\<exists>ctl'. stoper ops env close_err drained order (reader_exit False ctl, pm, r) = Some (ctl', pm, r) \<and>
    cproxies ctl' = cproxies ctl \<and> \<not> fst (WaitClosed ctl')"
  using assms by (simp add: stoper_def reader_exit_def WaitClosed_def Let_def)

definition running_control :: "(string, nat) Control" where
  "running_control = (the (NewControl 0 5 1 ''r''))\<lparr>cstarted := True, cproxies := [''ssh'' \<mapsto> ''ssh'']\<rparr>"

end
