(* ===== verification/Server_System.thy ===== *)
theory Server_System
  imports Server_Control
begin

text \<open>
  The contract of the interface \<^verbatim>\<open>proxy.Proxy\<close> and what the controls of all clients make of it: the
  locale \<open>server_proxy\<close> states what starting and stopping a proxy do to the resources it owns, and the
  lemmas inside it follow the shared proxy manager, the controls and the resources through any sequence
  of logins, registrations, removals and shutdowns; the steps themselves are those of the service.
\<close>

text \<open>The ports that the proxies of a control count for.\<close>

definition ports_of :: "('e, 'p, 'r) proxy_ops \<Rightarrow> 'p smap \<Rightarrow> int" where
  "ports_of ops m = (\<Sum>n \<in> dom m. GetUsedPortsNum ops (the (m n)))"

section \<open>The contract of a proxy\<close>

locale server_proxy =
  fixes ops :: "('e, 'p, 'r) proxy_ops"
    and ready :: "'e \<Rightarrow> 'p \<Rightarrow> 'r \<Rightarrow> bool"
    and live :: "'p \<Rightarrow> bool"
    and invar :: "'r \<Rightarrow> bool"
    and res :: "'r \<Rightarrow> 'k set"
    and owned :: "'p \<Rightarrow> 'k set"
  assumes run_ok: "invar r \<Longrightarrow> ready e p r \<Longrightarrow> Run ops e p r = (Inr a, p', r') \<Longrightarrow>
      invar r' \<and> live p' \<and> res r' = res r \<union> owned p' \<and> owned p' \<inter> res r = {} \<and>
      GetName ops p' = GetName ops p \<and> GetUsedPortsNum ops p' = GetUsedPortsNum ops p"
    and run_err: "invar r \<Longrightarrow> ready e p r \<Longrightarrow> Run ops e p r = (Inl x, p', r') \<Longrightarrow> invar r' \<and> res r' = res r"
    and close_ok: "invar r \<Longrightarrow> live p \<Longrightarrow> owned p \<subseteq> res r \<Longrightarrow>
      \<exists>r'. Close ops e p r = Some r' \<and> invar r' \<and> res r' = res r - owned p"
    and live_used: "live p \<Longrightarrow> 0 \<le> GetUsedPortsNum ops p"
begin

text \<open>The registered proxies own the resources beyond \<open>base\<close>, each its own.\<close>

definition registry_ok :: "'k set \<Rightarrow> 'p smap \<Rightarrow> 'r \<Rightarrow> bool" where
  "registry_ok base pm r \<longleftrightarrow> invar r \<and> (\<forall>n p. pm n = Some p \<longrightarrow> GetName ops p = n \<and> live p) \<and>
     res r = base \<union> (\<Union>p \<in> ran pm. owned p) \<and> (\<forall>p \<in> ran pm. owned p \<inter> base = {}) \<and>
     (\<forall>n m p q. pm n = Some p \<longrightarrow> pm m = Some q \<longrightarrow> n \<noteq> m \<longrightarrow> owned p \<inter> owned q = {})"

lemma registry_okD:
  assumes "registry_ok base pm r"
  shows "invar r" "pm n = Some p \<Longrightarrow> GetName ops p = n" "pm n = Some p \<Longrightarrow> live p"
    "res r = base \<union> (\<Union>p \<in> ran pm. owned p)" "p \<in> ran pm \<Longrightarrow> owned p \<inter> base = {}"
    "pm n = Some p \<Longrightarrow> pm m = Some q \<Longrightarrow> n \<noteq> m \<Longrightarrow> owned p \<inter> owned q = {}"
  using assms unfolding registry_ok_def by blast+

lemma registry_add:
  assumes ok: "registry_ok base pm r" and "ready e p r" "Run ops e p r = (Inr a, p', r')" "pm (GetName ops p) = None"
  shows "registry_ok base (pm(GetName ops p \<mapsto> p')) r'"
proof -
  let ?n = "GetName ops p"
  have new: "invar r'" "live p'" "res r' = res r \<union> owned p'" "owned p' \<inter> res r = {}" "GetName ops p' = ?n"
    using run_ok [OF registry_okD(1) [OF ok] assms(2,3)] by auto
  have ran: "ran (pm(?n \<mapsto> p')) = insert p' (ran pm)" using assms(4) by simp
  have disj: "owned p' \<inter> owned q = {}" "owned p' \<inter> base = {}" if "q \<in> ran pm" for q
    using new(4) that unfolding registry_okD(4) [OF ok] by auto
  have base: "owned p' \<inter> base = {}" using new(4) unfolding registry_okD(4) [OF ok] by auto
  have "owned q1 \<inter> owned q2 = {}"
    if "(pm(?n \<mapsto> p')) n1 = Some q1" "(pm(?n \<mapsto> p')) n2 = Some q2" "n1 \<noteq> n2" for n1 n2 q1 q2
  proof -
    have "owned p' \<inter> owned q = {}" if "pm n = Some q" for n q using disj(1) ranI [of pm n q] that by blast
    then have "owned q \<inter> owned p' = {}" "owned p' \<inter> owned q = {}" if "pm n = Some q" for n q using that by blast+
    then show ?thesis using that registry_okD(6) [OF ok, of n1 q1 n2 q2] by (metis fun_upd_apply option.inject)
  qed
  with new ran base registry_okD(2,3,4,5) [OF ok] show ?thesis
    unfolding registry_ok_def by (auto split: if_splits)
qed

lemma registry_err:
  assumes "registry_ok base pm r" "ready e p r" "Run ops e p r = (Inl x, p', r')"
  shows "registry_ok base pm r'"
  using run_err [OF registry_okD(1) [OF assms(1)] assms(2,3)] assms(1) unfolding registry_ok_def by auto

lemma registry_del:
  assumes ok: "registry_ok base pm r" and n: "pm n = Some p"
  shows "\<exists>r'. Close ops e p r = Some r' \<and> registry_ok base (pm(n := None)) r'"
proof -
  have "owned p \<subseteq> res r" using registry_okD(4) [OF ok] ranI [of pm, OF n] by auto
  then obtain r' where r': "Close ops e p r = Some r'" "invar r'" "res r' = res r - owned p"
    using close_ok [OF registry_okD(1) [OF ok] registry_okD(3) [OF ok n]] by blast
  have sub: "q \<in> ran pm \<and> owned q \<inter> owned p = {}" if "q \<in> ran (pm(n := None))" for q
    using that registry_okD(6) [OF ok _ n] unfolding ran_def by (auto split: if_splits)
  have "ran pm = insert p (ran (pm(n := None)))" using n unfolding ran_def by auto (metis option.inject)
  then have "res r = base \<union> owned p \<union> (\<Union>q \<in> ran (pm(n := None)). owned q)"
    using registry_okD(4) [OF ok] by auto
  moreover have "owned p \<inter> base = {}" using registry_okD(5) [OF ok] ranI [of pm, OF n] by blast
  ultimately have "res r' = base \<union> (\<Union>q \<in> ran (pm(n := None)). owned q)" using r'(3) sub by blast
  moreover have "\<forall>q \<in> ran (pm(n := None)). owned q \<inter> base = {}" using sub registry_okD(5) [OF ok] by blast
  ultimately show ?thesis using r'(1,2) registry_okD(2,3,6) [OF ok]
    unfolding registry_ok_def by (auto split: if_splits)
qed

lemma registry_close_all:
  assumes "registry_ok base pm r" "\<forall>p \<in> set order. pm (GetName ops p) = Some p" "distinct (map (GetName ops) order)"
  shows "\<exists>r'. close_proxies ops e order (pm, r) = Some (pm |` (- GetName ops ` set order), r') \<and>
    registry_ok base (pm |` (- GetName ops ` set order)) r'"
  using assms
proof (induction order arbitrary: pm r)
  case Nil
  then show ?case by simp
next
  case (Cons p ps)
  obtain r1 where r1: "Close ops e p r = Some r1" "registry_ok base (pm(GetName ops p := None)) r1"
    using registry_del [OF Cons.prems(1), of "GetName ops p" p] Cons.prems(2) by auto
  have d: "distinct (map (GetName ops) ps)" using Cons.prems(3) by simp
  have "\<forall>q \<in> set ps. (pm(GetName ops p := None)) (GetName ops q) = Some q"
  proof
    fix q assume q: "q \<in> set ps"
    with Cons.prems(3) have "GetName ops q \<noteq> GetName ops p" by (metis distinct.simps(2) image_eqI list.set_map list.simps(9))
    with q Cons.prems(2) show "(pm(GetName ops p := None)) (GetName ops q) = Some q" by simp
  qed
  from Cons.IH [OF r1(2) this d] obtain r' where
    "close_proxies ops e ps (pm(GetName ops p := None), r1) =
       Some (pm(GetName ops p := None) |` (- GetName ops ` set ps), r')"
    "registry_ok base (pm(GetName ops p := None) |` (- GetName ops ` set ps)) r'" by blast
  moreover have "pm(GetName ops p := None) |` (- GetName ops ` set ps) = pm |` (- GetName ops ` set (p # ps))"
    by (auto simp: restrict_map_def fun_eq_iff)
  ultimately show ?case using r1(1) by (simp add: ProxyManager_Del_def)
qed

section \<open>Controls\<close>

lemma ports_of_add: "finite (dom m) \<Longrightarrow> m n = None \<Longrightarrow> ports_of ops (m(n \<mapsto> p)) = ports_of ops m + GetUsedPortsNum ops p"
proof -
  assume fin: "finite (dom m)" and n: "m n = None"
  then have "n \<notin> dom m" by auto
  moreover have "(\<Sum>x \<in> dom m. GetUsedPortsNum ops (the ((m(n \<mapsto> p)) x))) = ports_of ops m"
    unfolding ports_of_def using n by (intro sum.cong) auto
  ultimately show ?thesis using fin by (simp add: ports_of_def)
qed

lemma ports_of_del: "finite (dom m) \<Longrightarrow> m n = Some p \<Longrightarrow> ports_of ops (m(n := None)) = ports_of ops m - GetUsedPortsNum ops p"
  using ports_of_add [of "m(n := None)" n p] by (simp add: map_upd_triv)

text \<open>The limit on ports per client is 0 when it is off.\<close>

definition control_ok :: "int \<Rightarrow> 'p smap \<Rightarrow> ('p, 'c) Control \<Rightarrow> bool" where
  "control_ok maxPorts pm ctl \<longleftrightarrow> finite (dom (cproxies ctl)) \<and> (\<forall>n p. cproxies ctl n = Some p \<longrightarrow> pm n = Some p) \<and>
     (0 < maxPorts \<longrightarrow> portsUsedNum ctl = ports_of ops (cproxies ctl) \<and> portsUsedNum ctl \<le> maxPorts)"

text \<open>The whole server: the controls, the proxy manager they share and the resources.\<close>

definition system_ok :: "'k set \<Rightarrow> int \<Rightarrow> ('p, 'c) Control list \<times> 'p smap \<times> 'r \<Rightarrow> bool" where
  "system_ok base maxPorts s \<longleftrightarrow>
     (case s of (cs, pm, r) \<Rightarrow>
        registry_ok base pm r \<and>
        (\<forall>ctl \<in> set cs. shutdown_done ctl \<or> control_ok maxPorts pm ctl) \<and>
        (\<forall>n \<in> dom pm. \<exists>i < length cs. \<not> shutdown_done (cs ! i) \<and> n \<in> dom (cproxies (cs ! i))) \<and>
        (\<forall>i < length cs. \<forall>j < length cs. \<forall>n. \<not> shutdown_done (cs ! i) \<longrightarrow> \<not> shutdown_done (cs ! j) \<longrightarrow>
           n \<in> dom (cproxies (cs ! i)) \<longrightarrow> n \<in> dom (cproxies (cs ! j)) \<longrightarrow> i = j))"

lemma system_okD:
  assumes "system_ok base mp (cs, pm, r)"
  shows "registry_ok base pm r"
    "i < length cs \<Longrightarrow> \<not> shutdown_done (cs ! i) \<Longrightarrow> control_ok mp pm (cs ! i)"
    "n \<in> dom pm \<Longrightarrow> \<exists>i < length cs. \<not> shutdown_done (cs ! i) \<and> n \<in> dom (cproxies (cs ! i))"
    "i < length cs \<Longrightarrow> j < length cs \<Longrightarrow> \<not> shutdown_done (cs ! i) \<Longrightarrow> \<not> shutdown_done (cs ! j) \<Longrightarrow>
       n \<in> dom (cproxies (cs ! i)) \<Longrightarrow> n \<in> dom (cproxies (cs ! j)) \<Longrightarrow> i = j"
  using assms nth_mem [of i cs] unfolding system_ok_def by (simp_all, blast+)

lemma system_okI:
  assumes "registry_ok base pm r"
    and "\<And>i. i < length cs \<Longrightarrow> \<not> shutdown_done (cs ! i) \<Longrightarrow> control_ok mp pm (cs ! i)"
    and "\<And>n. n \<in> dom pm \<Longrightarrow> \<exists>i < length cs. \<not> shutdown_done (cs ! i) \<and> n \<in> dom (cproxies (cs ! i))"
    and "\<And>i j n. i < length cs \<Longrightarrow> j < length cs \<Longrightarrow> \<not> shutdown_done (cs ! i) \<Longrightarrow> \<not> shutdown_done (cs ! j) \<Longrightarrow>
       n \<in> dom (cproxies (cs ! i)) \<Longrightarrow> n \<in> dom (cproxies (cs ! j)) \<Longrightarrow> i = j"
  shows "system_ok base mp (cs, pm, r)"
  using assms unfolding system_ok_def by (fastforce simp: in_set_conv_nth)

lemma control_okD:
  "control_ok mp pm ctl \<Longrightarrow> cproxies ctl n = Some p \<Longrightarrow> pm n = Some p"
  "control_ok mp pm ctl \<Longrightarrow> finite (dom (cproxies ctl))"
  "control_ok mp pm ctl \<Longrightarrow> 0 < mp \<Longrightarrow> portsUsedNum ctl = ports_of ops (cproxies ctl) \<and> portsUsedNum ctl \<le> mp"
  unfolding control_ok_def by auto

text \<open>A control that changes only its flags.\<close>

lemma system_same:
  assumes sys: "system_ok base mp (cs, pm, r)"
    and same: "cproxies ctl' = cproxies (cs ! i)" "portsUsedNum ctl' = portsUsedNum (cs ! i)"
      "shutdown_done ctl' = shutdown_done (cs ! i)"
    and reg: "registry_ok base pm r'"
  shows "system_ok base mp (cs[i := ctl'], pm, r')"
proof (rule system_okI [OF reg])
  have eq: "cproxies (cs[i := ctl'] ! j) = cproxies (cs ! j)" "shutdown_done (cs[i := ctl'] ! j) = shutdown_done (cs ! j)"
    "portsUsedNum (cs[i := ctl'] ! j) = portsUsedNum (cs ! j)" if "j < length cs" for j
    using same that by (cases "j = i"; simp)+
  show "control_ok mp pm (cs[i := ctl'] ! j)" if "j < length (cs[i := ctl'])" "\<not> shutdown_done (cs[i := ctl'] ! j)" for j
    using system_okD(2) [OF sys, of j] that unfolding control_ok_def by (auto simp: eq)
  show "\<exists>j < length (cs[i := ctl']). \<not> shutdown_done (cs[i := ctl'] ! j) \<and> n \<in> dom (cproxies (cs[i := ctl'] ! j))"
    if "n \<in> dom pm" for n using system_okD(3) [OF sys that] eq by (metis length_list_update)
  show "j = k" if "j < length (cs[i := ctl'])" "k < length (cs[i := ctl'])" "\<not> shutdown_done (cs[i := ctl'] ! j)"
    "\<not> shutdown_done (cs[i := ctl'] ! k)" "n \<in> dom (cproxies (cs[i := ctl'] ! j))" "n \<in> dom (cproxies (cs[i := ctl'] ! k))"
    for j k n using system_okD(4) [OF sys, of j k n] that by (simp add: eq)
qed

lemma system_flags:
  assumes "system_ok base mp (cs, pm, r)" "i < length cs" "\<not> shutdown_done (cs ! i)"
    and "cproxies ctl' = cproxies (cs ! i)" "portsUsedNum ctl' = portsUsedNum (cs ! i)" "\<not> shutdown_done ctl'"
    and "registry_ok base pm r'"
  shows "system_ok base mp (cs[i := ctl'], pm, r')"
  using system_same [OF assms(1,4,5) _ assms(7)] assms(3,6) by simp

text \<open>A control that adds or removes one name, together with the proxy manager.\<close>

lemma system_update_one:
  assumes sys: "system_ok base mp (cs, pm, r)" and i: "i < length cs" "\<not> shutdown_done (cs ! i)"
    and n: "pm n = cproxies (cs ! i) n" and px: "cproxies ctl' = (cproxies (cs ! i))(n := x)"
    and reg: "registry_ok base (pm(n := x)) r'" and ok: "control_ok mp (pm(n := x)) ctl'" "\<not> shutdown_done ctl'"
  shows "system_ok base mp (cs[i := ctl'], pm(n := x), r')"
proof (rule system_okI [OF reg])
  have other: "n \<notin> dom (cproxies (cs ! j))" if "j < length cs" "\<not> shutdown_done (cs ! j)" "j \<noteq> i" for j
  proof
    assume nj: "n \<in> dom (cproxies (cs ! j))"
    then obtain p where "cproxies (cs ! j) n = Some p" by auto
    then have "pm n = Some p" using control_okD(1) [OF system_okD(2) [OF sys that(1,2)]] by simp
    then have "n \<in> dom (cproxies (cs ! i))" using n by auto
    with system_okD(4) [OF sys that(1) i(1) that(2) i(2) nj] that(3) show False by simp
  qed
  have new: "m \<in> dom (cproxies (cs[i := ctl'] ! j)) \<longleftrightarrow> m \<in> dom (cproxies (cs ! j))" if "m \<noteq> n \<or> j \<noteq> i" for m j
    using that px i(1) by (cases "j = i") auto
  have done_eq: "shutdown_done (cs[i := ctl'] ! j) = shutdown_done (cs ! j)" for j
    using ok(2) i by (cases "j = i") auto
  show "control_ok mp (pm(n := x)) (cs[i := ctl'] ! j)"
    if j: "j < length (cs[i := ctl'])" "\<not> shutdown_done (cs[i := ctl'] ! j)" for j
  proof (cases "j = i")
    case False
    with j other [of j] have "control_ok mp pm (cs ! j)" "n \<notin> dom (cproxies (cs ! j))"
      using system_okD(2) [OF sys, of j] done_eq by auto
    with False show ?thesis by (auto simp: control_ok_def)
  qed (use ok i in simp)
  show "\<exists>j < length (cs[i := ctl']). \<not> shutdown_done (cs[i := ctl'] ! j) \<and> m \<in> dom (cproxies (cs[i := ctl'] ! j))"
    if m: "m \<in> dom (pm(n := x))" for m
  proof (cases "m = n")
    case True
    with m px i ok(2) show ?thesis by (intro exI [of _ i]) (auto split: if_splits)
  next
    case False
    with m have "m \<in> dom pm" by (auto split: if_splits)
    from system_okD(3) [OF sys this] new False done_eq show ?thesis by (metis length_list_update)
  qed
  show "j = k" if "j < length (cs[i := ctl'])" "k < length (cs[i := ctl'])" "\<not> shutdown_done (cs[i := ctl'] ! j)"
    "\<not> shutdown_done (cs[i := ctl'] ! k)" "m \<in> dom (cproxies (cs[i := ctl'] ! j))" "m \<in> dom (cproxies (cs[i := ctl'] ! k))"
    for j k m
  proof (cases "m = n")
    case True
    then show ?thesis using that other new done_eq by (metis length_list_update)
  next
    case False
    then show ?thesis using that new done_eq system_okD(4) [OF sys, of j k m] by (metis length_list_update)
  qed
qed

text \<open>A control that has shut down, with the names it held removed.\<close>

lemma system_stopped:
  assumes sys: "system_ok base mp (cs, pm, r)" and i: "i < length cs" "\<not> shutdown_done (cs ! i)"
    and reg: "registry_ok base (pm |` (- dom (cproxies (cs ! i)))) r'" and fin: "shutdown_done ctl'"
  shows "system_ok base mp (cs[i := ctl'], pm |` (- dom (cproxies (cs ! i))), r')"
proof (rule system_okI [OF reg])
  have old: "cs[i := ctl'] ! j = cs ! j \<and> j \<noteq> i" if "\<not> shutdown_done (cs[i := ctl'] ! j)" for j
    using that fin i by (cases "j = i") auto
  show "control_ok mp (pm |` (- dom (cproxies (cs ! i)))) (cs[i := ctl'] ! j)"
    if j: "j < length (cs[i := ctl'])" "\<not> shutdown_done (cs[i := ctl'] ! j)" for j
  proof -
    have ok: "control_ok mp pm (cs ! j)" using system_okD(2) [OF sys, of j] j old by auto
    moreover have "n \<notin> dom (cproxies (cs ! i))" if "n \<in> dom (cproxies (cs ! j))" for n
      using system_okD(4) [OF sys, of j i n] that j old i by auto
    ultimately show ?thesis using old [OF j(2)] by (auto simp: control_ok_def restrict_map_def)
  qed
  show "\<exists>j < length (cs[i := ctl']). \<not> shutdown_done (cs[i := ctl'] ! j) \<and> n \<in> dom (cproxies (cs[i := ctl'] ! j))"
    if "n \<in> dom (pm |` (- dom (cproxies (cs ! i))))" for n
  proof -
    have n: "n \<in> dom pm" "n \<notin> dom (cproxies (cs ! i))" using that by auto
    from system_okD(3) [OF sys n(1)] obtain j where j: "j < length cs" "\<not> shutdown_done (cs ! j)" "n \<in> dom (cproxies (cs ! j))"
      by blast
    with n(2) have "j \<noteq> i" by auto
    with j show ?thesis by (intro exI [of _ j]) auto
  qed
  show "j = k" if "j < length (cs[i := ctl'])" "k < length (cs[i := ctl'])" "\<not> shutdown_done (cs[i := ctl'] ! j)"
    "\<not> shutdown_done (cs[i := ctl'] ! k)" "n \<in> dom (cproxies (cs[i := ctl'] ! j))" "n \<in> dom (cproxies (cs[i := ctl'] ! k))"
    for j k n using system_okD(4) [OF sys, of j k n] that old [of j] old [of k] by auto
qed

section \<open>Every step keeps the system in order\<close>

text \<open>What a registration can do: nothing but perhaps touch the resources, or add one proxy.\<close>

lemma RegisterProxy_cases:
  assumes "RegisterProxy ops mp e api pxyRes name (ctl, pm, r) = Some (out, ctl', pm', r')"
  obtains (unchanged) "ctl' = ctl" "pm' = pm" "r' = r" "isl out"
  | (failed) p x p' where "pxyRes = Inr p" "Run ops e p r = (Inl x, p', r')" "ctl' = ctl" "pm' = pm" "isl out"
  | (added) p a p' where "pxyRes = Inr p" "Run ops e p r = (Inr a, p', r')" "pm name = None" "pm' = pm(name \<mapsto> p')"
      "\<not> isl out" "0 < mp \<longrightarrow> portsUsedNum ctl + GetUsedPortsNum ops p \<le> mp"
      "ctl' = (if 0 < mp then ctl\<lparr>portsUsedNum := portsUsedNum ctl + GetUsedPortsNum ops p\<rparr> else ctl)
                \<lparr>cproxies := (cproxies ctl)(GetName ops p' \<mapsto> p')\<rparr>"
proof (cases api)
  case (ApiError x)
  with assms show thesis by (intro unchanged) (auto simp: RegisterProxy_def)
next
  case ApiRejects
  with assms show thesis by (intro unchanged) (auto simp: RegisterProxy_def)
next
  case ApiAccepts
  show thesis
  proof (cases pxyRes)
    case (Inl x)
    with assms ApiAccepts show thesis by (intro unchanged) (auto simp: RegisterProxy_def)
  next
    case (Inr p)
    show thesis
    proof (cases "0 < mp \<and> portsUsedNum ctl + GetUsedPortsNum ops p > mp \<or> ProxyManager_Exist name pm")
      case True
      with assms ApiAccepts Inr show thesis
        by (intro unchanged) (auto simp: RegisterProxy_def Let_def split: if_splits)
    next
      case False
      obtain o1 p' r1 where run: "Run ops e p r = (o1, p', r1)" by (metis prod_cases3)
      from False have none: "pm name = None" "\<not> ProxyManager_Exist name pm" by (auto simp: ProxyManager_Exist_def)
      show thesis
      proof (cases o1)
        case (Inl x)
        with assms ApiAccepts Inr False run show thesis
          by (intro failed [of p x p']) (auto simp: RegisterProxy_def Let_def split: if_splits)
      next
        case (Inr a)
        with assms ApiAccepts \<open>pxyRes = Inr p\<close> False run none show thesis
          by (intro added [of p a p']) (auto simp: RegisterProxy_def ProxyManager_Add_def Let_def split: if_splits)
      qed
    qed
  qed
qed

lemma system_register:
  assumes sys: "system_ok base mp (cs, pm, r)" and i: "i < length cs" "\<not> shutdown_done (cs ! i)"
    and pxy: "\<And>p. pxyRes = Inr p \<Longrightarrow> GetName ops p = name \<and> ready e p r"
    and reg: "RegisterProxy ops mp e api pxyRes name (cs ! i, pm, r) = Some (out, ctl', pm', r')"
  shows "system_ok base mp (cs[i := ctl'], pm', r')"
  using reg
proof (cases rule: RegisterProxy_cases)
  case unchanged
  with sys show ?thesis by simp
next
  case (failed p x p')
  have "registry_ok base pm r'" using registry_err [OF system_okD(1) [OF sys]] pxy failed by blast
  with failed system_flags [OF sys i, of "cs ! i" r'] i show ?thesis by simp
next
  case (added p a p')
  let ?ctl = "cs ! i"
  have p: "GetName ops p = name" "ready e p r" using pxy added(1) by auto
  have p': "GetName ops p' = name" "GetUsedPortsNum ops p' = GetUsedPortsNum ops p"
    using run_ok [OF registry_okD(1) [OF system_okD(1) [OF sys]] p(2) added(2)] p(1) by auto
  have ok: "control_ok mp pm ?ctl" using system_okD(2) [OF sys i] .
  have none: "cproxies ?ctl name = None" using control_okD(1) [OF ok] added(3) by (cases "cproxies ?ctl name") auto
  have reg': "registry_ok base (pm(name := Some p')) r'"
    using registry_add [OF system_okD(1) [OF sys] p(2) added(2)] p(1) added(3) by simp
  have px: "cproxies ctl' = (cproxies ?ctl)(name := Some p')" using added(7) p'(1) by simp
  have "ports_of ops (cproxies ctl') = ports_of ops (cproxies ?ctl) + GetUsedPortsNum ops p"
    unfolding px using ports_of_add [OF control_okD(2) [OF ok] none] p'(2) by simp
  then have ok': "control_ok mp (pm(name := Some p')) ctl'"
    using ok added(6,7) px none unfolding control_ok_def by (auto split: if_splits)
  have "\<not> shutdown_done ctl'" using i(2) added(7) by simp
  from system_update_one [OF sys i _ px reg' ok' this] added(3,4) none show ?thesis by simp
qed

lemma system_close:
  assumes sys: "system_ok base mp (cs, pm, r)" and i: "i < length cs" "\<not> shutdown_done (cs ! i)"
    and cl: "Control_CloseProxy ops mp e name (cs ! i, pm, r) = Some (ctl', pm', r')"
  shows "system_ok base mp (cs[i := ctl'], pm', r')"
proof (cases "cproxies (cs ! i) name")
  case None
  with cl have "ctl' = cs ! i" "pm' = pm" "r' = r" by (auto simp: Control_CloseProxy_def)
  with sys show ?thesis by simp
next
  case (Some p)
  let ?ctl = "cs ! i"
  have ok: "control_ok mp pm ?ctl" using system_okD(2) [OF sys i] .
  have pm: "pm name = Some p" using control_okD(1) [OF ok Some] .
  have nm: "GetName ops p = name" using registry_okD(2) [OF system_okD(1) [OF sys] pm] .
  have nonneg: "0 \<le> GetUsedPortsNum ops p" using live_used [OF registry_okD(3) [OF system_okD(1) [OF sys] pm]] .
  obtain r1 where r1: "Close ops e p r = Some r1" "registry_ok base (pm(name := None)) r1"
    using registry_del [OF system_okD(1) [OF sys] pm] by blast
  with cl Some nm have st: "r' = r1" "pm' = pm(name := None)"
    "ctl' = (if 0 < mp then ?ctl\<lparr>portsUsedNum := portsUsedNum ?ctl - GetUsedPortsNum ops p\<rparr> else ?ctl)
              \<lparr>cproxies := (cproxies ?ctl)(name := None)\<rparr>"
    by (auto simp: Control_CloseProxy_def ProxyManager_Del_def)
  have px: "cproxies ctl' = (cproxies ?ctl)(name := None)" using st(3) by simp
  have "ports_of ops (cproxies ctl') = ports_of ops (cproxies ?ctl) - GetUsedPortsNum ops p"
    unfolding px using ports_of_del [OF control_okD(2) [OF ok] Some] .
  then have "control_ok mp (pm(name := None)) ctl'"
    using ok st(3) px nonneg Some unfolding control_ok_def by (auto split: if_splits)
  moreover have "\<not> shutdown_done ctl'" using i(2) st(3) by simp
  ultimately show ?thesis using system_update_one [OF sys i _ px _] r1(2) pm Some st by simp
qed

text \<open>Closing the proxies of a control never fails and takes exactly these out of the registry.\<close>

lemma system_close_proxies:
  assumes sys: "system_ok base mp (cs, pm, r)" and i: "i < length cs" "\<not> shutdown_done (cs ! i)"
    and order: "set order = ran (cproxies (cs ! i))" "distinct order"
  shows "\<exists>r1. close_proxies ops e order (pm, r) = Some (pm |` (- dom (cproxies (cs ! i))), r1) \<and>
    registry_ok base (pm |` (- dom (cproxies (cs ! i)))) r1"
proof -
  have ok: "control_ok mp pm (cs ! i)" using system_okD(2) [OF sys i] .
  note reg = system_okD(1) [OF sys]
  have own: "cproxies (cs ! i) (GetName ops p) = Some p \<and> pm (GetName ops p) = Some p" if "p \<in> set order" for p
  proof -
    from that order(1) obtain n where n: "cproxies (cs ! i) n = Some p" by (auto simp: ran_def)
    then have "pm n = Some p" by (rule control_okD(1) [OF ok])
    with n registry_okD(2) [OF reg] show ?thesis by auto
  qed
  have names: "GetName ops ` set order = dom (cproxies (cs ! i))"
  proof
    show "GetName ops ` set order \<subseteq> dom (cproxies (cs ! i))" using own by auto
    show "dom (cproxies (cs ! i)) \<subseteq> GetName ops ` set order"
    proof
      fix n assume "n \<in> dom (cproxies (cs ! i))"
      then obtain p where p: "cproxies (cs ! i) n = Some p" by auto
      then have "pm n = Some p" by (rule control_okD(1) [OF ok])
      from registry_okD(2) [OF reg this] p order(1) show "n \<in> GetName ops ` set order" by (auto intro!: image_eqI ranI)
    qed
  qed
  have "inj_on (GetName ops) (set order)" using own by (intro inj_onI) (metis option.inject)
  then have "distinct (map (GetName ops) order)" using order(2) by (simp add: distinct_map)
  with registry_close_all [OF reg, of order e] own show ?thesis unfolding names by blast
qed

lemma system_shutdown:
  assumes sys: "system_ok base mp (cs, pm, r)" and i: "i < length cs" "\<not> shutdown_done (cs ! i)"
    and order: "set order = ran (cproxies (cs ! i))" "distinct order"
    and st: "stoper ops e close_err drained order (cs ! i, pm, r) = Some (ctl', pm', r')"
  shows "system_ok base mp (cs[i := ctl'], pm', r')"
proof (cases "close_err (conn_closed (cs ! i)) \<or> \<not> drained")
  case True
  then have "pm' = pm" "r' = r" "cproxies ctl' = cproxies (cs ! i)" "portsUsedNum ctl' = portsUsedNum (cs ! i)"
    "\<not> shutdown_done ctl'" using st i(2) by (auto simp: stoper_def Let_def split: if_splits)
  with system_flags [OF sys i _ _ _ system_okD(1) [OF sys]] show ?thesis by simp
next
  case False
  from system_close_proxies [OF sys i order] obtain r1 where
    "close_proxies ops e order (pm, r) = Some (pm |` (- dom (cproxies (cs ! i))), r1)"
    "registry_ok base (pm |` (- dom (cproxies (cs ! i)))) r1" by blast
  moreover from this st False have "pm' = pm |` (- dom (cproxies (cs ! i)))" "r' = r1" "shutdown_done ctl'"
    by (auto simp: stoper_def Let_def)
  ultimately show ?thesis using system_stopped [OF sys i] by simp
qed

lemma system_login:
  assumes sys: "system_ok base mp (cs, pm, r)" and new: "NewControl now maxPool n runID = Some ctl" and mp: "0 \<le> mp"
  shows "system_ok base mp (cs @ [ctl], pm, r)"
proof (rule system_okI [OF system_okD(1) [OF sys]])
  have c: "cproxies ctl = Map.empty" "portsUsedNum ctl = 0"
    using new by (auto simp: NewControl_def Let_def split: if_splits)
  show "control_ok mp pm ((cs @ [ctl]) ! i)"
    if "i < length (cs @ [ctl])" "\<not> shutdown_done ((cs @ [ctl]) ! i)" for i
  proof (cases "i < length cs")
    case True
    with that system_okD(2) [OF sys, of i] show ?thesis by (simp add: nth_append)
  next
    case False
    with that have "i = length cs" by simp
    with c mp show ?thesis by (simp add: control_ok_def ports_of_def)
  qed
  show "\<exists>i < length (cs @ [ctl]). \<not> shutdown_done ((cs @ [ctl]) ! i) \<and> m \<in> dom (cproxies ((cs @ [ctl]) ! i))"
    if "m \<in> dom pm" for m
  proof -
    from system_okD(3) [OF sys that] obtain i where "i < length cs" "\<not> shutdown_done (cs ! i)" "m \<in> dom (cproxies (cs ! i))"
      by blast
    then show ?thesis by (intro exI [of _ i]) (simp add: nth_append)
  qed
  show "i = j" if "i < length (cs @ [ctl])" "j < length (cs @ [ctl])" "\<not> shutdown_done ((cs @ [ctl]) ! i)"
    "\<not> shutdown_done ((cs @ [ctl]) ! j)" "m \<in> dom (cproxies ((cs @ [ctl]) ! i))" "m \<in> dom (cproxies ((cs @ [ctl]) ! j))"
    for i j m
  proof -
    have "i < length cs" "j < length cs" using that c by (auto simp: nth_append less_Suc_eq split: if_splits)
    with that system_okD(4) [OF sys, of i j m] show ?thesis by (simp add: nth_append)
  qed
qed

text \<open>What the invariant says of the clients' proxies.\<close>

lemma system_ok_summary:
  assumes sys: "system_ok base mp (cs, pm, r)"
  shows "res r = base \<union> (\<Union>p \<in> ran pm. owned p)"
    and "pm n = Some p \<Longrightarrow> pm m = Some q \<Longrightarrow> n \<noteq> m \<Longrightarrow> owned p \<inter> owned q = {}"
    and "pm n = Some p \<Longrightarrow> \<exists>!i. i < length cs \<and> \<not> shutdown_done (cs ! i) \<and> cproxies (cs ! i) n = Some p"
    and "0 < mp \<Longrightarrow> i < length cs \<Longrightarrow> \<not> shutdown_done (cs ! i) \<Longrightarrow> ports_of ops (cproxies (cs ! i)) \<le> mp"
proof -
  note reg = system_okD(1) [OF sys]
  show "res r = base \<union> (\<Union>p \<in> ran pm. owned p)" by (rule registry_okD(4) [OF reg])
  show "pm n = Some p \<Longrightarrow> pm m = Some q \<Longrightarrow> n \<noteq> m \<Longrightarrow> owned p \<inter> owned q = {}" by (rule registry_okD(6) [OF reg])
  show "\<exists>!i. i < length cs \<and> \<not> shutdown_done (cs ! i) \<and> cproxies (cs ! i) n = Some p" if "pm n = Some p"
  proof -
    from that have "n \<in> dom pm" by auto
    from system_okD(3) [OF sys this] obtain i q where i: "i < length cs" "\<not> shutdown_done (cs ! i)" "cproxies (cs ! i) n = Some q"
      by auto
    then have "q = p" using control_okD(1) [OF system_okD(2) [OF sys i(1,2)] i(3)] that by simp
    with i system_okD(4) [OF sys] show ?thesis by (metis domI)
  qed
  show "0 < mp \<Longrightarrow> i < length cs \<Longrightarrow> \<not> shutdown_done (cs ! i) \<Longrightarrow> ports_of ops (cproxies (cs ! i)) \<le> mp"
    using control_okD(3) [OF system_okD(2) [OF sys, of i]] by auto
qed

end

end
