(* ===== verification/HTTP_Proxy.thy ===== *)
theory HTTP_Proxy
  imports HTTP_Group Acquire_All Server_System
begin

text \<open>
  Model of the server's HTTP proxy (\<^verbatim>\<open>server/proxy/http.go\<close>): it registers a route for every pair of a domain
  and a location, alone or as a member of a group, and undoes what it registered when one fails. The
  routing table and the groups are the shared \<open>HTTPGroupController\<close>. \<^verbatim>\<open>GetRealConn\<close> is the reference
  \<open>ProxyConn\<close>; the data path behind it is not modelled.
\<close>

section \<open>The proxy\<close>

record HTTPProxy =
  hpName :: string
  hpGroup :: string
  hpGroupKey :: string
  hpCustomDomains :: "string list"
  hpSubDomain :: string
  hpLocations :: "string list"
  hpHostHeaderRewrite :: string
  hpHeaders :: "(string \<times> string) list"
  hpHTTPUser :: string
  hpHTTPPwd :: string
  hpRouteByHTTPUser :: string
  hpCloseFuncs :: "conn_ref RouteConfig list"
  hpUsedPortsNum :: int

text \<open>The part of the server's configuration that names the virtual hosts.\<close>

record vhost_cfg =
  SubDomainHost :: string
  VhostHTTPPort :: int
  VhostHTTPSPort :: int
  TCPMuxHTTPConnectPort :: int

definition http_route_config :: "HTTPProxy \<Rightarrow> conn_ref RouteConfig" where
  "http_route_config p =
     \<lparr>Domain = [], Location = [], RewriteHost = hpHostHeaderRewrite p, Username = hpHTTPUser p, Password = hpHTTPPwd p,
      Headers = hpHeaders p, RouteByHTTPUser = hpRouteByHTTPUser p, CreateConnFn = Some (ProxyConn (hpName p)),
      ChooseEndpointFn = None, CreateConnByEndpointFn = None\<rparr>"

text \<open>The routes in the order of the two loops: each non-empty domain with each location, then the subdomain with
  each location.\<close>

definition http_routes_of :: "vhost_cfg \<Rightarrow> HTTPProxy \<Rightarrow> conn_ref RouteConfig list" where
  "http_routes_of cfg p =
     (let locations = (if hpLocations p = [] then [''''] else hpLocations p);
          routes = (\<lambda>d. map (\<lambda>l. (http_route_config p)\<lparr>Domain := d, Location := l\<rparr>) locations)
      in concat (map routes (filter (\<lambda>d. d \<noteq> []) (hpCustomDomains p))) @
         (if hpSubDomain p \<noteq> [] then routes (hpSubDomain p @ ''.'' @ SubDomainHost cfg) else []))"

text \<open>One registration; the handle is the route configuration that the closing function captures.\<close>

definition http_register :: "string \<Rightarrow> string \<Rightarrow> string \<Rightarrow> conn_ref RouteConfig \<Rightarrow> HTTPGroupController \<Rightarrow>
   (string, conn_ref RouteConfig) result \<times> HTTPGroupController" where
  "http_register name grp key rc r =
     (if grp \<noteq> [] then
        (case HTTPGroupController_Register name grp key rc r of
           (Inl e, r1) \<Rightarrow> (Inl (group_error_text [] e), r1)
         | (Inr _, r1) \<Rightarrow> (Inr rc, r1))
      else
        (case HTTPReverseProxy_Register rc (vhostRouter r) of
           Inl e \<Rightarrow> (Inl ''router config conflict'', r)
         | Inr t \<Rightarrow> (Inr rc, r\<lparr>vhostRouter := t\<rparr>)))"

definition http_unregister :: "string \<Rightarrow> string \<Rightarrow> conn_ref RouteConfig \<Rightarrow> HTTPGroupController \<Rightarrow> HTTPGroupController option" where
  "http_unregister name grp rc r =
     Some (if grp \<noteq> [] then HTTPGroupController_UnRegister name grp r
           else r\<lparr>vhostRouter := HTTPReverseProxy_UnRegister rc (vhostRouter r)\<rparr>)"

definition HTTPProxy_Close :: "HTTPProxy \<Rightarrow> HTTPGroupController \<Rightarrow> HTTPGroupController option" where
  "HTTPProxy_Close p r = drop_all (http_unregister (hpName p) (hpGroup p)) (hpCloseFuncs p) r"

definition HTTPProxy_Run :: "vhost_cfg \<Rightarrow> HTTPProxy \<Rightarrow> HTTPGroupController \<Rightarrow>
   (string, string) result \<times> HTTPProxy \<times> HTTPGroupController" where
  "HTTPProxy_Run cfg p r =
     (case acquire_all (http_register (hpName p) (hpGroup p) (hpGroupKey p)) (http_routes_of cfg p) (hpCloseFuncs p) r of
        (out, fns, r1) \<Rightarrow>
          (let p1 = p\<lparr>hpCloseFuncs := fns\<rparr>
           in case out of
                Inl e \<Rightarrow> (Inl e, p1, the (HTTPProxy_Close p1 r1))
              | Inr _ \<Rightarrow>
                  (Inr (Join (map (\<lambda>rc. CanonicalAddr (Domain rc) (VhostHTTPPort cfg)) (http_routes_of cfg p)) '',''), p1, r1)))"

definition http_ops :: "(vhost_cfg, HTTPProxy, HTTPGroupController) proxy_ops" where
  "http_ops = \<lparr>GetName = hpName, GetUsedPortsNum = hpUsedPortsNum, Run = HTTPProxy_Run, Close = (\<lambda>_. HTTPProxy_Close)\<rparr>"

section \<open>What a registration holds\<close>

text \<open>A route of an ungrouped proxy, or a membership in a group.\<close>

datatype http_key = RouteOf route_key | MemberOf string string

definition http_held :: "HTTPGroupController \<Rightarrow> http_key set" where
  "http_held r =
     {k. case k of
           RouteOf rk \<Rightarrow> (\<exists>rc q. routes_abs (vhostRouter r) rk = Some rc \<and> CreateConnFn rc = Some (ProxyConn q))
         | MemberOf grp q \<Rightarrow> (\<exists>gid. hgroups r grp = Some gid \<and> q \<in> set (pxyNames (hgs r ! gid)))}"

definition http_key_of :: "string \<Rightarrow> string \<Rightarrow> conn_ref RouteConfig \<Rightarrow> http_key" where
  "http_key_of name grp rc =
     (if grp \<noteq> [] then MemberOf grp name else RouteOf (Domain rc, Location rc, RouteByHTTPUser rc))"

lemma http_held_simps [simp]:
  "RouteOf k \<in> http_held r \<longleftrightarrow> (\<exists>rc q. routes_abs (vhostRouter r) k = Some rc \<and> CreateConnFn rc = Some (ProxyConn q))"
  "MemberOf grp q \<in> http_held r \<longleftrightarrow> (\<exists>gid. hgroups r grp = Some gid \<and> q \<in> set (pxyNames (hgs r ! gid)))"
  by (simp_all add: http_held_def)

lemma http_keys_eqI:
  assumes "\<And>k. RouteOf k \<in> A \<longleftrightarrow> RouteOf k \<in> B" "\<And>g q. MemberOf g q \<in> A \<longleftrightarrow> MemberOf g q \<in> B"
  shows "A = B"
proof (rule set_eqI)
  show "x \<in> A \<longleftrightarrow> x \<in> B" for x using assms by (cases x) simp_all
qed

text \<open>Creating an empty group holds nothing.\<close>

lemma http_held_lookup:
  assumes "http_inv r" "HTTPGroupController_lookup grp r = (gid, r')"
  shows "http_held r' = http_held r"
proof (cases "hgroups r grp")
  case None
  with assms(2) have r': "r' = r\<lparr>hgs := hgs r @ [NewHTTPGroup], hgroups := (hgroups r)(grp \<mapsto> length (hgs r))\<rparr>"
    by (auto simp: HTTPGroupController_lookup_def)
  show ?thesis
  proof (rule http_keys_eqI)
    show "MemberOf g q \<in> http_held r' \<longleftrightarrow> MemberOf g q \<in> http_held r" for g q
      using None http_invD(1) [OF assms(1), of g] by (auto simp: r' nth_append NewHTTPGroup_def)
  qed (simp add: r')
next
  case (Some g)
  with assms(2) show ?thesis by (auto simp: HTTPGroupController_lookup_def)
qed

text \<open>A member that joined: it was no member before, is the last name now, and no route of an ungrouped proxy
  changed.\<close>

lemma HTTPGroup_Register_ok:
  assumes "routers_inv (vhostRouter s)" "gid < length (hgs s)" "HTTPGroup_Register gid name grp key rc s = (Inr u, r')"
  obtains g' where "hgs r' = (hgs s)[gid := g']" "pxyNames g' = pxyNames (hgs s ! gid) @ [name]" "hgroups r' = hgroups s"
    "map_of (createFuncs (hgs s ! gid)) name = None"
    "\<And>k x q. routes_abs (vhostRouter r') k = Some x \<and> CreateConnFn x = Some (ProxyConn q) \<longleftrightarrow>
       routes_abs (vhostRouter s) k = Some x \<and> CreateConnFn x = Some (ProxyConn q)"
proof (cases "createFuncs (hgs s ! gid) = []")
  case True
  let ?tmp = "rc\<lparr>CreateConnFn := Some (GroupConn gid), ChooseEndpointFn := Some (GroupConn gid),
                 CreateConnByEndpointFn := Some (GroupConn gid)\<rparr>"
  from True assms(3) obtain r1 where
    r1: "Routers_Add (vhostRouter s) (Domain rc) (Location rc) (RouteByHTTPUser rc) ?tmp = Inr r1"
    by (auto simp: HTTPGroup_Register_def Let_def split: sum.splits)
  have none: "routes_abs (vhostRouter s) (Domain rc, Location rc, RouteByHTTPUser rc) = None"
    using r1 routes_abs_conflict by (metis isl_def sum.distinct(1))
  from True r1 assms(2,3) have r': "vhostRouter r' = r1"
    and "\<exists>g'. hgs r' = (hgs s)[gid := g'] \<and> pxyNames g' = pxyNames (hgs s ! gid) @ [name] \<and> hgroups r' = hgroups s"
    by (auto simp: HTTPGroup_Register_def add_member_def Let_def split: if_splits)
  then obtain g' where g': "hgs r' = (hgs s)[gid := g']" "pxyNames g' = pxyNames (hgs s ! gid) @ [name]"
    "hgroups r' = hgroups s" by blast
  show thesis
  proof (rule that [OF g'])
    show "map_of (createFuncs (hgs s ! gid)) name = None" using True by simp
    show "routes_abs (vhostRouter r') k = Some x \<and> CreateConnFn x = Some (ProxyConn q) \<longleftrightarrow>
       routes_abs (vhostRouter s) k = Some x \<and> CreateConnFn x = Some (ProxyConn q)" for k x q
      using none unfolding r' routes_abs_Add [OF assms(1) r1] by auto
  qed
next
  case False
  with assms(3) have "map_of (createFuncs (hgs s ! gid)) name = None"
    and "\<exists>g'. r' = s\<lparr>hgs := (hgs s)[gid := g']\<rparr> \<and> pxyNames g' = pxyNames (hgs s ! gid) @ [name]"
    by (auto simp: HTTPGroup_Register_def add_member_def Let_def split: if_splits)
  then show thesis by (auto intro: that)
qed

text \<open>What registering a member does: an error changes nothing that is held, a success adds the membership.\<close>

lemma http_member_joins:
  assumes inv: "http_inv r" and reg: "HTTPGroupController_Register name grp key rc r = (out, r')"
  shows "if isl out then http_held r' = http_held r
    else MemberOf grp name \<notin> http_held r \<and> http_held r' = insert (MemberOf grp name) (http_held r)"
proof -
  obtain gid s where lk: "HTTPGroupController_lookup grp r = (gid, s)" by (metis surj_pair)
  note s = http_inv_lookup [OF inv lk] and held = http_held_lookup [OF inv lk]
  let ?g = "hgs s ! gid"
  have gid: "gid < length (hgs s)" and ok: "hgroup_ok (vhostRouter s) grp gid ?g"
    using http_invD [of s grp gid] s by auto
  have other: "n = gid \<longleftrightarrow> g = grp" if "hgroups s g = Some n" for g n
    using http_inv_other [of s g n grp] s that by auto
  have names: "name \<in> set (pxyNames ?g) \<longleftrightarrow> map_of (createFuncs ?g) name \<noteq> None"
    using ok by (metis hgroup_ok_def list.set_map map_of_eq_None_iff)
  have reg1: "HTTPGroup_Register gid name grp key rc s = (out, r')"
    using reg lk by (simp add: HTTPGroupController_Register_def)
  show ?thesis
  proof (cases out)
    case (Inl e)
    with reg1 have "r' = s"
      using ok by (auto simp: HTTPGroup_Register_def add_member_def Let_def hgroup_ok_def gid split: if_splits sum.splits)
    with Inl held show ?thesis by simp
  next
    case (Inr u)
    have "routers_inv (vhostRouter s)" using s unfolding http_inv_def by blast
    from HTTPGroup_Register_ok [OF this gid reg1 [unfolded Inr]] obtain g' where
      g': "hgs r' = (hgs s)[gid := g']" "pxyNames g' = pxyNames ?g @ [name]" "hgroups r' = hgroups s"
      and new: "map_of (createFuncs ?g) name = None"
      and routes: "\<And>k x q. routes_abs (vhostRouter r') k = Some x \<and> CreateConnFn x = Some (ProxyConn q) \<longleftrightarrow>
        routes_abs (vhostRouter s) k = Some x \<and> CreateConnFn x = Some (ProxyConn q)" by blast
    have "MemberOf grp name \<notin> http_held s" using names new s by simp
    moreover have "http_held r' = insert (MemberOf grp name) (http_held s)"
    proof (rule http_keys_eqI)
      show "MemberOf g q \<in> http_held r' \<longleftrightarrow> MemberOf g q \<in> insert (MemberOf grp name) (http_held s)" for g q
        using g' gid s other [of g] by (auto simp: nth_list_update)
      show "RouteOf k \<in> http_held r' \<longleftrightarrow> RouteOf k \<in> insert (MemberOf grp name) (http_held s)" for k
        using routes [of k] by auto
    qed
    ultimately show ?thesis using Inr held by simp
  qed
qed

text \<open>What a member's leave does.\<close>

lemma http_member_leaves:
  assumes inv: "http_inv r" and held: "MemberOf grp name \<in> http_held r"
  shows "http_inv (HTTPGroupController_UnRegister name grp r) \<and>
    http_held (HTTPGroupController_UnRegister name grp r) = http_held r - {MemberOf grp name}"
proof -
  from held obtain gid where listed: "hgroups r grp = Some gid" and mem: "name \<in> set (pxyNames (hgs r ! gid))" by auto
  let ?g = "hgs r ! gid" and ?r' = "HTTPGroupController_UnRegister name grp r"
  note st = HTTPGroupController_UnRegister_member [OF listed, of name]
  have gid: "gid < length (hgs r)" and ok: "hgroup_ok (vhostRouter r) grp gid ?g" using http_invD [OF inv listed] by auto
  have names: "map fst (AList.delete name (createFuncs ?g)) = remove1 name (pxyNames ?g)" "distinct (pxyNames ?g)"
    using ok by (auto simp: hgroup_ok_def map_fst_delete)
  have "AList.delete name (createFuncs ?g) = [] \<longleftrightarrow> set (remove1 name (pxyNames ?g)) = {}"
    using names(1) by (metis Nil_is_map_conv set_empty)
  also have "\<dots> \<longleftrightarrow> set (pxyNames ?g) = {name}" using mem set_remove1_eq [OF names(2)] by auto
  finally have empty: "AList.delete name (createFuncs ?g) = [] \<longleftrightarrow> set (pxyNames ?g) = {name}" .
  have other: "n = gid \<longleftrightarrow> g = grp" if "hgroups r g = Some n" for g n
    using http_inv_other [OF inv that, of grp] listed that by (cases "g = grp") auto
  have "createFuncs ?g \<noteq> []" using ok mem by (auto simp: hgroup_ok_def)
  then obtain rc where rc: "routes_abs (vhostRouter r) (group_route ?g) = Some rc" "CreateConnFn rc = Some (GroupConn gid)"
    using ok by (auto simp: hgroup_ok_def)
  have "http_held ?r' = http_held r - {MemberOf grp name}"
  proof (rule http_keys_eqI)
    show "RouteOf k \<in> http_held ?r' \<longleftrightarrow> RouteOf k \<in> http_held r - {MemberOf grp name}" for k
      using rc unfolding st by (auto simp: routes_abs_Del)
    show "MemberOf g q \<in> http_held ?r' \<longleftrightarrow> MemberOf g q \<in> http_held r - {MemberOf grp name}" for g q
      using gid listed other [of g] empty names(2) unfolding st by (auto simp: nth_list_update split: if_splits)
  qed
  with http_inv_UnRegister [OF inv listed mem] show ?thesis by simp
qed

text \<open>Routes of ungrouped proxies.\<close>

lemma http_proxy_adds:
  assumes inv: "http_inv r" and fn: "CreateConnFn rc = Some (ProxyConn q)"
    and add: "HTTPReverseProxy_Register rc (vhostRouter r) = Inr t"
  shows "http_inv (r\<lparr>vhostRouter := t\<rparr>) \<and> RouteOf (Domain rc, Location rc, RouteByHTTPUser rc) \<notin> http_held r \<and>
    http_held (r\<lparr>vhostRouter := t\<rparr>) = insert (RouteOf (Domain rc, Location rc, RouteByHTTPUser rc)) (http_held r)"
proof -
  have rinv: "routers_inv (vhostRouter r)" using inv unfolding http_inv_def by blast
  note add' = add [unfolded HTTPReverseProxy_Register_def]
  have none: "routes_abs (vhostRouter r) (Domain rc, Location rc, RouteByHTTPUser rc) = None"
    using add' routes_abs_conflict by (metis isl_def sum.distinct(1))
  have "http_held (r\<lparr>vhostRouter := t\<rparr>) = insert (RouteOf (Domain rc, Location rc, RouteByHTTPUser rc)) (http_held r)"
    by (rule http_keys_eqI) (auto simp: routes_abs_Add [OF rinv add'] fn split: if_splits)
  with none http_step_inv [OF http_step.proxy_adds [OF fn add'] inv] show ?thesis by simp
qed

lemma http_proxy_removes:
  assumes inv: "http_inv r" and held: "RouteOf (Domain rc, Location rc, RouteByHTTPUser rc) \<in> http_held r"
  shows "http_inv (r\<lparr>vhostRouter := HTTPReverseProxy_UnRegister rc (vhostRouter r)\<rparr>) \<and>
    http_held (r\<lparr>vhostRouter := HTTPReverseProxy_UnRegister rc (vhostRouter r)\<rparr>) =
      http_held r - {RouteOf (Domain rc, Location rc, RouteByHTTPUser rc)}"
proof -
  from held obtain x q where x: "routes_abs (vhostRouter r) (Domain rc, Location rc, RouteByHTTPUser rc) = Some x"
    "CreateConnFn x = Some (ProxyConn q)" by auto
  have "http_held (r\<lparr>vhostRouter := HTTPReverseProxy_UnRegister rc (vhostRouter r)\<rparr>) =
      http_held r - {RouteOf (Domain rc, Location rc, RouteByHTTPUser rc)}"
    by (rule http_keys_eqI) (auto simp: HTTPReverseProxy_UnRegister_def routes_abs_Del)
  with http_step_inv [OF http_step.proxy_removes [OF x] inv] show ?thesis by (simp add: HTTPReverseProxy_UnRegister_def)
qed

interpretation http_reg: acquisition "http_register name grp key" "http_unregister name grp" "http_key_of name grp"
  http_inv http_held "\<lambda>rc. CreateConnFn rc = Some (ProxyConn q)" for name grp key q
proof unfold_locales
  fix r rc h r'
  assume inv: "http_inv r" and fn: "CreateConnFn rc = Some (ProxyConn q)" and reg: "http_register name grp key rc r = (Inr h, r')"
  show "http_inv r' \<and> http_key_of name grp h \<notin> http_held r \<and> http_held r' = insert (http_key_of name grp h) (http_held r)"
  proof (cases "grp = []")
    case True
    with reg http_proxy_adds [OF inv fn] show ?thesis
      by (auto simp: http_register_def http_key_of_def split: sum.splits)
  next
    case False
    with reg obtain u where "HTTPGroupController_Register name grp key rc r = (Inr u, r')" "h = rc"
      by (auto simp: http_register_def split: sum.splits prod.splits)
    with False http_member_joins [OF inv] http_inv_Register [OF inv] show ?thesis by (fastforce simp: http_key_of_def)
  qed
next
  fix r rc e r'
  assume inv: "http_inv r" and "http_register name grp key rc r = (Inl e, r')"
  then have "r' = r \<or> (\<exists>x. HTTPGroupController_Register name grp key rc r = (Inl x, r'))"
    by (auto simp: http_register_def split: sum.splits prod.splits if_splits)
  with inv http_member_joins [OF inv] http_inv_Register [OF inv] show "http_inv r' \<and> http_held r' = http_held r" by fastforce
next
  fix r h
  assume "http_inv r" "http_key_of name grp h \<in> http_held r"
  then show "\<exists>r'. http_unregister name grp h r = Some r' \<and> http_inv r' \<and> http_held r' = http_held r - {http_key_of name grp h}"
    using http_member_leaves [of r grp name] http_proxy_removes [of r h]
    by (auto simp: http_key_of_def http_unregister_def split: if_splits simp del: http_held_simps)
qed

section \<open>The contract\<close>

text \<open>A proxy as the factory makes it, and one that runs: the closing functions undo distinct registrations.\<close>

definition http_ready :: "vhost_cfg \<Rightarrow> HTTPProxy \<Rightarrow> HTTPGroupController \<Rightarrow> bool" where
  "http_ready cfg p r \<longleftrightarrow> hpCloseFuncs p = [] \<and> hpUsedPortsNum p = 0"

definition http_live :: "HTTPProxy \<Rightarrow> bool" where
  "http_live p \<longleftrightarrow> distinct (map (http_key_of (hpName p) (hpGroup p)) (hpCloseFuncs p)) \<and> hpUsedPortsNum p = 0"

definition http_owned :: "HTTPProxy \<Rightarrow> http_key set" where
  "http_owned p = http_key_of (hpName p) (hpGroup p) ` set (hpCloseFuncs p)"

lemma http_routes_usable: "\<forall>rc \<in> set (http_routes_of cfg p). CreateConnFn rc = Some (ProxyConn (hpName p))"
  by (auto simp: http_routes_of_def http_route_config_def Let_def split: if_splits)

interpretation http: server_proxy http_ops http_ready http_live http_inv http_held http_owned
proof unfold_locales
  fix r cfg p a p' r'
  assume inv: "http_inv r" and ready: "http_ready cfg p r" and run: "Run http_ops cfg p r = (Inr a, p', r')"
  then obtain u where all: "acquire_all (http_register (hpName p) (hpGroup p) (hpGroupKey p)) (http_routes_of cfg p) [] r =
      (Inr u, hpCloseFuncs p', r')" and p': "p' = p\<lparr>hpCloseFuncs := hpCloseFuncs p'\<rparr>"
    by (auto simp: http_ops_def HTTPProxy_Run_def http_ready_def Let_def split: prod.splits sum.splits)
  have same: "hpName p' = hpName p" "hpGroup p' = hpGroup p" "hpUsedPortsNum p' = hpUsedPortsNum p" by (subst p', simp)+
  obtain new where "hpCloseFuncs p' = [] @ new" "http_inv r'" "distinct (map (http_key_of (hpName p) (hpGroup p)) new)"
    "http_key_of (hpName p) (hpGroup p) ` set new \<inter> http_held r = {}"
    "http_held r' = http_held r \<union> http_key_of (hpName p) (hpGroup p) ` set new"
    by (rule http_reg.acquire_all_res [OF inv http_routes_usable all])
  then show "http_inv r' \<and> http_live p' \<and> http_held r' = http_held r \<union> http_owned p' \<and> http_owned p' \<inter> http_held r = {} \<and>
      GetName http_ops p' = GetName http_ops p \<and> GetUsedPortsNum http_ops p' = GetUsedPortsNum http_ops p"
    using ready unfolding http_live_def http_owned_def http_ready_def same by (simp add: http_ops_def same)
next
  fix r cfg p x p' r'
  assume inv: "http_inv r" and ready: "http_ready cfg p r" and run: "Run http_ops cfg p r = (Inl x, p', r')"
  obtain o1 fns r1 where all: "acquire_all (http_register (hpName p) (hpGroup p) (hpGroupKey p)) (http_routes_of cfg p) [] r =
      (o1, fns, r1)" by (metis prod_cases3)
  with run ready have "r' = the (drop_all (http_unregister (hpName p) (hpGroup p)) fns r1)"
    by (cases o1) (simp_all add: http_ops_def HTTPProxy_Run_def HTTPProxy_Close_def http_ready_def)
  with http_reg.acquire_drop [OF inv http_routes_usable all] show "http_inv r' \<and> http_held r' = http_held r" by fastforce
next
  fix r p cfg
  assume "http_inv r" "http_live p" "http_owned p \<subseteq> http_held r"
  then show "\<exists>r'. Close http_ops cfg p r = Some r' \<and> http_inv r' \<and> http_held r' = http_held r - http_owned p"
    using http_reg.drop_all_res [of r "hpName p" "hpGroup p" "hpCloseFuncs p"]
    by (auto simp: http_ops_def HTTPProxy_Close_def http_live_def http_owned_def)
qed (simp add: http_ops_def http_live_def)

end
