(* ===== verification/Proxy_Config.thy ===== *)
theory Proxy_Config
  imports HTTP_Proxy
begin

text \<open>
  Model of the configuration of proxies: \<^verbatim>\<open>pkg/config/proxy.go\<close>, \<^verbatim>\<open>pkg/config/types.go\<close> and
  \<^verbatim>\<open>pkg/config/utils.go\<close>. The client reads a proxy from a section of its ini file, checks it and sends it to the
  server in a \<^verbatim>\<open>NewProxy\<close> message; the server rebuilds the configuration from the message and checks it against its
  own settings. A struct that embeds \<^verbatim>\<open>BaseProxyConf\<close> is a record that extends it. Go maps of settings are association
  lists. The ini reader is third party code: what it answers for a section is the record \<open>ini_section\<close>. Parsing
  a floating point number and scaling it to bytes is the parameter \<open>flt\<close> (the text of the number and the unit in
  bytes to the number of bytes, or \<open>None\<close> for a text that is no number).
\<close>

section \<open>Bandwidth quantities\<close>

record BandwidthQuantity =
  qs :: string
  qi :: int

definition zero_quantity :: BandwidthQuantity where
  "zero_quantity = \<lparr>qs = [], qi = 0\<rparr>"

definition MB :: int where "MB = 1024 * 1024"
definition KB :: int where "KB = 1024"

datatype config_error =
    ErrUnit | ErrFloat string
  | ErrProxyProtocolVersion string | ErrBandwidthLimitMode
  | ErrLocalIPRequired | ErrLocalPort
  | ErrHealthCheckType | ErrHealthCheckURL
  | ErrNoDomain | ErrCustomDomain string string | ErrSubDomainDisabled | ErrSubDomainChars
  | ErrDomainConf string config_error
  | ErrClientMultiplexer string | ErrServerMultiplexer string string | ErrTCPMuxPort string
  | ErrVhostHTTPPort | ErrVhostHTTPSPort
  | ErrRole | ErrIniType string | ErrMsgType string string
  | ErrIni string

definition BandwidthQuantity_UnmarshalString ::
  "(string \<Rightarrow> int \<Rightarrow> int option) \<Rightarrow> string \<Rightarrow> BandwidthQuantity \<Rightarrow> (config_error, BandwidthQuantity) result" where
  "BandwidthQuantity_UnmarshalString flt s0 q =
     (let s = TrimSpace s0
      in if s = [] then Inr q
         else if HasSuffix s ''MB'' then
           (case flt (TrimSuffix s ''MB'') MB of
              None \<Rightarrow> Inl (ErrFloat (TrimSuffix s ''MB''))
            | Some i \<Rightarrow> Inr (q\<lparr>qs := s, qi := i\<rparr>))
         else if HasSuffix s ''KB'' then
           (case flt (TrimSuffix s ''KB'') KB of
              None \<Rightarrow> Inl (ErrFloat (TrimSuffix s ''KB''))
            | Some i \<Rightarrow> Inr (q\<lparr>qs := s, qi := i\<rparr>))
         else Inl ErrUnit)"

text \<open>The function returns the quantity also next to an error; it is then the zero quantity.\<close>

definition NewBandwidthQuantity :: "(string \<Rightarrow> int \<Rightarrow> int option) \<Rightarrow> string \<Rightarrow> BandwidthQuantity \<times> config_error option" where
  "NewBandwidthQuantity flt s =
     (case BandwidthQuantity_UnmarshalString flt s zero_quantity of
        Inl e \<Rightarrow> (zero_quantity, Some e)
      | Inr q \<Rightarrow> (q, None))"

definition BandwidthQuantity_Equal :: "BandwidthQuantity option \<Rightarrow> BandwidthQuantity option \<Rightarrow> bool" where
  "BandwidthQuantity_Equal q u =
     (case (q, u) of (None, None) \<Rightarrow> True | (Some a, Some b) \<Rightarrow> qi a = qi b | _ \<Rightarrow> False)"

section \<open>Messages and configurations\<close>

record NewProxy =
  npProxyName :: string
  npProxyType :: string
  npUseEncryption :: bool
  npUseCompression :: bool
  npBandwidthLimit :: string
  npBandwidthLimitMode :: string
  npGroup :: string
  npGroupKey :: string
  npMetas :: "(string \<times> string) list"
  npRemotePort :: int
  npCustomDomains :: "string list"
  npSubDomain :: string
  npLocations :: "string list"
  npHTTPUser :: string
  npHTTPPwd :: string
  npHostHeaderRewrite :: string
  npHeaders :: "(string \<times> string) list"
  npRouteByHTTPUser :: string
  npSk :: string
  npAllowUsers :: "string list"
  npMultiplexer :: string

definition empty_NewProxy :: NewProxy where
  "empty_NewProxy =
     \<lparr>npProxyName = [], npProxyType = [], npUseEncryption = False, npUseCompression = False, npBandwidthLimit = [],
      npBandwidthLimitMode = [], npGroup = [], npGroupKey = [], npMetas = [], npRemotePort = 0, npCustomDomains = [],
      npSubDomain = [], npLocations = [], npHTTPUser = [], npHTTPPwd = [], npHostHeaderRewrite = [], npHeaders = [],
      npRouteByHTTPUser = [], npSk = [], npAllowUsers = [], npMultiplexer = []\<rparr>"

record LocalSvrConf =
  LocalIP :: string
  LocalPort :: int
  LPlugin :: string
  PluginParams :: "(string \<times> string) list"

record HealthCheckConf =
  HealthCheckType :: string
  HealthCheckTimeoutS :: int
  HealthCheckMaxFailed :: int
  HealthCheckIntervalS :: int
  HealthCheckURL :: string
  HealthCheckAddr :: string

record BaseProxyConf =
  bProxyName :: string
  bProxyType :: string
  bUseEncryption :: bool
  bUseCompression :: bool
  bGroup :: string
  bGroupKey :: string
  bProxyProtocolVersion :: string
  bBandwidthLimit :: BandwidthQuantity
  bBandwidthLimitMode :: string
  bMetas :: "(string \<times> string) list"
  bLocalSvrConf :: LocalSvrConf
  bHealthCheckConf :: HealthCheckConf

record DomainConf =
  dCustomDomains :: "string list"
  dSubDomain :: string

record RoleServerCommonConf =
  rRole :: string
  rSk :: string
  rAllowUsers :: "string list"

record HTTPProxyConf = BaseProxyConf +
  hcDomainConf :: DomainConf
  hcLocations :: "string list"
  hcHTTPUser :: string
  hcHTTPPwd :: string
  hcHostHeaderRewrite :: string
  hcHeaders :: "(string \<times> string) list"
  hcRouteByHTTPUser :: string

record HTTPSProxyConf = BaseProxyConf +
  scDomainConf :: DomainConf

record TCPProxyConf = BaseProxyConf +
  tcRemotePort :: int

record UDPProxyConf = BaseProxyConf +
  ucRemotePort :: int

record TCPMuxProxyConf = BaseProxyConf +
  mcDomainConf :: DomainConf
  mcHTTPUser :: string
  mcHTTPPwd :: string
  mcRouteByHTTPUser :: string
  mcMultiplexer :: string

record RoleProxyConf = BaseProxyConf +
  rcRole :: RoleServerCommonConf

type_synonym STCPProxyConf = RoleProxyConf
type_synonym XTCPProxyConf = RoleProxyConf
type_synonym SUDPProxyConf = RoleProxyConf

text \<open>The Go interface \<^verbatim>\<open>ProxyConf\<close>: one of the eight structs.\<close>

datatype ProxyConf = TCPConf TCPProxyConf | TCPMuxConf TCPMuxProxyConf | UDPConf UDPProxyConf | HTTPConf HTTPProxyConf
  | HTTPSConf HTTPSProxyConf | STCPConf STCPProxyConf | XTCPConf XTCPProxyConf | SUDPConf SUDPProxyConf

subsection \<open>Zero values\<close>

definition zero_LocalSvrConf :: LocalSvrConf where
  "zero_LocalSvrConf = \<lparr>LocalIP = [], LocalPort = 0, LPlugin = [], PluginParams = []\<rparr>"

definition zero_HealthCheckConf :: HealthCheckConf where
  "zero_HealthCheckConf =
     \<lparr>HealthCheckType = [], HealthCheckTimeoutS = 0, HealthCheckMaxFailed = 0, HealthCheckIntervalS = 0,
      HealthCheckURL = [], HealthCheckAddr = []\<rparr>"

definition zero_DomainConf :: DomainConf where
  "zero_DomainConf = \<lparr>dCustomDomains = [], dSubDomain = []\<rparr>"

definition zero_Role :: RoleServerCommonConf where
  "zero_Role = \<lparr>rRole = [], rSk = [], rAllowUsers = []\<rparr>"

definition zero_base :: "'a \<Rightarrow> 'a BaseProxyConf_scheme" where
  "zero_base m =
     \<lparr>bProxyName = [], bProxyType = [], bUseEncryption = False, bUseCompression = False, bGroup = [], bGroupKey = [],
      bProxyProtocolVersion = [], bBandwidthLimit = zero_quantity, bBandwidthLimitMode = [], bMetas = [],
      bLocalSvrConf = zero_LocalSvrConf, bHealthCheckConf = zero_HealthCheckConf, \<dots> = m\<rparr>"

definition zero_role_conf :: RoleProxyConf where
  "zero_role_conf = zero_base (RoleProxyConf.fields zero_Role)"

definition proxyConfTypeMap :: "string \<Rightarrow> ProxyConf option" where
  "proxyConfTypeMap t =
     map_of
       [(''tcp'', TCPConf (zero_base (TCPProxyConf.fields 0))),
        (''tcpmux'', TCPMuxConf (zero_base (TCPMuxProxyConf.fields zero_DomainConf [] [] [] []))),
        (''udp'', UDPConf (zero_base (UDPProxyConf.fields 0))),
        (''http'', HTTPConf (zero_base (HTTPProxyConf.fields zero_DomainConf [] [] [] [] [] []))),
        (''https'', HTTPSConf (zero_base (HTTPSProxyConf.fields zero_DomainConf))),
        (''stcp'', STCPConf zero_role_conf),
        (''xtcp'', XTCPConf zero_role_conf),
        (''sudp'', SUDPConf zero_role_conf)] t"

definition NewConfByType :: "string \<Rightarrow> ProxyConf option" where
  "NewConfByType proxyType = proxyConfTypeMap proxyType"

subsection \<open>Defaults\<close>

definition Base_SetDefaultValues :: "'a BaseProxyConf_scheme \<Rightarrow> 'a BaseProxyConf_scheme" where
  "Base_SetDefaultValues cfg =
     cfg\<lparr>bLocalSvrConf := zero_LocalSvrConf\<lparr>LocalIP := ''127.0.0.1''\<rparr>, bBandwidthLimitMode := ''client''\<rparr>"

definition Role_setDefaultValues :: "RoleServerCommonConf \<Rightarrow> RoleServerCommonConf" where
  "Role_setDefaultValues r = r\<lparr>rRole := ''server''\<rparr>"

definition RoleConf_SetDefaultValues :: "RoleProxyConf \<Rightarrow> RoleProxyConf" where
  "RoleConf_SetDefaultValues cfg = (Base_SetDefaultValues cfg)\<lparr>rcRole := Role_setDefaultValues (rcRole cfg)\<rparr>"

primrec SetDefaultValues :: "ProxyConf \<Rightarrow> ProxyConf" where
  "SetDefaultValues (TCPConf c) = TCPConf (Base_SetDefaultValues c)"
| "SetDefaultValues (TCPMuxConf c) = TCPMuxConf (Base_SetDefaultValues c)"
| "SetDefaultValues (UDPConf c) = UDPConf (Base_SetDefaultValues c)"
| "SetDefaultValues (HTTPConf c) = HTTPConf (Base_SetDefaultValues c)"
| "SetDefaultValues (HTTPSConf c) = HTTPSConf (Base_SetDefaultValues c)"
| "SetDefaultValues (STCPConf c) = STCPConf (RoleConf_SetDefaultValues c)"
| "SetDefaultValues (XTCPConf c) = XTCPConf (RoleConf_SetDefaultValues c)"
| "SetDefaultValues (SUDPConf c) = SUDPConf (RoleConf_SetDefaultValues c)"

definition DefaultProxyConf :: "string \<Rightarrow> ProxyConf option" where
  "DefaultProxyConf proxyType = map_option SetDefaultValues (NewConfByType proxyType)"

primrec GetBaseConfig :: "ProxyConf \<Rightarrow> BaseProxyConf" where
  "GetBaseConfig (TCPConf c) = BaseProxyConf.truncate c"
| "GetBaseConfig (TCPMuxConf c) = BaseProxyConf.truncate c"
| "GetBaseConfig (UDPConf c) = BaseProxyConf.truncate c"
| "GetBaseConfig (HTTPConf c) = BaseProxyConf.truncate c"
| "GetBaseConfig (HTTPSConf c) = BaseProxyConf.truncate c"
| "GetBaseConfig (STCPConf c) = BaseProxyConf.truncate c"
| "GetBaseConfig (XTCPConf c) = BaseProxyConf.truncate c"
| "GetBaseConfig (SUDPConf c) = BaseProxyConf.truncate c"

section \<open>Configurations and messages\<close>

definition Base_marshalToMsg :: "'a BaseProxyConf_scheme \<Rightarrow> NewProxy \<Rightarrow> NewProxy" where
  "Base_marshalToMsg cfg m =
     (let m1 = m\<lparr>npProxyName := bProxyName cfg, npProxyType := bProxyType cfg, npUseEncryption := bUseEncryption cfg,
                 npUseCompression := bUseCompression cfg, npBandwidthLimit := qs (bBandwidthLimit cfg)\<rparr>;
          m2 = (if bBandwidthLimitMode cfg \<noteq> ''client'' then m1\<lparr>npBandwidthLimitMode := bBandwidthLimitMode cfg\<rparr> else m1)
      in m2\<lparr>npGroup := bGroup cfg, npGroupKey := bGroupKey cfg, npMetas := bMetas cfg\<rparr>)"

definition Base_unmarshalFromMsg ::
  "(string \<Rightarrow> int \<Rightarrow> int option) \<Rightarrow> NewProxy \<Rightarrow> 'a BaseProxyConf_scheme \<Rightarrow> 'a BaseProxyConf_scheme" where
  "Base_unmarshalFromMsg flt m cfg =
     (let c1 = cfg\<lparr>bProxyName := npProxyName m, bProxyType := npProxyType m, bUseEncryption := npUseEncryption m,
                   bUseCompression := npUseCompression m\<rparr>;
          c2 = (if npBandwidthLimit m \<noteq> [] then c1\<lparr>bBandwidthLimit := fst (NewBandwidthQuantity flt (npBandwidthLimit m))\<rparr>
                else c1);
          c3 = (if npBandwidthLimitMode m \<noteq> [] then c2\<lparr>bBandwidthLimitMode := npBandwidthLimitMode m\<rparr> else c2)
      in c3\<lparr>bGroup := npGroup m, bGroupKey := npGroupKey m, bMetas := npMetas m\<rparr>)"

definition Role_marshalToMsg :: "RoleServerCommonConf \<Rightarrow> NewProxy \<Rightarrow> NewProxy" where
  "Role_marshalToMsg cfg m = m\<lparr>npSk := rSk cfg, npAllowUsers := rAllowUsers cfg\<rparr>"

definition Role_unmarshalFromMsg :: "NewProxy \<Rightarrow> RoleServerCommonConf \<Rightarrow> RoleServerCommonConf" where
  "Role_unmarshalFromMsg m cfg = cfg\<lparr>rSk := npSk m, rAllowUsers := npAllowUsers m\<rparr>"

definition TCPConf_UnmarshalFromMsg where
  "TCPConf_UnmarshalFromMsg flt m cfg = (Base_unmarshalFromMsg flt m cfg)\<lparr>tcRemotePort := npRemotePort m\<rparr>"

definition TCPConf_MarshalToMsg where
  "TCPConf_MarshalToMsg cfg m = (Base_marshalToMsg cfg m)\<lparr>npRemotePort := tcRemotePort cfg\<rparr>"

definition UDPConf_UnmarshalFromMsg where
  "UDPConf_UnmarshalFromMsg flt m cfg = (Base_unmarshalFromMsg flt m cfg)\<lparr>ucRemotePort := npRemotePort m\<rparr>"

definition UDPConf_MarshalToMsg where
  "UDPConf_MarshalToMsg cfg m = (Base_marshalToMsg cfg m)\<lparr>npRemotePort := ucRemotePort cfg\<rparr>"

definition TCPMuxConf_UnmarshalFromMsg where
  "TCPMuxConf_UnmarshalFromMsg flt m cfg =
     (Base_unmarshalFromMsg flt m cfg)\<lparr>mcDomainConf := \<lparr>dCustomDomains = npCustomDomains m, dSubDomain = npSubDomain m\<rparr>,
       mcMultiplexer := npMultiplexer m, mcHTTPUser := npHTTPUser m, mcHTTPPwd := npHTTPPwd m,
       mcRouteByHTTPUser := npRouteByHTTPUser m\<rparr>"

definition TCPMuxConf_MarshalToMsg where
  "TCPMuxConf_MarshalToMsg cfg m =
     (Base_marshalToMsg cfg m)\<lparr>npCustomDomains := dCustomDomains (mcDomainConf cfg), npSubDomain := dSubDomain (mcDomainConf cfg),
       npMultiplexer := mcMultiplexer cfg, npHTTPUser := mcHTTPUser cfg, npHTTPPwd := mcHTTPPwd cfg,
       npRouteByHTTPUser := mcRouteByHTTPUser cfg\<rparr>"

definition HTTPConf_UnmarshalFromMsg where
  "HTTPConf_UnmarshalFromMsg flt m cfg =
     (Base_unmarshalFromMsg flt m cfg)\<lparr>hcDomainConf := \<lparr>dCustomDomains = npCustomDomains m, dSubDomain = npSubDomain m\<rparr>,
       hcLocations := npLocations m, hcHostHeaderRewrite := npHostHeaderRewrite m, hcHTTPUser := npHTTPUser m,
       hcHTTPPwd := npHTTPPwd m, hcHeaders := npHeaders m, hcRouteByHTTPUser := npRouteByHTTPUser m\<rparr>"

definition HTTPConf_MarshalToMsg where
  "HTTPConf_MarshalToMsg cfg m =
     (Base_marshalToMsg cfg m)\<lparr>npCustomDomains := dCustomDomains (hcDomainConf cfg), npSubDomain := dSubDomain (hcDomainConf cfg),
       npLocations := hcLocations cfg, npHostHeaderRewrite := hcHostHeaderRewrite cfg, npHTTPUser := hcHTTPUser cfg,
       npHTTPPwd := hcHTTPPwd cfg, npHeaders := hcHeaders cfg, npRouteByHTTPUser := hcRouteByHTTPUser cfg\<rparr>"

definition HTTPSConf_UnmarshalFromMsg where
  "HTTPSConf_UnmarshalFromMsg flt m cfg =
     (Base_unmarshalFromMsg flt m cfg)\<lparr>scDomainConf := \<lparr>dCustomDomains = npCustomDomains m, dSubDomain = npSubDomain m\<rparr>\<rparr>"

definition HTTPSConf_MarshalToMsg where
  "HTTPSConf_MarshalToMsg cfg m =
     (Base_marshalToMsg cfg m)\<lparr>npCustomDomains := dCustomDomains (scDomainConf cfg), npSubDomain := dSubDomain (scDomainConf cfg)\<rparr>"

text \<open>STCP, SUDP and XTCP have the same code for their messages.\<close>

definition RoleConf_UnmarshalFromMsg :: "(string \<Rightarrow> int \<Rightarrow> int option) \<Rightarrow> NewProxy \<Rightarrow> RoleProxyConf \<Rightarrow> RoleProxyConf" where
  "RoleConf_UnmarshalFromMsg flt m cfg =
     (Base_unmarshalFromMsg flt m cfg)\<lparr>rcRole := Role_unmarshalFromMsg m (rcRole cfg)\<rparr>"

definition RoleConf_MarshalToMsg :: "RoleProxyConf \<Rightarrow> NewProxy \<Rightarrow> NewProxy" where
  "RoleConf_MarshalToMsg cfg m = Role_marshalToMsg (rcRole cfg) (Base_marshalToMsg cfg m)"

primrec UnmarshalFromMsg :: "(string \<Rightarrow> int \<Rightarrow> int option) \<Rightarrow> NewProxy \<Rightarrow> ProxyConf \<Rightarrow> ProxyConf" where
  "UnmarshalFromMsg flt m (TCPConf c) = TCPConf (TCPConf_UnmarshalFromMsg flt m c)"
| "UnmarshalFromMsg flt m (TCPMuxConf c) = TCPMuxConf (TCPMuxConf_UnmarshalFromMsg flt m c)"
| "UnmarshalFromMsg flt m (UDPConf c) = UDPConf (UDPConf_UnmarshalFromMsg flt m c)"
| "UnmarshalFromMsg flt m (HTTPConf c) = HTTPConf (HTTPConf_UnmarshalFromMsg flt m c)"
| "UnmarshalFromMsg flt m (HTTPSConf c) = HTTPSConf (HTTPSConf_UnmarshalFromMsg flt m c)"
| "UnmarshalFromMsg flt m (STCPConf c) = STCPConf (RoleConf_UnmarshalFromMsg flt m c)"
| "UnmarshalFromMsg flt m (XTCPConf c) = XTCPConf (RoleConf_UnmarshalFromMsg flt m c)"
| "UnmarshalFromMsg flt m (SUDPConf c) = SUDPConf (RoleConf_UnmarshalFromMsg flt m c)"

primrec MarshalToMsg :: "ProxyConf \<Rightarrow> NewProxy \<Rightarrow> NewProxy" where
  "MarshalToMsg (TCPConf c) m = TCPConf_MarshalToMsg c m"
| "MarshalToMsg (TCPMuxConf c) m = TCPMuxConf_MarshalToMsg c m"
| "MarshalToMsg (UDPConf c) m = UDPConf_MarshalToMsg c m"
| "MarshalToMsg (HTTPConf c) m = HTTPConf_MarshalToMsg c m"
| "MarshalToMsg (HTTPSConf c) m = HTTPSConf_MarshalToMsg c m"
| "MarshalToMsg (STCPConf c) m = RoleConf_MarshalToMsg c m"
| "MarshalToMsg (XTCPConf c) m = RoleConf_MarshalToMsg c m"
| "MarshalToMsg (SUDPConf c) m = RoleConf_MarshalToMsg c m"

section \<open>Validation\<close>

definition LocalSvrConf_validateForClient :: "LocalSvrConf \<Rightarrow> config_error option" where
  "LocalSvrConf_validateForClient cfg =
     (if LPlugin cfg = [] then
        if LocalIP cfg = [] then Some ErrLocalIPRequired
        else if LocalPort cfg \<le> 0 then Some ErrLocalPort
        else None
      else None)"

definition HealthCheckConf_validateForClient :: "HealthCheckConf \<Rightarrow> config_error option" where
  "HealthCheckConf_validateForClient cfg =
     (if HealthCheckType cfg \<noteq> [] \<and> HealthCheckType cfg \<noteq> ''tcp'' \<and> HealthCheckType cfg \<noteq> ''http'' then Some ErrHealthCheckType
      else if HealthCheckType cfg \<noteq> [] then
        if HealthCheckType cfg = ''http'' \<and> HealthCheckURL cfg = [] then Some ErrHealthCheckURL else None
      else None)"

text \<open>Checks run in order; the first error is returned.\<close>

abbreviation or_else :: "config_error option \<Rightarrow> config_error option \<Rightarrow> config_error option" where
  "or_else a b \<equiv> (case a of Some e \<Rightarrow> Some e | None \<Rightarrow> b)"

definition Base_validateForClient :: "'a BaseProxyConf_scheme \<Rightarrow> config_error option" where
  "Base_validateForClient cfg =
     (if bProxyProtocolVersion cfg \<noteq> [] \<and> bProxyProtocolVersion cfg \<noteq> ''v1'' \<and> bProxyProtocolVersion cfg \<noteq> ''v2''
      then Some (ErrProxyProtocolVersion (bProxyProtocolVersion cfg))
      else if bBandwidthLimitMode cfg \<noteq> ''client'' \<and> bBandwidthLimitMode cfg \<noteq> ''server'' then Some ErrBandwidthLimitMode
      else or_else (LocalSvrConf_validateForClient (bLocalSvrConf cfg))
             (HealthCheckConf_validateForClient (bHealthCheckConf cfg)))"

definition Base_validateForServer :: "'a BaseProxyConf_scheme \<Rightarrow> config_error option" where
  "Base_validateForServer cfg =
     (if bBandwidthLimitMode cfg \<noteq> ''client'' \<and> bBandwidthLimitMode cfg \<noteq> ''server'' then Some ErrBandwidthLimitMode else None)"

definition DomainConf_check :: "DomainConf \<Rightarrow> config_error option" where
  "DomainConf_check cfg = (if dCustomDomains cfg = [] \<and> dSubDomain cfg = [] then Some ErrNoDomain else None)"

definition DomainConf_validateForClient :: "DomainConf \<Rightarrow> config_error option" where
  "DomainConf_validateForClient cfg = DomainConf_check cfg"

fun check_custom_domains :: "string \<Rightarrow> string list \<Rightarrow> config_error option" where
  "check_custom_domains host [] = None"
| "check_custom_domains host (d # ds) =
     (if host \<noteq> [] \<and> length (Split CHR ''.'' host) < length (Split CHR ''.'' d) \<and> Contains d host
      then Some (ErrCustomDomain d host)
      else check_custom_domains host ds)"

definition DomainConf_validateForServer :: "vhost_cfg \<Rightarrow> DomainConf \<Rightarrow> config_error option" where
  "DomainConf_validateForServer srv cfg =
     or_else (DomainConf_check cfg)
       (or_else (check_custom_domains (SubDomainHost srv) (dCustomDomains cfg))
          (if dSubDomain cfg \<noteq> [] then
             if SubDomainHost srv = [] then Some ErrSubDomainDisabled
             else if Contains (dSubDomain cfg) ''.'' \<or> Contains (dSubDomain cfg) ''*'' then Some ErrSubDomainChars
             else None
           else None))"

definition TCPMuxConf_ValidateForClient :: "TCPMuxProxyConf \<Rightarrow> config_error option" where
  "TCPMuxConf_ValidateForClient cfg =
     or_else (Base_validateForClient cfg)
       (or_else (DomainConf_validateForClient (mcDomainConf cfg))
          (if mcMultiplexer cfg \<noteq> ''httpconnect'' then Some (ErrClientMultiplexer (mcMultiplexer cfg)) else None))"

definition HTTPConf_ValidateForClient :: "HTTPProxyConf \<Rightarrow> config_error option" where
  "HTTPConf_ValidateForClient cfg = or_else (Base_validateForClient cfg) (DomainConf_validateForClient (hcDomainConf cfg))"

definition HTTPSConf_ValidateForClient :: "HTTPSProxyConf \<Rightarrow> config_error option" where
  "HTTPSConf_ValidateForClient cfg = or_else (Base_validateForClient cfg) (DomainConf_validateForClient (scDomainConf cfg))"

definition RoleConf_ValidateForClient :: "RoleProxyConf \<Rightarrow> config_error option" where
  "RoleConf_ValidateForClient cfg =
     or_else (Base_validateForClient cfg) (if rRole (rcRole cfg) \<noteq> ''server'' then Some ErrRole else None)"

primrec ValidateForClient :: "ProxyConf \<Rightarrow> config_error option" where
  "ValidateForClient (TCPConf c) = Base_validateForClient c"
| "ValidateForClient (TCPMuxConf c) = TCPMuxConf_ValidateForClient c"
| "ValidateForClient (UDPConf c) = Base_validateForClient c"
| "ValidateForClient (HTTPConf c) = HTTPConf_ValidateForClient c"
| "ValidateForClient (HTTPSConf c) = HTTPSConf_ValidateForClient c"
| "ValidateForClient (STCPConf c) = RoleConf_ValidateForClient c"
| "ValidateForClient (XTCPConf c) = RoleConf_ValidateForClient c"
| "ValidateForClient (SUDPConf c) = RoleConf_ValidateForClient c"

abbreviation domain_error :: "'a BaseProxyConf_scheme \<Rightarrow> config_error option \<Rightarrow> config_error option" where
  "domain_error cfg \<equiv> map_option (ErrDomainConf (bProxyName cfg))"

definition TCPMuxConf_ValidateForServer :: "vhost_cfg \<Rightarrow> TCPMuxProxyConf \<Rightarrow> config_error option" where
  "TCPMuxConf_ValidateForServer srv cfg =
     or_else (Base_validateForServer cfg)
       (if mcMultiplexer cfg \<noteq> ''httpconnect'' then Some (ErrServerMultiplexer (bProxyName cfg) (mcMultiplexer cfg))
        else if mcMultiplexer cfg = ''httpconnect'' \<and> TCPMuxHTTPConnectPort srv = 0 then Some (ErrTCPMuxPort (bProxyName cfg))
        else domain_error cfg (DomainConf_validateForServer srv (mcDomainConf cfg)))"

definition HTTPConf_ValidateForServer :: "vhost_cfg \<Rightarrow> HTTPProxyConf \<Rightarrow> config_error option" where
  "HTTPConf_ValidateForServer srv cfg =
     or_else (Base_validateForServer cfg)
       (if VhostHTTPPort srv = 0 then Some ErrVhostHTTPPort
        else domain_error cfg (DomainConf_validateForServer srv (hcDomainConf cfg)))"

definition HTTPSConf_ValidateForServer :: "vhost_cfg \<Rightarrow> HTTPSProxyConf \<Rightarrow> config_error option" where
  "HTTPSConf_ValidateForServer srv cfg =
     or_else (Base_validateForServer cfg)
       (if VhostHTTPSPort srv = 0 then Some ErrVhostHTTPSPort
        else domain_error cfg (DomainConf_validateForServer srv (scDomainConf cfg)))"

primrec ValidateForServer :: "vhost_cfg \<Rightarrow> ProxyConf \<Rightarrow> config_error option" where
  "ValidateForServer srv (TCPConf c) = Base_validateForServer c"
| "ValidateForServer srv (TCPMuxConf c) = TCPMuxConf_ValidateForServer srv c"
| "ValidateForServer srv (UDPConf c) = Base_validateForServer c"
| "ValidateForServer srv (HTTPConf c) = HTTPConf_ValidateForServer srv c"
| "ValidateForServer srv (HTTPSConf c) = HTTPSConf_ValidateForServer srv c"
| "ValidateForServer srv (STCPConf c) = Base_validateForServer c"
| "ValidateForServer srv (XTCPConf c) = Base_validateForServer c"
| "ValidateForServer srv (SUDPConf c) = Base_validateForServer c"

text \<open>The server's configuration of a proxy from the client's message. An empty type means TCP, which is also written
  into the message.\<close>

definition NewProxyConfFromMsg ::
  "(string \<Rightarrow> int \<Rightarrow> int option) \<Rightarrow> NewProxy \<Rightarrow> vhost_cfg \<Rightarrow> (config_error, ProxyConf) result" where
  "NewProxyConfFromMsg flt m0 srv =
     (let m = (if npProxyType m0 = [] then m0\<lparr>npProxyType := ''tcp''\<rparr> else m0)
      in case DefaultProxyConf (npProxyType m) of
           None \<Rightarrow> Inl (ErrMsgType (npProxyName m) (npProxyType m))
         | Some conf0 \<Rightarrow>
             (let conf = UnmarshalFromMsg flt m conf0
              in case ValidateForServer srv conf of Some e \<Rightarrow> Inl e | None \<Rightarrow> Inr conf))"

section \<open>Reading the ini file\<close>

text \<open>What the ini library answers for a section: its name, the text of a key (empty when it is missing), all keys with
  their texts, whether a key exists, and the mapping of the keys to the fields of a configuration.\<close>

record ini_section =
  iniName :: string
  iniKey :: "string \<Rightarrow> string"
  iniKeysHash :: "(string \<times> string) list"
  iniGetKey :: "string \<Rightarrow> string option"
  iniMapTo :: "ProxyConf \<Rightarrow> (string, ProxyConf) result"

definition GetMapWithoutPrefix :: "(string \<times> string) list \<Rightarrow> string \<Rightarrow> (string \<times> string) list" where
  "GetMapWithoutPrefix kvs pre = map (\<lambda>(k, v). (drop (length pre) k, v)) (filter (\<lambda>(k, _). HasPrefix k pre) kvs)"

definition GetMapByPrefix :: "(string \<times> string) list \<Rightarrow> string \<Rightarrow> (string \<times> string) list" where
  "GetMapByPrefix kvs pre = filter (\<lambda>(k, _). HasPrefix k pre) kvs"

text \<open>The last part of \<^verbatim>\<open>decorate\<close>: the address or the URL of the health check of a local service.\<close>

definition decorate_health :: "LocalSvrConf \<Rightarrow> HealthCheckConf \<Rightarrow> HealthCheckConf" where
  "decorate_health l h =
     (let h1 = (if HealthCheckType h = ''tcp'' \<and> LPlugin l = []
                then h\<lparr>HealthCheckAddr := LocalIP l @ '':'' @ Itoa (LocalPort l)\<rparr> else h)
      in if HealthCheckType h1 = ''http'' \<and> LPlugin l = [] \<and> HealthCheckURL h1 \<noteq> []
         then h1\<lparr>HealthCheckURL := ''http://'' @ JoinHostPort (LocalIP l) (Itoa (LocalPort l)) @
                   (if HasPrefix (HealthCheckURL h1) ''/'' then [] else ''/'') @ HealthCheckURL h1\<rparr>
         else h1)"

definition Base_decorate ::
  "(string \<Rightarrow> int \<Rightarrow> int option) \<Rightarrow> string \<Rightarrow> string \<Rightarrow> ini_section \<Rightarrow> 'a BaseProxyConf_scheme \<Rightarrow>
   (config_error, 'a BaseProxyConf_scheme) result" where
  "Base_decorate flt pre name section cfg =
     (let c1 = cfg\<lparr>bProxyName := pre @ name, bMetas := GetMapWithoutPrefix (iniKeysHash section) ''meta_''\<rparr>;
          finish = (\<lambda>c. let l = (bLocalSvrConf c)\<lparr>PluginParams := GetMapByPrefix (iniKeysHash section) ''plugin_''\<rparr>
                        in c\<lparr>bLocalSvrConf := l, bHealthCheckConf := decorate_health l (bHealthCheckConf c)\<rparr>)
      in case iniGetKey section ''bandwidth_limit'' of
           None \<Rightarrow> Inr (finish c1)
         | Some bandwidth \<Rightarrow>
             (case NewBandwidthQuantity flt bandwidth of
                (q, Some e) \<Rightarrow> Inl e
              | (q, None) \<Rightarrow> Inr (finish (c1\<lparr>bBandwidthLimit := q\<rparr>))))"

primrec map_base :: "(BaseProxyConf \<Rightarrow> (config_error, BaseProxyConf) result) \<Rightarrow> ProxyConf \<Rightarrow> (config_error, ProxyConf) result" where
  "map_base f (TCPConf c) = map_sum id (\<lambda>b. TCPConf (BaseProxyConf.extend b (BaseProxyConf.more c))) (f (BaseProxyConf.truncate c))"
| "map_base f (TCPMuxConf c) = map_sum id (\<lambda>b. TCPMuxConf (BaseProxyConf.extend b (BaseProxyConf.more c))) (f (BaseProxyConf.truncate c))"
| "map_base f (UDPConf c) = map_sum id (\<lambda>b. UDPConf (BaseProxyConf.extend b (BaseProxyConf.more c))) (f (BaseProxyConf.truncate c))"
| "map_base f (HTTPConf c) = map_sum id (\<lambda>b. HTTPConf (BaseProxyConf.extend b (BaseProxyConf.more c))) (f (BaseProxyConf.truncate c))"
| "map_base f (HTTPSConf c) = map_sum id (\<lambda>b. HTTPSConf (BaseProxyConf.extend b (BaseProxyConf.more c))) (f (BaseProxyConf.truncate c))"
| "map_base f (STCPConf c) = map_sum id (\<lambda>b. STCPConf (BaseProxyConf.extend b (BaseProxyConf.more c))) (f (BaseProxyConf.truncate c))"
| "map_base f (XTCPConf c) = map_sum id (\<lambda>b. XTCPConf (BaseProxyConf.extend b (BaseProxyConf.more c))) (f (BaseProxyConf.truncate c))"
| "map_base f (SUDPConf c) = map_sum id (\<lambda>b. SUDPConf (BaseProxyConf.extend b (BaseProxyConf.more c))) (f (BaseProxyConf.truncate c))"

definition preUnmarshalFromIni ::
  "(string \<Rightarrow> int \<Rightarrow> int option) \<Rightarrow> string \<Rightarrow> string \<Rightarrow> ini_section \<Rightarrow> ProxyConf \<Rightarrow> (config_error, ProxyConf) result" where
  "preUnmarshalFromIni flt pre name section cfg =
     (case iniMapTo section cfg of
        Inl e \<Rightarrow> Inl (ErrIni e)
      | Inr cfg1 \<Rightarrow> map_base (Base_decorate flt pre name section) cfg1)"

text \<open>The custom part of \<^verbatim>\<open>UnmarshalFromIni\<close>: headers for HTTP, the role for STCP and XTCP, nothing for the
  others.\<close>

definition default_role :: "RoleProxyConf \<Rightarrow> RoleProxyConf" where
  "default_role c = (if rRole (rcRole c) = [] then c\<lparr>rcRole := (rcRole c)\<lparr>rRole := ''server''\<rparr>\<rparr> else c)"

definition UnmarshalFromIni ::
  "(string \<Rightarrow> int \<Rightarrow> int option) \<Rightarrow> string \<Rightarrow> string \<Rightarrow> ini_section \<Rightarrow> ProxyConf \<Rightarrow> (config_error, ProxyConf) result" where
  "UnmarshalFromIni flt pre name section cfg =
     (case preUnmarshalFromIni flt pre name section cfg of
        Inl e \<Rightarrow> Inl e
      | Inr cfg1 \<Rightarrow>
          Inr (case cfg1 of
                 HTTPConf c \<Rightarrow> HTTPConf (c\<lparr>hcHeaders := GetMapWithoutPrefix (iniKeysHash section) ''header_''\<rparr>)
               | STCPConf c \<Rightarrow> STCPConf (default_role c)
               | XTCPConf c \<Rightarrow> XTCPConf (default_role c)
               | c \<Rightarrow> c))"

definition NewProxyConfFromIni ::
  "(string \<Rightarrow> int \<Rightarrow> int option) \<Rightarrow> string \<Rightarrow> string \<Rightarrow> ini_section \<Rightarrow> (config_error, ProxyConf) result" where
  "NewProxyConfFromIni flt pre name section =
     (let proxyType = (if iniKey section ''type'' = [] then ''tcp'' else iniKey section ''type'')
      in case DefaultProxyConf proxyType of
           None \<Rightarrow> Inl (ErrIniType proxyType)
         | Some conf0 \<Rightarrow>
             (case UnmarshalFromIni flt pre name section conf0 of
                Inl e \<Rightarrow> Inl e
              | Inr conf \<Rightarrow> (case ValidateForClient conf of Some e \<Rightarrow> Inl e | None \<Rightarrow> Inr conf)))"

section \<open>The way of a configuration from the client to the server\<close>

lemma TrimSpace_Nil [simp]: "TrimSpace [] = []"
  by (simp add: TrimSpace_def)

lemma TrimSpace_idem [simp]: "TrimSpace (TrimSpace s) = TrimSpace s"
proof -
  have "dropWhile is_space (rev (dropWhile is_space (rev t))) = rev (dropWhile is_space (rev t))"
    if "dropWhile is_space t = t" for t
  proof (cases "rev (dropWhile is_space (rev t))")
    case (Cons c cs)
    have "t = rev (dropWhile is_space (rev t)) @ rev (takeWhile is_space (rev t))"
      by (metis rev_append rev_rev_ident takeWhile_dropWhile_id)
    with Cons that show ?thesis by (metis append_Cons dropWhile.simps(2) dropWhile_eq_self_iff list.sel(1) list.simps(3))
  qed (simp only: dropWhile.simps)
  then show ?thesis by (simp add: TrimSpace_def)
qed

text \<open>A quantity that was read from a text is read again from its own text.\<close>

definition quantity_ok :: "(string \<Rightarrow> int \<Rightarrow> int option) \<Rightarrow> BandwidthQuantity \<Rightarrow> bool" where
  "quantity_ok flt q \<longleftrightarrow> fst (NewBandwidthQuantity flt (qs q)) = q"

lemma quantity_ok_zero [simp]: "quantity_ok flt zero_quantity"
  by (simp add: quantity_ok_def NewBandwidthQuantity_def BandwidthQuantity_UnmarshalString_def zero_quantity_def TrimSpace_def)

lemma quantity_ok_New: "NewBandwidthQuantity flt s = (q, None) \<Longrightarrow> quantity_ok flt q"
  by (auto simp: quantity_ok_def NewBandwidthQuantity_def BandwidthQuantity_UnmarshalString_def zero_quantity_def Let_def
      split: sum.splits if_splits option.splits)

lemma quantity_ok_empty: "quantity_ok flt q \<Longrightarrow> qs q = [] \<Longrightarrow> q = zero_quantity"
  by (simp add: quantity_ok_def NewBandwidthQuantity_def BandwidthQuantity_UnmarshalString_def TrimSpace_def)

text \<open>The type of a configuration, by the struct it is.\<close>

primrec conf_type :: "ProxyConf \<Rightarrow> string" where
  "conf_type (TCPConf _) = ''tcp''"
| "conf_type (TCPMuxConf _) = ''tcpmux''"
| "conf_type (UDPConf _) = ''udp''"
| "conf_type (HTTPConf _) = ''http''"
| "conf_type (HTTPSConf _) = ''https''"
| "conf_type (STCPConf _) = ''stcp''"
| "conf_type (XTCPConf _) = ''xtcp''"
| "conf_type (SUDPConf _) = ''sudp''"

lemma DefaultProxyConf_type: "DefaultProxyConf t = Some c \<Longrightarrow> conf_type c = t"
  by (auto simp: DefaultProxyConf_def NewConfByType_def proxyConfTypeMap_def split: if_splits)

lemma DefaultProxyConf_None: "DefaultProxyConf t = None \<longleftrightarrow> t \<notin> range conf_type"
proof
  show "t \<notin> range conf_type \<Longrightarrow> DefaultProxyConf t = None"
    using DefaultProxyConf_type by (metis not_Some_eq rangeI)
  show "DefaultProxyConf t = None \<Longrightarrow> t \<notin> range conf_type"
  proof
    assume "DefaultProxyConf t = None" "t \<in> range conf_type"
    then obtain c where "t = conf_type c" by blast
    with \<open>DefaultProxyConf t = None\<close> show False
      by (cases c) (auto simp: DefaultProxyConf_def NewConfByType_def proxyConfTypeMap_def)
  qed
qed

text \<open>What the server knows of a configuration: the client's settings for its local service, its health checks and the
  proxy protocol stay at their defaults; an empty type is TCP.\<close>

definition base_view :: "'a BaseProxyConf_scheme \<Rightarrow> 'a BaseProxyConf_scheme" where
  "base_view c =
     c\<lparr>bProxyProtocolVersion := [], bLocalSvrConf := zero_LocalSvrConf\<lparr>LocalIP := ''127.0.0.1''\<rparr>,
       bHealthCheckConf := zero_HealthCheckConf\<rparr>"

definition role_view :: "RoleProxyConf \<Rightarrow> RoleProxyConf" where
  "role_view c = (base_view c)\<lparr>rcRole := (rcRole c)\<lparr>rRole := ''server''\<rparr>\<rparr>"

primrec server_view :: "ProxyConf \<Rightarrow> ProxyConf" where
  "server_view (TCPConf c) = TCPConf ((base_view c)\<lparr>bProxyType := ''tcp''\<rparr>)"
| "server_view (TCPMuxConf c) = TCPMuxConf (base_view c)"
| "server_view (UDPConf c) = UDPConf (base_view c)"
| "server_view (HTTPConf c) = HTTPConf (base_view c)"
| "server_view (HTTPSConf c) = HTTPSConf (base_view c)"
| "server_view (STCPConf c) = STCPConf (role_view c)"
| "server_view (XTCPConf c) = XTCPConf (role_view c)"
| "server_view (SUDPConf c) = SUDPConf (role_view c)"

definition conf_ok :: "(string \<Rightarrow> int \<Rightarrow> int option) \<Rightarrow> ProxyConf \<Rightarrow> bool" where
  "conf_ok flt cfg \<longleftrightarrow>
     (let b = GetBaseConfig cfg
      in (bProxyType b = conf_type cfg \<or> bProxyType b = [] \<and> conf_type cfg = ''tcp'') \<and>
         quantity_ok flt (bBandwidthLimit b) \<and> bBandwidthLimitMode b \<in> {''client'', ''server''})"

lemmas base_msg_defs = Base_unmarshalFromMsg_def Base_marshalToMsg_def Base_SetDefaultValues_def zero_base_def base_view_def
  empty_NewProxy_def BaseProxyConf.defs

lemmas conf_msg_defs = TCPConf_UnmarshalFromMsg_def TCPConf_MarshalToMsg_def UDPConf_UnmarshalFromMsg_def UDPConf_MarshalToMsg_def
  TCPMuxConf_UnmarshalFromMsg_def TCPMuxConf_MarshalToMsg_def HTTPConf_UnmarshalFromMsg_def HTTPConf_MarshalToMsg_def
  HTTPSConf_UnmarshalFromMsg_def HTTPSConf_MarshalToMsg_def RoleConf_UnmarshalFromMsg_def RoleConf_MarshalToMsg_def
  Role_marshalToMsg_def Role_unmarshalFromMsg_def role_view_def
  TCPProxyConf.defs UDPProxyConf.defs TCPMuxProxyConf.defs HTTPProxyConf.defs HTTPSProxyConf.defs RoleProxyConf.defs

lemmas conf_new_defs = DefaultProxyConf_def NewConfByType_def proxyConfTypeMap_def

lemma zero_role_default [simp]:
  "RoleConf_SetDefaultValues zero_role_conf =
     Base_SetDefaultValues (zero_base (RoleProxyConf.fields \<lparr>rRole = ''server'', rSk = [], rAllowUsers = []\<rparr>))"
  "rcRole (Base_SetDefaultValues (zero_base (RoleProxyConf.fields r))) = r"
  by (simp_all add: RoleConf_SetDefaultValues_def Role_setDefaultValues_def Base_SetDefaultValues_def zero_role_conf_def zero_Role_def
      zero_base_def RoleProxyConf.defs)

lemma role_carried: "\<lparr>rRole = x, rSk = rSk r, rAllowUsers = rAllowUsers r\<rparr> = r\<lparr>rRole := x\<rparr>"
  by (cases r) simp

lemma msg_type: "npProxyType (MarshalToMsg cfg m) = bProxyType (GetBaseConfig cfg)"
  by (cases cfg) (simp_all add: conf_msg_defs base_msg_defs Let_def)

text \<open>The base part of a message and of what it is read into.\<close>

definition carries :: "NewProxy \<Rightarrow> 'a BaseProxyConf_scheme \<Rightarrow> bool" where
  "carries m c \<longleftrightarrow> npProxyName m = bProxyName c \<and> npUseEncryption m = bUseEncryption c \<and> npUseCompression m = bUseCompression c \<and>
     npBandwidthLimit m = qs (bBandwidthLimit c) \<and>
     npBandwidthLimitMode m = (if bBandwidthLimitMode c = ''client'' then [] else bBandwidthLimitMode c) \<and>
     npGroup m = bGroup c \<and> npGroupKey m = bGroupKey c \<and> npMetas m = bMetas c"

lemma carries_marshal [simp]: "carries (Base_marshalToMsg c empty_NewProxy) c"
  by (simp add: carries_def Base_marshalToMsg_def empty_NewProxy_def Let_def)

lemma carries_upd [simp]:
  "carries (m\<lparr>npProxyType := t\<rparr>) c = carries m c" "carries (m\<lparr>npRemotePort := p\<rparr>) c = carries m c"
  "carries (m\<lparr>npCustomDomains := ds\<rparr>) c = carries m c" "carries (m\<lparr>npSubDomain := s\<rparr>) c = carries m c"
  "carries (m\<lparr>npLocations := ds\<rparr>) c = carries m c" "carries (m\<lparr>npHTTPUser := s\<rparr>) c = carries m c"
  "carries (m\<lparr>npHTTPPwd := s\<rparr>) c = carries m c" "carries (m\<lparr>npHostHeaderRewrite := s\<rparr>) c = carries m c"
  "carries (m\<lparr>npHeaders := hs\<rparr>) c = carries m c" "carries (m\<lparr>npRouteByHTTPUser := s\<rparr>) c = carries m c"
  "carries (m\<lparr>npSk := s\<rparr>) c = carries m c" "carries (m\<lparr>npAllowUsers := ds\<rparr>) c = carries m c"
  "carries (m\<lparr>npMultiplexer := s\<rparr>) c = carries m c"
  by (simp_all add: carries_def)

lemma Base_unmarshal_carried:
  assumes "carries m c" "quantity_ok flt (bBandwidthLimit c)" "bBandwidthLimitMode c \<in> {''client'', ''server''}"
  shows "Base_unmarshalFromMsg flt m (Base_SetDefaultValues (zero_base x)) =
    \<lparr>bProxyName = bProxyName c, bProxyType = npProxyType m, bUseEncryption = bUseEncryption c,
     bUseCompression = bUseCompression c, bGroup = bGroup c, bGroupKey = bGroupKey c,
     bProxyProtocolVersion = [], bBandwidthLimit = bBandwidthLimit c, bBandwidthLimitMode = bBandwidthLimitMode c,
     bMetas = bMetas c, bLocalSvrConf = zero_LocalSvrConf\<lparr>LocalIP := ''127.0.0.1''\<rparr>,
     bHealthCheckConf = zero_HealthCheckConf, \<dots> = x\<rparr>"
  using assms quantity_ok_empty [OF assms(2)]
  by (auto simp: carries_def quantity_ok_def Base_unmarshalFromMsg_def Base_SetDefaultValues_def zero_base_def Let_def)

lemmas carry_defs = conf_ok_def conf_new_defs conf_msg_defs base_view_def BaseProxyConf.defs
  zero_role_default(2) [unfolded RoleProxyConf.defs] role_carried

lemma unmarshal_marshal:
  assumes "conf_ok flt cfg" "DefaultProxyConf (conf_type cfg) = Some c0"
  shows "UnmarshalFromMsg flt ((MarshalToMsg cfg empty_NewProxy)\<lparr>npProxyType := conf_type cfg\<rparr>) c0 = server_view cfg"
proof (cases cfg)
  case (TCPConf c)
  with assms show ?thesis by (cases c) (auto simp: carry_defs Base_unmarshal_carried [where c = c])
next
  case (TCPMuxConf c)
  with assms show ?thesis by (cases c) (auto simp: carry_defs Base_unmarshal_carried [where c = c])
next
  case (UDPConf c)
  with assms show ?thesis by (cases c) (auto simp: carry_defs Base_unmarshal_carried [where c = c])
next
  case (HTTPConf c)
  with assms show ?thesis by (cases c) (auto simp: carry_defs Base_unmarshal_carried [where c = c])
next
  case (HTTPSConf c)
  with assms show ?thesis by (cases c) (auto simp: carry_defs Base_unmarshal_carried [where c = c])
next
  case (STCPConf c)
  with assms show ?thesis by (cases c) (auto simp: carry_defs Base_unmarshal_carried [where c = c])
next
  case (XTCPConf c)
  with assms show ?thesis by (cases c) (auto simp: carry_defs Base_unmarshal_carried [where c = c])
next
  case (SUDPConf c)
  with assms show ?thesis by (cases c) (auto simp: carry_defs Base_unmarshal_carried [where c = c])
qed

lemma NewProxyConfFromMsg_marshal:
  assumes "conf_ok flt cfg"
  shows "NewProxyConfFromMsg flt (MarshalToMsg cfg empty_NewProxy) srv =
    (case ValidateForServer srv (server_view cfg) of Some e \<Rightarrow> Inl e | None \<Rightarrow> Inr (server_view cfg))"
proof -
  let ?m = "MarshalToMsg cfg empty_NewProxy"
  obtain c0 where c0: "DefaultProxyConf (conf_type cfg) = Some c0" using DefaultProxyConf_None by (metis not_None_eq rangeI)
  have ne: "conf_type cfg \<noteq> []" by (cases cfg) simp_all
  have m: "(if npProxyType ?m = [] then ?m\<lparr>npProxyType := ''tcp''\<rparr> else ?m) = ?m\<lparr>npProxyType := conf_type cfg\<rparr>"
    using assms ne by (cases "npProxyType ?m = []") (auto simp: conf_ok_def msg_type Let_def)
  show ?thesis unfolding NewProxyConfFromMsg_def m Let_def using unmarshal_marshal [OF assms c0] c0 by (auto split: option.split)
qed

text \<open>What the development relies on of the ini library's mapping of a section to a struct: it fills the fields of the
  struct it is given, among them the type from the key of that name, and cannot set the unexported fields of a
  bandwidth quantity.\<close>

definition ini_maps :: "ini_section \<Rightarrow> bool" where
  "ini_maps section \<longleftrightarrow>
     (\<forall>c c'. iniMapTo section c = Inr c' \<longrightarrow>
        conf_type c' = conf_type c \<and> bProxyType (GetBaseConfig c') = iniKey section ''type'' \<and>
        bBandwidthLimit (GetBaseConfig c') = bBandwidthLimit (GetBaseConfig c))"

lemma map_base_Inr:
  assumes "map_base f c = Inr c'"
  shows "conf_type c' = conf_type c \<and> f (GetBaseConfig c) = Inr (GetBaseConfig c')"
  using assms by (cases c) (auto simp: map_sum_def BaseProxyConf.defs split: sum.splits)

lemma Base_decorate_Inr:
  assumes "Base_decorate flt pre name section c = Inr c'"
  shows "bProxyName c' = pre @ name \<and> bProxyType c' = bProxyType c \<and>
    (quantity_ok flt (bBandwidthLimit c) \<longrightarrow> quantity_ok flt (bBandwidthLimit c')) \<and>
    bHealthCheckConf c' = decorate_health (bLocalSvrConf c') (bHealthCheckConf c)"
  using assms quantity_ok_New by (auto simp: Base_decorate_def Let_def split: option.splits prod.splits)

lemma default_bandwidth: "DefaultProxyConf t = Some c \<Longrightarrow> bBandwidthLimit (GetBaseConfig c) = zero_quantity"
  by (auto simp: conf_new_defs Base_SetDefaultValues_def RoleConf_SetDefaultValues_def BaseProxyConf.defs zero_base_def zero_role_conf_def
      split: if_splits)

lemma ValidateForClient_mode:
  "ValidateForClient cfg = None \<Longrightarrow> bBandwidthLimitMode (GetBaseConfig cfg) \<in> {''client'', ''server''}"
  by (cases cfg) (auto simp: Base_validateForClient_def TCPMuxConf_ValidateForClient_def HTTPConf_ValidateForClient_def
      HTTPSConf_ValidateForClient_def RoleConf_ValidateForClient_def BaseProxyConf.defs split: if_splits option.splits)

lemma UnmarshalFromIni_Inr:
  assumes "UnmarshalFromIni flt pre name section c = Inr c'" "ini_maps section" "bBandwidthLimit (GetBaseConfig c) = zero_quantity"
  shows "conf_type c' = conf_type c \<and> bProxyType (GetBaseConfig c') = iniKey section ''type'' \<and>
    bProxyName (GetBaseConfig c') = pre @ name \<and> quantity_ok flt (bBandwidthLimit (GetBaseConfig c'))"
proof -
  from assms(1) obtain c1 where c1: "preUnmarshalFromIni flt pre name section c = Inr c1"
    and c': "c' = (case c1 of HTTPConf c \<Rightarrow> HTTPConf (c\<lparr>hcHeaders := GetMapWithoutPrefix (iniKeysHash section) ''header_''\<rparr>)
               | STCPConf c \<Rightarrow> STCPConf (default_role c) | XTCPConf c \<Rightarrow> XTCPConf (default_role c) | c \<Rightarrow> c)"
    by (auto simp: UnmarshalFromIni_def split: sum.splits)
  have same: "conf_type c' = conf_type c1" "GetBaseConfig c' = GetBaseConfig c1"
    unfolding c' by (cases c1; simp add: default_role_def BaseProxyConf.defs)+
  from c1 obtain c2 where c2: "iniMapTo section c = Inr c2" "map_base (Base_decorate flt pre name section) c2 = Inr c1"
    by (auto simp: preUnmarshalFromIni_def split: sum.splits)
  from map_base_Inr [OF c2(2)] Base_decorate_Inr [of flt pre name "section" "GetBaseConfig c2" "GetBaseConfig c1"]
    assms(2,3) c2(1) same show ?thesis by (auto simp: ini_maps_def)
qed

lemma NewProxyConfFromIni_Inr:
  assumes "NewProxyConfFromIni flt pre name section = Inr cfg" "ini_maps section"
  shows "conf_ok flt cfg" "bProxyName (GetBaseConfig cfg) = pre @ name"
    "conf_type cfg = (if iniKey section ''type'' = [] then ''tcp'' else iniKey section ''type'')" "ValidateForClient cfg = None"
proof -
  from assms(1) obtain c0 where c0: "DefaultProxyConf (if iniKey section ''type'' = [] then ''tcp'' else iniKey section ''type'') = Some c0"
    and u: "UnmarshalFromIni flt pre name section c0 = Inr cfg" and v: "ValidateForClient cfg = None"
    by (auto simp: NewProxyConfFromIni_def Let_def split: option.splits sum.splits)
  note U = UnmarshalFromIni_Inr [OF u assms(2) default_bandwidth [OF c0]] and T = DefaultProxyConf_type [OF c0]
  show "ValidateForClient cfg = None" by (rule v)
  show "conf_type cfg = (if iniKey section ''type'' = [] then ''tcp'' else iniKey section ''type'')"
    "bProxyName (GetBaseConfig cfg) = pre @ name" using U T by simp_all
  show "conf_ok flt cfg" using U T ValidateForClient_mode [OF v] by (auto simp: conf_ok_def Let_def split: if_splits)
qed

end
