(* ===== verification/Auth.thy ===== *)
theory Auth
  imports Util "HOL-Library.AList"
begin

text \<open>
  Model of \<^verbatim>\<open>pkg/auth\<close>: how clients sign logins, heartbeats and work connections and how the server verifies them,
  with a shared token (\<^verbatim>\<open>token.go\<close>) or with tokens of an OIDC provider (\<^verbatim>\<open>oidc.go\<close>), and the choice between the
  two (\<^verbatim>\<open>auth.go\<close>). MD5 is the parameter \<open>md5\<close>. The OIDC provider is third party code: \<open>issue\<close> is the access token
  it gives the client or its error, \<open>oidc\<close> the subject that the verification of a token yields or its error. The verifier
  of OIDC tokens keeps the subject of the last login, so verifying a login changes it.
\<close>

section \<open>Messages\<close>

record Login =
  lVersion :: string
  lUser :: string
  lPrivilegeKey :: string
  lTimestamp :: int
  lRunID :: string
  lMetas :: "(string \<times> string) list"
  lPoolCount :: int

record Ping =
  pPrivilegeKey :: string
  pTimestamp :: int

record NewWorkConn =
  wRunID :: string
  wPrivilegeKey :: string
  wTimestamp :: int

section \<open>Configuration\<close>

record BaseConfig =
  AuthenticationMethod :: string
  AuthenticateHeartBeats :: bool
  AuthenticateNewWorkConns :: bool

definition getDefaultBaseConf :: BaseConfig where
  "getDefaultBaseConf =
     \<lparr>AuthenticationMethod = ''token'', AuthenticateHeartBeats = False, AuthenticateNewWorkConns = False\<rparr>"

record OidcClientConfig =
  OidcClientID :: string
  OidcClientSecret :: string
  OidcClientAudience :: string
  OidcScope :: string
  OidcTokenEndpointURL :: string
  OidcAdditionalEndpointParams :: "(string \<times> string) list"

record OidcServerConfig =
  OidcIssuer :: string
  OidcAudience :: string
  OidcSkipExpiryCheck :: bool
  OidcSkipIssuerCheck :: bool

definition getDefaultOidcClientConf :: OidcClientConfig where
  "getDefaultOidcClientConf = \<lparr>OidcClientID = [], OidcClientSecret = [], OidcClientAudience = [], OidcScope = [],
     OidcTokenEndpointURL = [], OidcAdditionalEndpointParams = []\<rparr>"

definition getDefaultOidcServerConf :: OidcServerConfig where
  "getDefaultOidcServerConf = \<lparr>OidcIssuer = [], OidcAudience = [], OidcSkipExpiryCheck = False, OidcSkipIssuerCheck = False\<rparr>"

section \<open>Token\<close>

record TokenAuthSetterVerifier =
  taBase :: BaseConfig
  taToken :: string

definition NewTokenAuth :: "BaseConfig \<Rightarrow> string \<Rightarrow> TokenAuthSetterVerifier" where
  "NewTokenAuth baseCfg token = \<lparr>taBase = baseCfg, taToken = token\<rparr>"

definition Token_SetLogin :: "(string \<Rightarrow> string) \<Rightarrow> TokenAuthSetterVerifier \<Rightarrow> Login \<Rightarrow> Login" where
  "Token_SetLogin md5 auth m = m\<lparr>lPrivilegeKey := GetAuthKey md5 (taToken auth) (lTimestamp m)\<rparr>"

definition Token_SetPing :: "(string \<Rightarrow> string) \<Rightarrow> int \<Rightarrow> TokenAuthSetterVerifier \<Rightarrow> Ping \<Rightarrow> Ping" where
  "Token_SetPing md5 now auth m =
     (if \<not> AuthenticateHeartBeats (taBase auth) then m
      else m\<lparr>pTimestamp := now, pPrivilegeKey := GetAuthKey md5 (taToken auth) now\<rparr>)"

definition Token_SetNewWorkConn :: "(string \<Rightarrow> string) \<Rightarrow> int \<Rightarrow> TokenAuthSetterVerifier \<Rightarrow> NewWorkConn \<Rightarrow> NewWorkConn" where
  "Token_SetNewWorkConn md5 now auth m =
     (if \<not> AuthenticateNewWorkConns (taBase auth) then m
      else m\<lparr>wTimestamp := now, wPrivilegeKey := GetAuthKey md5 (taToken auth) now\<rparr>)"

definition Token_VerifyLogin :: "(string \<Rightarrow> string) \<Rightarrow> TokenAuthSetterVerifier \<Rightarrow> Login \<Rightarrow> string option" where
  "Token_VerifyLogin md5 auth m =
     (if \<not> ConstantTimeEqString (GetAuthKey md5 (taToken auth) (lTimestamp m)) (lPrivilegeKey m)
      then Some ''token in login doesn't match token from configuration'' else None)"

definition Token_VerifyPing :: "(string \<Rightarrow> string) \<Rightarrow> TokenAuthSetterVerifier \<Rightarrow> Ping \<Rightarrow> string option" where
  "Token_VerifyPing md5 auth m =
     (if \<not> AuthenticateHeartBeats (taBase auth) then None
      else if \<not> ConstantTimeEqString (GetAuthKey md5 (taToken auth) (pTimestamp m)) (pPrivilegeKey m)
      then Some ''token in heartbeat doesn't match token from configuration'' else None)"

definition Token_VerifyNewWorkConn :: "(string \<Rightarrow> string) \<Rightarrow> TokenAuthSetterVerifier \<Rightarrow> NewWorkConn \<Rightarrow> string option" where
  "Token_VerifyNewWorkConn md5 auth m =
     (if \<not> AuthenticateNewWorkConns (taBase auth) then None
      else if \<not> ConstantTimeEqString (GetAuthKey md5 (taToken auth) (wTimestamp m)) (wPrivilegeKey m)
      then Some ''token in NewWorkConn doesn't match token from configuration'' else None)"

section \<open>OIDC\<close>

record OidcAuthProvider =
  opBase :: BaseConfig
  opEndpointParams :: "(string \<times> string list) list"
  opClientID :: string
  opClientSecret :: string
  opScopes :: "string list"
  opTokenURL :: string

text \<open>Setting a key of a map replaces an earlier value.\<close>

definition NewOidcAuthSetter :: "BaseConfig \<Rightarrow> OidcClientConfig \<Rightarrow> OidcAuthProvider" where
  "NewOidcAuthSetter baseCfg cfg =
     (let eps = map (\<lambda>(k, v). (k, [v])) (OidcAdditionalEndpointParams cfg);
          eps1 = (if OidcClientAudience cfg \<noteq> [] then AList.update ''audience'' [OidcClientAudience cfg] eps else eps)
      in \<lparr>opBase = baseCfg, opEndpointParams = eps1, opClientID = OidcClientID cfg, opClientSecret = OidcClientSecret cfg,
          opScopes = [OidcScope cfg], opTokenURL = OidcTokenEndpointURL cfg\<rparr>)"

definition generateAccessToken :: "(string, string) result \<Rightarrow> (string, string) result" where
  "generateAccessToken issue =
     (case issue of Inl e \<Rightarrow> Inl (''couldn't generate OIDC token for login: '' @ e) | Inr t \<Rightarrow> Inr t)"

text \<open>On an error the key of the message is set to the empty text that comes with it.\<close>

definition Oidc_SetLogin :: "(string, string) result \<Rightarrow> Login \<Rightarrow> string option \<times> Login" where
  "Oidc_SetLogin issue m =
     (case generateAccessToken issue of
        Inl e \<Rightarrow> (Some e, m\<lparr>lPrivilegeKey := []\<rparr>)
      | Inr t \<Rightarrow> (None, m\<lparr>lPrivilegeKey := t\<rparr>))"

definition Oidc_SetPing :: "(string, string) result \<Rightarrow> OidcAuthProvider \<Rightarrow> Ping \<Rightarrow> string option \<times> Ping" where
  "Oidc_SetPing issue auth m =
     (if \<not> AuthenticateHeartBeats (opBase auth) then (None, m)
      else case generateAccessToken issue of
        Inl e \<Rightarrow> (Some e, m\<lparr>pPrivilegeKey := []\<rparr>)
      | Inr t \<Rightarrow> (None, m\<lparr>pPrivilegeKey := t\<rparr>))"

definition Oidc_SetNewWorkConn :: "(string, string) result \<Rightarrow> OidcAuthProvider \<Rightarrow> NewWorkConn \<Rightarrow> string option \<times> NewWorkConn" where
  "Oidc_SetNewWorkConn issue auth m =
     (if \<not> AuthenticateNewWorkConns (opBase auth) then (None, m)
      else case generateAccessToken issue of
        Inl e \<Rightarrow> (Some e, m\<lparr>wPrivilegeKey := []\<rparr>)
      | Inr t \<Rightarrow> (None, m\<lparr>wPrivilegeKey := t\<rparr>))"

record OidcAuthConsumer =
  ocBase :: BaseConfig
  ocSubjectFromLogin :: string

definition Oidc_VerifyLogin :: "(string \<Rightarrow> (string, string) result) \<Rightarrow> OidcAuthConsumer \<Rightarrow> Login \<Rightarrow>
    string option \<times> OidcAuthConsumer" where
  "Oidc_VerifyLogin oidc auth m =
     (case oidc (lPrivilegeKey m) of
        Inl e \<Rightarrow> (Some (''invalid OIDC token in login: '' @ e), auth)
      | Inr subject \<Rightarrow> (None, auth\<lparr>ocSubjectFromLogin := subject\<rparr>))"

definition verifyPostLoginToken :: "(string \<Rightarrow> (string, string) result) \<Rightarrow> OidcAuthConsumer \<Rightarrow> string \<Rightarrow> string option" where
  "verifyPostLoginToken oidc auth privilegeKey =
     (case oidc privilegeKey of
        Inl e \<Rightarrow> Some (''invalid OIDC token in ping: '' @ e)
      | Inr subject \<Rightarrow>
          if subject \<noteq> ocSubjectFromLogin auth
          then Some (''received different OIDC subject in login and ping. original subject: '' @ ocSubjectFromLogin auth @
                     '', new subject: '' @ subject)
          else None)"

definition Oidc_VerifyPing :: "(string \<Rightarrow> (string, string) result) \<Rightarrow> OidcAuthConsumer \<Rightarrow> Ping \<Rightarrow> string option" where
  "Oidc_VerifyPing oidc auth m =
     (if \<not> AuthenticateHeartBeats (ocBase auth) then None else verifyPostLoginToken oidc auth (pPrivilegeKey m))"

definition Oidc_VerifyNewWorkConn :: "(string \<Rightarrow> (string, string) result) \<Rightarrow> OidcAuthConsumer \<Rightarrow> NewWorkConn \<Rightarrow> string option" where
  "Oidc_VerifyNewWorkConn oidc auth m =
     (if \<not> AuthenticateNewWorkConns (ocBase auth) then None else verifyPostLoginToken oidc auth (wPrivilegeKey m))"

section \<open>The choice of a method\<close>

record ClientConfig =
  ccBase :: BaseConfig
  ccOidc :: OidcClientConfig
  ccToken :: string

definition GetDefaultClientConf :: ClientConfig where
  "GetDefaultClientConf = \<lparr>ccBase = getDefaultBaseConf, ccOidc = getDefaultOidcClientConf, ccToken = []\<rparr>"

record ServerConfig =
  svBase :: BaseConfig
  svOidc :: OidcServerConfig
  svToken :: string

definition GetDefaultServerConf :: ServerConfig where
  "GetDefaultServerConf = \<lparr>svBase = getDefaultBaseConf, svOidc = getDefaultOidcServerConf, svToken = []\<rparr>"

datatype Setter = TokenSetter TokenAuthSetterVerifier | OidcSetter OidcAuthProvider

text \<open>An unknown method panics on the client.\<close>

definition NewAuthSetter :: "ClientConfig \<Rightarrow> Setter option" where
  "NewAuthSetter cfg =
     (if AuthenticationMethod (ccBase cfg) = ''token'' then Some (TokenSetter (NewTokenAuth (ccBase cfg) (ccToken cfg)))
      else if AuthenticationMethod (ccBase cfg) = ''oidc'' then Some (OidcSetter (NewOidcAuthSetter (ccBase cfg) (ccOidc cfg)))
      else None)"

datatype Verifier = TokenVerifier TokenAuthSetterVerifier | OidcVerifier OidcAuthConsumer | NilVerifier

text \<open>On the server an unknown method leaves the nil interface; a provider that cannot be reached panics
  (\<open>None\<close>).\<close>

definition NewOidcAuthVerifier :: "(string \<Rightarrow> bool) \<Rightarrow> BaseConfig \<Rightarrow> OidcServerConfig \<Rightarrow> OidcAuthConsumer option" where
  "NewOidcAuthVerifier reachable baseCfg cfg =
     (if reachable (OidcIssuer cfg) then Some \<lparr>ocBase = baseCfg, ocSubjectFromLogin = []\<rparr> else None)"

definition NewAuthVerifier :: "(string \<Rightarrow> bool) \<Rightarrow> ServerConfig \<Rightarrow> Verifier option" where
  "NewAuthVerifier reachable cfg =
     (if AuthenticationMethod (svBase cfg) = ''token'' then Some (TokenVerifier (NewTokenAuth (svBase cfg) (svToken cfg)))
      else if AuthenticationMethod (svBase cfg) = ''oidc'' then
        map_option OidcVerifier (NewOidcAuthVerifier reachable (svBase cfg) (svOidc cfg))
      else Some NilVerifier)"

text \<open>The calls through the interfaces; \<open>env\<close> has the hash, the provider's tokens and verification, and the clock. A call
  on the nil interface panics (\<open>None\<close>).\<close>

record auth_env =
  aeMd5 :: "string \<Rightarrow> string"
  aeIssue :: "(string, string) result"
  aeOidc :: "string \<Rightarrow> (string, string) result"
  aeNow :: int

primrec SetLogin :: "auth_env \<Rightarrow> Setter \<Rightarrow> Login \<Rightarrow> string option \<times> Login" where
  "SetLogin env (TokenSetter a) m = (None, Token_SetLogin (aeMd5 env) a m)"
| "SetLogin env (OidcSetter a) m = Oidc_SetLogin (aeIssue env) m"

primrec SetPing :: "auth_env \<Rightarrow> Setter \<Rightarrow> Ping \<Rightarrow> string option \<times> Ping" where
  "SetPing env (TokenSetter a) m = (None, Token_SetPing (aeMd5 env) (aeNow env) a m)"
| "SetPing env (OidcSetter a) m = Oidc_SetPing (aeIssue env) a m"

primrec SetNewWorkConn :: "auth_env \<Rightarrow> Setter \<Rightarrow> NewWorkConn \<Rightarrow> string option \<times> NewWorkConn" where
  "SetNewWorkConn env (TokenSetter a) m = (None, Token_SetNewWorkConn (aeMd5 env) (aeNow env) a m)"
| "SetNewWorkConn env (OidcSetter a) m = Oidc_SetNewWorkConn (aeIssue env) a m"

primrec VerifyLogin :: "auth_env \<Rightarrow> Verifier \<Rightarrow> Login \<Rightarrow> (string option \<times> Verifier) option" where
  "VerifyLogin env (TokenVerifier a) m = Some (Token_VerifyLogin (aeMd5 env) a m, TokenVerifier a)"
| "VerifyLogin env (OidcVerifier a) m =
     (case Oidc_VerifyLogin (aeOidc env) a m of (e, a1) \<Rightarrow> Some (e, OidcVerifier a1))"
| "VerifyLogin env NilVerifier m = None"

primrec VerifyPing :: "auth_env \<Rightarrow> Verifier \<Rightarrow> Ping \<Rightarrow> string option option" where
  "VerifyPing env (TokenVerifier a) m = Some (Token_VerifyPing (aeMd5 env) a m)"
| "VerifyPing env (OidcVerifier a) m = Some (Oidc_VerifyPing (aeOidc env) a m)"
| "VerifyPing env NilVerifier m = None"

primrec VerifyNewWorkConn :: "auth_env \<Rightarrow> Verifier \<Rightarrow> NewWorkConn \<Rightarrow> string option option" where
  "VerifyNewWorkConn env (TokenVerifier a) m = Some (Token_VerifyNewWorkConn (aeMd5 env) a m)"
| "VerifyNewWorkConn env (OidcVerifier a) m = Some (Oidc_VerifyNewWorkConn (aeOidc env) a m)"
| "VerifyNewWorkConn env NilVerifier m = None"

section \<open>Signing with a token\<close>

text \<open>What the three kinds of messages share: a message is accepted exactly when the check is switched off or its key is
  the digest of the server's token and the message's time stamp, and the client puts in that digest of its own token.\<close>

locale token_signed =
  fixes sign :: "string \<Rightarrow> 'm \<Rightarrow> 'm" and verify :: "string \<Rightarrow> 'm \<Rightarrow> string option"
    and key :: "'m \<Rightarrow> string" and stamp :: "'m \<Rightarrow> int" and digest :: "string \<Rightarrow> string" and required :: bool
  assumes verify_iff: "verify token m = None \<longleftrightarrow> \<not> required \<or> key m = digest (token @ Itoa (stamp m))"
    and sign_key: "required \<Longrightarrow> key (sign token m) = digest (token @ Itoa (stamp (sign token m)))"
begin

text \<open>A message is accepted when the token it was signed with is the server's, provided the two tokens do not
  collide.\<close>

lemma accepted_iff:
  assumes "\<forall>n. digest (token' @ Itoa n) = digest (token @ Itoa n) \<longrightarrow> token' = token"
  shows "verify token (sign token' m) = None \<longleftrightarrow> required \<longrightarrow> token' = token"
  using assms sign_key [of token' m] by (auto simp: verify_iff)

end

interpretation tlogin: token_signed "\<lambda>t. Token_SetLogin md5 (NewTokenAuth base t)" "\<lambda>t. Token_VerifyLogin md5 (NewTokenAuth base t)"
    lPrivilegeKey lTimestamp md5 True for md5 base
  by unfold_locales (simp_all add: Token_SetLogin_def Token_VerifyLogin_def NewTokenAuth_def GetAuthKey_def ConstantTimeEqString_def
      eq_commute)

interpretation tping: token_signed "\<lambda>t. Token_SetPing md5 now (NewTokenAuth base t)" "\<lambda>t. Token_VerifyPing md5 (NewTokenAuth base t)"
    pPrivilegeKey pTimestamp md5 "AuthenticateHeartBeats base" for md5 now base
  by unfold_locales (auto simp: Token_SetPing_def Token_VerifyPing_def NewTokenAuth_def GetAuthKey_def ConstantTimeEqString_def)

interpretation twork: token_signed "\<lambda>t. Token_SetNewWorkConn md5 now (NewTokenAuth base t)"
    "\<lambda>t. Token_VerifyNewWorkConn md5 (NewTokenAuth base t)"
    wPrivilegeKey wTimestamp md5 "AuthenticateNewWorkConns base" for md5 now base
  by unfold_locales (auto simp: Token_SetNewWorkConn_def Token_VerifyNewWorkConn_def NewTokenAuth_def GetAuthKey_def
      ConstantTimeEqString_def)

text \<open>C24: whatever a client with the server's token and settings signs is accepted, and when the digests of the two
  tokens do not collide a login signed with another token is refused, as are heartbeats and work connections where the
  settings ask for the check.\<close>

theorem token_auth:
  assumes "AuthenticationMethod base = ''token''"
    and "\<forall>n. aeMd5 env (t1 @ Itoa n) = aeMd5 env (t2 @ Itoa n) \<longrightarrow> t1 = t2"
    and "NewAuthSetter \<lparr>ccBase = base, ccOidc = oc, ccToken = t1\<rparr> = Some a"
    and "NewAuthVerifier reachable \<lparr>svBase = base, svOidc = os, svToken = t2\<rparr> = Some v"
  shows "(\<exists>e. VerifyLogin env v (snd (SetLogin env a m)) = Some (e, v) \<and> (e = None \<longleftrightarrow> t1 = t2)) \<and>
    (VerifyPing env v (snd (SetPing env a p)) = Some None \<longleftrightarrow> AuthenticateHeartBeats base \<longrightarrow> t1 = t2) \<and>
    (VerifyNewWorkConn env v (snd (SetNewWorkConn env a w)) = Some None \<longleftrightarrow> AuthenticateNewWorkConns base \<longrightarrow> t1 = t2)"
proof -
  have a: "a = TokenSetter (NewTokenAuth base t1)" and v: "v = TokenVerifier (NewTokenAuth base t2)"
    using assms(1,3,4) by (auto simp: NewAuthSetter_def NewAuthVerifier_def)
  show ?thesis unfolding a v
    by (simp add: tlogin.accepted_iff [OF assms(2)] tping.accepted_iff [OF assms(2)] twork.accepted_iff [OF assms(2)])
qed

theorem token_auth_witness:
  "\<exists>e. VerifyLogin \<lparr>aeMd5 = id, aeIssue = Inl [], aeOidc = (\<lambda>_. Inl []), aeNow = 7\<rparr>
      (TokenVerifier (NewTokenAuth getDefaultBaseConf ''s''))
      (snd (SetLogin \<lparr>aeMd5 = id, aeIssue = Inl [], aeOidc = (\<lambda>_. Inl []), aeNow = 7\<rparr>
        (TokenSetter (NewTokenAuth getDefaultBaseConf ''t''))
        \<lparr>lVersion = [], lUser = ''u'', lPrivilegeKey = [], lTimestamp = 3, lRunID = [], lMetas = [], lPoolCount = 1\<rparr>)) =
    Some (e, TokenVerifier (NewTokenAuth getDefaultBaseConf ''s'')) \<and> e \<noteq> None"
  using token_auth [of getDefaultBaseConf "\<lparr>aeMd5 = id, aeIssue = Inl [], aeOidc = (\<lambda>_. Inl []), aeNow = 7\<rparr>" "''t''" "''s''"
      getDefaultOidcClientConf "TokenSetter (NewTokenAuth getDefaultBaseConf ''t'')" "\<lambda>_. True" getDefaultOidcServerConf
      "TokenVerifier (NewTokenAuth getDefaultBaseConf ''s'')"]
  by (fastforce simp: getDefaultBaseConf_def NewAuthSetter_def NewAuthVerifier_def)

text \<open>The server keeps one verifier for all clients, and an OIDC verifier remembers the subject of the last login
  only: as soon as a client with another subject has logged in, the heartbeats of the first client are refused.\<close>

lemma oidc_subject_of_last_login:
  assumes "AuthenticateHeartBeats (ocBase v)" "aeOidc env k1 = Inr s1" "aeOidc env k2 = Inr s2" "s1 \<noteq> s2"
    and "lPrivilegeKey m1 = k1" "lPrivilegeKey m2 = k2" "pPrivilegeKey p = k1"
    and "VerifyLogin env (OidcVerifier v) m1 = Some (e1, v1)" "VerifyLogin env v1 m2 = Some (e2, v2)"
  shows "e1 = None \<and> e2 = None \<and> VerifyPing env v1 p = Some None \<and> (\<exists>e. VerifyPing env v2 p = Some (Some e))"
  using assms by (auto simp: Oidc_VerifyLogin_def Oidc_VerifyPing_def verifyPostLoginToken_def)

end
