(* ===== verification/Account_API.thy ===== *)
theory Account_API
  imports Proxy_Config Auth
begin

text \<open>
  Model of \<^verbatim>\<open>pkg/api/api.go\<close>, the client of the account service that admits users and their proxies and
  gives their bandwidth limits. The HTTP transport and the decoding of JSON bodies are parameters: \<open>get\<close> maps the
  values of the query to the response, which is missing when the request failed, and the error; the
  decoders map a body to the fields the code reads, or to an error.
\<close>

section \<open>Replies\<close>

record http_resp =
  StatusCode :: int
  StatusText :: string
  RespBody :: "(string, string) result"

type_synonym http_get = "(string \<times> string) list \<Rightarrow> http_resp option \<times> string option"

datatype api_error = ErrTransport string | ErrHTTPStatus int string | ErrBody string | ErrJSON string | ErrCheckFail string

fun api_error_text :: "api_error \<Rightarrow> string" where
  "api_error_text (ErrTransport e) = e"
| "api_error_text (ErrHTTPStatus status text) =
     ''ME Frp API Error (Status: '' @ Itoa status @ '', Text: '' @ text @ '')''"
| "api_error_text (ErrBody e) = e"
| "api_error_text (ErrJSON e) = e"
| "api_error_text (ErrCheckFail m) = m"

text \<open>The part after the request that the two checks share: a nil error next to a missing response is returned as it is
  (\<open>Inr False\<close>).\<close>

definition check_reply ::
  "http_resp option \<times> string option \<Rightarrow> (string \<Rightarrow> (string, bool \<times> string) result) \<Rightarrow> (api_error, bool) result" where
  "check_reply reply decode =
     (case reply of
        (None, None) \<Rightarrow> Inr False
      | (None, Some e) \<Rightarrow> Inl (ErrTransport e)
      | (Some resp, Some e) \<Rightarrow> Inl (ErrTransport e)
      | (Some resp, None) \<Rightarrow>
          if StatusCode resp \<noteq> 200 then Inl (ErrHTTPStatus (StatusCode resp) (StatusText resp))
          else (case RespBody resp of
                  Inl e \<Rightarrow> Inl (ErrBody e)
                | Inr body \<Rightarrow>
                    (case decode body of
                       Inl e \<Rightarrow> Inl (ErrJSON e)
                     | Inr (success, message) \<Rightarrow> if \<not> success then Inl (ErrCheckFail message) else Inr True)))"

definition CheckToken :: "http_get \<Rightarrow> (string \<Rightarrow> (string, bool \<times> string) result) \<Rightarrow>
    string \<Rightarrow> string \<Rightarrow> int \<Rightarrow> string \<Rightarrow> (api_error, bool) result" where
  "CheckToken get decode user token timestamp stk =
     check_reply (get [(''action'', ''checktoken''), (''user'', user), (''token'', token), (''timestamp'', Itoa timestamp),
                       (''apitoken'', stk)]) decode"

text \<open>\<open>domains\<close> is the JSON text of a list of domains, whose encoding cannot fail.\<close>

definition CheckProxy_values :: "(string list \<Rightarrow> string) \<Rightarrow> string \<Rightarrow> NewProxy \<Rightarrow> int \<Rightarrow> string \<Rightarrow> Login \<Rightarrow> (string \<times> string) list" where
  "CheckProxy_values domains user pMsg timestamp stk loginMsg =
     [(''action'', ''checkproxy''), (''user'', user), (''timestamp'', Itoa timestamp), (''apitoken'', stk),
      (''proxy_name'', npProxyName pMsg), (''proxy_type'', npProxyType pMsg), (''run_id'', lRunID loginMsg),
      (''group'', npGroup pMsg), (''group_key'', npGroupKey pMsg)] @
     (if npProxyType pMsg \<in> {''http'', ''https''} then [(''domain'', domains (npCustomDomains pMsg))]
      else if npProxyType pMsg \<in> {''tcp'', ''udp''} then [(''remote_port'', Itoa (npRemotePort pMsg))]
      else if npProxyType pMsg \<in> {''stcp'', ''xtcp''} then [(''remote_port'', Itoa (npRemotePort pMsg)), (''sk'', npSk pMsg)]
      else [])"

definition CheckProxy :: "http_get \<Rightarrow> (string \<Rightarrow> (string, bool \<times> string) result) \<Rightarrow> (string list \<Rightarrow> string) \<Rightarrow>
    string \<Rightarrow> NewProxy \<Rightarrow> int \<Rightarrow> string \<Rightarrow> Login \<Rightarrow> (api_error, bool) result" where
  "CheckProxy get decode domains user pMsg timestamp stk loginMsg =
     check_reply (get (CheckProxy_values domains user pMsg timestamp stk loginMsg)) decode"

text \<open>The body is decoded twice, for the status and message and for the limits. The body of the response is closed by
  a deferred call whose receiver is evaluated before the response is checked, so a failed request panics (\<open>None\<close>).\<close>

definition GetProxyLimit ::
  "http_get \<Rightarrow> (string \<Rightarrow> (string, int \<times> string) result) \<Rightarrow> (string \<Rightarrow> (string, 64 word \<times> 64 word) result) \<Rightarrow>
   string \<Rightarrow> int \<Rightarrow> string \<Rightarrow> (api_error, 64 word \<times> 64 word) result option" where
  "GetProxyLimit get decode_status decode_limit user timestamp stk =
     (case get [(''action'', ''getlimit''), (''user'', user), (''timestamp'', Itoa timestamp), (''apitoken'', stk)] of
        (None, _) \<Rightarrow> None
      | (Some resp, Some e) \<Rightarrow> Some (Inl (ErrTransport e))
      | (Some resp, None) \<Rightarrow>
          Some (case RespBody resp of
                  Inl e \<Rightarrow> Inl (ErrBody e)
                | Inr body \<Rightarrow>
                    (case decode_status body of
                       Inl e \<Rightarrow> Inl (ErrJSON e)
                     | Inr (status, text) \<Rightarrow>
                         if status \<noteq> 200 then Inl (ErrHTTPStatus status text)
                         else (case decode_limit body of Inl e \<Rightarrow> Inl (ErrJSON e) | Inr limits \<Rightarrow> Inr limits))))"

section \<open>Results\<close>

lemma check_reply_True_iff:
  "check_reply reply decode = Inr True \<longleftrightarrow>
     (\<exists>resp body msg. reply = (Some resp, None) \<and> StatusCode resp = 200 \<and> RespBody resp = Inr body \<and> decode body = Inr (True, msg))"
  by (auto simp: check_reply_def split: prod.splits option.splits sum.splits if_splits)

text \<open>A missing response comes with an error, as the documentation of \<^verbatim>\<open>http.Get\<close> says.\<close>

definition get_ok :: "http_get \<Rightarrow> bool" where
  "get_ok get \<longleftrightarrow> (\<forall>vs. fst (get vs) = None \<longrightarrow> snd (get vs) \<noteq> None)"

lemma check_reply_False: "fst reply = None \<longrightarrow> snd reply \<noteq> None \<Longrightarrow> check_reply reply decode \<noteq> Inr False"
  by (auto simp: check_reply_def split: prod.splits option.splits sum.splits if_splits)

text \<open>The account service admits a user or a proxy exactly when it answers with status 200 and a body that
  says so, every other answer being reported as an error; but a request for the limits that gets no
  response panics instead.\<close>

lemma account_service_unreachable:
  assumes "get_ok get"
  shows "(CheckToken get decode user token t stk = Inr True \<longleftrightarrow>
      (\<exists>resp body msg. get [(''action'', ''checktoken''), (''user'', user), (''token'', token), (''timestamp'', Itoa t),
         (''apitoken'', stk)] = (Some resp, None) \<and> StatusCode resp = 200 \<and> RespBody resp = Inr body \<and>
         decode body = Inr (True, msg))) \<and>
    (CheckToken get decode user token t stk = Inr True \<or> (\<exists>e. CheckToken get decode user token t stk = Inl e)) \<and>
    (CheckProxy get decode domains user m t stk login = Inr True \<or> (\<exists>e. CheckProxy get decode domains user m t stk login = Inl e)) \<and>
    (GetProxyLimit get decode_status decode_limit user t stk = None \<longleftrightarrow>
      fst (get [(''action'', ''getlimit''), (''user'', user), (''timestamp'', Itoa t), (''apitoken'', stk)]) = None)"
proof -
  have total: "check_reply (get vs) decode = Inr True \<or> (\<exists>e. check_reply (get vs) decode = Inl e)" for vs
    using check_reply_False [of "get vs" decode] assms unfolding get_ok_def
    by (cases "check_reply (get vs) decode") (metis (full_types))+
  then show ?thesis unfolding CheckToken_def CheckProxy_def check_reply_True_iff [symmetric]
    by (auto simp: GetProxyLimit_def split: prod.splits option.splits)
qed

end
