(* ===== verification/TCP_Proxy.thy ===== *)
theory TCP_Proxy
  imports TCP_Group Server_System
begin

text \<open>
  Model of the server's TCP proxy (\<^verbatim>\<open>server/proxy/tcp.go\<close>) on the port manager and the TCP groups. The
  proxies without a group fulfil the contract \<open>server_proxy\<close>, so that the theorems on the whole server
  hold for them; a proxy in a group does not, since starting one can leak its port
  (\<open>tcp_group_listen_leaks_port\<close>).
\<close>

section \<open>The proxy\<close>

datatype tcp_listener = NetListener string | GroupListener addr

record TCPProxy =
  tpName :: string
  tpGroup :: string
  tpGroupKey :: string
  tpRemotePort :: int
  tpRealBindPort :: int
  tpListeners :: "tcp_listener list"
  tpUsedPortsNum :: int

definition NewTCPProxy :: "string \<Rightarrow> string \<Rightarrow> string \<Rightarrow> int \<Rightarrow> TCPProxy" where
  "NewTCPProxy name grp key port =
     \<lparr>tpName = name, tpGroup = grp, tpGroupKey = key, tpRemotePort = port, tpRealBindPort = 0, tpListeners = [],
      tpUsedPortsNum = 1\<rparr>"

text \<open>The environment of a call: operating system, clock, order of the free ports, configured bind address,
  and the operating system's text for a failed bind.\<close>

record tcp_env =
  eos :: os_net
  enow :: int
  escan :: "int list"
  ebind :: string
  etext :: string

definition TCPProxy_Run :: "tcp_env \<Rightarrow> TCPProxy \<Rightarrow> TCPGroupCtl \<Rightarrow> (string, string) result \<times> TCPProxy \<times> TCPGroupCtl" where
  "TCPProxy_Run env p r =
     (if tpGroup p \<noteq> [] then
        (case TCPGroupCtl_Listen (eos env) (enow env) (escan env) (tpName p) (tpGroup p) (tpGroupKey p) (ebind env) (tpRemotePort p) r of
           (Inl e, r1) \<Rightarrow> (Inl (group_error_text (etext env) e), p, r1)
         | (Inr (ln, realBindPort), r1) \<Rightarrow>
             (Inr ('':'' @ Itoa realBindPort),
              p\<lparr>tpRealBindPort := realBindPort, tpListeners := tpListeners p @ [GroupListener ln], tpRemotePort := realBindPort\<rparr>,
              r1))
      else
        (case PortManager_Acquire (eos env) (enow env) (escan env) (tpName p) (tpRemotePort p) (tportManager r) of
           (Inl e, pm) \<Rightarrow> (Inl (port_error_text e), p\<lparr>tpRealBindPort := 0\<rparr>, r\<lparr>tportManager := pm\<rparr>)
         | (Inr realBindPort, pm) \<Rightarrow>
             (let address = JoinHostPort (ebind env) (Itoa realBindPort)
              in if \<not> listen_ok (eos env) ''tcp'' address then
                   (Inl (etext env), p\<lparr>tpRealBindPort := realBindPort\<rparr>,
                    r\<lparr>tportManager := PortManager_Release (enow env) realBindPort pm\<rparr>)
                 else
                   (Inr ('':'' @ Itoa realBindPort),
                    p\<lparr>tpRealBindPort := realBindPort, tpListeners := tpListeners p @ [NetListener address],
                      tpRemotePort := realBindPort\<rparr>,
                    r\<lparr>tportManager := pm\<rparr>))))"

fun close_listeners :: "int \<Rightarrow> tcp_listener list \<Rightarrow> TCPGroupCtl \<Rightarrow> TCPGroupCtl option" where
  "close_listeners now [] r = Some r"
| "close_listeners now (NetListener _ # ls) r = close_listeners now ls r"
| "close_listeners now (GroupListener ln # ls) r =
     (case TCPGroupListener_Close now ln r of None \<Rightarrow> None | Some r1 \<Rightarrow> close_listeners now ls r1)"

definition TCPProxy_Close :: "tcp_env \<Rightarrow> TCPProxy \<Rightarrow> TCPGroupCtl \<Rightarrow> TCPGroupCtl option" where
  "TCPProxy_Close env p r =
     (case close_listeners (enow env) (tpListeners p) r of
        None \<Rightarrow> None
      | Some r1 \<Rightarrow>
          Some (if tpGroup p = [] then r1\<lparr>tportManager := PortManager_Release (enow env) (tpRealBindPort p) (tportManager r1)\<rparr>
                else r1))"

definition tcp_ops :: "(tcp_env, TCPProxy, TCPGroupCtl) proxy_ops" where
  "tcp_ops = \<lparr>GetName = tpName, GetUsedPortsNum = tpUsedPortsNum, Run = TCPProxy_Run, Close = TCPProxy_Close\<rparr>"

section \<open>The contract\<close>

text \<open>A proxy without a group, as the factory makes it, on an operating system that refuses to bind a
  port that is in use.\<close>

definition tcp_ready :: "tcp_env \<Rightarrow> TCPProxy \<Rightarrow> TCPGroupCtl \<Rightarrow> bool" where
  "tcp_ready env p r \<longleftrightarrow> tpGroup p = [] \<and> tpListeners p = [] \<and> tpUsedPortsNum p = 1 \<and>
     os_honest (eos env) (tportManager r)"

definition tcp_live :: "TCPProxy \<Rightarrow> bool" where
  "tcp_live p \<longleftrightarrow> tpGroup p = [] \<and> tpUsedPortsNum p = 1 \<and> (\<forall>l \<in> set (tpListeners p). \<exists>a. l = NetListener a)"

abbreviation held_ports :: "TCPGroupCtl \<Rightarrow> int set" where
  "held_ports r \<equiv> dom (usedPorts (tportManager r))"

lemma close_net_listeners: "\<forall>l \<in> set ls. \<exists>a. l = NetListener a \<Longrightarrow> close_listeners now ls r = Some r"
  by (induction ls) auto

lemma tcp_run_cases:
  assumes "tcp_ready env p r" "pm_ok (tportManager r)" "TCPProxy_Run env p r = (out, p', r')"
  obtains (refused) e pm where "PortManager_Acquire (eos env) (enow env) (escan env) (tpName p) (tpRemotePort p) (tportManager r) = (Inl e, pm)"
      "isl out" "r' = r\<lparr>tportManager := pm\<rparr>"
  | (unbound) q pm where "PortManager_Acquire (eos env) (enow env) (escan env) (tpName p) (tpRemotePort p) (tportManager r) = (Inr q, pm)"
      "isl out" "r' = r\<lparr>tportManager := PortManager_Release (enow env) q pm\<rparr>" "q \<notin> held_ports r"
  | (bound) q pm where "PortManager_Acquire (eos env) (enow env) (escan env) (tpName p) (tpRemotePort p) (tportManager r) = (Inr q, pm)"
      "\<not> isl out" "r' = r\<lparr>tportManager := pm\<rparr>" "q \<notin> held_ports r" "tpRealBindPort p' = q" "tcp_live p'" "tpName p' = tpName p"
      "tpUsedPortsNum p' = tpUsedPortsNum p"
proof -
  have g: "tpGroup p = []" "tpListeners p = []" "tpUsedPortsNum p = 1" "os_honest (eos env) (tportManager r)"
    using assms(1) by (auto simp: tcp_ready_def)
  obtain o1 pm where acq: "PortManager_Acquire (eos env) (enow env) (escan env) (tpName p) (tpRemotePort p) (tportManager r) = (o1, pm)"
    by fastforce
  show thesis
  proof (cases o1)
    case (Inl e)
    with acq assms(3) g show thesis by (intro refused) (auto simp: TCPProxy_Run_def)
  next
    case (Inr q)
    obtain allowed where "pm_inv allowed (tportManager r)" "0 \<notin> allowed" using assms(2) by (rule pm_okE)
    from acquire_fresh(1) [OF this g(4)] acq Inr have q: "q \<notin> held_ports r" by auto
    show thesis
    proof (cases "listen_ok (eos env) ''tcp'' (JoinHostPort (ebind env) (Itoa q))")
      case True
      with acq Inr assms(3) g q show thesis by (intro bound) (auto simp: TCPProxy_Run_def tcp_live_def Let_def)
    next
      case False
      with acq Inr assms(3) g q show thesis by (intro unbound) (auto simp: TCPProxy_Run_def Let_def)
    qed
  qed
qed

interpretation tcp: server_proxy tcp_ops tcp_ready tcp_live "\<lambda>r. pm_ok (tportManager r)" held_ports "\<lambda>p. {tpRealBindPort p}"
proof unfold_locales
  fix r e p a p' r'
  assume inv: "pm_ok (tportManager r)" and ready: "tcp_ready e p r" and run: "Run tcp_ops e p r = (Inr a, p', r')"
  have "TCPProxy_Run e p r = (Inr a, p', r')" using run by (simp add: tcp_ops_def)
  with ready inv show "pm_ok (tportManager r') \<and> tcp_live p' \<and> held_ports r' = held_ports r \<union> {tpRealBindPort p'} \<and>
      {tpRealBindPort p'} \<inter> held_ports r = {} \<and> GetName tcp_ops p' = GetName tcp_ops p \<and>
      GetUsedPortsNum tcp_ops p' = GetUsedPortsNum tcp_ops p"
  proof (cases rule: tcp_run_cases)
    case (bound q pm)
    then show ?thesis using pmgr.acquire_held [OF inv bound(1)] pmgr.acquire_invar [OF inv bound(1)]
      by (simp add: tcp_ops_def)
  qed simp_all
next
  fix r e p x p' r'
  assume inv: "pm_ok (tportManager r)" and ready: "tcp_ready e p r" and run: "Run tcp_ops e p r = (Inl x, p', r')"
  have "TCPProxy_Run e p r = (Inl x, p', r')" using run by (simp add: tcp_ops_def)
  with ready inv show "pm_ok (tportManager r') \<and> held_ports r' = held_ports r"
  proof (cases rule: tcp_run_cases)
    case (refused y pm)
    then show ?thesis using pmgr.acquire_error [OF inv refused(1)] pmgr.acquire_invar [OF inv refused(1)] by simp
  next
    case (unbound q pm)
    then show ?thesis
      using pmgr.acquire_release [OF inv unbound(1,4)] pmgr.invar_release [OF pmgr.acquire_invar [OF inv unbound(1)]] by simp
  qed simp_all
next
  fix r :: TCPGroupCtl and p e
  assume inv: "pm_ok (tportManager r)" and live: "tcp_live p"
  then have "Close tcp_ops e p r =
      Some (r\<lparr>tportManager := PortManager_Release (enow e) (tpRealBindPort p) (tportManager r)\<rparr>)"
    by (simp add: tcp_ops_def TCPProxy_Close_def tcp_live_def close_net_listeners)
  then show "\<exists>r'. Close tcp_ops e p r = Some r' \<and> pm_ok (tportManager r') \<and> held_ports r' = held_ports r - {tpRealBindPort p}"
    using pmgr.invar_release [OF inv] by (simp add: PortManager_Release_held)
next
  show "tcp_live p \<Longrightarrow> 0 \<le> GetUsedPortsNum tcp_ops p" for p by (simp add: tcp_ops_def tcp_live_def)
qed

text \<open>An environment for examples, where everything can be bound.\<close>

definition tcp_example_env :: tcp_env where
  "tcp_example_env = \<lparr>eos = os_all, enow = 1, escan = [], ebind = ''0.0.0.0'', etext = []\<rparr>"

end
