(* ===== verification/UDP_Proxy.thy ===== *)
theory UDP_Proxy
  imports TCP_Proxy
begin

text \<open>
  Model of the server's UDP proxy (\<^verbatim>\<open>server/proxy/udp.go\<close>) on the UDP port manager: starting it, and closing
  it, which two parties do (the control, and the goroutine that forwards user packets once its socket
  is closed). The packets themselves are not modelled.
\<close>

section \<open>The proxy\<close>

record UDPProxy =
  upName :: string
  upRemotePort :: int
  upRealBindPort :: int
  upIsClosed :: bool
  upUsedPortsNum :: int

definition NewUDPProxy :: "string \<Rightarrow> int \<Rightarrow> UDPProxy" where
  "NewUDPProxy name port =
     \<lparr>upName = name, upRemotePort = port, upRealBindPort = 0, upIsClosed = False, upUsedPortsNum = 1\<rparr>"

definition UDPProxy_Run :: "tcp_env \<Rightarrow> UDPProxy \<Rightarrow> port_manager \<Rightarrow> (string, string) result \<times> UDPProxy \<times> port_manager" where
  "UDPProxy_Run env p pm =
     (case PortManager_Acquire (eos env) (enow env) (escan env) (upName p) (upRemotePort p) pm of
        (Inl e, pm1) \<Rightarrow>
          (Inl (''acquire port '' @ Itoa (upRemotePort p) @ '' error: '' @ port_error_text e), p\<lparr>upRealBindPort := 0\<rparr>, pm1)
      | (Inr q, pm1) \<Rightarrow>
          (let p1 = p\<lparr>upRealBindPort := q, upRemotePort := q\<rparr>;
               address = JoinHostPort (ebind env) (Itoa q)
           in if \<not> resolve_udp_ok (eos env) address then
                (Inl (etext env), p1, PortManager_Release (enow env) (upRealBindPort p1) pm1)
              else if \<not> listen_udp_ok (eos env) address then
                (Inl (etext env), p1, PortManager_Release (enow env) (upRealBindPort p1) pm1)
              else (Inr ('':'' @ Itoa q), p1, pm1)))"

text \<open>
  The socket and the channels are closed once, guarded by \<^verbatim>\<open>isClosed\<close>; the port is released on every
  call.
\<close>

definition UDPProxy_Close :: "tcp_env \<Rightarrow> UDPProxy \<Rightarrow> port_manager \<Rightarrow> UDPProxy \<times> port_manager" where
  "UDPProxy_Close env p pm =
     (let p1 = (if \<not> upIsClosed p then p\<lparr>upIsClosed := True\<rparr> else p)
      in (p1, PortManager_Release (enow env) (upRealBindPort p1) pm))"

definition udp_ops :: "(tcp_env, UDPProxy, port_manager) proxy_ops" where
  "udp_ops = \<lparr>GetName = upName, GetUsedPortsNum = upUsedPortsNum, Run = UDPProxy_Run,
     Close = (\<lambda>env p pm. Some (snd (UDPProxy_Close env p pm)))\<rparr>"

section \<open>The contract\<close>

definition udp_ready :: "tcp_env \<Rightarrow> UDPProxy \<Rightarrow> port_manager \<Rightarrow> bool" where
  "udp_ready env p pm \<longleftrightarrow> upUsedPortsNum p = 1 \<and> os_honest (eos env) pm"

lemma udp_run_cases:
  assumes "udp_ready env p pm" "pm_ok pm" "UDPProxy_Run env p pm = (out, p', pm')"
  obtains (refused) e where "PortManager_Acquire (eos env) (enow env) (escan env) (upName p) (upRemotePort p) pm = (Inl e, pm')" "isl out"
  | (unbound) q pm1 where "PortManager_Acquire (eos env) (enow env) (escan env) (upName p) (upRemotePort p) pm = (Inr q, pm1)"
      "isl out" "pm' = PortManager_Release (enow env) q pm1" "q \<notin> dom (usedPorts pm)"
  | (bound) q where "PortManager_Acquire (eos env) (enow env) (escan env) (upName p) (upRemotePort p) pm = (Inr q, pm')"
      "\<not> isl out" "q \<notin> dom (usedPorts pm)" "upRealBindPort p' = q" "upName p' = upName p" "upUsedPortsNum p' = 1"
proof -
  obtain o1 pm1 where acq: "PortManager_Acquire (eos env) (enow env) (escan env) (upName p) (upRemotePort p) pm = (o1, pm1)"
    by fastforce
  show thesis
  proof (cases o1)
    case (Inl e)
    with acq assms(3) show thesis by (intro refused) (auto simp: UDPProxy_Run_def)
  next
    case (Inr q)
    obtain allowed where "pm_inv allowed pm" "0 \<notin> allowed" using assms(2) by (rule pm_okE)
    from acquire_fresh(1) [OF this] acq Inr assms(1) have q: "q \<notin> dom (usedPorts pm)" by (auto simp: udp_ready_def)
    show thesis
    proof (cases "resolve_udp_ok (eos env) (JoinHostPort (ebind env) (Itoa q)) \<and>
          listen_udp_ok (eos env) (JoinHostPort (ebind env) (Itoa q))")
      case True
      with acq Inr assms(1,3) q show thesis by (intro bound) (auto simp: UDPProxy_Run_def udp_ready_def Let_def)
    next
      case False
      with acq Inr assms(1,3) q show thesis
        by (intro unbound) (auto simp: UDPProxy_Run_def Let_def split: if_splits)
    qed
  qed
qed

interpretation udp: server_proxy udp_ops udp_ready "\<lambda>p. upUsedPortsNum p = 1" pm_ok "\<lambda>pm. dom (usedPorts pm)"
  "\<lambda>p. {upRealBindPort p}"
proof unfold_locales
  fix pm e p a p' pm'
  assume inv: "pm_ok pm" and ready: "udp_ready e p pm" and run: "Run udp_ops e p pm = (Inr a, p', pm')"
  have "UDPProxy_Run e p pm = (Inr a, p', pm')" using run by (simp add: udp_ops_def)
  with ready inv show "pm_ok pm' \<and> upUsedPortsNum p' = 1 \<and> dom (usedPorts pm') = dom (usedPorts pm) \<union> {upRealBindPort p'} \<and>
      {upRealBindPort p'} \<inter> dom (usedPorts pm) = {} \<and> GetName udp_ops p' = GetName udp_ops p \<and>
      GetUsedPortsNum udp_ops p' = GetUsedPortsNum udp_ops p"
  proof (cases rule: udp_run_cases)
    case (bound q)
    then show ?thesis using pmgr.acquire_held [OF inv bound(1)] pmgr.acquire_invar [OF inv bound(1)] ready
      by (simp add: udp_ops_def udp_ready_def)
  qed simp_all
next
  fix pm e p x p' pm'
  assume inv: "pm_ok pm" and ready: "udp_ready e p pm" and run: "Run udp_ops e p pm = (Inl x, p', pm')"
  have "UDPProxy_Run e p pm = (Inl x, p', pm')" using run by (simp add: udp_ops_def)
  with ready inv show "pm_ok pm' \<and> dom (usedPorts pm') = dom (usedPorts pm)"
  proof (cases rule: udp_run_cases)
    case (refused y)
    then show ?thesis using pmgr.acquire_error [OF inv refused(1)] pmgr.acquire_invar [OF inv refused(1)] by simp
  next
    case (unbound q pm1)
    then show ?thesis
      using pmgr.acquire_release [OF inv unbound(1,4)] pmgr.invar_release [OF pmgr.acquire_invar [OF inv unbound(1)]] by simp
  qed simp_all
next
  fix pm p e
  assume "pm_ok pm"
  then show "\<exists>pm'. Close udp_ops e p pm = Some pm' \<and> pm_ok pm' \<and> dom (usedPorts pm') = dom (usedPorts pm) - {upRealBindPort p}"
    using pmgr.invar_release by (auto simp: udp_ops_def UDPProxy_Close_def PortManager_Release_held Let_def)
next
  show "upUsedPortsNum p = 1 \<Longrightarrow> 0 \<le> GetUsedPortsNum udp_ops p" for p by (simp add: udp_ops_def)
qed

section \<open>The second close\<close>

text \<open>Closing the socket of a UDP proxy makes its forwarding goroutine close the proxy a second time, and
  that releases the port again: when another proxy has got the port in between, the port manager holds it
  free although that proxy runs on it.\<close>

lemma udp_second_close_frees_port:
  assumes "UDPProxy_Close env p pm = (p', pm1)" "UDPProxy_Run env2 q pm1 = (Inr a, q', pm2)"
    and "upRealBindPort q' = upRealBindPort p" "pm_ok pm" "udp_ready env2 q pm1"
  shows "upRealBindPort q' \<in> dom (usedPorts pm2) \<and>
    upRealBindPort q' \<in> freePorts (snd (UDPProxy_Close env3 p' pm2)) \<and>
    upRealBindPort q' \<notin> dom (usedPorts (snd (UDPProxy_Close env3 p' pm2)))"
proof -
  have "pm_ok pm1" using assms(1,4) pmgr.invar_release by (auto simp: UDPProxy_Close_def Let_def)
  with assms(2,5) have "dom (usedPorts pm2) = dom (usedPorts pm1) \<union> {upRealBindPort q'}"
    using udp.run_ok [of pm1 env2 q a q' pm2] by (simp add: udp_ops_def)
  moreover have "upRealBindPort p' = upRealBindPort q'" using assms(1,3) by (auto simp: UDPProxy_Close_def Let_def)
  ultimately show ?thesis
    by (auto simp: UDPProxy_Close_def PortManager_Release_def Let_def split: option.splits)
qed

definition udp_pm :: port_manager where
  "udp_pm = NewPortManager ''udp'' ''0.0.0.0'' {6000}"

end
