(* ===== verification/Nathole.thy ===== *)
theory Nathole
  imports Go_Std "HOL-Library.AList"
begin

text \<open>
  Model of \<^verbatim>\<open>pkg/nathole/classify.go\<close> and \<^verbatim>\<open>pkg/nathole/analysis.go\<close>: how the server classifies
  the NAT of the two ends of a peer to peer tunnel and which hole punching behaviour it
  recommends, learning from reported successes. The generic slice functions of the package
  \<^verbatim>\<open>github.com/samber/lo\<close> are not part of the repository: they are a parameter, the record
  \<open>lo_lib\<close>, and \<open>lo_ok\<close> states what its documentation promises of them. A score is kept by
  pointer in the code; its address is its position in the list. Scores are mathematical
  integers: reaching the 64-bit limit would take \<open>2 ^ 63\<close> recommendations. Differences of ports
  are wrapped to 64 bits, since the addresses come from the network.
\<close>

section \<open>The slice library\<close>

record lo_lib =
  lo_Contains :: "string list \<Rightarrow> string \<Rightarrow> bool"
  lo_Uniq :: "string list \<Rightarrow> string list"
  lo_Max :: "int list \<Rightarrow> int"
  lo_Min :: "int list \<Rightarrow> int"
  lo_Last :: "string list \<Rightarrow> string option"
  lo_MaxBy :: "nat list \<Rightarrow> (nat \<Rightarrow> nat \<Rightarrow> bool) \<Rightarrow> nat option"

text \<open>The documented behaviour: \<^verbatim>\<open>MaxBy\<close> returns the first of the greatest elements, and the zero
  value (nil for pointers) on an empty collection; \<^verbatim>\<open>Last\<close> fails on an empty one.\<close>

definition first_greatest :: "(nat \<Rightarrow> int) \<Rightarrow> nat list \<Rightarrow> nat \<Rightarrow> bool" where
  "first_greatest f xs k \<longleftrightarrow> k < length xs \<and> (\<forall>j < length xs. f (xs ! j) \<le> f (xs ! k)) \<and>
     (\<forall>j < k. f (xs ! j) < f (xs ! k))"

definition lo_ok :: "lo_lib \<Rightarrow> bool" where
  "lo_ok lib \<longleftrightarrow>
     (\<forall>xs x. lo_Contains lib xs x \<longleftrightarrow> x \<in> set xs) \<and>
     (\<forall>xs. distinct (lo_Uniq lib xs) \<and> set (lo_Uniq lib xs) = set xs) \<and>
     (\<forall>xs. xs \<noteq> [] \<longrightarrow> lo_Max lib xs = Max (set xs) \<and> lo_Min lib xs = Min (set xs)) \<and>
     (\<forall>xs. lo_Last lib xs = (if xs = [] then None else Some (last xs))) \<and>
     (\<forall>f. lo_MaxBy lib [] f = None) \<and>
     (\<forall>xs f. xs \<noteq> [] \<longrightarrow>
        (\<exists>k. lo_MaxBy lib xs (\<lambda>item mx. f item > f mx) = Some (xs ! k) \<and> first_greatest f xs k))"

section \<open>NAT classification\<close>

abbreviation EasyNAT :: string where "EasyNAT \<equiv> ''EasyNAT''"
abbreviation HardNAT :: string where "HardNAT \<equiv> ''HardNAT''"

abbreviation BehaviorNoChange :: string where "BehaviorNoChange \<equiv> ''BehaviorNoChange''"
abbreviation BehaviorIPChanged :: string where "BehaviorIPChanged \<equiv> ''BehaviorIPChanged''"
abbreviation BehaviorPortChanged :: string where "BehaviorPortChanged \<equiv> ''BehaviorPortChanged''"
abbreviation BehaviorBothChanged :: string where "BehaviorBothChanged \<equiv> ''BehaviorBothChanged''"

record NatFeature =
  NatType :: string
  Behavior :: string
  PortsDifference :: int
  RegularPortsChange :: bool
  PublicNetwork :: bool

datatype classify_error = NotEnoughAddresses | BadAddress | BadPort

text \<open>The local variables of the loop over the addresses.\<close>

record classify_state =
  baseIP :: string
  basePort :: string
  portMax :: int
  portMin :: int
  ipChanged :: bool
  portChanged :: bool
  publicNet :: bool

definition classify_init :: classify_state where
  "classify_init = \<lparr>baseIP = [], basePort = [], portMax = 0, portMin = 0, ipChanged = False,
     portChanged = False, publicNet = False\<rparr>"

definition classify_addr :: "lo_lib \<Rightarrow> string list \<Rightarrow> string \<Rightarrow> string \<Rightarrow> int \<Rightarrow> classify_state \<Rightarrow> classify_state" where
  "classify_addr lib localIPs ip port portNum st =
     (let st1 = (if lo_Contains lib localIPs ip then st\<lparr>publicNet := True\<rparr> else st)
      in if baseIP st1 = [] then
           st1\<lparr>baseIP := ip, basePort := port, portMax := portNum, portMin := portNum\<rparr>
         else
           st1\<lparr>portMax := (if portNum > portMax st1 then portNum else portMax st1),
               portMin := (if portNum < portMin st1 then portNum else portMin st1),
               ipChanged := (if baseIP st1 \<noteq> ip then True else ipChanged st1),
               portChanged := (if basePort st1 \<noteq> port then True else portChanged st1)\<rparr>)"

fun classify_loop :: "lo_lib \<Rightarrow> string list \<Rightarrow> string list \<Rightarrow> classify_state \<Rightarrow>
   (classify_error, classify_state) result" where
  "classify_loop lib localIPs [] st = Inr st"
| "classify_loop lib localIPs (a # addresses) st =
     (case SplitHostPort a of
        Inl _ \<Rightarrow> Inl BadAddress
      | Inr (ip, port) \<Rightarrow>
          (case Atoi port of
             (_, Some _) \<Rightarrow> Inl BadPort
           | (portNum, None) \<Rightarrow>
               classify_loop lib localIPs addresses (classify_addr lib localIPs ip port portNum st)))"

definition ClassifyNATFeature :: "lo_lib \<Rightarrow> string list \<Rightarrow> string list \<Rightarrow> (classify_error, NatFeature) result" where
  "ClassifyNATFeature lib addresses localIPs =
     (if length addresses \<le> 1 then Inl NotEnoughAddresses
      else
        (case classify_loop lib localIPs addresses classify_init of
           Inl e \<Rightarrow> Inl e
         | Inr st \<Rightarrow>
             (let (ty, bh) =
                (if ipChanged st \<and> portChanged st then (HardNAT, BehaviorBothChanged)
                 else if ipChanged st then (HardNAT, BehaviorIPChanged)
                 else if portChanged st then (HardNAT, BehaviorPortChanged)
                 else (EasyNAT, BehaviorNoChange));
                  diff = (if bh = BehaviorPortChanged then wrap64 (portMax st - portMin st) else 0)
              in Inr \<lparr>NatType = ty, Behavior = bh, PortsDifference = diff,
                   RegularPortsChange = (bh = BehaviorPortChanged \<and> diff \<le> 5 \<and> diff \<ge> 1),
                   PublicNetwork = publicNet st\<rparr>)))"

fun ClassifyFeatureCount :: "NatFeature list \<Rightarrow> nat \<times> nat \<times> nat" where
  "ClassifyFeatureCount [] = (0, 0, 0)"
| "ClassifyFeatureCount (f # fs) =
     (case ClassifyFeatureCount fs of (easyCount, hardCount, regularCount) \<Rightarrow>
        if NatType f = EasyNAT then (Suc easyCount, hardCount, regularCount)
        else (easyCount, Suc hardCount, if RegularPortsChange f then Suc regularCount else regularCount))"

section \<open>Behaviours\<close>

abbreviation DetectRoleSender :: string where "DetectRoleSender \<equiv> ''sender''"
abbreviation DetectRoleReceiver :: string where "DetectRoleReceiver \<equiv> ''receiver''"

record RecommandBehavior =
  Role :: string
  TTL :: int
  SendDelayMs :: int
  PortsRangeNumber :: int
  PortsRandomNumber :: int
  ListenRandomPorts :: int

text \<open>Composite literals start from the zero value.\<close>

definition no_behavior :: RecommandBehavior where
  "no_behavior = \<lparr>Role = [], TTL = 0, SendDelayMs = 0, PortsRangeNumber = 0, PortsRandomNumber = 0,
     ListenRandomPorts = 0\<rparr>"

abbreviation sender :: RecommandBehavior where "sender \<equiv> no_behavior\<lparr>Role := DetectRoleSender\<rparr>"
abbreviation receiver :: RecommandBehavior where "receiver \<equiv> no_behavior\<lparr>Role := DetectRoleReceiver\<rparr>"

type_synonym behavior_pair = "RecommandBehavior \<times> RecommandBehavior"

definition mode0Behaviors :: "behavior_pair list" where
  "mode0Behaviors =
    [(sender, receiver\<lparr>TTL := 7\<rparr>),
     (receiver\<lparr>TTL := 7\<rparr>, sender),
     (sender, receiver\<lparr>TTL := 4\<rparr>),
     (receiver\<lparr>TTL := 4\<rparr>, sender),
     (sender, receiver),
     (receiver, sender),
     (sender\<lparr>SendDelayMs := 5000\<rparr>, receiver),
     (sender\<lparr>SendDelayMs := 10000\<rparr>, receiver),
     (receiver, sender\<lparr>SendDelayMs := 5000\<rparr>),
     (receiver, sender\<lparr>SendDelayMs := 10000\<rparr>)]"

definition mode1Behaviors :: "behavior_pair list" where
  "mode1Behaviors =
    [(sender, receiver\<lparr>TTL := 7, PortsRangeNumber := 10\<rparr>),
     (sender\<lparr>SendDelayMs := 2000\<rparr>, receiver\<lparr>TTL := 7, PortsRangeNumber := 10\<rparr>),
     (sender, receiver\<lparr>TTL := 4, PortsRangeNumber := 10\<rparr>),
     (sender\<lparr>SendDelayMs := 2000\<rparr>, receiver\<lparr>TTL := 4, PortsRangeNumber := 10\<rparr>),
     (sender, receiver\<lparr>PortsRangeNumber := 10\<rparr>),
     (sender\<lparr>SendDelayMs := 2000\<rparr>, receiver\<lparr>PortsRangeNumber := 10\<rparr>)]"

definition mode2Behaviors :: "behavior_pair list" where
  "mode2Behaviors =
    [(sender\<lparr>PortsRandomNumber := 1000, SendDelayMs := 3000\<rparr>, receiver\<lparr>ListenRandomPorts := 256, TTL := 7\<rparr>),
     (sender\<lparr>PortsRandomNumber := 1000, SendDelayMs := 3000\<rparr>, receiver\<lparr>ListenRandomPorts := 256, TTL := 4\<rparr>),
     (sender\<lparr>PortsRandomNumber := 1000, SendDelayMs := 3000\<rparr>, receiver\<lparr>ListenRandomPorts := 256\<rparr>)]"

definition mode3Behaviors :: "behavior_pair list" where
  "mode3Behaviors =
    [(sender\<lparr>PortsRangeNumber := 10\<rparr>, receiver\<lparr>TTL := 7, PortsRangeNumber := 10\<rparr>),
     (sender\<lparr>PortsRangeNumber := 10\<rparr>, receiver\<lparr>TTL := 4, PortsRangeNumber := 10\<rparr>),
     (sender\<lparr>PortsRangeNumber := 10\<rparr>, receiver\<lparr>PortsRangeNumber := 10\<rparr>),
     (receiver\<lparr>TTL := 7, PortsRangeNumber := 10\<rparr>, sender\<lparr>PortsRangeNumber := 10\<rparr>),
     (receiver\<lparr>TTL := 4, PortsRangeNumber := 10\<rparr>, sender\<lparr>PortsRangeNumber := 10\<rparr>),
     (receiver\<lparr>PortsRangeNumber := 10\<rparr>, sender\<lparr>PortsRangeNumber := 10\<rparr>)]"

definition mode4Behaviors :: "behavior_pair list" where
  "mode4Behaviors =
    [(sender\<lparr>PortsRandomNumber := 1000, SendDelayMs := 3000\<rparr>,
      receiver\<lparr>ListenRandomPorts := 256, TTL := 7, PortsRangeNumber := 2\<rparr>),
     (sender\<lparr>PortsRandomNumber := 1000, SendDelayMs := 3000\<rparr>,
      receiver\<lparr>ListenRandomPorts := 256, TTL := 4, PortsRangeNumber := 2\<rparr>),
     (sender\<lparr>PortsRandomNumber := 1000, SendDelayMs := 3000\<rparr>,
      receiver\<lparr>ListenRandomPorts := 256, PortsRangeNumber := 2\<rparr>)]"

definition getBehaviorByMode :: "nat \<Rightarrow> behavior_pair list" where
  "getBehaviorByMode mode =
     (if mode = 0 then mode0Behaviors
      else if mode = 1 then mode1Behaviors
      else if mode = 2 then mode2Behaviors
      else if mode = 3 then mode3Behaviors
      else if mode = 4 then mode4Behaviors
      else mode0Behaviors)"

definition getBehaviorByModeAndIndex :: "nat \<Rightarrow> nat \<Rightarrow> behavior_pair" where
  "getBehaviorByModeAndIndex mode idx =
     (let behaviors = getBehaviorByMode mode
      in if idx \<ge> length behaviors then (no_behavior, no_behavior) else behaviors ! idx)"

section \<open>Scores\<close>

record BehaviorScore =
  Mode :: nat
  Index :: nat
  Score :: int

definition getBehaviorScoresByMode2 :: "nat \<Rightarrow> int \<Rightarrow> int \<Rightarrow> BehaviorScore list" where
  "getBehaviorScoresByMode2 mode senderScore receiverScore =
     (let behaviors = getBehaviorByMode mode
      in map (\<lambda>i. \<lparr>Mode = mode, Index = i,
                   Score = (if Role (fst (behaviors ! i)) = DetectRoleSender then senderScore else receiverScore)\<rparr>)
           [0..<length behaviors])"

definition getBehaviorScoresByMode :: "nat \<Rightarrow> int \<Rightarrow> BehaviorScore list" where
  "getBehaviorScoresByMode mode defaultScore = getBehaviorScoresByMode2 mode defaultScore defaultScore"

record MakeHoleRecords =
  scores :: "BehaviorScore list"
  LastUpdateTime :: int

definition appendMode0 :: "NatFeature \<Rightarrow> NatFeature \<Rightarrow> BehaviorScore list" where
  "appendMode0 c v =
     (if PublicNetwork c then getBehaviorScoresByMode2 0 0 1
      else if PublicNetwork v then getBehaviorScoresByMode2 0 1 0
      else getBehaviorScoresByMode 0 0)"

definition initial_scores :: "NatFeature \<Rightarrow> NatFeature \<Rightarrow> BehaviorScore list" where
  "initial_scores c v =
     (case ClassifyFeatureCount [c, v] of (easyCount, hardCount, regularCount) \<Rightarrow>
        if easyCount = 2 then appendMode0 c v
        else if hardCount = 1 \<and> regularCount = 1 then
          getBehaviorScoresByMode 1 0 @ getBehaviorScoresByMode 2 0 @ appendMode0 c v
        else if hardCount = 1 \<and> regularCount = 0 then
          getBehaviorScoresByMode 2 0 @ getBehaviorScoresByMode 1 0 @ appendMode0 c v
        else if hardCount = 2 \<and> regularCount = 2 then
          getBehaviorScoresByMode 3 0 @ getBehaviorScoresByMode 4 0
        else if hardCount = 2 \<and> regularCount = 1 then getBehaviorScoresByMode 4 0
        else getBehaviorScoresByMode 0 1 @ getBehaviorScoresByMode 1 1 @ getBehaviorScoresByMode 3 1)"

definition NewMakeHoleRecords :: "int \<Rightarrow> NatFeature \<Rightarrow> NatFeature \<Rightarrow> MakeHoleRecords" where
  "NewMakeHoleRecords now c v = \<lparr>scores = initial_scores c v, LastUpdateTime = now\<rparr>"

text \<open>The loop of \<^verbatim>\<open>ReportSuccess\<close>: the first matching score is raised and clamped.\<close>

fun report_success :: "lo_lib \<Rightarrow> nat \<Rightarrow> nat \<Rightarrow> BehaviorScore list \<Rightarrow> BehaviorScore list" where
  "report_success lib mode idx [] = []"
| "report_success lib mode idx (s # ss) =
     (if Mode s \<noteq> mode \<or> Index s \<noteq> idx then s # report_success lib mode idx ss
      else s\<lparr>Score := lo_Min lib [Score s + 2, 10]\<rparr> # ss)"

definition MakeHoleRecords_ReportSuccess ::
  "lo_lib \<Rightarrow> int \<Rightarrow> nat \<Rightarrow> nat \<Rightarrow> MakeHoleRecords \<Rightarrow> MakeHoleRecords" where
  "MakeHoleRecords_ReportSuccess lib now mode idx mhr =
     mhr\<lparr>LastUpdateTime := now, scores := report_success lib mode idx (scores mhr)\<rparr>"

definition MakeHoleRecords_Recommand ::
  "lo_lib \<Rightarrow> int \<Rightarrow> MakeHoleRecords \<Rightarrow> (nat \<times> nat) \<times> MakeHoleRecords" where
  "MakeHoleRecords_Recommand lib now mhr =
     (case lo_MaxBy lib [0..<length (scores mhr)]
             (\<lambda>item mx. Score (scores mhr ! item) > Score (scores mhr ! mx)) of
        None \<Rightarrow> ((0, 0), mhr)
      | Some k \<Rightarrow>
          (let s = scores mhr ! k
           in ((Mode s, Index s),
               mhr\<lparr>scores := (scores mhr)[k := s\<lparr>Score := Score s - 1\<rparr>], LastUpdateTime := now\<rparr>)))"

section \<open>The analyzer\<close>

record Analyzer =
  records :: "(string \<times> MakeHoleRecords) list"
  dataReserveDuration :: int

definition NewAnalyzer :: "int \<Rightarrow> Analyzer" where
  "NewAnalyzer d = \<lparr>records = [], dataReserveDuration = d\<rparr>"

definition GetRecommandBehaviors ::
  "lo_lib \<Rightarrow> int \<Rightarrow> string \<Rightarrow> NatFeature \<Rightarrow> NatFeature \<Rightarrow> Analyzer \<Rightarrow> (nat \<times> nat \<times> behavior_pair) \<times> Analyzer" where
  "GetRecommandBehaviors lib now key c v a =
     (let rs = (case map_of (records a) key of Some rs \<Rightarrow> rs | None \<Rightarrow> NewMakeHoleRecords now c v);
          ((mode, idx), rs') = MakeHoleRecords_Recommand lib now rs;
          (cBehavior, vBehavior) = getBehaviorByModeAndIndex mode idx;
          swap = (if mode = 1 then NatType c = EasyNAT
                  else if mode = 2 then NatType c = HardNAT
                  else if mode = 4 then \<not> RegularPortsChange c
                  else False)
      in ((mode, idx, if swap then (vBehavior, cBehavior) else (cBehavior, vBehavior)),
          a\<lparr>records := AList.update key rs' (records a)\<rparr>))"

definition Analyzer_ReportSuccess :: "lo_lib \<Rightarrow> int \<Rightarrow> string \<Rightarrow> nat \<Rightarrow> nat \<Rightarrow> Analyzer \<Rightarrow> Analyzer" where
  "Analyzer_ReportSuccess lib now key mode idx a =
     (case map_of (records a) key of
        None \<Rightarrow> a
      | Some rs \<Rightarrow> a\<lparr>records := AList.update key (MakeHoleRecords_ReportSuccess lib now mode idx rs) (records a)\<rparr>)"

definition Analyzer_Clean :: "int \<Rightarrow> Analyzer \<Rightarrow> (nat \<times> nat) \<times> Analyzer" where
  "Analyzer_Clean now a =
     (let stale = (\<lambda>kr. now - LastUpdateTime (snd kr) > dataReserveDuration a)
      in ((length (filter stale (records a)), length (records a)),
          a\<lparr>records := filter (\<lambda>kr. \<not> stale kr) (records a)\<rparr>))"

section \<open>One recommendation\<close>

lemma lo_ok_Contains: "lo_ok lib \<Longrightarrow> lo_Contains lib xs x \<longleftrightarrow> x \<in> set xs"
  by (simp add: lo_ok_def)

lemma lo_ok_Max: "lo_ok lib \<Longrightarrow> xs \<noteq> [] \<Longrightarrow> lo_Max lib xs = Max (set xs)"
  by (simp add: lo_ok_def)

lemma lo_ok_Min: "lo_ok lib \<Longrightarrow> xs \<noteq> [] \<Longrightarrow> lo_Min lib xs = Min (set xs)"
  by (simp add: lo_ok_def)

lemma lo_ok_Last: "lo_ok lib \<Longrightarrow> lo_Last lib xs = (if xs = [] then None else Some (last xs))"
  by (simp add: lo_ok_def)

lemma lo_ok_Uniq: "lo_ok lib \<Longrightarrow> set (lo_Uniq lib xs) = set xs"
  by (simp add: lo_ok_def)

definition spend :: "BehaviorScore \<Rightarrow> BehaviorScore" where
  "spend s = s\<lparr>Score := Score s - 1\<rparr>"

lemma spend_sel [simp]: "Mode (spend s) = Mode s" "Index (spend s) = Index s" "Score (spend s) = Score s - 1"
  by (simp_all add: spend_def)

text \<open>A recommendation takes the first of the best scores and lowers it by one.\<close>

lemma Recommand_picks:
  assumes "lo_ok lib" "scores mhr \<noteq> []"
  obtains k where "k < length (scores mhr)" "\<forall>j < length (scores mhr). Score (scores mhr ! j) \<le> Score (scores mhr ! k)"
    "\<forall>j < k. Score (scores mhr ! j) < Score (scores mhr ! k)"
    "MakeHoleRecords_Recommand lib now mhr =
       ((Mode (scores mhr ! k), Index (scores mhr ! k)),
        mhr\<lparr>scores := (scores mhr)[k := spend (scores mhr ! k)], LastUpdateTime := now\<rparr>)"
proof -
  let ?n = "length (scores mhr)" and ?f = "\<lambda>i. Score (scores mhr ! i)"
  from assms obtain k where k: "lo_MaxBy lib [0..<?n] (\<lambda>item mx. ?f item > ?f mx) = Some ([0..<?n] ! k)"
    and fg: "first_greatest ?f [0..<?n] k" unfolding lo_ok_def by (metis length_greater_0_conv upt_eq_Nil_conv not_le zero_le)
  from fg have "k < ?n" "\<forall>j < ?n. ?f j \<le> ?f k" "\<forall>j < k. ?f j < ?f k"
    by (auto simp: first_greatest_def)
  with k that show thesis by (simp add: MakeHoleRecords_Recommand_def spend_def Let_def)
qed


lemma report_success_Nil [simp]: "report_success lib mode idx ss = [] \<longleftrightarrow> ss = []"
  by (cases ss) auto

section \<open>Reachable analyzers\<close>

text \<open>What the recommendation depends on: whether each side is behind an easy NAT, and whether its
  port changes are regular. The server looks records up under a hash of this data.\<close>

type_synonym nat_class = "bool \<times> bool \<times> bool \<times> bool"

definition nat_class :: "NatFeature \<Rightarrow> NatFeature \<Rightarrow> nat_class" where
  "nat_class c v = (NatType c = EasyNAT, RegularPortsChange c, NatType v = EasyNAT, RegularPortsChange v)"

definition nat_feature_ok :: "NatFeature \<Rightarrow> bool" where
  "nat_feature_ok f \<longleftrightarrow> (NatType f = EasyNAT \<and> \<not> RegularPortsChange f \<or> NatType f = HardNAT)"

text \<open>The modes that fit a pair of NATs, as the comments above the tables describe them.\<close>

definition class_modes :: "nat_class \<Rightarrow> nat set" where
  "class_modes k =
     (case k of (ec, rc, ev, rv) \<Rightarrow>
        if ec \<and> ev then {0}
        else if ec \<noteq> ev then {0, 1, 2}
        else if rc \<and> rv then {3, 4}
        else if rc \<noteq> rv then {4}
        else {0, 1, 3})"

text \<open>Scores of modes in a given set, for rows that exist in the tables.\<close>

definition score_ok :: "nat set \<Rightarrow> BehaviorScore \<Rightarrow> bool" where
  "score_ok M s \<longleftrightarrow> Mode s \<in> M \<and> Index s < length (getBehaviorByMode (Mode s)) \<and> Score s \<le> 10"

definition records_ok :: "nat set \<Rightarrow> MakeHoleRecords \<Rightarrow> bool" where
  "records_ok M rs \<longleftrightarrow> scores rs \<noteq> [] \<and> (\<forall>s \<in> set (scores rs). score_ok M s)"

lemma score_ok_spend: "score_ok k s \<Longrightarrow> score_ok k (spend s)"
  by (simp add: score_ok_def)

lemma report_success_ok:
  assumes "lo_ok lib" "\<forall>s \<in> set ss. score_ok k s"
  shows "\<forall>s \<in> set (report_success lib mode idx ss). score_ok k s"
  using assms by (induction lib mode idx ss rule: report_success.induct) (auto simp: lo_ok_Min score_ok_def)

lemma scores_by_mode:
  "s \<in> set (getBehaviorScoresByMode2 m x y) \<Longrightarrow>
     Mode s = m \<and> Index s < length (getBehaviorByMode m) \<and> (Score s = x \<or> Score s = y)"
  by (auto simp: getBehaviorScoresByMode2_def Let_def)

lemma scores_by_mode_ne: "getBehaviorScoresByMode2 m x y \<noteq> []"
  by (auto simp: getBehaviorScoresByMode2_def getBehaviorByMode_def mode0Behaviors_def mode1Behaviors_def
      mode2Behaviors_def mode3Behaviors_def mode4Behaviors_def Let_def)

lemma appendMode0_scores:
  "s \<in> set (appendMode0 c v) \<Longrightarrow> Mode s = 0 \<and> Index s < length (getBehaviorByMode 0) \<and> Score s \<le> 10"
  by (auto simp: appendMode0_def getBehaviorScoresByMode_def dest!: scores_by_mode split: if_splits)

lemma initial_scores_ne: "initial_scores c v \<noteq> []"
  by (auto simp: initial_scores_def appendMode0_def getBehaviorScoresByMode_def scores_by_mode_ne
      split: if_splits prod.splits)

lemma initial_scores_ok:
  assumes "nat_feature_ok c" "nat_feature_ok v"
  shows "records_ok (class_modes (nat_class c v)) (NewMakeHoleRecords now c v)"
proof -
  note initial_scores_ne [of c v]
  moreover have "score_ok (class_modes (nat_class c v)) s" if "s \<in> set (initial_scores c v)" for s
    using that assms
    by (auto simp: score_ok_def initial_scores_def getBehaviorScoresByMode_def class_modes_def nat_class_def
        nat_feature_ok_def split: if_splits dest!: scores_by_mode appendMode0_scores)
  ultimately show ?thesis by (simp add: records_ok_def NewMakeHoleRecords_def)
qed

lemma records_ok_Recommand:
  assumes "lo_ok lib" "records_ok k mhr" "MakeHoleRecords_Recommand lib now mhr = ((mode, idx), mhr')"
  shows "records_ok k mhr' \<and> mode \<in> k \<and> idx < length (getBehaviorByMode mode)"
proof -
  have "scores mhr \<noteq> []" using assms(2) by (simp add: records_ok_def)
  then obtain i where i: "i < length (scores mhr)"
    and r: "MakeHoleRecords_Recommand lib now mhr = ((Mode (scores mhr ! i), Index (scores mhr ! i)),
        mhr\<lparr>scores := (scores mhr)[i := spend (scores mhr ! i)], LastUpdateTime := now\<rparr>)"
    by (rule Recommand_picks [OF assms(1)])
  have si: "score_ok k (scores mhr ! i)" using assms(2) i by (simp add: records_ok_def)
  have "score_ok k s" if "s \<in> set ((scores mhr)[i := spend (scores mhr ! i)])" for s
    using subsetD [OF set_update_subset_insert that] score_ok_spend [OF si] assms(2) by (auto simp: records_ok_def)
  then have "records_ok k mhr'" using assms(2,3) r by (auto simp: records_ok_def)
  with si r assms(3) show ?thesis by (simp add: score_ok_def)
qed

lemma records_ok_ReportSuccess:
  assumes "lo_ok lib" "records_ok k mhr"
  shows "records_ok k (MakeHoleRecords_ReportSuccess lib now mode idx mhr)"
  using report_success_ok [OF assms(1), of "scores mhr" k mode idx] assms(2)
  by (simp add: records_ok_def MakeHoleRecords_ReportSuccess_def)

inductive analyzer_reach :: "lo_lib \<Rightarrow> (string \<Rightarrow> nat_class) \<Rightarrow> Analyzer \<Rightarrow> bool" for lib cls where
  start: "analyzer_reach lib cls (NewAnalyzer d)"
| recommand: "analyzer_reach lib cls a \<Longrightarrow> nat_feature_ok c \<Longrightarrow> nat_feature_ok v \<Longrightarrow> nat_class c v = cls key \<Longrightarrow>
    analyzer_reach lib cls (snd (GetRecommandBehaviors lib now key c v a))"
| report: "analyzer_reach lib cls a \<Longrightarrow> analyzer_reach lib cls (Analyzer_ReportSuccess lib now key mode idx a)"
| clean: "analyzer_reach lib cls a \<Longrightarrow> analyzer_reach lib cls (snd (Analyzer_Clean now a))"

definition analyzer_ok :: "(string \<Rightarrow> nat set) \<Rightarrow> Analyzer \<Rightarrow> bool" where
  "analyzer_ok cls a \<longleftrightarrow> distinct (map fst (records a)) \<and> (\<forall>(key, rs) \<in> set (records a). records_ok (cls key) rs)"

text \<open>The records a recommendation starts from.\<close>

definition current_records :: "int \<Rightarrow> string \<Rightarrow> NatFeature \<Rightarrow> NatFeature \<Rightarrow> Analyzer \<Rightarrow> MakeHoleRecords" where
  "current_records now key c v a =
     (case map_of (records a) key of Some rs \<Rightarrow> rs | None \<Rightarrow> NewMakeHoleRecords now c v)"

lemma current_records_ok:
  assumes "analyzer_ok cls a" "records_ok (cls key) (NewMakeHoleRecords now c v)"
  shows "records_ok (cls key) (current_records now key c v a)"
  using assms
  by (auto simp: current_records_def analyzer_ok_def dest: map_of_SomeD split: option.split)

lemma analyzer_ok_update:
  assumes "analyzer_ok cls a" "records_ok (cls key) rs"
  shows "analyzer_ok cls (a\<lparr>records := AList.update key rs (records a)\<rparr>)"
proof -
  have "records_ok (cls k) r" if "(k, r) \<in> set (AList.update key rs (records a))" for k r
  proof -
    have "distinct (map fst (AList.update key rs (records a)))"
      using assms(1) by (simp add: analyzer_ok_def distinct_update)
    with that have "map_of (AList.update key rs (records a)) k = Some r" by (simp add: map_of_eq_Some_iff)
    then have "((map_of (records a))(key \<mapsto> rs)) k = Some r" by (simp add: update_conv')
    then show ?thesis using assms by (auto simp: analyzer_ok_def dest: map_of_SomeD split: if_splits)
  qed
  then show ?thesis using assms(1) by (auto simp: analyzer_ok_def distinct_update)
qed

lemma GetRecommandBehaviors_eq:
  "GetRecommandBehaviors lib now key c v a =
     (let ((mode, idx), rs') = MakeHoleRecords_Recommand lib now (current_records now key c v a);
          (cb, vb) = getBehaviorByModeAndIndex mode idx
      in ((mode, idx, if (if mode = 1 then NatType c = EasyNAT else if mode = 2 then NatType c = HardNAT
                          else if mode = 4 then \<not> RegularPortsChange c else False)
                      then (vb, cb) else (cb, vb)),
          a\<lparr>records := AList.update key rs' (records a)\<rparr>))"
  by (simp add: GetRecommandBehaviors_def current_records_def Let_def split: prod.split)

lemma analyzer_ok_recommand:
  assumes "lo_ok lib" "analyzer_ok cls a" "records_ok (cls key) (NewMakeHoleRecords now c v)"
  shows "analyzer_ok cls (snd (GetRecommandBehaviors lib now key c v a))"
proof -
  obtain mode idx rs where r: "MakeHoleRecords_Recommand lib now (current_records now key c v a) = ((mode, idx), rs)"
    by (metis surj_pair)
  have "records_ok (cls key) rs"
    using records_ok_Recommand [OF assms(1) current_records_ok [OF assms(2,3)] r] by blast
  with assms(2) r show ?thesis
    by (simp add: GetRecommandBehaviors_eq Let_def analyzer_ok_update split: prod.split)
qed

lemma analyzer_ok_report:
  assumes "lo_ok lib" "analyzer_ok cls a"
  shows "analyzer_ok cls (Analyzer_ReportSuccess lib now key mode idx a)"
proof (cases "map_of (records a) key")
  case None
  with assms(2) show ?thesis by (simp add: Analyzer_ReportSuccess_def)
next
  case (Some rs)
  then have "records_ok (cls key) rs" using assms(2) by (auto simp: analyzer_ok_def dest: map_of_SomeD)
  with Some assms show ?thesis
    by (simp add: Analyzer_ReportSuccess_def analyzer_ok_update records_ok_ReportSuccess)
qed

lemma analyzer_ok_clean: "analyzer_ok cls a \<Longrightarrow> analyzer_ok cls (snd (Analyzer_Clean now a))"
  by (auto simp: Analyzer_Clean_def analyzer_ok_def Let_def distinct_map_filter)

lemma analyzer_ok_new: "analyzer_ok cls (NewAnalyzer d)"
  by (simp add: analyzer_ok_def NewAnalyzer_def)

lemma analyzer_reach_ok:
  assumes "lo_ok lib"
  shows "analyzer_reach lib cls a \<Longrightarrow> analyzer_ok (\<lambda>key. class_modes (cls key)) a"
proof (induction rule: analyzer_reach.induct)
  case (recommand a c v key now)
  with initial_scores_ok [of c v now] show ?case by (intro analyzer_ok_recommand assms) auto
qed (auto intro: analyzer_ok_report assms analyzer_ok_clean analyzer_ok_new)

section \<open>Roles\<close>

text \<open>In the tables of the asymmetric modes the first behaviour is the sender.\<close>

definition sends_first :: "behavior_pair \<Rightarrow> bool" where
  "sends_first p \<longleftrightarrow> Role (fst p) = DetectRoleSender \<and> Role (snd p) = DetectRoleReceiver"

definition complementary :: "behavior_pair \<Rightarrow> bool" where
  "complementary p \<longleftrightarrow> {Role (fst p), Role (snd p)} = {DetectRoleSender, DetectRoleReceiver}"

lemma tables_complementary: "list_all complementary (getBehaviorByMode m)"
  by (simp add: getBehaviorByMode_def mode0Behaviors_def mode1Behaviors_def mode2Behaviors_def
      mode3Behaviors_def mode4Behaviors_def complementary_def insert_commute)

lemma tables_sends_first: "m \<in> {1, 2, 4} \<Longrightarrow> list_all sends_first (getBehaviorByMode m)"
  by (auto simp: getBehaviorByMode_def mode1Behaviors_def mode2Behaviors_def mode4Behaviors_def sends_first_def)

definition swapped :: "nat \<Rightarrow> NatFeature \<Rightarrow> bool" where
  "swapped m c = (if m = 1 then NatType c = EasyNAT else if m = 2 then NatType c = HardNAT
     else if m = 4 then \<not> RegularPortsChange c else False)"

text \<open>A recommendation is a row of the table of its mode, swapped when the client is to take the
  second role.\<close>

lemma recommended_row:
  assumes "lo_ok lib" "analyzer_ok ms a" "records_ok (ms key) (NewMakeHoleRecords now c v)"
    and "GetRecommandBehaviors lib now key c v a = ((mode, idx, cb, vb), a')"
  shows "mode \<in> ms key \<and> (if swapped mode c then (vb, cb) else (cb, vb)) \<in> set (getBehaviorByMode mode)"
proof -
  obtain m i rs where r: "MakeHoleRecords_Recommand lib now (current_records now key c v a) = ((m, i), rs)"
    by (metis surj_pair)
  obtain x y where xy: "getBehaviorByModeAndIndex m i = (x, y)" by fastforce
  from records_ok_Recommand [OF assms(1) current_records_ok [OF assms(2,3)] r]
  have m: "m \<in> ms key" and i: "i < length (getBehaviorByMode m)" by auto
  have "(x, y) \<in> set (getBehaviorByMode m)" using xy i
    by (auto simp: getBehaviorByModeAndIndex_def Let_def simp flip: xy)
  moreover have "mode = m \<and> (cb, vb) = (if swapped m c then (y, x) else (x, y))"
    using assms(4) r xy unfolding GetRecommandBehaviors_eq swapped_def by (auto simp: Let_def split: if_splits)
  ultimately show ?thesis using m by (auto split: if_splits)
qed

lemma recommended_complementary:
  assumes "(if b then (y, x) else (x, y)) \<in> set (getBehaviorByMode mode)"
  shows "{Role x, Role y} = {DetectRoleSender, DetectRoleReceiver}"
proof -
  have "complementary (if b then (y, x) else (x, y))" using tables_complementary [of mode] assms by (simp only: list_all_iff)
  then show ?thesis by (cases b) (simp_all add: complementary_def doubleton_eq_iff, blast)
qed

text \<open>In every state the analyzer reaches, whatever successes were reported, the recommended mode is one that
  fits the two NATs, exactly one side is told to send and the other to receive; in mode 1 a
  hard NAT facing an easy one sends, in mode 2 the hard NAT receives, and in mode 4 the side
  with regular port changes sends.\<close>

lemma nathole_roles:
  assumes "lo_ok lib" "analyzer_reach lib cls a"
    and "nat_feature_ok c" "nat_feature_ok v" "nat_class c v = cls key"
    and "GetRecommandBehaviors lib now key c v a = ((mode, idx, cb, vb), a')"
  shows "mode \<in> class_modes (nat_class c v) \<and>
    {Role cb, Role vb} = {DetectRoleSender, DetectRoleReceiver} \<and>
    (mode = 1 \<and> NatType c \<noteq> NatType v \<longrightarrow> (Role cb = DetectRoleSender \<longleftrightarrow> NatType c = HardNAT)) \<and>
    (mode = 2 \<longrightarrow> (Role cb = DetectRoleReceiver \<longleftrightarrow> NatType c = HardNAT)) \<and>
    (mode = 4 \<and> RegularPortsChange c \<noteq> RegularPortsChange v \<longrightarrow>
       (Role cb = DetectRoleSender \<longleftrightarrow> RegularPortsChange c))"
proof -
  let ?row = "if swapped mode c then (vb, cb) else (cb, vb)"
  have "records_ok (class_modes (cls key)) (NewMakeHoleRecords now c v)"
    using initial_scores_ok [OF assms(3,4)] assms(5) by simp
  from recommended_row [OF assms(1) analyzer_reach_ok [OF assms(1,2)], OF this assms(6)]
  have mode: "mode \<in> class_modes (nat_class c v)" and row: "?row \<in> set (getBehaviorByMode mode)"
    using assms(5) by simp_all
  have first: "mode \<in> {1, 2, 4} \<Longrightarrow> sends_first ?row" using tables_sends_first row by (auto simp: list_all_iff)
  then have "(mode = 1 \<and> NatType c \<noteq> NatType v \<longrightarrow> (Role cb = DetectRoleSender \<longleftrightarrow> NatType c = HardNAT)) \<and>
    (mode = 2 \<longrightarrow> (Role cb = DetectRoleReceiver \<longleftrightarrow> NatType c = HardNAT)) \<and>
    (mode = 4 \<longrightarrow> (Role cb = DetectRoleSender \<longleftrightarrow> RegularPortsChange c))"
    using assms(3,4) by (auto simp: swapped_def sends_first_def nat_feature_ok_def split: if_splits)
  with mode recommended_complementary [OF row] show ?thesis by blast
qed

text \<open>A slice library with the documented behaviour.\<close>

definition lo_ref :: lo_lib where
  "lo_ref = \<lparr>lo_Contains = (\<lambda>xs x. x \<in> set xs), lo_Uniq = (\<lambda>xs. rev (remdups (rev xs))),
     lo_Max = (\<lambda>xs. case xs of [] \<Rightarrow> 0 | y # ys \<Rightarrow> fold max ys y),
     lo_Min = (\<lambda>xs. case xs of [] \<Rightarrow> 0 | y # ys \<Rightarrow> fold min ys y),
     lo_Last = (\<lambda>xs. if xs = [] then None else Some (last xs)),
     lo_MaxBy = (\<lambda>xs cmp. case xs of [] \<Rightarrow> None | y # ys \<Rightarrow> Some (foldl (\<lambda>m x. if cmp x m then x else m) y ys))\<rparr>"

lemma first_greatest_snoc:
  assumes "first_greatest f xs k"
  shows "first_greatest f (xs @ [x]) (if f x > f (xs ! k) then length xs else k)"
  using assms unfolding first_greatest_def
  by (auto simp: nth_append less_Suc_eq intro: le_less_trans)

lemma foldl_first_greatest:
  "\<exists>k. foldl (\<lambda>m x. if f x > f m then x else m) y ys = (y # ys) ! k \<and> first_greatest f (y # ys) k"
proof (induction ys rule: rev_induct)
  case Nil
  show ?case by (rule exI [of _ 0]) (simp add: first_greatest_def)
next
  case (snoc x ys)
  then obtain k where k: "foldl (\<lambda>m x. if f x > f m then x else m) y ys = (y # ys) ! k"
    and fg: "first_greatest f (y # ys) k" by blast
  let ?k = "if f x > f ((y # ys) ! k) then length (y # ys) else k"
  have "first_greatest f ((y # ys) @ [x]) ?k" by (rule first_greatest_snoc [OF fg])
  moreover have "k < length (y # ys)" using fg by (simp add: first_greatest_def)
  then have "foldl (\<lambda>m x. if f x > f m then x else m) y (ys @ [x]) = ((y # ys) @ [x]) ! ?k"
    using k by (auto simp: nth_append nth_Cons split: nat.split)
  ultimately show ?case by (metis append_Cons)
qed

lemma fold_max_Max: "fold max ys y = Max (insert y (set ys))" for y :: int
  using Max.set_eq_fold [of y ys] by simp

lemma fold_min_Min: "fold min ys y = Min (insert y (set ys))" for y :: int
  using Min.set_eq_fold [of y ys] by simp

lemma lo_ref_ok: "lo_ok lo_ref"
  using foldl_first_greatest
  by (auto simp: lo_ok_def lo_ref_def fold_max_Max fold_min_Min split: list.split)

definition easy_feature :: NatFeature where
  "easy_feature = \<lparr>NatType = EasyNAT, Behavior = BehaviorNoChange, PortsDifference = 0,
     RegularPortsChange = False, PublicNetwork = False\<rparr>"

definition hard_feature :: NatFeature where
  "hard_feature = \<lparr>NatType = HardNAT, Behavior = BehaviorPortChanged, PortsDifference = 2,
     RegularPortsChange = True, PublicNetwork = False\<rparr>"

section \<open>Score dynamics\<close>

fun recommand_times :: "lo_lib \<Rightarrow> int \<Rightarrow> nat \<Rightarrow> MakeHoleRecords \<Rightarrow> (nat \<times> nat) list \<times> MakeHoleRecords" where
  "recommand_times lib now 0 mhr = ([], mhr)"
| "recommand_times lib now (Suc n) mhr =
     (case MakeHoleRecords_Recommand lib now mhr of (r, mhr1) \<Rightarrow>
        (case recommand_times lib now n mhr1 of (rs, mhr2) \<Rightarrow> (r # rs, mhr2)))"

lemma sum_list_upd_int: "k < length xs \<Longrightarrow> sum_list (xs[k := y]) = sum_list xs - xs ! k + y" for y :: int
  by (induction xs arbitrary: k) (auto split: nat.split)

lemma sum_scores_Recommand:
  assumes "lo_ok lib" "scores mhr \<noteq> []"
  shows "scores (snd (MakeHoleRecords_Recommand lib now mhr)) \<noteq> [] \<and>
    length (scores (snd (MakeHoleRecords_Recommand lib now mhr))) = length (scores mhr) \<and>
    sum_list (map Score (scores (snd (MakeHoleRecords_Recommand lib now mhr)))) = sum_list (map Score (scores mhr)) - 1"
proof -
  obtain k where k: "k < length (scores mhr)" and
    r: "MakeHoleRecords_Recommand lib now mhr = ((Mode (scores mhr ! k), Index (scores mhr ! k)),
        mhr\<lparr>scores := (scores mhr)[k := spend (scores mhr ! k)], LastUpdateTime := now\<rparr>)"
    using assms by (rule Recommand_picks)
  show ?thesis using assms(2) k unfolding r by (simp add: map_update sum_list_upd_int)
qed

lemma recommand_times_sum:
  assumes "lo_ok lib" "scores mhr \<noteq> []"
  shows "length (scores (snd (recommand_times lib now n mhr))) = length (scores mhr) \<and>
    sum_list (map Score (scores (snd (recommand_times lib now n mhr)))) = sum_list (map Score (scores mhr)) - int n"
  using assms(2)
proof (induction n arbitrary: mhr)
  case 0
  then show ?case by simp
next
  case (Suc n)
  let ?m = "snd (MakeHoleRecords_Recommand lib now mhr)"
  have "snd (recommand_times lib now (Suc n) mhr) = snd (recommand_times lib now n ?m)"
    by (simp split: prod.split)
  with Suc.IH [of ?m] sum_scores_Recommand [OF assms(1) Suc.prems, of now] show ?case by simp
qed

lemma sum_list_lower: "(\<forall>x \<in> set xs. b \<le> x) \<Longrightarrow> b * int (length xs) \<le> sum_list xs" for b :: int
  by (induction xs) (auto simp: algebra_simps)

text \<open>Recommendations that are never reported successful lower the scores without a floor:
  the sum of the scores falls by one each time, so after enough of them some score is below
  -10, the lower end of the range that the declaration of the score states.\<close>

lemma recommand_no_lower_clamp:
  assumes "lo_ok lib" "scores mhr \<noteq> []"
    and "sum_list (map Score (scores mhr)) + 10 * int (length (scores mhr)) < int n"
  shows "\<exists>s \<in> set (scores (snd (recommand_times lib now n mhr))). Score s < - 10"
proof (rule ccontr)
  let ?ss = "scores (snd (recommand_times lib now n mhr))"
  assume "\<not> ?thesis"
  then have "\<forall>x \<in> set (map Score ?ss). - 10 \<le> x" by (auto simp: not_less)
  from sum_list_lower [OF this] recommand_times_sum [OF assms(1,2), of now n] assms(3) show False
    by simp
qed

text \<open>Part way through a round: the first \<open>i\<close> scores have been lowered.\<close>

definition round_scores :: "nat \<Rightarrow> BehaviorScore list \<Rightarrow> BehaviorScore list" where
  "round_scores i ss = map spend (take i ss) @ drop i ss"

lemma round_scores_nth:
  "j < length ss \<Longrightarrow> round_scores i ss ! j = (if j < i then spend (ss ! j) else ss ! j)"
  by (auto simp: round_scores_def nth_append)

lemma length_round_scores [simp]: "length (round_scores i ss) = length ss"
  by (simp add: round_scores_def)

lemma Recommand_round:
  assumes "lo_ok lib" "\<forall>s \<in> set ss. Score s = x" "i < length ss" "scores mhr = round_scores i ss"
  shows "fst (MakeHoleRecords_Recommand lib now mhr) = (Mode (ss ! i), Index (ss ! i)) \<and>
    scores (snd (MakeHoleRecords_Recommand lib now mhr)) = round_scores (Suc i) ss"
proof -
  have len: "length (scores mhr) = length ss" and ne: "scores mhr \<noteq> []"
    using assms(3,4) by (auto simp flip: length_greater_0_conv)
  have sc: "Score (scores mhr ! j) = (if j < i then x - 1 else x)" if "j < length ss" for j
    using that assms(2,4) by (simp add: round_scores_nth)
  obtain k where k: "k < length (scores mhr)"
    "\<forall>j < length (scores mhr). Score (scores mhr ! j) \<le> Score (scores mhr ! k)"
    "\<forall>j < k. Score (scores mhr ! j) < Score (scores mhr ! k)"
    and r: "MakeHoleRecords_Recommand lib now mhr = ((Mode (scores mhr ! k), Index (scores mhr ! k)),
        mhr\<lparr>scores := (scores mhr)[k := spend (scores mhr ! k)], LastUpdateTime := now\<rparr>)"
    using assms(1) ne by (rule Recommand_picks)
  have "\<not> k < i" using k(1,2) sc [of k] sc [of i] assms(3) len by fastforce
  moreover have "\<not> i < k" using k(1,3) sc [of k] sc [of i] assms(3) len by fastforce
  ultimately have ki: "k = i" by simp
  have "(scores mhr)[i := spend (scores mhr ! i)] = round_scores (Suc i) ss"
    using assms(3,4) by (auto intro!: nth_equalityI simp: round_scores_nth nth_list_update)
  with r ki assms(3,4) show ?thesis by (simp add: round_scores_nth)
qed

lemma recommand_times_round:
  assumes "lo_ok lib" "\<forall>s \<in> set ss. Score s = x"
  shows "i + n \<le> length ss \<Longrightarrow> scores mhr = round_scores i ss \<Longrightarrow>
    fst (recommand_times lib now n mhr) = map (\<lambda>s. (Mode s, Index s)) (take n (drop i ss)) \<and>
    scores (snd (recommand_times lib now n mhr)) = round_scores (i + n) ss"
proof (induction n arbitrary: i mhr)
  case 0
  then show ?case by simp
next
  case (Suc n)
  let ?R = "MakeHoleRecords_Recommand lib now mhr"
  have i: "i < length ss" using Suc.prems(1) by simp
  note R = Recommand_round [OF assms i Suc.prems(2), of now]
  from Suc.prems(1) have "Suc i + n \<le> length ss" by simp
  note IH = Suc.IH [OF this conjunct2 [OF R]]
  have "recommand_times lib now (Suc n) mhr =
      (fst ?R # fst (recommand_times lib now n (snd ?R)), snd (recommand_times lib now n (snd ?R)))"
    by (simp split: prod.split)
  with IH R i show ?case by (simp add: Cons_nth_drop_Suc [symmetric] del: recommand_times.simps)
qed

text \<open>As long as nothing succeeds every behaviour gets its turn: from records whose scores are
  all equal, a full round of recommendations proposes each behaviour exactly once, in the
  order of the table, and leaves the scores equal again.\<close>

lemma recommand_round_robin:
  assumes "lo_ok lib" "\<forall>s \<in> set (scores mhr). Score s = x"
  shows "fst (recommand_times lib now (length (scores mhr)) mhr) = map (\<lambda>s. (Mode s, Index s)) (scores mhr) \<and>
    (\<forall>s \<in> set (scores (snd (recommand_times lib now (length (scores mhr)) mhr))). Score s = x - 1)"
  using recommand_times_round [OF assms, of 0 "length (scores mhr)" mhr now] assms(2)
  by (simp add: round_scores_def)

section \<open>What the classification says\<close>

type_synonym endpoint = "string \<times> nat"

abbreviation show_endpoint :: "endpoint \<Rightarrow> string" where
  "show_endpoint e \<equiv> JoinHostPort (fst e) (Itoa (int (snd e)))"

definition endpoint_ok :: "endpoint \<Rightarrow> bool" where
  "endpoint_ok e \<longleftrightarrow> fst e \<noteq> [] \<and> plain_addr_part (fst e) \<and> snd e \<le> 65535"

lemma Itoa_plain: "plain_addr_part (Itoa (int n))" "CHR '':'' \<notin> set (Itoa (int n))"
  by (simp_all add: plain_addr_part_def Itoa_def nat_digits_no_char)

lemma Itoa_inj: "Itoa (int m) = Itoa (int n) \<longleftrightarrow> m = n"
proof
  assume "Itoa (int m) = Itoa (int n)"
  then have "nat_digits m = nat_digits n" by (simp add: Itoa_def)
  then show "m = n" using digits_val_nat_digits by (metis option.inject)
qed simp

lemma Atoi_Itoa_small: "n \<le> 65535 \<Longrightarrow> Atoi (Itoa (int n)) = (int n, None)"
  using ParseInt_Itoa [of "int n"] by (simp add: max_int64_def min_int64_def)

lemma classify_loop_step:
  assumes "endpoint_ok e"
  shows "classify_loop lib localIPs (show_endpoint e # as) st =
    classify_loop lib localIPs as (classify_addr lib localIPs (fst e) (Itoa (int (snd e))) (int (snd e)) st)"
  using assms SplitHostPort_JoinHostPort [OF _ Itoa_plain, of "fst e" "snd e"]
  by (simp add: endpoint_ok_def Atoi_Itoa_small)

text \<open>The state of the loop after a non-empty list of endpoints.\<close>

definition classify_of :: "string list \<Rightarrow> endpoint list \<Rightarrow> classify_state" where
  "classify_of localIPs es =
     \<lparr>baseIP = fst (hd es), basePort = Itoa (int (snd (hd es))),
      portMax = Max (int ` snd ` set es), portMin = Min (int ` snd ` set es),
      ipChanged = (\<exists>e \<in> set es. fst e \<noteq> fst (hd es)), portChanged = (\<exists>e \<in> set es. snd e \<noteq> snd (hd es)),
      publicNet = (\<exists>e \<in> set es. fst e \<in> set localIPs)\<rparr>"

lemma classify_addr_snoc:
  assumes "lo_ok lib" "es \<noteq> []" "fst (hd es) \<noteq> []"
  shows "classify_addr lib localIPs (fst e) (Itoa (int (snd e))) (int (snd e)) (classify_of localIPs es) =
    classify_of localIPs (es @ [e])"
proof -
  have fin: "finite (int ` snd ` set es)" "int ` snd ` set es \<noteq> {}" using assms(2) by auto
  let ?s = "classify_of localIPs es"
  have new: "classify_of localIPs (es @ [e]) =
      ?s\<lparr>portMax := max (int (snd e)) (portMax ?s), portMin := min (int (snd e)) (portMin ?s),
         ipChanged := (ipChanged ?s \<or> baseIP ?s \<noteq> fst e), portChanged := (portChanged ?s \<or> snd (hd es) \<noteq> snd e),
         publicNet := (publicNet ?s \<or> fst e \<in> set localIPs)\<rparr>"
    using assms(2) fin by (auto simp: classify_of_def)
  have base: "baseIP ?s \<noteq> []" "basePort ?s = Itoa (int (snd (hd es)))"
    using assms(3) by (simp_all add: classify_of_def)
  show ?thesis unfolding new using base
    by (cases "?s") (auto simp: classify_addr_def lo_ok_Contains [OF assms(1)] Let_def Itoa_inj max_def min_def)
qed

lemma classify_addr_first:
  assumes "lo_ok lib"
  shows "classify_addr lib localIPs (fst e) (Itoa (int (snd e))) (int (snd e)) classify_init = classify_of localIPs [e]"
  using assms by (simp add: classify_addr_def classify_of_def classify_init_def lo_ok_Contains Let_def)

lemma classify_loop_endpoints:
  assumes "lo_ok lib" "\<forall>e \<in> set fs. endpoint_ok e" "es \<noteq> []" "endpoint_ok (hd es)"
  shows "classify_loop lib localIPs (map show_endpoint fs) (classify_of localIPs es) = Inr (classify_of localIPs (es @ fs))"
  using assms(2,3,4)
proof (induction fs arbitrary: es)
  case Nil
  then show ?case by simp
next
  case (Cons e fs)
  have "fst (hd es) \<noteq> []" using Cons.prems(3) by (simp add: endpoint_ok_def)
  with Cons.prems have "classify_addr lib localIPs (fst e) (Itoa (int (snd e))) (int (snd e)) (classify_of localIPs es) =
      classify_of localIPs (es @ [e])" by (intro classify_addr_snoc assms(1))
  with Cons show ?case
    by (simp add: classify_loop_step del: classify_loop.simps)
qed

text \<open>A peer that reported at least two well formed addresses is behind an easy NAT exactly
  when they are all the same; the recorded behaviour says which of address and port differ; the
  port difference is the spread of the ports when only they differ, and 0 otherwise; the change
  is regular exactly for a spread between 1 and 5; and the peer is public exactly when one of the
  reported addresses is one of its own.\<close>

lemma ClassifyNATFeature_spec:
  assumes "lo_ok lib" "2 \<le> length es" "\<forall>e \<in> set es. endpoint_ok e"
  defines "sameIP \<equiv> (\<forall>e \<in> set es. fst e = fst (hd es))"
    and "samePort \<equiv> (\<forall>e \<in> set es. snd e = snd (hd es))"
    and "spread \<equiv> Max (int ` snd ` set es) - Min (int ` snd ` set es)"
  shows "ClassifyNATFeature lib (map show_endpoint es) localIPs = Inr
    \<lparr>NatType = (if sameIP \<and> samePort then EasyNAT else HardNAT),
     Behavior = (if sameIP then (if samePort then BehaviorNoChange else BehaviorPortChanged)
                 else (if samePort then BehaviorIPChanged else BehaviorBothChanged)),
     PortsDifference = (if sameIP then spread else 0),
     RegularPortsChange = (sameIP \<and> 1 \<le> spread \<and> spread \<le> 5),
     PublicNetwork = (\<exists>e \<in> set es. fst e \<in> set localIPs)\<rparr>"
proof -
  obtain e fs where es: "es = e # fs" using assms(2) by (cases es) auto
  have "classify_loop lib localIPs (map show_endpoint es) classify_init = Inr (classify_of localIPs es)"
    using classify_loop_endpoints [OF assms(1), of fs "[e]" localIPs] assms(3) es
    by (simp add: classify_loop_step classify_addr_first [OF assms(1)] del: classify_loop.simps)
  moreover have "0 \<le> Min (int ` snd ` set es)" "Max (int ` snd ` set es) \<le> 65535"
    using assms(3) es by (auto simp: endpoint_ok_def)
  moreover have "Min (int ` snd ` set es) \<le> Max (int ` snd ` set es)"
    by (rule order_trans [OF Min_le Max_ge]) (use es in auto)
  ultimately have "wrap64 spread = spread" unfolding spread_def
    by (intro wrap64_id) (simp_all add: min_int64_def max_int64_def)
  moreover have "samePort \<Longrightarrow> spread = 0"
  proof -
    assume samePort
    then have "int ` snd ` set es = {int (snd e)}" using es by (auto simp: samePort_def)
    then show "spread = 0" by (simp add: spread_def)
  qed
  ultimately show ?thesis
    using assms(2) \<open>classify_loop lib localIPs (map show_endpoint es) classify_init = Inr (classify_of localIPs es)\<close>
    by (auto simp: ClassifyNATFeature_def classify_of_def sameIP_def samePort_def spread_def Let_def)
qed

end
