(* ===== verification/Visitor_Manager.thy ===== *)
theory Visitor_Manager
  imports Nathole Util
begin

text \<open>
  Model of \<^verbatim>\<open>server/visitor/visitor.go\<close> and the internal listener of \<^verbatim>\<open>pkg/util/net/listener.go\<close>:
  connections of visitors to secret proxies are admitted by key and user and handed to the proxy
  through a bounded queue. The listener is shared between the manager and the proxy, so it lives in
  a heap. Connections and the wrappers of \<^verbatim>\<open>golib/io\<close> (encryption, which may fail, and compression)
  are parameters.
\<close>

section \<open>Internal listeners\<close>

record 'c InternalListener =
  acceptCh :: "'c list"
  iclosed :: bool

definition NewInternalListener :: "'c InternalListener" where
  "NewInternalListener = \<lparr>acceptCh = [], iclosed = False\<rparr>"

datatype 'c accept = AcceptBlocks | AcceptClosed | Accepted 'c

definition InternalListener_Accept :: "'c InternalListener \<Rightarrow> 'c accept \<times> 'c InternalListener" where
  "InternalListener_Accept l =
     (case acceptCh l of
        c # cs \<Rightarrow> (Accepted c, l\<lparr>acceptCh := cs\<rparr>)
      | [] \<Rightarrow> (if iclosed l then AcceptClosed else AcceptBlocks, l))"

text \<open>Sending on the closed channel panics, which is turned into an error; a full queue closes the
  connection and reports success. The last component is a connection that was closed.\<close>

definition PutConn :: "'c \<Rightarrow> 'c InternalListener \<Rightarrow> string option \<times> 'c InternalListener \<times> 'c option" where
  "PutConn conn l =
     (if iclosed l then (Some ''panic error: send on closed channel'', l, None)
      else if length (acceptCh l) < 128 then (None, l\<lparr>acceptCh := acceptCh l @ [conn]\<rparr>, None)
      else (None, l, Some conn))"

definition InternalListener_Close :: "'c InternalListener \<Rightarrow> 'c InternalListener" where
  "InternalListener_Close l = (if \<not> iclosed l then l\<lparr>iclosed := True\<rparr> else l)"

section \<open>The manager\<close>

record listenerBundle =
  bundle_l :: addr
  bundle_sk :: string
  bundle_allowUsers :: "string list"

record 'c VisitorManager =
  listeners :: "listenerBundle smap"
  lheap :: "'c InternalListener list"

definition NewVisitorManager :: "'c VisitorManager" where
  "NewVisitorManager = \<lparr>listeners = Map.empty, lheap = []\<rparr>"

definition VisitorManager_Listen ::
  "string \<Rightarrow> string \<Rightarrow> string list \<Rightarrow> 'c VisitorManager \<Rightarrow> (string, addr) result \<times> 'c VisitorManager" where
  "VisitorManager_Listen name sk allowUsers vm =
     (if listeners vm name \<noteq> None then (Inl (''custom listener for ['' @ name @ ''] is repeated''), vm)
      else (Inr (length (lheap vm)),
            vm\<lparr>lheap := lheap vm @ [NewInternalListener],
               listeners := (listeners vm)(name \<mapsto>
                 \<lparr>bundle_l = length (lheap vm), bundle_sk = sk, bundle_allowUsers = allowUsers\<rparr>)\<rparr>))"

record 'c conn_wrap =
  WithEncryption :: "'c \<Rightarrow> string \<Rightarrow> (string, 'c) result"
  WithCompression :: "'c \<Rightarrow> 'c"

definition VisitorManager_NewConn ::
  "lo_lib \<Rightarrow> (string \<Rightarrow> string) \<Rightarrow> 'c conn_wrap \<Rightarrow> string \<Rightarrow> 'c \<Rightarrow> int \<Rightarrow> string \<Rightarrow> bool \<Rightarrow> bool \<Rightarrow> string \<Rightarrow>
   'c VisitorManager \<Rightarrow> string option \<times> 'c VisitorManager \<times> 'c option" where
  "VisitorManager_NewConn lib md5_hex wrap name conn timestamp signKey useEncryption useCompression visitorUser vm =
     (case listeners vm name of
        None \<Rightarrow> (Some (''custom listener for ['' @ name @ ''] doesn't exist''), vm, None)
      | Some b \<Rightarrow>
          if GetAuthKey md5_hex (bundle_sk b) timestamp \<noteq> signKey then
            (Some (''visitor connection of ['' @ name @ ''] auth failed''), vm, None)
          else if \<not> lo_Contains lib (bundle_allowUsers b) visitorUser \<and> \<not> lo_Contains lib (bundle_allowUsers b) ''*'' then
            (Some (''visitor connection of ['' @ name @ ''] user ['' @ visitorUser @ ''] not allowed''), vm, None)
          else
            (case (if useEncryption then WithEncryption wrap conn (bundle_sk b) else Inr conn) of
               Inl e \<Rightarrow> (Some (''create encryption connection failed: '' @ e), vm, None)
             | Inr rwc \<Rightarrow>
                 (case PutConn (if useCompression then WithCompression wrap rwc else rwc) (lheap vm ! bundle_l b) of
                    (err, l', dropped) \<Rightarrow> (err, vm\<lparr>lheap := (lheap vm)[bundle_l b := l']\<rparr>, dropped))))"

definition VisitorManager_CloseListener :: "string \<Rightarrow> 'c VisitorManager \<Rightarrow> 'c VisitorManager" where
  "VisitorManager_CloseListener name vm = vm\<lparr>listeners := (listeners vm)(name := None)\<rparr>"

section \<open>Admission\<close>

definition vm_inv :: "'c VisitorManager \<Rightarrow> bool" where
  "vm_inv vm \<longleftrightarrow> (\<forall>name b. listeners vm name = Some b \<longrightarrow> bundle_l b < length (lheap vm)) \<and>
     (\<forall>n1 n2 b1 b2. listeners vm n1 = Some b1 \<longrightarrow> listeners vm n2 = Some b2 \<longrightarrow> bundle_l b1 = bundle_l b2 \<longrightarrow> n1 = n2) \<and>
     (\<forall>l \<in> set (lheap vm). length (acceptCh l) \<le> 128)"

text \<open>What the proxies, visitors and listeners of the server can do with the manager.\<close>

inductive visitor_step :: "lo_lib \<Rightarrow> (string \<Rightarrow> string) \<Rightarrow> 'c conn_wrap \<Rightarrow> 'c VisitorManager \<Rightarrow> 'c VisitorManager \<Rightarrow> bool"
  for lib md5_hex wrap where
  vlisten: "VisitorManager_Listen name sk users vm = (r, vm') \<Longrightarrow> visitor_step lib md5_hex wrap vm vm'"
| vconn: "VisitorManager_NewConn lib md5_hex wrap name conn ts key enc cmpr user vm = (e, vm', d) \<Longrightarrow>
    visitor_step lib md5_hex wrap vm vm'"
| vunlist: "visitor_step lib md5_hex wrap vm (VisitorManager_CloseListener name vm)"
| vaccept: "a < length (lheap vm) \<Longrightarrow>
    visitor_step lib md5_hex wrap vm (vm\<lparr>lheap := (lheap vm)[a := snd (InternalListener_Accept (lheap vm ! a))]\<rparr>)"
| vclose: "a < length (lheap vm) \<Longrightarrow>
    visitor_step lib md5_hex wrap vm (vm\<lparr>lheap := (lheap vm)[a := InternalListener_Close (lheap vm ! a)]\<rparr>)"

inductive visitor_reach :: "lo_lib \<Rightarrow> (string \<Rightarrow> string) \<Rightarrow> 'c conn_wrap \<Rightarrow> 'c VisitorManager \<Rightarrow> bool"
  for lib md5_hex wrap where
  vstart: "visitor_reach lib md5_hex wrap NewVisitorManager"
| vstep: "visitor_reach lib md5_hex wrap vm \<Longrightarrow> visitor_step lib md5_hex wrap vm vm' \<Longrightarrow> visitor_reach lib md5_hex wrap vm'"

lemma PutConn_bound: "PutConn c l = (e, l', d) \<Longrightarrow> length (acceptCh l) \<le> 128 \<Longrightarrow> length (acceptCh l') \<le> 128"
  by (auto simp: PutConn_def split: if_splits)

lemma vm_inv_heap:
  assumes "vm_inv vm" "a < length (lheap vm)" "length (acceptCh (lheap vm ! a)) \<le> 128 \<Longrightarrow> length (acceptCh l) \<le> 128"
  shows "vm_inv (vm\<lparr>lheap := (lheap vm)[a := l]\<rparr>)"
proof -
  have "length (acceptCh l) \<le> 128" using assms by (auto simp: vm_inv_def)
  then show ?thesis using assms(1) set_update_subset_insert [of "lheap vm" a l] unfolding vm_inv_def by auto
qed

lemma vm_inv_NewConn:
  assumes "vm_inv vm" "VisitorManager_NewConn lib md5_hex wrap name conn ts key enc cmpr user vm = (e, vm', d)"
  shows "vm_inv vm'"
proof -
  have "vm' = vm \<or> (\<exists>b c e l' d. listeners vm name = Some b \<and> PutConn c (lheap vm ! bundle_l b) = (e, l', d) \<and>
      vm' = vm\<lparr>lheap := (lheap vm)[bundle_l b := l']\<rparr>)"
    using assms(2) by (auto simp: VisitorManager_NewConn_def split: option.splits if_splits sum.splits prod.splits)
  then show ?thesis
  proof (elim disjE exE conjE)
    fix b c e l' d
    assume b: "listeners vm name = Some b" and put: "PutConn c (lheap vm ! bundle_l b) = (e, l', d)"
      and vm': "vm' = vm\<lparr>lheap := (lheap vm)[bundle_l b := l']\<rparr>"
    have "bundle_l b < length (lheap vm)" using assms(1) b by (simp add: vm_inv_def)
    then show ?thesis unfolding vm' using assms(1) PutConn_bound [OF put] by (intro vm_inv_heap) auto
  qed (use assms(1) in simp)
qed

lemma visitor_step_inv: "visitor_step lib md5_hex wrap vm vm' \<Longrightarrow> vm_inv vm \<Longrightarrow> vm_inv vm'"
proof (induction rule: visitor_step.induct)
  case (vlisten name sk users vm r vm')
  then show ?case
    by (fastforce simp: VisitorManager_Listen_def vm_inv_def NewInternalListener_def split: if_splits)
next
  case (vunlist vm name)
  then show ?case by (auto simp: VisitorManager_CloseListener_def vm_inv_def split: if_splits)
qed (auto intro: vm_inv_NewConn intro!: vm_inv_heap simp: InternalListener_Accept_def InternalListener_Close_def split: list.splits)

lemma visitor_reach_inv: "visitor_reach lib md5_hex wrap vm \<Longrightarrow> vm_inv vm"
proof (induction rule: visitor_reach.induct)
  case vstart
  then show ?case by (simp add: vm_inv_def NewVisitorManager_def)
qed (rule visitor_step_inv)

text \<open>C33: a visitor's connection reaches a queue only if a listener of the named proxy is registered,
  the visitor signed with its secret and its user is allowed; it then is appended to that proxy's
  queue and to no other, and never to more than 128 pending connections.\<close>

theorem visitor_admission:
  assumes "lo_ok lib" "visitor_reach lib md5_hex wrap vm" "a < length (lheap vm)"
    and "VisitorManager_NewConn lib md5_hex wrap name conn ts key enc cmpr user vm = (err, vm', dropped)"
    and "lheap vm' ! a \<noteq> lheap vm ! a"
  shows "\<exists>b c. listeners vm name = Some b \<and> bundle_l b = a \<and> key = GetAuthKey md5_hex (bundle_sk b) ts \<and>
    (user \<in> set (bundle_allowUsers b) \<or> ''*'' \<in> set (bundle_allowUsers b)) \<and>
    \<not> iclosed (lheap vm ! a) \<and> length (acceptCh (lheap vm ! a)) < 128 \<and>
    lheap vm' = (lheap vm)[a := (lheap vm ! a)\<lparr>acceptCh := acceptCh (lheap vm ! a) @ [c]\<rparr>] \<and>
    (\<not> enc \<and> \<not> cmpr \<longrightarrow> c = conn) \<and> err = None"
proof -
  from assms(4,5) obtain b rwc where b: "listeners vm name = Some b" "GetAuthKey md5_hex (bundle_sk b) ts = key"
    "user \<in> set (bundle_allowUsers b) \<or> ''*'' \<in> set (bundle_allowUsers b)"
    and rwc: "(if enc then WithEncryption wrap conn (bundle_sk b) else Inr conn) = Inr rwc"
    and put: "PutConn (if cmpr then WithCompression wrap rwc else rwc) (lheap vm ! bundle_l b) =
      (err, lheap vm' ! bundle_l b, dropped)" "lheap vm' = (lheap vm)[bundle_l b := lheap vm' ! bundle_l b]"
    using visitor_reach_inv [OF assms(2)]
    by (auto simp: VisitorManager_NewConn_def lo_ok_Contains [OF assms(1)] vm_inv_def
        split: option.splits if_splits sum.splits prod.splits)
  let ?l = "lheap vm ! bundle_l b" and ?c = "if cmpr then WithCompression wrap rwc else rwc"
  have a: "a = bundle_l b" using assms(3,5) put(2) by (metis nth_list_update_neq)
  with put(1) assms(5) have "\<not> iclosed ?l" "length (acceptCh ?l) < 128"
    "lheap vm' ! bundle_l b = ?l\<lparr>acceptCh := acceptCh ?l @ [?c]\<rparr>" "err = None"
    by (auto simp: PutConn_def split: if_splits)
  with a b rwc put(2) show ?thesis by (intro exI [of _ b] exI [of _ ?c]) auto
qed

definition plain_wrap :: "nat conn_wrap" where
  "plain_wrap = \<lparr>WithEncryption = (\<lambda>c _. Inr c), WithCompression = id\<rparr>"

definition one_visitor_listener :: "nat VisitorManager" where
  "one_visitor_listener = snd (VisitorManager_Listen ''ssh'' ''sk'' [''alice''] NewVisitorManager)"

theorem visitor_admission_witness:
  "\<exists>b c. listeners one_visitor_listener ''ssh'' = Some b \<and> ''sk7'' = GetAuthKey id (bundle_sk b) 7 \<and>
     ''alice'' \<in> set (bundle_allowUsers b) \<and> c = (5::nat)"
proof -
  let ?new = "VisitorManager_NewConn lo_ref id plain_wrap ''ssh'' 5 7 ''sk7'' False False ''alice'' one_visitor_listener"
  have vm: "listeners one_visitor_listener = [''ssh'' \<mapsto> \<lparr>bundle_l = 0, bundle_sk = ''sk'', bundle_allowUsers = [''alice'']\<rparr>]"
    "lheap one_visitor_listener = [\<lparr>acceptCh = [], iclosed = False\<rparr>]"
    by (simp_all add: one_visitor_listener_def VisitorManager_Listen_def NewVisitorManager_def NewInternalListener_def)
  have "Itoa 7 = ''7''" by (simp add: Itoa_def nat_digits.simps digit_char_def char_of_eq_iff)
  then have new: "?new = (None, one_visitor_listener\<lparr>lheap := [\<lparr>acceptCh = [5], iclosed = False\<rparr>]\<rparr>, None)"
    by (simp add: VisitorManager_NewConn_def vm GetAuthKey_def lo_ok_Contains [OF lo_ref_ok] PutConn_def)
  have "visitor_reach lo_ref id plain_wrap one_visitor_listener" unfolding one_visitor_listener_def
    by (rule vstep [OF vstart], rule vlisten) (rule prod.collapse [symmetric])
  from visitor_admission [OF lo_ref_ok this _ new, of 0] show ?thesis by (simp add: vm)
qed

end
