(* ===== verification/Nathole_Controller.thy ===== *)
theory Nathole_Controller
  imports Nathole Util
begin

text \<open>
  Model of \<^verbatim>\<open>pkg/nathole/controller.go\<close> with the messages it exchanges (\<^verbatim>\<open>pkg/msg/msg.go\<close>): the
  server side of peer to peer tunnels. A visitor's request opens a session, the client answers
  with its own addresses, the server decides on the behaviour of both ends and sends each its
  part, and a report of success feeds the analyzer. \<^verbatim>\<open>HandleVisitor\<close> waits in the middle for the
  client's message, so it is split at its waiting points into the functions below, each the
  code between two of them; the step relation at the end runs them in any order. A message
  transporter is an opaque number, and what is sent through it is part of the result. The
  clock, the session identifiers (random in the code) and the MD5 hash are parameters.
\<close>

section \<open>Messages\<close>

record NatHoleVisitor =
  nvTransactionID :: string
  nvProxyName :: string
  nvPreCheck :: bool
  nvProtocol :: string
  nvSignKey :: string
  nvTimestamp :: int
  nvMappedAddrs :: "string list"
  nvAssistedAddrs :: "string list"

record NatHoleClient =
  ncTransactionID :: string
  ncProxyName :: string
  ncSid :: string
  ncMappedAddrs :: "string list"
  ncAssistedAddrs :: "string list"

record PortsRange =
  From :: int
  To :: int

record NatHoleDetectBehavior =
  dRole :: string
  dMode :: nat
  dTTL :: int
  dSendDelayMs :: int
  dReadTimeoutMs :: int
  dCandidatePorts :: "PortsRange list"
  dSendRandomPorts :: int
  dListenRandomPorts :: int

record NatHoleResp =
  rTransactionID :: string
  rSid :: string
  rProtocol :: string
  rCandidateAddrs :: "string list"
  rAssistedAddrs :: "string list"
  rDetectBehavior :: NatHoleDetectBehavior
  rError :: string

record NatHoleReport =
  nrSid :: string
  nrSuccess :: bool

section \<open>State\<close>

type_synonym transporter = nat

record ClientCfg =
  cfgName :: string
  cfgSk :: string
  cfgAllowUsers :: "string list"

record Session =
  sid :: string
  analysisKey :: string
  recommandMode :: nat
  recommandIndex :: nat
  visitorMsg :: NatHoleVisitor
  visitorTransporter :: transporter
  vResp :: "NatHoleResp option"
  vNatFeature :: "NatFeature option"
  vBehavior :: RecommandBehavior
  clientMsg :: "NatHoleClient option"
  clientTransporter :: transporter
  cResp :: "NatHoleResp option"
  cNatFeature :: "NatFeature option"
  cBehavior :: RecommandBehavior
  notifyCh :: bool

text \<open>The buffer of \<^verbatim>\<open>notifyCh\<close> holds one token: \<open>notifyCh\<close> says whether it does.\<close>

record Controller =
  clientCfgs :: "ClientCfg smap"
  sessions :: "Session smap"
  analyzer :: Analyzer

definition NewController :: "int \<Rightarrow> Controller" where
  "NewController d = \<lparr>clientCfgs = Map.empty, sessions = Map.empty, analyzer = NewAnalyzer d\<rparr>"

section \<open>Helpers\<close>

definition parseIPs :: "string list \<Rightarrow> string list" where
  "parseIPs addrs = concat (map (\<lambda>a. case SplitHostPort a of Inr (ip, _) \<Rightarrow> [ip] | Inl _ \<Rightarrow> []) addrs)"

definition FormatBool :: "bool \<Rightarrow> string" where
  "FormatBool b = (if b then ''true'' else ''false'')"

definition getRangePorts :: "lo_lib \<Rightarrow> string list \<Rightarrow> int \<Rightarrow> int \<Rightarrow> PortsRange list" where
  "getRangePorts lib addrs difference maxNumber =
     (if maxNumber \<le> 0 then []
      else
        (case lo_Last lib addrs of
           None \<Rightarrow> []
         | Some a \<Rightarrow>
             (case SplitHostPort a of
                Inl _ \<Rightarrow> []
              | Inr (_, portStr) \<Rightarrow>
                  (case Atoi portStr of
                     (_, Some _) \<Rightarrow> []
                   | (port, None) \<Rightarrow>
                       [\<lparr>From = lo_Max lib [wrap64 (port - difference - 5), wrap64 (port - maxNumber), 1],
                         To = lo_Min lib [wrap64 (port + difference + 5), wrap64 (port + maxNumber), 65535]\<rparr>]))))"

definition no_detect :: NatHoleDetectBehavior where
  "no_detect = \<lparr>dRole = [], dMode = 0, dTTL = 0, dSendDelayMs = 0, dReadTimeoutMs = 0, dCandidatePorts = [],
     dSendRandomPorts = 0, dListenRandomPorts = 0\<rparr>"

definition GenNatHoleResponse :: "string \<Rightarrow> Session option \<Rightarrow> string \<Rightarrow> NatHoleResp" where
  "GenNatHoleResponse transactionID session errInfo =
     \<lparr>rTransactionID = transactionID, rSid = (case session of None \<Rightarrow> [] | Some s \<Rightarrow> sid s), rProtocol = [],
      rCandidateAddrs = [], rAssistedAddrs = [], rDetectBehavior = no_detect, rError = errInfo\<rparr>"

text \<open>One end's contribution to the key, then the key: the MD5 digest of everything written.\<close>

definition key_part :: "lo_lib \<Rightarrow> string list \<Rightarrow> NatFeature \<Rightarrow> string" where
  "key_part lib mapped f =
     (let ips = lo_Uniq lib (parseIPs mapped)
      in (if ips \<noteq> [] then hd ips else []) @ NatType f @ Behavior f @ FormatBool (RegularPortsChange f))"

definition genAnalysisKey ::
  "lo_lib \<Rightarrow> (string \<Rightarrow> string) \<Rightarrow> string list \<Rightarrow> NatFeature \<Rightarrow> string list \<Rightarrow> NatFeature \<Rightarrow> string" where
  "genAnalysisKey lib md5_hex vAddrs vf cAddrs cf = md5_hex (key_part lib vAddrs vf @ key_part lib cAddrs cf)"

section \<open>Proxies of the client\<close>

definition ListenClient :: "string \<Rightarrow> string \<Rightarrow> string list \<Rightarrow> Controller \<Rightarrow> (string, unit) result \<times> Controller" where
  "ListenClient name sk allowUsers c =
     (if clientCfgs c name \<noteq> None then (Inl (''proxy ['' @ name @ ''] is repeated''), c)
      else (Inr (), c\<lparr>clientCfgs := (clientCfgs c)(name \<mapsto>
              \<lparr>cfgName = name, cfgSk = sk, cfgAllowUsers = allowUsers\<rparr>)\<rparr>))"

definition CloseClient :: "string \<Rightarrow> Controller \<Rightarrow> Controller" where
  "CloseClient name c = c\<lparr>clientCfgs := (clientCfgs c)(name := None)\<rparr>"

section \<open>Visitors\<close>

datatype visit = VisitReply NatHoleResp | VisitOpened string

definition new_session :: "string \<Rightarrow> NatHoleVisitor \<Rightarrow> transporter \<Rightarrow> Session" where
  "new_session s m t = \<lparr>sid = s, analysisKey = [], recommandMode = 0, recommandIndex = 0, visitorMsg = m,
     visitorTransporter = t, vResp = None, vNatFeature = None, vBehavior = no_behavior, clientMsg = None,
     clientTransporter = 0, cResp = None, cNatFeature = None, cBehavior = no_behavior, notifyCh = False\<rparr>"

definition not_exist :: "string \<Rightarrow> string" where
  "not_exist name = ''xtcp server for ['' @ name @ ''] doesn't exist''"

text \<open>\<^verbatim>\<open>HandleVisitor\<close> up to the point where it hands the session to the client.\<close>

definition HandleVisitor ::
  "lo_lib \<Rightarrow> (string \<Rightarrow> string) \<Rightarrow> string \<Rightarrow> NatHoleVisitor \<Rightarrow> transporter \<Rightarrow> string \<Rightarrow> Controller \<Rightarrow> visit \<times> Controller" where
  "HandleVisitor lib md5_hex newSid m t visitorUser c =
     (let reply = (\<lambda>e. VisitReply (GenNatHoleResponse (nvTransactionID m) None e))
      in if nvPreCheck m then
           (case clientCfgs c (nvProxyName m) of
              None \<Rightarrow> (reply (not_exist (nvProxyName m)), c)
            | Some cfg \<Rightarrow>
                if \<not> lo_Contains lib (cfgAllowUsers cfg) visitorUser \<and> \<not> lo_Contains lib (cfgAllowUsers cfg) ''*'' then
                  (reply (''xtcp visitor user ['' @ visitorUser @ ''] not allowed for ['' @ nvProxyName m @ '']''), c)
                else (reply [], c))
         else
           (case clientCfgs c (nvProxyName m) of
              None \<Rightarrow> (reply (not_exist (nvProxyName m)), c)
            | Some cfg \<Rightarrow>
                if \<not> ConstantTimeEqString (nvSignKey m) (GetAuthKey md5_hex (cfgSk cfg) (nvTimestamp m)) then
                  (reply (''xtcp connection of ['' @ nvProxyName m @ ''] auth failed''), c)
                else (VisitOpened newSid, c\<lparr>sessions := (sessions c)(newSid \<mapsto> new_session newSid m t)\<rparr>)))"

definition HandleClient :: "NatHoleClient \<Rightarrow> transporter \<Rightarrow> Controller \<Rightarrow> Controller" where
  "HandleClient m t c =
     (case sessions c (ncSid m) of
        None \<Rightarrow> c
      | Some s \<Rightarrow> c\<lparr>sessions := (sessions c)(ncSid m \<mapsto>
            s\<lparr>clientMsg := Some m, clientTransporter := t, notifyCh := True\<rparr>)\<rparr>)"

definition HandleReport :: "lo_lib \<Rightarrow> int \<Rightarrow> NatHoleReport \<Rightarrow> Controller \<Rightarrow> Controller" where
  "HandleReport lib now m c =
     (case sessions c (nrSid m) of
        None \<Rightarrow> c
      | Some s \<Rightarrow>
          if nrSuccess m
          then c\<lparr>analyzer := Analyzer_ReportSuccess lib now (analysisKey s) (recommandMode s) (recommandIndex s) (analyzer c)\<rparr>
          else c)"

definition CleanWorker_tick :: "int \<Rightarrow> Controller \<Rightarrow> Controller" where
  "CleanWorker_tick now c = c\<lparr>analyzer := snd (Analyzer_Clean now (analyzer c))\<rparr>"

section \<open>The decision\<close>

text \<open>The texts of the errors of \<^verbatim>\<open>net\<close> and \<^verbatim>\<open>strconv\<close> are a parameter.\<close>

definition classify_error_text :: "(classify_error \<Rightarrow> string) \<Rightarrow> classify_error \<Rightarrow> string" where
  "classify_error_text libText e = (case e of NotEnoughAddresses \<Rightarrow> ''not enough addresses'' | _ \<Rightarrow> libText e)"

definition detect_behavior :: "lo_lib \<Rightarrow> nat \<Rightarrow> RecommandBehavior \<Rightarrow> int \<Rightarrow> string list \<Rightarrow> int \<Rightarrow> NatHoleDetectBehavior" where
  "detect_behavior lib mode b timeoutMs peerAddrs peerDifference =
     \<lparr>dRole = Role b, dMode = mode, dTTL = TTL b, dSendDelayMs = SendDelayMs b,
      dReadTimeoutMs = timeoutMs - SendDelayMs b, dCandidatePorts = getRangePorts lib peerAddrs peerDifference (PortsRangeNumber b),
      dSendRandomPorts = PortsRandomNumber b, dListenRandomPorts = ListenRandomPorts b\<rparr>"

definition punch_timeout :: "lo_lib \<Rightarrow> RecommandBehavior \<Rightarrow> RecommandBehavior \<Rightarrow> int" where
  "punch_timeout lib cb vb =
     (let timeoutMs = lo_Max lib [SendDelayMs cb, SendDelayMs vb] + 5000
      in if ListenRandomPorts cb > 0 \<or> ListenRandomPorts vb > 0 then timeoutMs + 30000 else timeoutMs)"

definition analysis ::
  "lo_lib \<Rightarrow> (classify_error \<Rightarrow> string) \<Rightarrow> (string \<Rightarrow> string) \<Rightarrow> int \<Rightarrow> Session \<Rightarrow> NatHoleClient \<Rightarrow> Analyzer \<Rightarrow>
   (string, NatHoleResp \<times> NatHoleResp) result \<times> Session \<times> Analyzer" where
  "analysis lib libText md5_hex now session cm a =
     (let vm = visitorMsg session
      in case ClassifyNATFeature lib (ncMappedAddrs cm) (parseIPs (ncAssistedAddrs cm)) of
           Inl e \<Rightarrow> (Inl (''classify client nat feature error: '' @ classify_error_text libText e), session, a)
         | Inr cf \<Rightarrow>
             (case ClassifyNATFeature lib (nvMappedAddrs vm) (parseIPs (nvAssistedAddrs vm)) of
                Inl e \<Rightarrow> (Inl (''classify visitor nat feature error: '' @ classify_error_text libText e), session, a)
              | Inr vf \<Rightarrow>
                  (let key = genAnalysisKey lib md5_hex (nvMappedAddrs vm) vf (ncMappedAddrs cm) cf;
                       ((mode, idx, cb, vb), a') = GetRecommandBehaviors lib now key cf vf a;
                       session' = session\<lparr>cNatFeature := Some cf, vNatFeature := Some vf, analysisKey := key,
                         recommandMode := mode, recommandIndex := idx, cBehavior := cb, vBehavior := vb\<rparr>;
                       timeoutMs = punch_timeout lib cb vb;
                       protocol = nvProtocol vm;
                       vr = \<lparr>rTransactionID = nvTransactionID vm, rSid = sid session, rProtocol = protocol,
                             rCandidateAddrs = lo_Uniq lib (ncMappedAddrs cm),
                             rAssistedAddrs = lo_Uniq lib (ncAssistedAddrs cm),
                             rDetectBehavior = detect_behavior lib mode vb timeoutMs (ncMappedAddrs cm) (PortsDifference cf),
                             rError = []\<rparr>;
                       cr = \<lparr>rTransactionID = ncTransactionID cm, rSid = sid session, rProtocol = protocol,
                             rCandidateAddrs = lo_Uniq lib (nvMappedAddrs vm),
                             rAssistedAddrs = lo_Uniq lib (nvAssistedAddrs vm),
                             rDetectBehavior = detect_behavior lib mode cb timeoutMs (nvMappedAddrs vm) (PortsDifference vf),
                             rError = []\<rparr>
                   in (Inr (vr, cr), session', a'))))"

text \<open>\<^verbatim>\<open>HandleVisitor\<close> after its wait: with the client's message the responses to visitor and client
  are computed and sent (in either order, by two goroutines); \<open>None\<close> is a nil dereference.\<close>

definition HandleVisitor_decide ::
  "lo_lib \<Rightarrow> (classify_error \<Rightarrow> string) \<Rightarrow> (string \<Rightarrow> string) \<Rightarrow> int \<Rightarrow> Session \<Rightarrow> Controller \<Rightarrow>
   ((transporter \<times> NatHoleResp) \<times> (transporter \<times> NatHoleResp)) option \<times> Controller" where
  "HandleVisitor_decide lib libText md5_hex now s c =
     (case clientMsg s of
        None \<Rightarrow> (None, c)
      | Some cm \<Rightarrow>
          (case analysis lib libText md5_hex now s cm (analyzer c) of
             (res, s', a') \<Rightarrow>
               (let (vr, cr) =
                  (case res of
                     Inr p \<Rightarrow> p
                   | Inl err \<Rightarrow> (GenNatHoleResponse (nvTransactionID (visitorMsg s)) None err,
                               GenNatHoleResponse (ncTransactionID cm) None err))
                in (Some ((visitorTransporter s, vr), (clientTransporter s, cr)),
                    c\<lparr>analyzer := a', sessions := (sessions c)(sid s \<mapsto>
                        s'\<lparr>cResp := Some cr, vResp := Some vr, notifyCh := False\<rparr>)\<rparr>))))"

text \<open>The deferred removal of the session, after the final sleep, the timeout or a failed hand-over.\<close>

definition HandleVisitor_end :: "string \<Rightarrow> Controller \<Rightarrow> Controller" where
  "HandleVisitor_end s c = c\<lparr>sessions := (sessions c)(s := None)\<rparr>"

section \<open>Guessed port ranges\<close>

lemma wrap64_small: "- 200000 \<le> i \<Longrightarrow> i \<le> 200000 \<Longrightarrow> wrap64 i = i"
  by (rule wrap64_id) (simp_all add: min_int64_def max_int64_def)

text \<open>The range of ports that a peer is told to try around the last address of the other side
  consists of valid ports, contains the port of that address and is at most twice the requested
  number wide.\<close>

lemma getRangePorts_bounds:
  assumes "lo_ok lib" "addrs \<noteq> []" "last addrs = show_endpoint (host, port)" "plain_addr_part host"
    and "1 \<le> port" "port \<le> 65535" "0 \<le> difference" "difference \<le> 65535" "0 < maxNumber" "maxNumber \<le> 65535"
  shows "\<exists>r. getRangePorts lib addrs difference maxNumber = [r] \<and> 1 \<le> From r \<and> To r \<le> 65535 \<and>
    From r \<le> int port \<and> int port \<le> To r \<and> To r - From r \<le> 2 * maxNumber"
proof -
  have "SplitHostPort (last addrs) = Inr (host, Itoa (int port))"
    using SplitHostPort_JoinHostPort [OF assms(4) Itoa_plain] assms(3) by simp
  with assms have "getRangePorts lib addrs difference maxNumber =
      [\<lparr>From = Max {int port - difference - 5, int port - maxNumber, 1},
        To = Min {int port + difference + 5, int port + maxNumber, 65535}\<rparr>]"
    by (simp add: getRangePorts_def lo_ok_Last lo_ok_Max lo_ok_Min Atoi_Itoa_small wrap64_small)
  then show ?thesis using assms by auto
qed

section \<open>Reachable controllers\<close>

inductive nat_step :: "lo_lib \<Rightarrow> (classify_error \<Rightarrow> string) \<Rightarrow> (string \<Rightarrow> string) \<Rightarrow> Controller \<Rightarrow> Controller \<Rightarrow> bool"
  for lib libText md5_hex where
  listen: "ListenClient name sk users c = (r, c') \<Longrightarrow> nat_step lib libText md5_hex c c'"
| close: "nat_step lib libText md5_hex c (CloseClient name c)"
| visit: "sessions c x = None \<Longrightarrow> HandleVisitor lib md5_hex x m t user c = (r, c') \<Longrightarrow> nat_step lib libText md5_hex c c'"
| client: "nat_step lib libText md5_hex c (HandleClient m t c)"
| decide: "sessions c x = Some s \<Longrightarrow> notifyCh s \<Longrightarrow> HandleVisitor_decide lib libText md5_hex now s c = (r, c') \<Longrightarrow>
    nat_step lib libText md5_hex c c'"
| finish: "nat_step lib libText md5_hex c (HandleVisitor_end x c)"
| report: "nat_step lib libText md5_hex c (HandleReport lib now m c)"
| clean: "nat_step lib libText md5_hex c (CleanWorker_tick now c)"

inductive nat_reach :: "lo_lib \<Rightarrow> (classify_error \<Rightarrow> string) \<Rightarrow> (string \<Rightarrow> string) \<Rightarrow> Controller \<Rightarrow> bool"
  for lib libText md5_hex where
  start: "nat_reach lib libText md5_hex (NewController d)"
| step: "nat_reach lib libText md5_hex c \<Longrightarrow> nat_step lib libText md5_hex c c' \<Longrightarrow> nat_reach lib libText md5_hex c'"

definition session_ok :: "string \<Rightarrow> Session \<Rightarrow> bool" where
  "session_ok x s \<longleftrightarrow> sid s = x \<and> (notifyCh s \<longrightarrow> clientMsg s \<noteq> None)"

definition controller_ok :: "Controller \<Rightarrow> bool" where
  "controller_ok c \<longleftrightarrow> (\<forall>x s. sessions c x = Some s \<longrightarrow> session_ok x s) \<and> analyzer_ok (\<lambda>_. UNIV) (analyzer c)"

lemma any_initial_scores_ok: "records_ok UNIV (NewMakeHoleRecords now c v)"
proof -
  note initial_scores_ne [of c v]
  moreover have "score_ok UNIV s" if "s \<in> set (initial_scores c v)" for s
    using that by (auto simp: score_ok_def initial_scores_def getBehaviorScoresByMode_def
        split: if_splits prod.splits dest!: scores_by_mode appendMode0_scores)
  ultimately show ?thesis by (simp add: records_ok_def NewMakeHoleRecords_def)
qed

lemma analysis_keeps:
  assumes "lo_ok lib" "analyzer_ok (\<lambda>_. UNIV) a" "analysis lib libText md5_hex now s cm a = (res, s', a')"
  shows "sid s' = sid s \<and> analyzer_ok (\<lambda>_. UNIV) a'"
  using assms(2,3) analyzer_ok_recommand [OF assms(1,2) any_initial_scores_ok]
  by (auto simp: analysis_def Let_def split: sum.splits prod.splits) (metis snd_conv)

lemma HandleVisitor_decide_ok:
  assumes "lo_ok lib" "controller_ok c" "sessions c x = Some s"
    and "HandleVisitor_decide lib libText md5_hex now s c = (r, c')"
  shows "controller_ok c'"
proof (cases "clientMsg s")
  case None
  with assms(2,4) show ?thesis by (simp add: HandleVisitor_decide_def)
next
  case (Some cm)
  obtain res s' a' where a: "analysis lib libText md5_hex now s cm (analyzer c) = (res, s', a')"
    by (metis prod_cases3)
  have "sid s' = sid s" "analyzer_ok (\<lambda>_. UNIV) a'"
    using analysis_keeps [OF assms(1) _ a] assms(2) by (auto simp: controller_ok_def)
  with assms(2,4) Some a show ?thesis
    by (auto simp: HandleVisitor_decide_def controller_ok_def session_ok_def Let_def split: prod.splits if_splits)
qed

lemma nat_step_ok:
  assumes "lo_ok lib"
  shows "nat_step lib libText md5_hex c c' \<Longrightarrow> controller_ok c \<Longrightarrow> controller_ok c'"
proof (induction rule: nat_step.induct)
  case (visit c x m t user r c')
  then show ?case
    by (auto simp: HandleVisitor_def controller_ok_def session_ok_def new_session_def Let_def
        split: if_splits option.splits)
next
  case (decide c x s now r c')
  then show ?case using HandleVisitor_decide_ok [OF assms] by blast
next
  case (report c now m)
  then show ?case
    by (auto simp: HandleReport_def controller_ok_def analyzer_ok_report [OF assms] split: option.split)
qed (auto simp: ListenClient_def CloseClient_def HandleClient_def HandleVisitor_end_def CleanWorker_tick_def
    controller_ok_def session_ok_def analyzer_ok_clean split: if_splits option.splits)

lemma nat_reach_ok:
  assumes "lo_ok lib"
  shows "nat_reach lib libText md5_hex c \<Longrightarrow> controller_ok c"
proof (induction rule: nat_reach.induct)
  case (start d)
  then show ?case by (simp add: controller_ok_def NewController_def analyzer_ok_new)
qed (rule nat_step_ok [OF assms])

section \<open>Admission and decision\<close>

text \<open>C38: a visitor whose user is not on the allow list of a proxy is told so by the pre-check, but
  the request that follows is admitted for every user that can sign with the proxy's secret: the
  allow list is consulted by the pre-check only.\<close>

theorem nathole_allow_users_not_enforced:
  assumes "lo_ok lib" "clientCfgs c (nvProxyName m) = Some cfg"
    and "user \<notin> set (cfgAllowUsers cfg)" "''*'' \<notin> set (cfgAllowUsers cfg)"
    and "nvSignKey m = GetAuthKey md5_hex (cfgSk cfg) (nvTimestamp m)"
  shows "(\<exists>r. fst (HandleVisitor lib md5_hex x (m\<lparr>nvPreCheck := True\<rparr>) t user c) = VisitReply r \<and> rError r \<noteq> []) \<and>
    fst (HandleVisitor lib md5_hex x (m\<lparr>nvPreCheck := False\<rparr>) t user c) = VisitOpened x"
  using assms
  by (simp add: HandleVisitor_def lo_ok_Contains ConstantTimeEqString_def GenNatHoleResponse_def Let_def)

definition a_visitor :: NatHoleVisitor where
  "a_visitor = \<lparr>nvTransactionID = ''t'', nvProxyName = ''p2p'', nvPreCheck = False, nvProtocol = ''quic'',
     nvSignKey = ''sk0'', nvTimestamp = 0, nvMappedAddrs = [''1.2.3.4:5000'', ''1.2.3.4:5000''], nvAssistedAddrs = []\<rparr>"

definition a_controller :: Controller where
  "a_controller = snd (ListenClient ''p2p'' ''sk'' [''alice''] (NewController 100))"

lemma a_controller_cfg:
  "clientCfgs a_controller ''p2p'' = Some \<lparr>cfgName = ''p2p'', cfgSk = ''sk'', cfgAllowUsers = [''alice'']\<rparr>"
  by (simp add: a_controller_def ListenClient_def NewController_def)

lemma a_visitor_key: "nvSignKey a_visitor = GetAuthKey id ''sk'' (nvTimestamp a_visitor)"
proof -
  have "Itoa 0 = ''0''" by (simp add: Itoa_def nat_digits.simps digit_char_def char_of_eq_iff)
  then show ?thesis by (simp add: a_visitor_def GetAuthKey_def)
qed

theorem nathole_allow_users_not_enforced_witness:
  "fst (HandleVisitor lo_ref id ''s1'' (a_visitor\<lparr>nvPreCheck := False\<rparr>) 0 ''mallory'' a_controller) = VisitOpened ''s1''"
  using nathole_allow_users_not_enforced [OF lo_ref_ok, of a_controller a_visitor _ "''mallory''" id "''s1''" 0]
    a_controller_cfg a_visitor_key by (simp add: a_visitor_def)

text \<open>The two responses of a decision.\<close>

lemma analysis_responses:
  assumes "lo_ok lib" "analyzer_ok (\<lambda>_. UNIV) a" "analysis lib libText md5_hex now s cm a = (Inr (vr, cr), s', a')"
  shows "rSid vr = sid s \<and> rSid cr = sid s \<and> rError vr = [] \<and> rError cr = [] \<and>
    rProtocol vr = rProtocol cr \<and>
    {dRole (rDetectBehavior vr), dRole (rDetectBehavior cr)} = {DetectRoleSender, DetectRoleReceiver} \<and>
    dMode (rDetectBehavior vr) = dMode (rDetectBehavior cr) \<and>
    set (rCandidateAddrs vr) = set (ncMappedAddrs cm) \<and>
    set (rCandidateAddrs cr) = set (nvMappedAddrs (visitorMsg s)) \<and>
    dReadTimeoutMs (rDetectBehavior vr) + dSendDelayMs (rDetectBehavior vr) =
      dReadTimeoutMs (rDetectBehavior cr) + dSendDelayMs (rDetectBehavior cr) \<and>
    5000 \<le> dReadTimeoutMs (rDetectBehavior vr) \<and> 5000 \<le> dReadTimeoutMs (rDetectBehavior cr)"
proof -
  from assms(3) obtain cf vf key mode idx cb vb where
    g: "GetRecommandBehaviors lib now key cf vf a = ((mode, idx, cb, vb), a')"
    and vr: "rSid vr = sid s" "rError vr = []" "rProtocol vr = nvProtocol (visitorMsg s)"
      "rCandidateAddrs vr = lo_Uniq lib (ncMappedAddrs cm)"
    and cr: "rSid cr = sid s" "rError cr = []" "rProtocol cr = nvProtocol (visitorMsg s)"
      "rCandidateAddrs cr = lo_Uniq lib (nvMappedAddrs (visitorMsg s))"
    and det: "rDetectBehavior vr = detect_behavior lib mode vb (punch_timeout lib cb vb) (ncMappedAddrs cm) (PortsDifference cf)"
      "rDetectBehavior cr = detect_behavior lib mode cb (punch_timeout lib cb vb) (nvMappedAddrs (visitorMsg s)) (PortsDifference vf)"
    by (auto simp: analysis_def Let_def split: sum.splits prod.splits)
  have row: "(if swapped mode cf then (vb, cb) else (cb, vb)) \<in> set (getBehaviorByMode mode)"
    using recommended_row [OF assms(1,2) any_initial_scores_ok g] by simp
  have "SendDelayMs cb + 5000 \<le> punch_timeout lib cb vb" "SendDelayMs vb + 5000 \<le> punch_timeout lib cb vb"
    using assms(1) by (auto simp: punch_timeout_def lo_ok_Max Let_def max_def)
  moreover have "{Role vb, Role cb} = {DetectRoleSender, DetectRoleReceiver}"
    using recommended_complementary [OF row] by (simp add: insert_commute [of "Role vb"])
  ultimately show ?thesis unfolding det vr cr
    by (simp add: detect_behavior_def lo_ok_Uniq [OF assms(1)])
qed

text \<open>C31: in every state the controller reaches, the decision for a session whose client has answered
  sends both ends a response. Either both carry the same error, or both carry the session and the
  same mode with complementary roles, each end gets exactly the addresses of the other, both wait
  until the same moment after the start, and each for at least five seconds after its own
  delay.\<close>

theorem nathole_decision:
  assumes "lo_ok lib" "nat_reach lib libText md5_hex c" "sessions c x = Some s" "notifyCh s"
  shows "\<exists>vr cr c' cm. HandleVisitor_decide lib libText md5_hex now s c =
      (Some ((visitorTransporter s, vr), (clientTransporter s, cr)), c') \<and> clientMsg s = Some cm \<and>
    (rError vr \<noteq> [] \<and> rError cr = rError vr \<or>
     rError vr = [] \<and> rError cr = [] \<and> rSid vr = x \<and> rSid cr = x \<and>
     {dRole (rDetectBehavior vr), dRole (rDetectBehavior cr)} = {DetectRoleSender, DetectRoleReceiver} \<and>
     dMode (rDetectBehavior vr) = dMode (rDetectBehavior cr) \<and>
     set (rCandidateAddrs vr) = set (ncMappedAddrs cm) \<and>
     set (rCandidateAddrs cr) = set (nvMappedAddrs (visitorMsg s)) \<and>
     dReadTimeoutMs (rDetectBehavior vr) + dSendDelayMs (rDetectBehavior vr) =
       dReadTimeoutMs (rDetectBehavior cr) + dSendDelayMs (rDetectBehavior cr) \<and>
     5000 \<le> dReadTimeoutMs (rDetectBehavior vr) \<and> 5000 \<le> dReadTimeoutMs (rDetectBehavior cr))"
proof -
  have ok: "controller_ok c" using nat_reach_ok [OF assms(1,2)] .
  with assms(3,4) obtain cm where cm: "clientMsg s = Some cm" and x: "sid s = x"
    by (auto simp: controller_ok_def session_ok_def)
  have aok: "analyzer_ok (\<lambda>_. UNIV) (analyzer c)" using ok by (simp add: controller_ok_def)
  obtain res s' a' where a: "analysis lib libText md5_hex now s cm (analyzer c) = (res, s', a')"
    by (metis prod_cases3)
  show ?thesis
  proof (cases res)
    case (Inl err)
    with a have "err \<noteq> []" by (auto simp: analysis_def Let_def split: sum.splits prod.splits)
    with Inl a cm show ?thesis by (simp add: HandleVisitor_decide_def GenNatHoleResponse_def)
  next
    case (Inr p)
    obtain vr cr where p: "p = (vr, cr)" by fastforce
    with a Inr have "analysis lib libText md5_hex now s cm (analyzer c) = (Inr (vr, cr), s', a')" by simp
    from analysis_responses [OF assms(1) aok this] this show ?thesis
      using cm x by (simp add: HandleVisitor_decide_def)
  qed
qed

definition a_client :: NatHoleClient where
  "a_client = \<lparr>ncTransactionID = ''u'', ncProxyName = ''p2p'', ncSid = ''s1'', ncMappedAddrs = [''5.6.7.8:6000''],
     ncAssistedAddrs = []\<rparr>"

definition answered_controller :: Controller where
  "answered_controller = HandleClient a_client 1 (snd (HandleVisitor lo_ref id ''s1'' a_visitor 0 ''alice'' a_controller))"

lemma answered_controller_reach: "nat_reach lo_ref (\<lambda>_. []) id answered_controller"
proof -
  have "nat_reach lo_ref (\<lambda>_. []) id a_controller" unfolding a_controller_def
    by (rule nat_reach.step [OF nat_reach.start], rule nat_step.listen) (rule prod.collapse [symmetric])
  moreover have "sessions a_controller ''s1'' = None"
    by (simp add: a_controller_def ListenClient_def NewController_def)
  ultimately have "nat_reach lo_ref (\<lambda>_. []) id (snd (HandleVisitor lo_ref id ''s1'' a_visitor 0 ''alice'' a_controller))"
    by (rule nat_reach.step [OF _ nat_step.visit]) (rule prod.collapse [symmetric])
  then show ?thesis unfolding answered_controller_def by (rule nat_reach.step) (rule nat_step.client)
qed

theorem nathole_decision_witness:
  "\<exists>s vr cr c'. sessions answered_controller ''s1'' = Some s \<and>
     HandleVisitor_decide lo_ref (\<lambda>_. []) id 9 s answered_controller = (Some ((0, vr), (1, cr)), c')"
proof -
  have "HandleVisitor lo_ref id ''s1'' a_visitor 0 ''alice'' a_controller =
      (VisitOpened ''s1'', a_controller\<lparr>sessions := (sessions a_controller)(''s1'' \<mapsto> new_session ''s1'' a_visitor 0)\<rparr>)"
    using a_visitor_key a_controller_cfg
    by (simp add: HandleVisitor_def ConstantTimeEqString_def a_visitor_def Let_def)
  then have s: "sessions answered_controller ''s1'' =
      Some ((new_session ''s1'' a_visitor 0)\<lparr>clientMsg := Some a_client, clientTransporter := 1, notifyCh := True\<rparr>)"
    by (simp add: answered_controller_def HandleClient_def a_client_def)
  from nathole_decision [OF lo_ref_ok answered_controller_reach s, of 9] s show ?thesis
    by (auto simp: new_session_def)
qed

end
