(* ===== verification/Secret_Proxy.thy ===== *)
theory Secret_Proxy
  imports Server_System Visitor_Manager Nathole_Controller
begin

text \<open>
  Model of the server's secret proxies: \<^verbatim>\<open>server/proxy/stcp.go\<close> and \<^verbatim>\<open>server/proxy/sudp.go\<close>, which listen at
  the visitor manager, and \<^verbatim>\<open>server/proxy/xtcp.go\<close>, which registers with the hole punching controller. They
  hold names instead of ports, and fulfil the contract \<open>server_proxy\<close>.
\<close>

section \<open>STCP and SUDP\<close>

record STCPProxy =
  spName :: string
  spSk :: string
  spAllowUsers :: "string list"
  spUser :: string
  spListeners :: "addr list"
  spUsedPortsNum :: int

definition NewSTCPProxy :: "string \<Rightarrow> string \<Rightarrow> string list \<Rightarrow> string \<Rightarrow> STCPProxy" where
  "NewSTCPProxy name sk users user =
     \<lparr>spName = name, spSk = sk, spAllowUsers = users, spUser = user, spListeners = [], spUsedPortsNum = 0\<rparr>"

definition STCPProxy_Run :: "STCPProxy \<Rightarrow> 'c VisitorManager \<Rightarrow> (string, string) result \<times> STCPProxy \<times> 'c VisitorManager" where
  "STCPProxy_Run p vm =
     (let allowUsers = (if spAllowUsers p = [] then [spUser p] else spAllowUsers p)
      in case VisitorManager_Listen (spName p) (spSk p) allowUsers vm of
           (Inl e, vm1) \<Rightarrow> (Inl e, p, vm1)
         | (Inr l, vm1) \<Rightarrow> (Inr [], p\<lparr>spListeners := spListeners p @ [l]\<rparr>, vm1))"

definition close_internal :: "addr \<Rightarrow> 'c VisitorManager \<Rightarrow> 'c VisitorManager" where
  "close_internal a vm = vm\<lparr>lheap := (lheap vm)[a := InternalListener_Close (lheap vm ! a)]\<rparr>"

definition STCPProxy_Close :: "STCPProxy \<Rightarrow> 'c VisitorManager \<Rightarrow> 'c VisitorManager" where
  "STCPProxy_Close p vm = VisitorManager_CloseListener (spName p) (fold close_internal (spListeners p) vm)"

text \<open>The methods of \<^verbatim>\<open>SUDPProxy\<close> are the same statements.\<close>

definition SUDPProxy_Run :: "STCPProxy \<Rightarrow> 'c VisitorManager \<Rightarrow> (string, string) result \<times> STCPProxy \<times> 'c VisitorManager" where
  "SUDPProxy_Run p vm =
     (let allowUsers = (if spAllowUsers p = [] then [spUser p] else spAllowUsers p)
      in case VisitorManager_Listen (spName p) (spSk p) allowUsers vm of
           (Inl e, vm1) \<Rightarrow> (Inl e, p, vm1)
         | (Inr l, vm1) \<Rightarrow> (Inr [], p\<lparr>spListeners := spListeners p @ [l]\<rparr>, vm1))"

definition SUDPProxy_Close :: "STCPProxy \<Rightarrow> 'c VisitorManager \<Rightarrow> 'c VisitorManager" where
  "SUDPProxy_Close p vm = VisitorManager_CloseListener (spName p) (fold close_internal (spListeners p) vm)"

lemma sudp_is_stcp: "SUDPProxy_Run = STCPProxy_Run" "SUDPProxy_Close = STCPProxy_Close"
  by (auto simp: fun_eq_iff SUDPProxy_Run_def STCPProxy_Run_def SUDPProxy_Close_def STCPProxy_Close_def)

definition stcp_ops :: "(unit, STCPProxy, 'c VisitorManager) proxy_ops" where
  "stcp_ops = \<lparr>GetName = spName, GetUsedPortsNum = spUsedPortsNum, Run = (\<lambda>_. STCPProxy_Run),
     Close = (\<lambda>_ p vm. Some (STCPProxy_Close p vm))\<rparr>"

lemma close_internals:
  "vm_inv vm \<Longrightarrow> vm_inv (fold close_internal as vm) \<and> listeners (fold close_internal as vm) = listeners vm"
proof (induction as arbitrary: vm)
  case (Cons a as)
  have "vm_inv (close_internal a vm)"
  proof (cases "a < length (lheap vm)")
    case True
    then show ?thesis unfolding close_internal_def
      by (intro vm_inv_heap [OF Cons.prems]) (auto simp: InternalListener_Close_def)
  qed (use Cons.prems in \<open>simp add: close_internal_def list_update_beyond\<close>)
  with Cons.IH [of "close_internal a vm"] show ?case by (simp add: close_internal_def)
qed simp

lemma vm_inv_Listen: "vm_inv vm \<Longrightarrow> VisitorManager_Listen name sk users vm = (r, vm') \<Longrightarrow> vm_inv vm'"
  using visitor_step_inv [OF visitor_step.vlisten] by blast

lemma vm_inv_CloseListener: "vm_inv vm \<Longrightarrow> vm_inv (VisitorManager_CloseListener name vm)"
  using visitor_step_inv [OF visitor_step.vunlist] by blast

interpretation stcp: server_proxy stcp_ops "\<lambda>e p vm. spUsedPortsNum p = 0" "\<lambda>p. spUsedPortsNum p = 0" vm_inv
  "\<lambda>vm. dom (listeners vm)" "\<lambda>p. {spName p}"
proof unfold_locales
  fix vm :: "'a VisitorManager" and e p a p' vm'
  assume inv: "vm_inv vm" "spUsedPortsNum p = 0" and "Run stcp_ops e p vm = (Inr a, p', vm')"
  then obtain l where "VisitorManager_Listen (spName p) (spSk p) (if spAllowUsers p = [] then [spUser p] else spAllowUsers p) vm = (Inr l, vm')"
    and "p' = p\<lparr>spListeners := spListeners p @ [l]\<rparr>"
    by (auto simp: stcp_ops_def STCPProxy_Run_def Let_def split: sum.splits prod.splits)
  with inv vm_inv_Listen [OF inv(1)] show "vm_inv vm' \<and> spUsedPortsNum p' = 0 \<and>
      dom (listeners vm') = dom (listeners vm) \<union> {spName p'} \<and> {spName p'} \<inter> dom (listeners vm) = {} \<and>
      GetName stcp_ops p' = GetName stcp_ops p \<and> GetUsedPortsNum stcp_ops p' = GetUsedPortsNum stcp_ops p"
    by (auto simp: stcp_ops_def VisitorManager_Listen_def split: if_splits)
next
  fix vm :: "'a VisitorManager" and e p x p' vm'
  assume "vm_inv vm" "Run stcp_ops e p vm = (Inl x, p', vm')"
  then show "vm_inv vm' \<and> dom (listeners vm') = dom (listeners vm)"
    by (auto simp: stcp_ops_def STCPProxy_Run_def VisitorManager_Listen_def Let_def split: sum.splits prod.splits if_splits)
next
  fix vm :: "'a VisitorManager" and p e
  assume "vm_inv vm"
  then show "\<exists>vm'. Close stcp_ops e p vm = Some vm' \<and> vm_inv vm' \<and> dom (listeners vm') = dom (listeners vm) - {spName p}"
    using close_internals [of vm "spListeners p"]
    by (auto simp: stcp_ops_def STCPProxy_Close_def vm_inv_CloseListener) (auto simp: VisitorManager_CloseListener_def split: if_splits)
qed (simp add: stcp_ops_def)

section \<open>XTCP\<close>

text \<open>
  The controller is absent (\<open>None\<close>) when the server has it disabled. The channel \<^verbatim>\<open>closeCh\<close> is never made, so
  it is nil (\<open>None\<close>): closing it panics, which is swallowed, and the goroutine that waits on it
  stays (\<open>xpWorker\<close>).
\<close>

record XTCPProxy =
  xpName :: string
  xpSk :: string
  xpAllowUsers :: "string list"
  xpUser :: string
  xpCloseCh :: "bool option"
  xpWorker :: bool
  xpUsedPortsNum :: int

definition NewXTCPProxy :: "string \<Rightarrow> string \<Rightarrow> string list \<Rightarrow> string \<Rightarrow> XTCPProxy" where
  "NewXTCPProxy name sk users user =
     \<lparr>xpName = name, xpSk = sk, xpAllowUsers = users, xpUser = user, xpCloseCh = None, xpWorker = False, xpUsedPortsNum = 0\<rparr>"

definition XTCPProxy_Run :: "XTCPProxy \<Rightarrow> Controller option \<Rightarrow> (string, string) result \<times> XTCPProxy \<times> Controller option" where
  "XTCPProxy_Run p rc =
     (case rc of
        None \<Rightarrow> (Inl ''xtcp is not supported in frps'', p, rc)
      | Some c \<Rightarrow>
          (let allowUsers = (if xpAllowUsers p = [] then [xpUser p] else xpAllowUsers p)
           in case ListenClient (xpName p) (xpSk p) allowUsers c of
                (Inl e, c1) \<Rightarrow> (Inl e, p, Some c1)
              | (Inr _, c1) \<Rightarrow> (Inr [], p\<lparr>xpWorker := True\<rparr>, Some c1)))"

text \<open>A nil controller is dereferenced, which panics.\<close>

definition XTCPProxy_Close :: "XTCPProxy \<Rightarrow> Controller option \<Rightarrow> (XTCPProxy \<times> Controller option) option" where
  "XTCPProxy_Close p rc =
     (case rc of
        None \<Rightarrow> None
      | Some c \<Rightarrow>
          Some (case xpCloseCh p of
                  Some False \<Rightarrow> p\<lparr>xpCloseCh := Some True, xpWorker := False\<rparr>
                | _ \<Rightarrow> p,
                Some (CloseClient (xpName p) c)))"

definition xtcp_ops :: "(unit, XTCPProxy, Controller option) proxy_ops" where
  "xtcp_ops = \<lparr>GetName = xpName, GetUsedPortsNum = xpUsedPortsNum, Run = (\<lambda>_. XTCPProxy_Run),
     Close = (\<lambda>_ p rc. map_option snd (XTCPProxy_Close p rc))\<rparr>"

abbreviation nat_names :: "Controller option \<Rightarrow> string set" where
  "nat_names rc \<equiv> (case rc of None \<Rightarrow> {} | Some c \<Rightarrow> dom (clientCfgs c))"

interpretation xtcp: server_proxy xtcp_ops "\<lambda>e p rc. xpUsedPortsNum p = 0" "\<lambda>p. xpUsedPortsNum p = 0" "\<lambda>_. True"
  nat_names "\<lambda>p. {xpName p}"
proof unfold_locales
  fix rc e p a p' rc'
  assume "xpUsedPortsNum p = 0" "Run xtcp_ops e p rc = (Inr a, p', rc')"
  then show "True \<and> xpUsedPortsNum p' = 0 \<and> nat_names rc' = nat_names rc \<union> {xpName p'} \<and> {xpName p'} \<inter> nat_names rc = {} \<and>
      GetName xtcp_ops p' = GetName xtcp_ops p \<and> GetUsedPortsNum xtcp_ops p' = GetUsedPortsNum xtcp_ops p"
    by (auto simp: xtcp_ops_def XTCPProxy_Run_def ListenClient_def Let_def split: option.splits if_splits)
next
  fix rc e p x p' rc'
  assume "Run xtcp_ops e p rc = (Inl x, p', rc')"
  then show "True \<and> nat_names rc' = nat_names rc"
    by (auto simp: xtcp_ops_def XTCPProxy_Run_def ListenClient_def Let_def split: option.splits if_splits)
next
  fix rc and p :: XTCPProxy and e
  assume "{xpName p} \<subseteq> nat_names rc"
  then show "\<exists>rc'. Close xtcp_ops e p rc = Some rc' \<and> True \<and> nat_names rc' = nat_names rc - {xpName p}"
    by (auto simp: xtcp_ops_def XTCPProxy_Close_def CloseClient_def split: option.splits)
qed (simp add: xtcp_ops_def)

end
