(* ===== verification/HTTPS_Proxy.thy ===== *)
theory HTTPS_Proxy
  imports HTTP_Proxy
begin

text \<open>
  Model of the server's HTTPS proxy (\<^verbatim>\<open>server/proxy/https.go\<close>): a listener of the HTTPS muxer for every domain,
  closed again when one fails. Accepting and copying connections is not modelled.
\<close>

section \<open>The proxy\<close>

record HTTPSProxy =
  tlsName :: string
  tlsCustomDomains :: "string list"
  tlsSubDomain :: string
  tlsListeners :: "(addr \<times> Listener) list"
  tlsUsedPortsNum :: int

definition https_domains :: "vhost_cfg \<Rightarrow> HTTPSProxy \<Rightarrow> string list" where
  "https_domains cfg p =
     filter (\<lambda>d. d \<noteq> []) (tlsCustomDomains p) @
     (if tlsSubDomain p \<noteq> [] then [tlsSubDomain p @ ''.'' @ SubDomainHost cfg] else [])"

definition https_listen :: "string \<Rightarrow> Muxer \<Rightarrow> (string, addr \<times> Listener) result \<times> Muxer" where
  "https_listen d v =
     (case Muxer_Listen v \<lparr>mDomain = d, mLocation = [], mRewriteHost = [], mUsername = [], mPassword = [], mRouteByHTTPUser = []\<rparr> of
        (Inl e, v1) \<Rightarrow> (Inl ''router config conflict'', v1)
      | (Inr l, v1) \<Rightarrow> (Inr l, v1))"

definition HTTPSProxy_Close :: "HTTPSProxy \<Rightarrow> Muxer \<Rightarrow> Muxer option" where
  "HTTPSProxy_Close p v = drop_all Listener_Close (tlsListeners p) v"

text \<open>The deferred close after an error cannot panic (\<open>the\<close> is applied to a \<open>Some\<close>, see the interpretation
  below).\<close>

definition HTTPSProxy_Run :: "vhost_cfg \<Rightarrow> HTTPSProxy \<Rightarrow> Muxer \<Rightarrow> (string, string) result \<times> HTTPSProxy \<times> Muxer" where
  "HTTPSProxy_Run cfg p v =
     (case acquire_all https_listen (https_domains cfg p) (tlsListeners p) v of
        (out, ls, v1) \<Rightarrow>
          (let p1 = p\<lparr>tlsListeners := ls\<rparr>
           in case out of
                Inl e \<Rightarrow> (Inl e, p1, the (HTTPSProxy_Close p1 v1))
              | Inr _ \<Rightarrow>
                  (Inr (Join (map (\<lambda>d. CanonicalAddr d (VhostHTTPSPort cfg)) (https_domains cfg p)) '',''), p1, v1)))"

definition https_ops :: "(vhost_cfg, HTTPSProxy, Muxer) proxy_ops" where
  "https_ops = \<lparr>GetName = tlsName, GetUsedPortsNum = tlsUsedPortsNum, Run = HTTPSProxy_Run, Close = (\<lambda>_. HTTPSProxy_Close)\<rparr>"

section \<open>The contract\<close>

text \<open>Listening on a muxer holds the listener itself, which knows its key.\<close>

lemma mux_listen_acquires:
  assumes "mux_inv v" "Muxer_Listen v cfg = (out, v')"
  shows "mux_inv v'" "isl out \<Longrightarrow> ran (mux_routes v') = ran (mux_routes v)"
    "out = Inr al \<Longrightarrow> al \<notin> ran (mux_routes v) \<and> ran (mux_routes v') = insert al (ran (mux_routes v))"
proof -
  show "mux_inv v'" "isl out \<Longrightarrow> ran (mux_routes v') = ran (mux_routes v)" using Muxer_Listen_inv [OF assms] by auto
  assume "out = Inr al"
  with assms have new: "mux_routes v' = (mux_routes v)(listener_key (snd al) \<mapsto> al)" "mux_routes v (listener_key (snd al)) = None"
    using Muxer_Listen_entries [OF assms(1), of cfg al v'] by auto
  moreover have "al \<notin> ran (mux_routes v)"
  proof
    assume "al \<in> ran (mux_routes v)"
    then obtain k where k: "mux_routes v k = Some al" unfolding ran_def by blast
    with mux_invD(3) [OF assms(1) k] new(2) show False by simp
  qed
  ultimately show "al \<notin> ran (mux_routes v) \<and> ran (mux_routes v') = insert al (ran (mux_routes v))" by simp
qed

lemma mux_close_drops:
  assumes "mux_inv v" "al \<in> ran (mux_routes v)"
  shows "\<exists>v'. Listener_Close al v = Some v' \<and> mux_inv v' \<and> ran (mux_routes v') = ran (mux_routes v) - {al}"
proof -
  from assms(2) obtain k where k: "mux_routes v k = Some al" unfolding ran_def by blast
  have key: "listener_key (snd al) = k" using mux_invD(3) [OF assms(1) k] .
  obtain v' where v': "Listener_Close al v = Some v'" "mux_inv v'" "mux_routes v' = (mux_routes v)(k := None)"
    using Listener_Close_listed [OF assms(1), of al] k key by auto
  have "k' = k" if "mux_routes v k' = Some al" for k' using mux_invD(3) [OF assms(1) that] key by simp
  then have "ran (mux_routes v') = ran (mux_routes v) - {al}" unfolding v'(3) by (intro ran_del_unique k)
  with v' show ?thesis by blast
qed

interpretation https_reg: acquisition https_listen Listener_Close "\<lambda>l. l" mux_inv "\<lambda>v. ran (mux_routes v)" "\<lambda>_. True"
proof unfold_locales
  fix v d h v'
  assume inv: "mux_inv v" and "https_listen d v = (Inr h, v')"
  then obtain c where "Muxer_Listen v c = (Inr h, v')" by (auto simp: https_listen_def split: sum.splits prod.splits)
  from mux_listen_acquires [OF inv this] show "mux_inv v' \<and> h \<notin> ran (mux_routes v) \<and> ran (mux_routes v') = insert h (ran (mux_routes v))"
    by auto
next
  fix v d e v'
  assume inv: "mux_inv v" and "https_listen d v = (Inl e, v')"
  then obtain c x where "Muxer_Listen v c = (Inl x, v')" by (auto simp: https_listen_def split: sum.splits prod.splits)
  from mux_listen_acquires [OF inv this] show "mux_inv v' \<and> ran (mux_routes v') = ran (mux_routes v)" by auto
qed (rule mux_close_drops)

definition https_live :: "HTTPSProxy \<Rightarrow> bool" where
  "https_live p \<longleftrightarrow> distinct (tlsListeners p) \<and> tlsUsedPortsNum p = 0"

interpretation https: server_proxy https_ops "\<lambda>cfg p v. tlsListeners p = [] \<and> tlsUsedPortsNum p = 0" https_live mux_inv
  "\<lambda>v. ran (mux_routes v)" "\<lambda>p. set (tlsListeners p)"
proof unfold_locales
  fix v cfg p a p' v'
  assume inv: "mux_inv v" and ready: "tlsListeners p = [] \<and> tlsUsedPortsNum p = 0" and run: "Run https_ops cfg p v = (Inr a, p', v')"
  obtain o1 ls v1 where all: "acquire_all https_listen (https_domains cfg p) [] v = (o1, ls, v1)" by (metis prod_cases3)
  with run ready have "p\<lparr>tlsListeners := ls\<rparr> = p' \<and> v1 = v'"
    by (cases o1) (simp_all add: https_ops_def HTTPSProxy_Run_def Let_def)
  then have eq: "p' = p\<lparr>tlsListeners := ls\<rparr>" "v' = v1" by simp_all
  obtain new where "ls = [] @ new" "mux_inv v1" "distinct (map (\<lambda>l. l) new)" "(\<lambda>l. l) ` set new \<inter> ran (mux_routes v) = {}"
    "ran (mux_routes v1) = ran (mux_routes v) \<union> (\<lambda>l. l) ` set new"
    by (rule https_reg.acquire_all_res [OF inv _ all]) simp_all
  then show "mux_inv v' \<and> https_live p' \<and> ran (mux_routes v') = ran (mux_routes v) \<union> set (tlsListeners p') \<and>
      set (tlsListeners p') \<inter> ran (mux_routes v) = {} \<and> GetName https_ops p' = GetName https_ops p \<and>
      GetUsedPortsNum https_ops p' = GetUsedPortsNum https_ops p"
    using ready by (simp add: eq https_live_def https_ops_def)
next
  fix v cfg p x p' v'
  assume inv: "mux_inv v" and ready: "tlsListeners p = [] \<and> tlsUsedPortsNum p = 0" and run: "Run https_ops cfg p v = (Inl x, p', v')"
  obtain o1 ls v1 where all: "acquire_all https_listen (https_domains cfg p) [] v = (o1, ls, v1)" by (metis prod_cases3)
  with run ready have "v' = the (drop_all Listener_Close ls v1)"
    by (cases o1) (simp_all add: https_ops_def HTTPSProxy_Run_def HTTPSProxy_Close_def)
  with https_reg.acquire_drop [OF inv _ all] show "mux_inv v' \<and> ran (mux_routes v') = ran (mux_routes v)" by fastforce
next
  fix v p cfg
  assume "mux_inv v" "https_live p" "set (tlsListeners p) \<subseteq> ran (mux_routes v)"
  then show "\<exists>v'. Close https_ops cfg p v = Some v' \<and> mux_inv v' \<and> ran (mux_routes v') = ran (mux_routes v) - set (tlsListeners p)"
    using https_reg.drop_all_res [of v "tlsListeners p"] by (simp add: https_ops_def HTTPSProxy_Close_def https_live_def)
qed (simp add: https_ops_def https_live_def)

end
