(* ===== verification/TCPMux_Group.thy ===== *)
theory TCPMux_Group
  imports HTTPS_Proxy
begin

text \<open>
  Model of \<^verbatim>\<open>server/group/tcpmux.go\<close>, load balancing groups of proxies behind one route of the HTTP CONNECT
  muxer, and of \<^verbatim>\<open>pkg/util/tcpmux/httpconnect.go\<close>, which extracts the route of a CONNECT request and checks
  its credentials. Groups and listeners are heaps, as for the TCP groups. The connections that the worker
  passes on are not modelled.
\<close>

section \<open>State\<close>

record TCPMuxGroup =
  mgroup :: string
  mgroupKey :: string
  mdomain :: string
  mrouteByHTTPUser :: string
  musername :: string
  mpassword :: string
  macceptClosed :: bool
  tcpMuxLn :: "(addr \<times> Listener) option"
  mlns :: "addr list"

record TCPMuxGroupListener =
  mlgroupName :: string
  mlgroup :: addr
  mlclosed :: bool

record TCPMuxGroupCtl =
  mgroups :: "addr smap"
  connectMuxer :: Muxer
  mgs :: "TCPMuxGroup list"
  mlisteners :: "TCPMuxGroupListener list"

section \<open>Operations\<close>

definition NewTCPMuxGroupCtl :: "Muxer \<Rightarrow> TCPMuxGroupCtl" where
  "NewTCPMuxGroupCtl v = \<lparr>mgroups = Map.empty, connectMuxer = v, mgs = [], mlisteners = []\<rparr>"

definition NewTCPMuxGroup :: TCPMuxGroup where
  "NewTCPMuxGroup = \<lparr>mgroup = [], mgroupKey = [], mdomain = [], mrouteByHTTPUser = [], musername = [], mpassword = [],
     macceptClosed = False, tcpMuxLn = None, mlns = []\<rparr>"

definition newTCPMuxGroupListener :: "string \<Rightarrow> addr \<Rightarrow> TCPMuxGroupListener" where
  "newTCPMuxGroupListener name gid = \<lparr>mlgroupName = name, mlgroup = gid, mlclosed = False\<rparr>"

text \<open>The first critical section of \<^verbatim>\<open>TCPMuxGroupCtl.Listen\<close>.\<close>

definition TCPMuxGroupCtl_lookup :: "string \<Rightarrow> TCPMuxGroupCtl \<Rightarrow> addr \<times> TCPMuxGroupCtl" where
  "TCPMuxGroupCtl_lookup grp st =
     (case mgroups st grp of
        Some gid \<Rightarrow> (gid, st)
      | None \<Rightarrow>
          (length (mgs st),
           st\<lparr>mgs := mgs st @ [NewTCPMuxGroup], mgroups := (mgroups st)(grp \<mapsto> length (mgs st))\<rparr>))"

definition add_mux_listener :: "addr \<Rightarrow> string \<Rightarrow> TCPMuxGroup \<Rightarrow> TCPMuxGroupCtl \<Rightarrow> TCPMuxGroupCtl" where
  "add_mux_listener gid grp g st =
     st\<lparr>mlisteners := mlisteners st @ [newTCPMuxGroupListener grp gid],
        mgs := (mgs st)[gid := g\<lparr>mlns := mlns g @ [length (mlisteners st)]\<rparr>]\<rparr>"

definition HTTPConnectListen ::
  "addr \<Rightarrow> string \<Rightarrow> string \<Rightarrow> RouteConfig_mux \<Rightarrow> TCPMuxGroupCtl \<Rightarrow> (group_error, addr) result \<times> TCPMuxGroupCtl" where
  "HTTPConnectListen gid grp groupKey rc st =
     (let g = mgs st ! gid; ln = length (mlisteners st)
      in if mlns g = [] then
           (case Muxer_Listen (connectMuxer st) rc of
              (Inl e, v) \<Rightarrow> (Inl RouteConflict, st\<lparr>connectMuxer := v\<rparr>)
            | (Inr al, v) \<Rightarrow>
                (Inr ln,
                 add_mux_listener gid grp
                   (g\<lparr>mgroup := grp, mgroupKey := groupKey, mdomain := mDomain rc, mrouteByHTTPUser := mRouteByHTTPUser rc,
                      musername := mUsername rc, mpassword := mPassword rc, tcpMuxLn := Some al\<rparr>)
                   (st\<lparr>connectMuxer := v\<rparr>)))
         else if mgroup g \<noteq> grp \<or> mdomain g \<noteq> mDomain rc \<or> mrouteByHTTPUser g \<noteq> mRouteByHTTPUser rc \<or>
                 musername g \<noteq> mUsername rc \<or> mpassword g \<noteq> mPassword rc then (Inl ErrGroupParamsInvalid, st)
         else if mgroupKey g \<noteq> groupKey then (Inl ErrGroupAuthFailed, st)
         else (Inr ln, add_mux_listener gid grp g st))"

definition TCPMuxGroupCtl_Listen ::
  "string \<Rightarrow> string \<Rightarrow> string \<Rightarrow> RouteConfig_mux \<Rightarrow> TCPMuxGroupCtl \<Rightarrow> (group_error, addr) result \<times> TCPMuxGroupCtl" where
  "TCPMuxGroupCtl_Listen multiplexer grp groupKey rc st =
     (case TCPMuxGroupCtl_lookup grp st of
        (gid, st1) \<Rightarrow>
          if multiplexer = ''httpconnect'' then HTTPConnectListen gid grp groupKey rc st1
          else (Inl (UnknownMultiplexer multiplexer), st1))"

definition TCPMuxGroupCtl_RemoveGroup :: "string \<Rightarrow> TCPMuxGroupCtl \<Rightarrow> TCPMuxGroupCtl" where
  "TCPMuxGroupCtl_RemoveGroup grp st = st\<lparr>mgroups := (mgroups st)(grp := None)\<rparr>"

text \<open>\<open>None\<close> is a panic: closing a closed channel, or a nil listener.\<close>

definition TCPMuxGroup_CloseListener :: "addr \<Rightarrow> addr \<Rightarrow> TCPMuxGroupCtl \<Rightarrow> TCPMuxGroupCtl option" where
  "TCPMuxGroup_CloseListener gid ln st =
     (let g = (mgs st ! gid)\<lparr>mlns := remove1 ln (mlns (mgs st ! gid))\<rparr>
      in if mlns g = [] then
           (if macceptClosed g then None
            else (case tcpMuxLn g of
                    None \<Rightarrow> None
                  | Some al \<Rightarrow>
                      (case Listener_Close al (connectMuxer st) of
                         None \<Rightarrow> None
                       | Some v \<Rightarrow>
                           Some (TCPMuxGroupCtl_RemoveGroup (mgroup g)
                             (st\<lparr>mgs := (mgs st)[gid := g\<lparr>macceptClosed := True\<rparr>], connectMuxer := v\<rparr>)))))
         else Some (st\<lparr>mgs := (mgs st)[gid := g]\<rparr>))"

definition TCPMuxGroupListener_Close :: "addr \<Rightarrow> TCPMuxGroupCtl \<Rightarrow> TCPMuxGroupCtl option" where
  "TCPMuxGroupListener_Close ln st =
     (let l = mlisteners st ! ln
      in if mlclosed l then None
         else TCPMuxGroup_CloseListener (mlgroup l) ln
                (st\<lparr>mlisteners := (mlisteners st)[ln := l\<lparr>mlclosed := True\<rparr>]\<rparr>))"

definition TCPMuxGroupListener_Accept :: "bool \<Rightarrow> 'c option option \<Rightarrow> 'c accept_outcome" where
  "TCPMuxGroupListener_Accept prefer_close recv =
     (if prefer_close then AcceptErr ErrListenerClosed
      else (case recv of
          None \<Rightarrow> accept_outcome.AcceptBlocks
        | Some None \<Rightarrow> AcceptErr ErrListenerClosed
        | Some (Some c) \<Rightarrow> AcceptConn c))"

section \<open>The CONNECT muxer\<close>

text \<open>What \<^verbatim>\<open>http.ReadRequest\<close> yields (\<open>None\<close> on a malformed request): method, host and the header
  \<^verbatim>\<open>Proxy-Authorization\<close>.\<close>

definition readHTTPConnectRequest ::
  "(string \<Rightarrow> string option) \<Rightarrow> (string \<times> string \<times> string) option \<Rightarrow> (string, string \<times> string \<times> string) result" where
  "readHTTPConnectRequest b64_decode req =
     (case req of
        None \<Rightarrow> Inl ''malformed HTTP request''
      | Some (meth, host, proxyAuth) \<Rightarrow>
          if meth \<noteq> ''CONNECT'' then Inl ''connections to tcp vhost must be of method CONNECT''
          else
            (let (user, pwd) = (if proxyAuth \<noteq> [] then (case ParseBasicAuth b64_decode proxyAuth of
                                                           None \<Rightarrow> ([], []) | Some up \<Rightarrow> up)
                                else ([], []))
             in Inr (fst (CanonicalHost host), user, pwd)))"

definition connect_auth :: "string \<Rightarrow> string \<Rightarrow> string \<Rightarrow> string \<Rightarrow> bool" where
  "connect_auth reqUser reqPwd username password \<longleftrightarrow> username = reqUser \<and> password = reqPwd"

text \<open>
  A connection to the CONNECT port, from \<^verbatim>\<open>getHostFromHTTPConnect\<close> through \<^verbatim>\<open>Muxer.handle\<close>. The success hook,
  which answers 200 unless the muxer passes the request through, comes before the check of the
  credentials. The second component says whether that answer was sent.
\<close>

definition connect_handle ::
  "(string \<Rightarrow> string option) \<Rightarrow> bool \<Rightarrow> bool \<Rightarrow> (string \<times> string \<times> string) option \<Rightarrow> Muxer \<Rightarrow> mux_outcome \<times> bool" where
  "connect_handle b64_decode passthrough write_ok req v =
     (case readHTTPConnectRequest b64_decode req of
        Inl _ \<Rightarrow> (MuxClosed, False)
      | Inr (host, user, pwd) \<Rightarrow>
          (Muxer_handle v True (Some (host, [], user)) (Some (passthrough \<or> write_ok)) (Some (connect_auth user pwd)) True,
           \<not> passthrough \<and> write_ok \<and> Muxer_getListener v (ToLower host) [] user \<noteq> None))"

section \<open>Invariant\<close>

abbreviation tm_routes :: "TCPMuxGroupCtl \<Rightarrow> route_key \<rightharpoonup> addr \<times> Listener" where
  "tm_routes st \<equiv> mux_routes (connectMuxer st)"

text \<open>An open group is the one registered under its name, its listener is one of the muxer, and it lists exactly its
  open members; two open groups have different listeners.\<close>

definition tm_group_ok :: "TCPMuxGroupCtl \<Rightarrow> addr \<Rightarrow> bool" where
  "tm_group_ok st gid \<longleftrightarrow>
     (let g = mgs st ! gid in
        distinct (mlns g) \<and>
        (mlns g \<noteq> [] \<longrightarrow> mgroups st (mgroup g) = Some gid \<and> \<not> macceptClosed g \<and>
           (\<exists>al \<in> ran (tm_routes st). tcpMuxLn g = Some al)) \<and>
        (\<forall>ln \<in> set (mlns g). ln < length (mlisteners st) \<and> mlgroup (mlisteners st ! ln) = gid \<and>
           \<not> mlclosed (mlisteners st ! ln)))"

definition tm_inv :: "TCPMuxGroupCtl \<Rightarrow> bool" where
  "tm_inv st \<longleftrightarrow>
     mux_inv (connectMuxer st) \<and>
     (\<forall>n gid. mgroups st n = Some gid \<longrightarrow> gid < length (mgs st) \<and> \<not> macceptClosed (mgs st ! gid)) \<and>
     (\<forall>n m gid. mgroups st n = Some gid \<and> mgroups st m = Some gid \<longrightarrow> n = m) \<and>
     (\<forall>gid < length (mgs st). tm_group_ok st gid) \<and>
     (\<forall>g < length (mgs st). \<forall>h < length (mgs st).
        g \<noteq> h \<and> mlns (mgs st ! g) \<noteq> [] \<and> mlns (mgs st ! h) \<noteq> [] \<longrightarrow> tcpMuxLn (mgs st ! g) \<noteq> tcpMuxLn (mgs st ! h)) \<and>
     (\<forall>ln < length (mlisteners st). \<not> mlclosed (mlisteners st ! ln) \<longrightarrow>
        mlgroup (mlisteners st ! ln) < length (mgs st) \<and>
        ln \<in> set (mlns (mgs st ! mlgroup (mlisteners st ! ln))))"

lemma tm_invD:
  assumes "tm_inv st"
  shows "mux_inv (connectMuxer st)"
    "mgroups st n = Some gid \<Longrightarrow> gid < length (mgs st)"
    "mgroups st n = Some gid \<Longrightarrow> \<not> macceptClosed (mgs st ! gid)"
    "mgroups st n = Some gid \<Longrightarrow> mgroups st m = Some gid \<Longrightarrow> n = m"
    "gid < length (mgs st) \<Longrightarrow> tm_group_ok st gid"
    "g < length (mgs st) \<Longrightarrow> h < length (mgs st) \<Longrightarrow> g \<noteq> h \<Longrightarrow> mlns (mgs st ! g) \<noteq> [] \<Longrightarrow>
       mlns (mgs st ! h) \<noteq> [] \<Longrightarrow> tcpMuxLn (mgs st ! g) \<noteq> tcpMuxLn (mgs st ! h)"
    "ln < length (mlisteners st) \<Longrightarrow> \<not> mlclosed (mlisteners st ! ln) \<Longrightarrow>
       mlgroup (mlisteners st ! ln) < length (mgs st) \<and> ln \<in> set (mlns (mgs st ! mlgroup (mlisteners st ! ln)))"
proof -
  show "mgroups st n = Some gid \<Longrightarrow> mgroups st m = Some gid \<Longrightarrow> n = m" using assms unfolding tm_inv_def by metis
qed (use assms in \<open>simp_all add: tm_inv_def\<close>)

lemma tm_invI:
  assumes "mux_inv (connectMuxer st)"
    "\<And>n gid. mgroups st n = Some gid \<Longrightarrow> gid < length (mgs st) \<and> \<not> macceptClosed (mgs st ! gid)"
    "\<And>n m gid. mgroups st n = Some gid \<Longrightarrow> mgroups st m = Some gid \<Longrightarrow> n = m"
    "\<And>gid. gid < length (mgs st) \<Longrightarrow> tm_group_ok st gid"
    "\<And>g h. g < length (mgs st) \<Longrightarrow> h < length (mgs st) \<Longrightarrow> g \<noteq> h \<Longrightarrow> mlns (mgs st ! g) \<noteq> [] \<Longrightarrow>
       mlns (mgs st ! h) \<noteq> [] \<Longrightarrow> tcpMuxLn (mgs st ! g) \<noteq> tcpMuxLn (mgs st ! h)"
    "\<And>ln. ln < length (mlisteners st) \<Longrightarrow> \<not> mlclosed (mlisteners st ! ln) \<Longrightarrow>
       mlgroup (mlisteners st ! ln) < length (mgs st) \<and> ln \<in> set (mlns (mgs st ! mlgroup (mlisteners st ! ln)))"
  shows "tm_inv st"
  unfolding tm_inv_def
proof (intro conjI)
  show "\<forall>n gid. mgroups st n = Some gid \<longrightarrow> gid < length (mgs st) \<and> \<not> macceptClosed (mgs st ! gid)"
    using assms(2) by simp
  show "\<forall>n m gid. mgroups st n = Some gid \<and> mgroups st m = Some gid \<longrightarrow> n = m" using assms(3) by blast
  show "\<forall>gid < length (mgs st). tm_group_ok st gid" using assms(4) by simp
  show "\<forall>g < length (mgs st). \<forall>h < length (mgs st).
      g \<noteq> h \<and> mlns (mgs st ! g) \<noteq> [] \<and> mlns (mgs st ! h) \<noteq> [] \<longrightarrow> tcpMuxLn (mgs st ! g) \<noteq> tcpMuxLn (mgs st ! h)"
    using assms(5) by simp
  show "\<forall>ln < length (mlisteners st). \<not> mlclosed (mlisteners st ! ln) \<longrightarrow>
      mlgroup (mlisteners st ! ln) < length (mgs st) \<and> ln \<in> set (mlns (mgs st ! mlgroup (mlisteners st ! ln)))"
    using assms(6) by simp
qed (rule assms(1))

lemma tm_group_okD:
  assumes "tm_group_ok st gid"
  shows "distinct (mlns (mgs st ! gid))"
    "mlns (mgs st ! gid) \<noteq> [] \<Longrightarrow> mgroups st (mgroup (mgs st ! gid)) = Some gid"
    "mlns (mgs st ! gid) \<noteq> [] \<Longrightarrow> \<exists>al \<in> ran (tm_routes st). tcpMuxLn (mgs st ! gid) = Some al"
    "mlns (mgs st ! gid) \<noteq> [] \<Longrightarrow> \<not> macceptClosed (mgs st ! gid)"
    "ln \<in> set (mlns (mgs st ! gid)) \<Longrightarrow> ln < length (mlisteners st)"
    "ln \<in> set (mlns (mgs st ! gid)) \<Longrightarrow> mlgroup (mlisteners st ! ln) = gid"
    "ln \<in> set (mlns (mgs st ! gid)) \<Longrightarrow> \<not> mlclosed (mlisteners st ! ln)"
  using assms unfolding tm_group_ok_def Let_def by blast+

lemma tm_inv_new: "mux_inv v \<Longrightarrow> tm_inv (NewTCPMuxGroupCtl v)"
  by (simp add: tm_inv_def NewTCPMuxGroupCtl_def)

text \<open>A change of the muxer that keeps the listeners of the open groups.\<close>

lemma tm_inv_muxer:
  assumes inv: "tm_inv st" and v: "mux_inv v"
    and keep: "\<And>gid al. gid < length (mgs st) \<Longrightarrow> mlns (mgs st ! gid) \<noteq> [] \<Longrightarrow> tcpMuxLn (mgs st ! gid) = Some al \<Longrightarrow>
      al \<in> ran (tm_routes st) \<Longrightarrow> al \<in> ran (mux_routes v)"
  shows "tm_inv (st\<lparr>connectMuxer := v\<rparr>)"
proof (rule tm_invI, goal_cases)
  case (4 gid)
  then have gid: "gid < length (mgs st)" by simp
  note ok = tm_group_okD [OF tm_invD(5) [OF inv gid]]
  have "\<exists>al \<in> ran (mux_routes v). tcpMuxLn (mgs st ! gid) = Some al" if "mlns (mgs st ! gid) \<noteq> []"
    using ok(3) [OF that] keep [OF gid that] by blast
  with ok show ?case by (simp add: tm_group_ok_def Let_def)
qed (use tm_invD [OF inv] v in simp_all)

lemma tm_inv_lookup:
  assumes "tm_inv st" "TCPMuxGroupCtl_lookup grp st = (gid, st')"
  shows "tm_inv st'" "mgroups st' grp = Some gid" "connectMuxer st' = connectMuxer st" "mlisteners st' = mlisteners st"
    "length (mgs st) \<le> length (mgs st')" "\<And>h. h < length (mgs st) \<Longrightarrow> mgs st' ! h = mgs st ! h"
    "\<And>h. h < length (mgs st') \<Longrightarrow> mlns (mgs st' ! h) \<noteq> [] \<Longrightarrow> h < length (mgs st)"
proof -
  show "mgroups st' grp = Some gid" "connectMuxer st' = connectMuxer st" "mlisteners st' = mlisteners st"
    "length (mgs st) \<le> length (mgs st')" "\<And>h. h < length (mgs st) \<Longrightarrow> mgs st' ! h = mgs st ! h"
    "\<And>h. h < length (mgs st') \<Longrightarrow> mlns (mgs st' ! h) \<noteq> [] \<Longrightarrow> h < length (mgs st)"
    using assms(2)
    by (auto simp: TCPMuxGroupCtl_lookup_def nth_append NewTCPMuxGroup_def less_Suc_eq split: option.splits if_splits)
  show "tm_inv st'"
  proof (cases "mgroups st grp")
    case (Some g)
    with assms show ?thesis by (simp add: TCPMuxGroupCtl_lookup_def)
  next
    case None
    note D = tm_invD [OF assms(1)]
    have fresh: "mgroups st n \<noteq> Some (length (mgs st))" for n using D(2) [of n "length (mgs st)"] by auto
    have st': "mgs st' = mgs st @ [NewTCPMuxGroup]" "mgroups st' = (mgroups st)(grp \<mapsto> length (mgs st))"
      "connectMuxer st' = connectMuxer st" "mlisteners st' = mlisteners st"
      using None assms(2) by (auto simp: TCPMuxGroupCtl_lookup_def)
    show ?thesis
    proof (rule tm_invI, goal_cases)
      case 1 show ?case using D(1) st' by simp
    next
      case (2 n g)
      then show ?case using D(2,3) [of n g] st' by (auto simp: nth_append NewTCPMuxGroup_def split: if_splits)
    next
      case (3 n m g)
      then show ?case using D(4) fresh st' by (auto split: if_splits)
    next
      case (4 g)
      show ?case
      proof (cases "g < length (mgs st)")
        case True
        have "mgroups st' (mgroup (mgs st ! g)) = Some g" if "mlns (mgs st ! g) \<noteq> []"
          using tm_group_okD(2) [OF D(5) [OF True] that] st' None by auto
        with True D(5) [OF True] st' show ?thesis by (simp add: tm_group_ok_def Let_def nth_append)
      next
        case False
        with 4 st' show ?thesis by (simp add: tm_group_ok_def Let_def NewTCPMuxGroup_def less_Suc_eq)
      qed
    next
      case (5 g h)
      then show ?case using D(6) [of g h] st' by (auto simp: nth_append NewTCPMuxGroup_def less_Suc_eq split: if_splits)
    next
      case (6 ln)
      then show ?case using D(7) [of ln] st' by (auto simp: nth_append)
    qed
  qed
qed

lemma tm_inv_add:
  assumes inv: "tm_inv st" and gid: "mgroups st grp = Some gid"
    and g: "mlns g = mlns (mgs st ! gid)" "mgroup g = grp" "macceptClosed g = macceptClosed (mgs st ! gid)"
      "tcpMuxLn g = Some al" "al \<in> ran (tm_routes st)"
    and other: "\<And>h. h < length (mgs st) \<Longrightarrow> h \<noteq> gid \<Longrightarrow> mlns (mgs st ! h) \<noteq> [] \<Longrightarrow> tcpMuxLn (mgs st ! h) \<noteq> Some al"
  shows "tm_inv (add_mux_listener gid grp g st)" (is "tm_inv ?st")
proof -
  note D = tm_invD [OF inv]
  note gl = D(2) [OF gid] and ok = tm_group_okD [OF D(5) [OF D(2) [OF gid]]]
  have st: "mgs ?st = (mgs st)[gid := g\<lparr>mlns := mlns (mgs st ! gid) @ [length (mlisteners st)]\<rparr>]"
    "mgroups ?st = mgroups st" "connectMuxer ?st = connectMuxer st"
    "mlisteners ?st = mlisteners st @ [newTCPMuxGroupListener grp gid]"
    using g(1) by (simp_all add: add_mux_listener_def)
  show ?thesis
  proof (rule tm_invI, goal_cases)
    case 1 show ?case using D(1) st by simp
  next
    case (2 n h)
    then show ?case using D(2,3) [of n h] D(3) [OF gid] g(3) gl st by (auto simp: nth_list_update)
  next
    case (3 n m h)
    then show ?case using D(4) st by simp
  next
    case (4 h)
    show ?case
    proof (cases "h = gid")
      case True
      have "length (mlisteners st) \<notin> set (mlns (mgs st ! gid))" using ok(5) by blast
      with True ok(1,5,6,7) D(3) [OF gid] gl gid g(2-5) st show ?thesis
        by (auto simp: tm_group_ok_def Let_def nth_append newTCPMuxGroupListener_def less_SucI)
    next
      case False
      with 4 st have "h < length (mgs st)" by simp
      from tm_group_okD [OF D(5) [OF this]] False st show ?thesis
        by (auto simp: tm_group_ok_def Let_def nth_append less_SucI)
    qed
  next
    case (5 a b)
    then show ?case using D(6) [of a b] other [of a] other [of b] st gl g(4)
      by (auto simp: nth_list_update split: if_splits)
  next
    case (6 ln)
    show ?case
    proof (cases "ln < length (mlisteners st)")
      case True
      with 6 D(7) [of ln] st gl show ?thesis by (auto simp: nth_append nth_list_update)
    next
      case False
      with 6 gl st show ?thesis by (auto simp: nth_append newTCPMuxGroupListener_def less_Suc_eq)
    qed
  qed
qed

text \<open>Closing the last member, and closing one of several.\<close>

lemma tm_inv_close_last:
  assumes inv: "tm_inv st" and gl: "gid < length (mgs st)" and ln: "ln < length (mlisteners st)"
    and last: "mlns (mgs st ! gid) = [ln]" and al: "tcpMuxLn (mgs st ! gid) = Some al"
    and v: "mux_inv v" "ran (mux_routes v) = ran (tm_routes st) - {al}"
    and st': "mgroups st' = (mgroups st)(mgroup (mgs st ! gid) := None)" "connectMuxer st' = v"
      "mgs st' = (mgs st)[gid := g']" "mlns g' = []"
      "mlisteners st' = (mlisteners st)[ln := (mlisteners st ! ln)\<lparr>mlclosed := True\<rparr>]"
  shows "tm_inv st'"
proof -
  note D = tm_invD [OF inv] and ok = tm_group_okD [OF tm_invD(5) [OF inv gl]]
  have ne: "mlns (mgs st ! gid) \<noteq> []" and lg: "mlgroup (mlisteners st ! ln) = gid" using last ok(6) [of ln] by auto
  have only: "mgroups st' n \<noteq> Some gid" for n using D(4) [OF ok(2) [OF ne], of n] st'(1) by auto
  show ?thesis
  proof (rule tm_invI, goal_cases)
    case 1 show ?case using v(1) st' by simp
  next
    case (2 n g)
    then have "mgroups st n = Some g" using st' by (auto split: if_splits)
    with 2 D(2,3) [of n g] only [of n] st' gl show ?case by (auto simp: nth_list_update)
  next
    case (3 n m g)
    then show ?case using D(4) st' by (auto split: if_splits)
  next
    case (4 g)
    show ?case
    proof (cases "g = gid")
      case False
      with 4 st' have g: "g < length (mgs st)" by simp
      note okg = tm_group_okD [OF D(5) [OF g]]
      have "mgroups st' (mgroup (mgs st ! g)) = Some g \<and> (\<exists>al \<in> ran (tm_routes st'). tcpMuxLn (mgs st ! g) = Some al)"
        if neg: "mlns (mgs st ! g) \<noteq> []"
      proof -
        from okg(3) [OF neg] obtain bl where bl: "bl \<in> ran (tm_routes st)" "tcpMuxLn (mgs st ! g) = Some bl" by blast
        with D(6) [OF g gl False neg ne] al have "bl \<in> ran (tm_routes st')" unfolding st'(2) v(2) by simp
        moreover have "mgroup (mgs st ! g) \<noteq> mgroup (mgs st ! gid)" using okg(2) [OF neg] ok(2) [OF ne] False by auto
        ultimately show ?thesis using okg(2) [OF neg] bl(2) unfolding st'(1) by simp
      qed
      moreover have "l \<noteq> ln" if "l \<in> set (mlns (mgs st ! g))" for l using okg(6) [OF that] False lg by auto
      ultimately show ?thesis using False okg(1,4,5,6,7) st' ln
        by (auto simp: tm_group_ok_def Let_def nth_list_update)
    qed (use gl st' in \<open>simp add: tm_group_ok_def\<close>)
  next
    case (5 g h)
    then show ?case using D(6) [of g h] st' gl by (auto simp: nth_list_update split: if_splits)
  next
    case (6 l)
    then have "l \<noteq> ln" using ln st' by auto
    with 6 D(7) [of l] st' last gl show ?case by (auto simp: nth_list_update)
  qed
qed

lemma tm_inv_close_more:
  assumes inv: "tm_inv st" and gl: "gid < length (mgs st)" and ln: "ln < length (mlisteners st)"
    and mem: "ln \<in> set (mlns (mgs st ! gid))" and more: "remove1 ln (mlns (mgs st ! gid)) \<noteq> []"
    and st': "st' = st\<lparr>mlisteners := (mlisteners st)[ln := (mlisteners st ! ln)\<lparr>mlclosed := True\<rparr>],
      mgs := (mgs st)[gid := (mgs st ! gid)\<lparr>mlns := remove1 ln (mlns (mgs st ! gid))\<rparr>]\<rparr>"
  shows "tm_inv st'"
proof -
  note D = tm_invD [OF inv] and ok = tm_group_okD [OF tm_invD(5) [OF inv gl]]
  have ne: "mlns (mgs st ! gid) \<noteq> []" using mem by auto
  have rem: "l \<in> set (remove1 ln (mlns (mgs st ! gid))) \<longleftrightarrow> l \<in> set (mlns (mgs st ! gid)) \<and> l \<noteq> ln" for l
    using ok(1) by (simp add: distinct_set_remove1)
  show ?thesis
  proof (rule tm_invI, goal_cases)
    case 1 show ?case using D(1) st' by simp
  next
    case (2 n g)
    then show ?case using D(2,3) [of n g] gl st' by (auto simp: nth_list_update)
  next
    case (3 n m g)
    then show ?case using D(4) st' by simp
  next
    case (4 g)
    then have g: "g < length (mgs st)" using st' by simp
    note okg = tm_group_okD [OF D(5) [OF g]]
    show ?case
    proof (cases "g = gid")
      case True
      with gl ok(1) ok(2-4) [OF ne] ok(5-7) ln st' show ?thesis
        by (auto simp: tm_group_ok_def Let_def nth_list_update rem)
    next
      case False
      have "l \<noteq> ln" if "l \<in> set (mlns (mgs st ! g))" for l using okg(6) [OF that] False ok(6) [OF mem] by auto
      with False okg ln st' show ?thesis by (auto simp: tm_group_ok_def Let_def nth_list_update)
    qed
  next
    case (5 g h)
    then show ?case using D(6) [of g h] ne gl st' by (auto simp: nth_list_update split: if_splits)
  next
    case (6 l)
    then have "l \<noteq> ln" using ln st' by auto
    with 6 D(7) [of l] gl ln st' show ?case by (auto simp: nth_list_update rem)
  qed
qed

section \<open>What proxies hold\<close>

text \<open>A listener of the muxer that serves no group, or an open member of a group.\<close>

datatype tcpmux_key = MuxRoute "addr \<times> Listener" | MuxMember addr

definition tm_backing :: "TCPMuxGroupCtl \<Rightarrow> (addr \<times> Listener) set" where
  "tm_backing st = {al. \<exists>gid < length (mgs st). mlns (mgs st ! gid) \<noteq> [] \<and> tcpMuxLn (mgs st ! gid) = Some al}"

definition open_members :: "TCPMuxGroupListener list \<Rightarrow> addr set" where
  "open_members ls = {ln. ln < length ls \<and> \<not> mlclosed (ls ! ln)}"

definition tm_held :: "TCPMuxGroupCtl \<Rightarrow> tcpmux_key set" where
  "tm_held st = MuxRoute ` (ran (tm_routes st) - tm_backing st) \<union> MuxMember ` open_members (mlisteners st)"

lemma tm_backing_routes: "tm_inv st \<Longrightarrow> tm_backing st \<subseteq> ran (tm_routes st)"
proof
  fix al assume inv: "tm_inv st" and "al \<in> tm_backing st"
  then obtain gid where gid: "gid < length (mgs st)" "mlns (mgs st ! gid) \<noteq> []" "tcpMuxLn (mgs st ! gid) = Some al"
    unfolding tm_backing_def by blast
  from tm_group_okD(3) [OF tm_invD(5) [OF inv gid(1)] gid(2)] gid(3) show "al \<in> ran (tm_routes st)" by (metis option.inject)
qed

lemma tm_held_lookup:
  assumes "tm_inv st" "TCPMuxGroupCtl_lookup grp st = (gid, st')"
  shows "tm_held st' = tm_held st"
proof -
  note L = tm_inv_lookup [OF assms]
  have "h < length (mgs st') \<and> mlns (mgs st' ! h) \<noteq> [] \<and> tcpMuxLn (mgs st' ! h) = Some al \<longleftrightarrow>
      h < length (mgs st) \<and> mlns (mgs st ! h) \<noteq> [] \<and> tcpMuxLn (mgs st ! h) = Some al" for h al
  proof (cases "h < length (mgs st)")
    case True
    with L(5) L(6) [OF True] show ?thesis by simp
  next
    case False
    with L(7) [of h] show ?thesis by blast
  qed
  then have "tm_backing st' = tm_backing st" unfolding tm_backing_def by simp
  then show ?thesis unfolding tm_held_def L(3,4) by simp
qed

text \<open>The backing listeners after one group object was replaced.\<close>

lemma tm_backing_update:
  assumes "gid < length (mgs st)" "mgs st' = (mgs st)[gid := g]"
    and "\<And>h al. h < length (mgs st) \<Longrightarrow> h \<noteq> gid \<Longrightarrow> mlns (mgs st ! h) \<noteq> [] \<Longrightarrow> tcpMuxLn (mgs st ! h) = Some al \<Longrightarrow>
      al \<notin> own"
    and "\<And>al. mlns (mgs st ! gid) \<noteq> [] \<Longrightarrow> tcpMuxLn (mgs st ! gid) = Some al \<Longrightarrow> al \<in> own"
  shows "tm_backing st' = (tm_backing st - own) \<union> {al. mlns g \<noteq> [] \<and> tcpMuxLn g = Some al}"
proof (intro set_eqI iffI)
  fix al assume "al \<in> tm_backing st'"
  then obtain h where h: "h < length (mgs st)" "mlns (mgs st' ! h) \<noteq> []" "tcpMuxLn (mgs st' ! h) = Some al"
    unfolding tm_backing_def using assms(2) by auto
  show "al \<in> (tm_backing st - own) \<union> {al. mlns g \<noteq> [] \<and> tcpMuxLn g = Some al}"
  proof (cases "h = gid")
    case False
    with h assms(2) have "mlns (mgs st ! h) \<noteq> []" "tcpMuxLn (mgs st ! h) = Some al" by simp_all
    with h(1) assms(3) [OF h(1) False] show ?thesis unfolding tm_backing_def by blast
  qed (use h assms(1,2) in simp)
next
  fix al assume "al \<in> (tm_backing st - own) \<union> {al. mlns g \<noteq> [] \<and> tcpMuxLn g = Some al}"
  then show "al \<in> tm_backing st'"
  proof
    assume "al \<in> tm_backing st - own"
    then obtain h where h: "h < length (mgs st)" "mlns (mgs st ! h) \<noteq> []" "tcpMuxLn (mgs st ! h) = Some al" "al \<notin> own"
      unfolding tm_backing_def by blast
    with assms(4) have "h \<noteq> gid" by blast
    with h assms(2) show ?thesis unfolding tm_backing_def by (intro CollectI exI [of _ h]) simp
  qed (use assms(1,2) in \<open>unfold tm_backing_def, intro CollectI exI [of _ gid], simp\<close>)
qed

lemma open_members_snoc:
  "open_members (ls @ [newTCPMuxGroupListener grp gid]) = insert (length ls) (open_members ls)" "length ls \<notin> open_members ls"
  by (auto simp: open_members_def nth_append newTCPMuxGroupListener_def less_Suc_eq)

lemma open_members_close:
  "ln < length ls \<Longrightarrow> open_members (ls[ln := (ls ! ln)\<lparr>mlclosed := True\<rparr>]) = open_members ls - {ln}"
  by (auto simp: open_members_def nth_list_update)

lemma tm_held_member:
  "MuxMember ` insert ln A = insert (MuxMember ln) (MuxMember ` A)" "MuxMember ` (A - {ln}) = MuxMember ` A - {MuxMember ln}"
  by auto

text \<open>Joining or opening a group.\<close>

lemma HTTPConnectListen_step:
  assumes inv: "tm_inv st" and gid: "mgroups st grp = Some gid" and run: "HTTPConnectListen gid grp key rc st = (out, st')"
  shows "tm_inv st' \<and> (case out of Inl _ \<Rightarrow> tm_held st' = tm_held st
    | Inr ln \<Rightarrow> MuxMember ln \<notin> tm_held st \<and> tm_held st' = insert (MuxMember ln) (tm_held st))"
proof (cases "mlns (mgs st ! gid) = []")
  case True
  note D = tm_invD [OF inv] and bk = tm_backing_routes [OF inv]
  obtain o1 v where lst: "Muxer_Listen (connectMuxer st) rc = (o1, v)" by fastforce
  note M = mux_listen_acquires [OF D(1) lst]
  have routes: "ran (tm_routes st) \<subseteq> ran (mux_routes v)" using M(2,3) by (cases o1) auto
  have inv1: "tm_inv (st\<lparr>connectMuxer := v\<rparr>)" using tm_inv_muxer [OF inv M(1)] routes by blast
  show ?thesis
  proof (cases o1)
    case (Inl e)
    with True run lst have "out = Inl RouteConflict" "st' = st\<lparr>connectMuxer := v\<rparr>" by (simp_all add: HTTPConnectListen_def)
    with inv1 M(2) Inl show ?thesis by (simp add: tm_held_def tm_backing_def)
  next
    case (Inr al)
    note new = M(3) [OF Inr]
    let ?g = "(mgs st ! gid)\<lparr>mgroup := grp, mgroupKey := key, mdomain := mDomain rc, mrouteByHTTPUser := mRouteByHTTPUser rc,
                      musername := mUsername rc, mpassword := mPassword rc, tcpMuxLn := Some al\<rparr>"
    have out: "out = Inr (length (mlisteners st))" and st': "st' = add_mux_listener gid grp ?g (st\<lparr>connectMuxer := v\<rparr>)"
      using True run lst Inr by (simp_all add: HTTPConnectListen_def Let_def)
    have other: "tcpMuxLn (mgs st ! h) \<noteq> Some al" if "h < length (mgs st)" "mlns (mgs st ! h) \<noteq> []" for h
    proof
      assume "tcpMuxLn (mgs st ! h) = Some al"
      with that have "al \<in> tm_backing st" unfolding tm_backing_def by blast
      with bk new show False by blast
    qed
    have "tm_inv st'" unfolding st'
      by (rule tm_inv_add [OF inv1, where al = al]) (use gid new other True in simp_all)
    moreover have "tm_backing st' = (tm_backing st - {}) \<union> {al'. mlns (?g\<lparr>mlns := [length (mlisteners st)]\<rparr>) \<noteq> [] \<and>
        tcpMuxLn (?g\<lparr>mlns := [length (mlisteners st)]\<rparr>) = Some al'}"
      by (rule tm_backing_update [OF D(2) [OF gid]]) (use True in \<open>simp_all add: st' add_mux_listener_def\<close>)
    then have "tm_backing st' = insert al (tm_backing st)" by simp
    moreover have "connectMuxer st' = v" "mlisteners st' = mlisteners st @ [newTCPMuxGroupListener grp gid]"
      by (simp_all add: st' add_mux_listener_def)
    moreover have "insert al (ran (tm_routes st)) - insert al (tm_backing st) = ran (tm_routes st) - tm_backing st"
      using new bk by blast
    ultimately show ?thesis using new unfolding out tm_held_def
      by (simp add: open_members_snoc tm_held_member image_iff)
  qed
next
  case False
  note D = tm_invD [OF inv] and ok = tm_group_okD [OF tm_invD(5) [OF inv tm_invD(2) [OF inv gid]]]
  let ?g = "mgs st ! gid"
  show ?thesis
  proof (cases "mgroup ?g = grp \<and> out = Inr (length (mlisteners st)) \<and> st' = add_mux_listener gid grp ?g st")
    case True
    obtain al where al: "al \<in> ran (tm_routes st)" "tcpMuxLn ?g = Some al" using ok(3) [OF False] by blast
    have "tm_inv (add_mux_listener gid grp ?g st)"
      by (rule tm_inv_add [OF inv gid, where al = al]) (use True al D(6) [of _ gid] False D(2) [OF gid] in auto)
    then have "tm_inv st'" using True by simp
    moreover have "tm_backing st' = (tm_backing st - {al}) \<union> {al'. mlns (?g\<lparr>mlns := mlns ?g @ [length (mlisteners st)]\<rparr>) \<noteq> [] \<and>
        tcpMuxLn (?g\<lparr>mlns := mlns ?g @ [length (mlisteners st)]\<rparr>) = Some al'}"
      by (rule tm_backing_update [OF D(2) [OF gid]])
        (use True al D(6) [of _ gid] False D(2) [OF gid] in \<open>auto simp: add_mux_listener_def\<close>)
    moreover have "al \<in> tm_backing st" using al False D(2) [OF gid] unfolding tm_backing_def by blast
    ultimately have "tm_inv st'" "tm_backing st' = tm_backing st" using al(2) by (auto simp: insert_absorb)
    then show ?thesis using True unfolding tm_held_def
      by (simp add: add_mux_listener_def open_members_snoc tm_held_member image_iff)
  next
    case other: False
    with run False have "isl out" "st' = st" by (auto simp: HTTPConnectListen_def Let_def split: if_splits)
    with inv show ?thesis by (cases out) auto
  qed
qed

lemma TCPMuxGroupCtl_Listen_step:
  assumes inv: "tm_inv st" and run: "TCPMuxGroupCtl_Listen m grp key rc st = (out, st')"
  shows "tm_inv st' \<and> (case out of Inl _ \<Rightarrow> tm_held st' = tm_held st
    | Inr ln \<Rightarrow> MuxMember ln \<notin> tm_held st \<and> tm_held st' = insert (MuxMember ln) (tm_held st))"
proof -
  obtain gid s where lk: "TCPMuxGroupCtl_lookup grp st = (gid, s)" by fastforce
  note L = tm_inv_lookup(1,2) [OF inv lk] and held = tm_held_lookup [OF inv lk]
  show ?thesis
  proof (cases "m = ''httpconnect''")
    case True
    with run lk have "HTTPConnectListen gid grp key rc s = (out, st')" by (simp add: TCPMuxGroupCtl_Listen_def)
    from HTTPConnectListen_step [OF L this] show ?thesis unfolding held .
  next
    case False
    with run lk L held show ?thesis by (auto simp: TCPMuxGroupCtl_Listen_def)
  qed
qed

text \<open>Closing a member.\<close>

lemma TCPMuxGroupListener_Close_step:
  assumes inv: "tm_inv st" and ln: "ln < length (mlisteners st)" "\<not> mlclosed (mlisteners st ! ln)"
  obtains st' where "TCPMuxGroupListener_Close ln st = Some st'" "tm_inv st'" "tm_held st' = tm_held st - {MuxMember ln}"
    "mgroups st' = (if mlns (mgs st ! mlgroup (mlisteners st ! ln)) = [ln]
       then (mgroups st)(mgroup (mgs st ! mlgroup (mlisteners st ! ln)) := None) else mgroups st)"
proof -
  note D = tm_invD [OF inv] and bk = tm_backing_routes [OF inv]
  define gid where "gid = mlgroup (mlisteners st ! ln)"
  have gl: "gid < length (mgs st)" and mem: "ln \<in> set (mlns (mgs st ! gid))" using D(7) [OF ln] by (auto simp: gid_def)
  note ok = tm_group_okD [OF D(5) [OF gl]]
  have ne: "mlns (mgs st ! gid) \<noteq> []" using mem by auto
  obtain al where al: "al \<in> ran (tm_routes st)" "tcpMuxLn (mgs st ! gid) = Some al" using ok(3) [OF ne] by blast
  have alb: "al \<in> tm_backing st" using al gl ne unfolding tm_backing_def by blast
  have sole: "al' \<noteq> al" if "h < length (mgs st)" "h \<noteq> gid" "mlns (mgs st ! h) \<noteq> []" "tcpMuxLn (mgs st ! h) = Some al'" for h al'
    using D(6) [OF that(1) gl that(2,3) ne] that(4) al(2) by auto
  let ?ls = "(mlisteners st)[ln := (mlisteners st ! ln)\<lparr>mlclosed := True\<rparr>]"
  show ?thesis
  proof (cases "mlns (mgs st ! gid) = [ln]")
    case True
    obtain v where v: "Listener_Close al (connectMuxer st) = Some v" "mux_inv v" "ran (mux_routes v) = ran (tm_routes st) - {al}"
      using mux_close_drops [OF D(1) al(1)] by blast
    let ?g = "(mgs st ! gid)\<lparr>mlns := [], macceptClosed := True\<rparr>"
    let ?st = "st\<lparr>mlisteners := ?ls, mgs := (mgs st)[gid := ?g], mgroups := (mgroups st)(mgroup (mgs st ! gid) := None),
      connectMuxer := v\<rparr>"
    have run: "TCPMuxGroupListener_Close ln st = Some ?st"
      using ln(2) ok(4) [OF ne] True al(2) v(1)
      by (simp add: TCPMuxGroupListener_Close_def TCPMuxGroup_CloseListener_def gid_def [symmetric] TCPMuxGroupCtl_RemoveGroup_def)
    have inv': "tm_inv ?st" by (rule tm_inv_close_last [OF inv gl ln(1) True al(2) v(2,3), where g' = ?g]) simp_all
    have "tm_backing ?st = (tm_backing st - {al}) \<union> {al'. mlns ?g \<noteq> [] \<and> tcpMuxLn ?g = Some al'}"
      by (rule tm_backing_update [OF gl]) (use sole al(2) in auto)
    then have "tm_backing ?st = tm_backing st - {al}" by simp
    moreover have "(ran (tm_routes st) - {al}) - (tm_backing st - {al}) = ran (tm_routes st) - tm_backing st" using alb by blast
    ultimately have "tm_held ?st = tm_held st - {MuxMember ln}"
      unfolding tm_held_def using v(3) by (auto simp: open_members_close [OF ln(1)] tm_held_member)
    with run inv' True show ?thesis by (intro that [of ?st]) (simp_all add: gid_def)
  next
    case False
    then have more: "remove1 ln (mlns (mgs st ! gid)) \<noteq> []"
      using mem ok(1) by (cases "mlns (mgs st ! gid)") (auto split: if_splits)
    let ?g = "(mgs st ! gid)\<lparr>mlns := remove1 ln (mlns (mgs st ! gid))\<rparr>"
    let ?st = "st\<lparr>mlisteners := ?ls, mgs := (mgs st)[gid := ?g]\<rparr>"
    have run: "TCPMuxGroupListener_Close ln st = Some ?st"
      using more ln(2) by (simp add: TCPMuxGroupListener_Close_def TCPMuxGroup_CloseListener_def gid_def [symmetric])
    have inv': "tm_inv ?st" by (rule tm_inv_close_more [OF inv gl ln(1) mem more refl])
    have "tm_backing ?st = (tm_backing st - {al}) \<union> {al'. mlns ?g \<noteq> [] \<and> tcpMuxLn ?g = Some al'}"
      by (rule tm_backing_update [OF gl]) (use sole al(2) in auto)
    then have "tm_backing ?st = tm_backing st" using alb al(2) more by auto
    then have "tm_held ?st = tm_held st - {MuxMember ln}"
      unfolding tm_held_def by (auto simp: open_members_close [OF ln(1)] tm_held_member)
    with run inv' False show ?thesis by (intro that [of ?st]) (simp_all add: gid_def)
  qed
qed

end
