(* ===== verification/TCPMux_Proxy.thy ===== *)
theory TCPMux_Proxy
  imports TCPMux_Group
begin

text \<open>
  Model of the server's TCPMUX proxy (\<^verbatim>\<open>server/proxy/tcpmux.go\<close>): a listener of the CONNECT muxer, or a membership in
  a group, for every domain.
\<close>

section \<open>The proxy\<close>

datatype mux_listener = DirectLn "addr \<times> Listener" | GroupLn addr

record TCPMuxProxy =
  mpName :: string
  mpMultiplexer :: string
  mpGroup :: string
  mpGroupKey :: string
  mpCustomDomains :: "string list"
  mpSubDomain :: string
  mpRouteByHTTPUser :: string
  mpHTTPUser :: string
  mpHTTPPwd :: string
  mpListeners :: "mux_listener list"
  mpUsedPortsNum :: int

definition httpConnectListen :: "TCPMuxProxy \<Rightarrow> string \<Rightarrow> TCPMuxGroupCtl \<Rightarrow> (string, mux_listener) result \<times> TCPMuxGroupCtl" where
  "httpConnectListen p d st =
     (let rc = \<lparr>mDomain = d, mLocation = [], mRewriteHost = [], mUsername = mpHTTPUser p, mPassword = mpHTTPPwd p,
                mRouteByHTTPUser = mpRouteByHTTPUser p\<rparr>
      in if mpGroup p \<noteq> [] then
           (case TCPMuxGroupCtl_Listen (mpMultiplexer p) (mpGroup p) (mpGroupKey p) rc st of
              (Inl e, st1) \<Rightarrow> (Inl (group_error_text [] e), st1)
            | (Inr ln, st1) \<Rightarrow> (Inr (GroupLn ln), st1))
         else
           (case Muxer_Listen (connectMuxer st) rc of
              (Inl e, v) \<Rightarrow> (Inl ''router config conflict'', st\<lparr>connectMuxer := v\<rparr>)
            | (Inr al, v) \<Rightarrow> (Inr (DirectLn al), st\<lparr>connectMuxer := v\<rparr>)))"

definition mux_listener_close :: "mux_listener \<Rightarrow> TCPMuxGroupCtl \<Rightarrow> TCPMuxGroupCtl option" where
  "mux_listener_close l st =
     (case l of
        GroupLn ln \<Rightarrow> TCPMuxGroupListener_Close ln st
      | DirectLn al \<Rightarrow> map_option (\<lambda>v. st\<lparr>connectMuxer := v\<rparr>) (Listener_Close al (connectMuxer st)))"

definition tcpmux_domains :: "vhost_cfg \<Rightarrow> TCPMuxProxy \<Rightarrow> string list" where
  "tcpmux_domains cfg p =
     filter (\<lambda>d. d \<noteq> []) (mpCustomDomains p) @
     (if mpSubDomain p \<noteq> [] then [mpSubDomain p @ ''.'' @ SubDomainHost cfg] else [])"

definition TCPMuxProxy_Close :: "TCPMuxProxy \<Rightarrow> TCPMuxGroupCtl \<Rightarrow> TCPMuxGroupCtl option" where
  "TCPMuxProxy_Close p st = drop_all mux_listener_close (mpListeners p) st"

definition httpConnectRun :: "vhost_cfg \<Rightarrow> TCPMuxProxy \<Rightarrow> TCPMuxGroupCtl \<Rightarrow> (string, string) result \<times> TCPMuxProxy \<times> TCPMuxGroupCtl" where
  "httpConnectRun cfg p st =
     (case acquire_all (httpConnectListen p) (tcpmux_domains cfg p) (mpListeners p) st of
        (out, ls, st1) \<Rightarrow>
          (case out of
             Inl e \<Rightarrow> (Inl e, p\<lparr>mpListeners := ls\<rparr>, st1)
           | Inr _ \<Rightarrow>
               (Inr (Join (map (\<lambda>d. CanonicalAddr d (TCPMuxHTTPConnectPort cfg)) (tcpmux_domains cfg p)) '',''),
                p\<lparr>mpListeners := ls\<rparr>, st1)))"

text \<open>The close after an error cannot panic (\<open>the\<close> is applied to a \<open>Some\<close>, see the interpretation below).\<close>

definition TCPMuxProxy_Run :: "vhost_cfg \<Rightarrow> TCPMuxProxy \<Rightarrow> TCPMuxGroupCtl \<Rightarrow> (string, string) result \<times> TCPMuxProxy \<times> TCPMuxGroupCtl" where
  "TCPMuxProxy_Run cfg p st =
     (case (if mpMultiplexer p = ''httpconnect'' then httpConnectRun cfg p st
            else (Inl (''unknown multiplexer ['' @ mpMultiplexer p @ '']''), p, st)) of
        (Inl e, p1, st1) \<Rightarrow> (Inl e, p1, the (TCPMuxProxy_Close p1 st1))
      | (Inr a, p1, st1) \<Rightarrow> (Inr a, p1, st1))"

definition tcpmux_ops :: "(vhost_cfg, TCPMuxProxy, TCPMuxGroupCtl) proxy_ops" where
  "tcpmux_ops = \<lparr>GetName = mpName, GetUsedPortsNum = mpUsedPortsNum, Run = TCPMuxProxy_Run, Close = (\<lambda>_. TCPMuxProxy_Close)\<rparr>"

section \<open>The contract\<close>

primrec mux_listener_key :: "mux_listener \<Rightarrow> tcpmux_key" where
  "mux_listener_key (DirectLn al) = MuxRoute al"
| "mux_listener_key (GroupLn ln) = MuxMember ln"

lemma tm_held_simps:
  "MuxRoute al \<in> tm_held st \<longleftrightarrow> al \<in> ran (tm_routes st) - tm_backing st"
  "MuxMember ln \<in> tm_held st \<longleftrightarrow> ln < length (mlisteners st) \<and> \<not> mlclosed (mlisteners st ! ln)"
  by (auto simp: tm_held_def open_members_def)

lemma tm_backing_muxer [simp]: "tm_backing (st\<lparr>connectMuxer := v\<rparr>) = tm_backing st"
  by (simp add: tm_backing_def)

text \<open>A listener of the muxer without a group.\<close>

lemma tm_direct_listen:
  assumes inv: "tm_inv st" and lst: "Muxer_Listen (connectMuxer st) rc = (out, v)"
  shows "tm_inv (st\<lparr>connectMuxer := v\<rparr>) \<and> (case out of Inl _ \<Rightarrow> tm_held (st\<lparr>connectMuxer := v\<rparr>) = tm_held st
    | Inr al \<Rightarrow> MuxRoute al \<notin> tm_held st \<and> tm_held (st\<lparr>connectMuxer := v\<rparr>) = insert (MuxRoute al) (tm_held st))"
proof -
  note M = mux_listen_acquires [OF tm_invD(1) [OF inv] lst] and bk = tm_backing_routes [OF inv]
  have "ran (tm_routes st) \<subseteq> ran (mux_routes v)" using M(2,3) by (cases out) auto
  then have "tm_inv (st\<lparr>connectMuxer := v\<rparr>)" using tm_inv_muxer [OF inv M(1)] by blast
  moreover have "insert al (ran (tm_routes st)) - tm_backing st = insert al (ran (tm_routes st) - tm_backing st)"
    if "al \<notin> ran (tm_routes st)" for al using that bk by blast
  ultimately show ?thesis using M(2,3) by (cases out) (auto simp: tm_held_def)
qed

lemma tm_direct_close:
  assumes inv: "tm_inv st" and held: "MuxRoute al \<in> tm_held st"
  shows "\<exists>v. Listener_Close al (connectMuxer st) = Some v \<and> tm_inv (st\<lparr>connectMuxer := v\<rparr>) \<and>
    tm_held (st\<lparr>connectMuxer := v\<rparr>) = tm_held st - {MuxRoute al}"
proof -
  have al: "al \<in> ran (tm_routes st)" "al \<notin> tm_backing st" using held by (simp_all add: tm_held_simps)
  obtain v where v: "Listener_Close al (connectMuxer st) = Some v" "mux_inv v" "ran (mux_routes v) = ran (tm_routes st) - {al}"
    using mux_close_drops [OF tm_invD(1) [OF inv] al(1)] by blast
  have "tm_inv (st\<lparr>connectMuxer := v\<rparr>)"
  proof (rule tm_inv_muxer [OF inv v(2)])
    fix gid bl assume "gid < length (mgs st)" "mlns (mgs st ! gid) \<noteq> []" "tcpMuxLn (mgs st ! gid) = Some bl" and r: "bl \<in> ran (tm_routes st)"
    then have "bl \<in> tm_backing st" unfolding tm_backing_def by blast
    with al(2) r show "bl \<in> ran (mux_routes v)" unfolding v(3) by blast
  qed
  moreover have "ran (tm_routes st) - {al} - tm_backing st = ran (tm_routes st) - tm_backing st - {al}" by blast
  then have "tm_held (st\<lparr>connectMuxer := v\<rparr>) = tm_held st - {MuxRoute al}" using v(3) by (auto simp: tm_held_def)
  ultimately show ?thesis using v(1) by blast
qed

interpretation tcpmux_reg: acquisition "httpConnectListen p" mux_listener_close mux_listener_key tm_inv tm_held "\<lambda>_. True" for p
proof unfold_locales
  fix st d h st'
  assume inv: "tm_inv st" and run: "httpConnectListen p d st = (Inr h, st')"
  show "tm_inv st' \<and> mux_listener_key h \<notin> tm_held st \<and> tm_held st' = insert (mux_listener_key h) (tm_held st)"
  proof (cases "mpGroup p = []")
    case True
    with run obtain rc al v where "Muxer_Listen (connectMuxer st) rc = (Inr al, v)" "h = DirectLn al" "st' = st\<lparr>connectMuxer := v\<rparr>"
      by (auto simp: httpConnectListen_def Let_def split: prod.splits sum.splits)
    with tm_direct_listen [OF inv] show ?thesis by fastforce
  next
    case False
    with run obtain rc ln where "TCPMuxGroupCtl_Listen (mpMultiplexer p) (mpGroup p) (mpGroupKey p) rc st = (Inr ln, st')" "h = GroupLn ln"
      by (auto simp: httpConnectListen_def Let_def split: prod.splits sum.splits)
    with TCPMuxGroupCtl_Listen_step [OF inv] show ?thesis by fastforce
  qed
next
  fix st d e st'
  assume inv: "tm_inv st" and run: "httpConnectListen p d st = (Inl e, st')"
  show "tm_inv st' \<and> tm_held st' = tm_held st"
  proof (cases "mpGroup p = []")
    case True
    with run obtain rc x v where "Muxer_Listen (connectMuxer st) rc = (Inl x, v)" "st' = st\<lparr>connectMuxer := v\<rparr>"
      by (auto simp: httpConnectListen_def Let_def split: prod.splits sum.splits)
    with tm_direct_listen [OF inv] show ?thesis by fastforce
  next
    case False
    with run obtain rc x where "TCPMuxGroupCtl_Listen (mpMultiplexer p) (mpGroup p) (mpGroupKey p) rc st = (Inl x, st')"
      by (auto simp: httpConnectListen_def Let_def split: prod.splits sum.splits)
    with TCPMuxGroupCtl_Listen_step [OF inv] show ?thesis by fastforce
  qed
next
  fix st h
  assume inv: "tm_inv st" and held: "mux_listener_key h \<in> tm_held st"
  show "\<exists>st'. mux_listener_close h st = Some st' \<and> tm_inv st' \<and> tm_held st' = tm_held st - {mux_listener_key h}"
  proof (cases h)
    case (DirectLn al)
    with tm_direct_close [OF inv, of al] held show ?thesis by (auto simp: mux_listener_close_def)
  next
    case (GroupLn ln)
    with held have "ln < length (mlisteners st)" "\<not> mlclosed (mlisteners st ! ln)" by (simp_all add: tm_held_simps)
    then obtain st' where "TCPMuxGroupListener_Close ln st = Some st'" "tm_inv st'" "tm_held st' = tm_held st - {MuxMember ln}"
      by (rule TCPMuxGroupListener_Close_step [OF inv])
    with GroupLn show ?thesis by (simp add: mux_listener_close_def)
  qed
qed

definition tcpmux_live :: "TCPMuxProxy \<Rightarrow> bool" where
  "tcpmux_live p \<longleftrightarrow> distinct (map mux_listener_key (mpListeners p)) \<and> mpUsedPortsNum p = 0"

interpretation tcpmux: server_proxy tcpmux_ops "\<lambda>cfg p st. mpListeners p = [] \<and> mpUsedPortsNum p = 0" tcpmux_live tm_inv tm_held
  "\<lambda>p. mux_listener_key ` set (mpListeners p)"
proof unfold_locales
  fix st cfg p a p' st'
  assume inv: "tm_inv st" and ready: "mpListeners p = [] \<and> mpUsedPortsNum p = 0" and run: "Run tcpmux_ops cfg p st = (Inr a, p', st')"
  obtain o1 ls st1 where all: "acquire_all (httpConnectListen p) (tcpmux_domains cfg p) [] st = (o1, ls, st1)" by (metis prod_cases3)
  with run ready have "p\<lparr>mpListeners := ls\<rparr> = p' \<and> st1 = st'"
    by (cases o1) (simp_all add: tcpmux_ops_def TCPMuxProxy_Run_def httpConnectRun_def split: if_splits)
  then have eq: "p' = p\<lparr>mpListeners := ls\<rparr>" "st' = st1" by simp_all
  obtain new where "ls = [] @ new" "tm_inv st1" "distinct (map mux_listener_key new)" "mux_listener_key ` set new \<inter> tm_held st = {}"
    "tm_held st1 = tm_held st \<union> mux_listener_key ` set new"
    by (rule tcpmux_reg.acquire_all_res [OF inv _ all]) simp_all
  then show "tm_inv st' \<and> tcpmux_live p' \<and> tm_held st' = tm_held st \<union> mux_listener_key ` set (mpListeners p') \<and>
      mux_listener_key ` set (mpListeners p') \<inter> tm_held st = {} \<and> GetName tcpmux_ops p' = GetName tcpmux_ops p \<and>
      GetUsedPortsNum tcpmux_ops p' = GetUsedPortsNum tcpmux_ops p"
    using ready by (simp add: eq tcpmux_live_def tcpmux_ops_def)
next
  fix st cfg p x p' st'
  assume inv: "tm_inv st" and ready: "mpListeners p = [] \<and> mpUsedPortsNum p = 0" and run: "Run tcpmux_ops cfg p st = (Inl x, p', st')"
  obtain o1 ls st1 where all: "acquire_all (httpConnectListen p) (tcpmux_domains cfg p) [] st = (o1, ls, st1)" by (metis prod_cases3)
  show "tm_inv st' \<and> tm_held st' = tm_held st"
  proof (cases "mpMultiplexer p = ''httpconnect''")
    case True
    with all run ready have "st' = the (drop_all mux_listener_close ls st1)"
      by (cases o1) (simp_all add: tcpmux_ops_def TCPMuxProxy_Run_def httpConnectRun_def TCPMuxProxy_Close_def)
    with tcpmux_reg.acquire_drop [OF inv _ all] show ?thesis by fastforce
  next
    case False
    with run ready inv show ?thesis by (simp add: tcpmux_ops_def TCPMuxProxy_Run_def TCPMuxProxy_Close_def)
  qed
next
  fix st p cfg
  assume "tm_inv st" "tcpmux_live p" "mux_listener_key ` set (mpListeners p) \<subseteq> tm_held st"
  then show "\<exists>st'. Close tcpmux_ops cfg p st = Some st' \<and> tm_inv st' \<and> tm_held st' = tm_held st - mux_listener_key ` set (mpListeners p)"
    using tcpmux_reg.drop_all_res [of st "mpListeners p"] by (simp add: tcpmux_ops_def TCPMuxProxy_Close_def tcpmux_live_def)
qed (simp add: tcpmux_ops_def tcpmux_live_def)

end
