(* ===== verification/Resource_Controller.thy ===== *)
theory Resource_Controller
  imports UDP_Proxy Secret_Proxy TCPMux_Proxy
begin

text \<open>
  The resources that all clients share (\<^verbatim>\<open>server/controller/resource.go\<close>) and the proxies of every type on top of
  them (the factories of \<^verbatim>\<open>server/proxy/proxy.go\<close>). The contracts of the proxy types give the contract of the
  whole, so that the theorems of \<open>Server_System\<close> hold for a server with proxies of all types. A TCP proxy
  in a group is the exception: its start can leak a port (\<open>tcp_group_listen_leaks_port\<close>).
\<close>

section \<open>Resources and proxies\<close>

record 'c ResourceController =
  rcTCP :: TCPGroupCtl
  rcUDPPortManager :: port_manager
  rcHTTP :: HTTPGroupController
  rcVhostHTTPSMuxer :: Muxer
  rcTCPMux :: TCPMuxGroupCtl
  rcVisitorManager :: "'c VisitorManager"
  rcNatHoleController :: "Controller option"

text \<open>The environment of a call: operating system and clock, the order of the free UDP ports, and the configuration of
  the virtual hosts.\<close>

record server_env =
  seTCP :: tcp_env
  seUDP :: tcp_env
  seVhost :: vhost_cfg

datatype server_pxy = PTCP TCPProxy | PUDP UDPProxy | PHTTP HTTPProxy | PHTTPS HTTPSProxy | PTCPMux TCPMuxProxy
  | PSTCP STCPProxy | PSUDP STCPProxy | PXTCP XTCPProxy

primrec pxy_GetName :: "server_pxy \<Rightarrow> string" where
  "pxy_GetName (PTCP p) = tpName p"
| "pxy_GetName (PUDP p) = upName p"
| "pxy_GetName (PHTTP p) = hpName p"
| "pxy_GetName (PHTTPS p) = tlsName p"
| "pxy_GetName (PTCPMux p) = mpName p"
| "pxy_GetName (PSTCP p) = spName p"
| "pxy_GetName (PSUDP p) = spName p"
| "pxy_GetName (PXTCP p) = xpName p"

primrec pxy_GetUsedPortsNum :: "server_pxy \<Rightarrow> int" where
  "pxy_GetUsedPortsNum (PTCP p) = tpUsedPortsNum p"
| "pxy_GetUsedPortsNum (PUDP p) = upUsedPortsNum p"
| "pxy_GetUsedPortsNum (PHTTP p) = hpUsedPortsNum p"
| "pxy_GetUsedPortsNum (PHTTPS p) = tlsUsedPortsNum p"
| "pxy_GetUsedPortsNum (PTCPMux p) = mpUsedPortsNum p"
| "pxy_GetUsedPortsNum (PSTCP p) = spUsedPortsNum p"
| "pxy_GetUsedPortsNum (PSUDP p) = spUsedPortsNum p"
| "pxy_GetUsedPortsNum (PXTCP p) = xpUsedPortsNum p"

primrec pxy_Run :: "server_env \<Rightarrow> server_pxy \<Rightarrow> 'c ResourceController \<Rightarrow> (string, string) result \<times> server_pxy \<times> 'c ResourceController" where
  "pxy_Run e (PTCP p) r = (case TCPProxy_Run (seTCP e) p (rcTCP r) of (o1, p1, t) \<Rightarrow> (o1, PTCP p1, r\<lparr>rcTCP := t\<rparr>))"
| "pxy_Run e (PUDP p) r =
     (case UDPProxy_Run (seUDP e) p (rcUDPPortManager r) of (o1, p1, t) \<Rightarrow> (o1, PUDP p1, r\<lparr>rcUDPPortManager := t\<rparr>))"
| "pxy_Run e (PHTTP p) r = (case HTTPProxy_Run (seVhost e) p (rcHTTP r) of (o1, p1, t) \<Rightarrow> (o1, PHTTP p1, r\<lparr>rcHTTP := t\<rparr>))"
| "pxy_Run e (PHTTPS p) r =
     (case HTTPSProxy_Run (seVhost e) p (rcVhostHTTPSMuxer r) of (o1, p1, t) \<Rightarrow> (o1, PHTTPS p1, r\<lparr>rcVhostHTTPSMuxer := t\<rparr>))"
| "pxy_Run e (PTCPMux p) r =
     (case TCPMuxProxy_Run (seVhost e) p (rcTCPMux r) of (o1, p1, t) \<Rightarrow> (o1, PTCPMux p1, r\<lparr>rcTCPMux := t\<rparr>))"
| "pxy_Run e (PSTCP p) r =
     (case STCPProxy_Run p (rcVisitorManager r) of (o1, p1, t) \<Rightarrow> (o1, PSTCP p1, r\<lparr>rcVisitorManager := t\<rparr>))"
| "pxy_Run e (PSUDP p) r =
     (case SUDPProxy_Run p (rcVisitorManager r) of (o1, p1, t) \<Rightarrow> (o1, PSUDP p1, r\<lparr>rcVisitorManager := t\<rparr>))"
| "pxy_Run e (PXTCP p) r =
     (case XTCPProxy_Run p (rcNatHoleController r) of (o1, p1, t) \<Rightarrow> (o1, PXTCP p1, r\<lparr>rcNatHoleController := t\<rparr>))"

primrec pxy_Close :: "server_env \<Rightarrow> server_pxy \<Rightarrow> 'c ResourceController \<Rightarrow> 'c ResourceController option" where
  "pxy_Close e (PTCP p) r = map_option (\<lambda>t. r\<lparr>rcTCP := t\<rparr>) (TCPProxy_Close (seTCP e) p (rcTCP r))"
| "pxy_Close e (PUDP p) r = Some (r\<lparr>rcUDPPortManager := snd (UDPProxy_Close (seUDP e) p (rcUDPPortManager r))\<rparr>)"
| "pxy_Close e (PHTTP p) r = map_option (\<lambda>t. r\<lparr>rcHTTP := t\<rparr>) (HTTPProxy_Close p (rcHTTP r))"
| "pxy_Close e (PHTTPS p) r = map_option (\<lambda>t. r\<lparr>rcVhostHTTPSMuxer := t\<rparr>) (HTTPSProxy_Close p (rcVhostHTTPSMuxer r))"
| "pxy_Close e (PTCPMux p) r = map_option (\<lambda>t. r\<lparr>rcTCPMux := t\<rparr>) (TCPMuxProxy_Close p (rcTCPMux r))"
| "pxy_Close e (PSTCP p) r = Some (r\<lparr>rcVisitorManager := STCPProxy_Close p (rcVisitorManager r)\<rparr>)"
| "pxy_Close e (PSUDP p) r = Some (r\<lparr>rcVisitorManager := SUDPProxy_Close p (rcVisitorManager r)\<rparr>)"
| "pxy_Close e (PXTCP p) r = map_option (\<lambda>(_, t). r\<lparr>rcNatHoleController := t\<rparr>) (XTCPProxy_Close p (rcNatHoleController r))"

definition pxy_ops :: "(server_env, server_pxy, 'c ResourceController) proxy_ops" where
  "pxy_ops = \<lparr>GetName = pxy_GetName, GetUsedPortsNum = pxy_GetUsedPortsNum, Run = pxy_Run, Close = pxy_Close\<rparr>"

section \<open>The contract\<close>

text \<open>What a proxy can hold.\<close>

datatype resource = TcpPort int | UdpPort int | HttpRoute http_key | HttpsListener "addr \<times> Listener"
  | ConnectListener tcpmux_key | VisitorName string | HoleName string

definition resources :: "int set \<Rightarrow> int set \<Rightarrow> http_key set \<Rightarrow> (addr \<times> Listener) set \<Rightarrow> tcpmux_key set \<Rightarrow> string set \<Rightarrow>
    string set \<Rightarrow> resource set" where
  "resources A B C D E F G = TcpPort ` A \<union> UdpPort ` B \<union> HttpRoute ` C \<union> HttpsListener ` D \<union> ConnectListener ` E \<union>
     VisitorName ` F \<union> HoleName ` G"

lemma resources_Un:
  "resources (A \<union> X1) B C D E F G = resources A B C D E F G \<union> TcpPort ` X1"
  "resources A (B \<union> X2) C D E F G = resources A B C D E F G \<union> UdpPort ` X2"
  "resources A B (C \<union> X3) D E F G = resources A B C D E F G \<union> HttpRoute ` X3"
  "resources A B C (D \<union> X4) E F G = resources A B C D E F G \<union> HttpsListener ` X4"
  "resources A B C D (E \<union> X5) F G = resources A B C D E F G \<union> ConnectListener ` X5"
  "resources A B C D E (F \<union> X6) G = resources A B C D E F G \<union> VisitorName ` X6"
  "resources A B C D E F (G \<union> X7) = resources A B C D E F G \<union> HoleName ` X7"
  unfolding resources_def by blast+

lemma resources_Diff:
  "resources (A - X1) B C D E F G = resources A B C D E F G - TcpPort ` X1"
  "resources A (B - X2) C D E F G = resources A B C D E F G - UdpPort ` X2"
  "resources A B (C - X3) D E F G = resources A B C D E F G - HttpRoute ` X3"
  "resources A B C (D - X4) E F G = resources A B C D E F G - HttpsListener ` X4"
  "resources A B C D (E - X5) F G = resources A B C D E F G - ConnectListener ` X5"
  "resources A B C D E (F - X6) G = resources A B C D E F G - VisitorName ` X6"
  "resources A B C D E F (G - X7) = resources A B C D E F G - HoleName ` X7"
  unfolding resources_def by auto

lemma resources_disjoint:
  "TcpPort ` X1 \<inter> resources A B C D E F G = {} \<longleftrightarrow> X1 \<inter> A = {}"
  "UdpPort ` X2 \<inter> resources A B C D E F G = {} \<longleftrightarrow> X2 \<inter> B = {}"
  "HttpRoute ` X3 \<inter> resources A B C D E F G = {} \<longleftrightarrow> X3 \<inter> C = {}"
  "HttpsListener ` X4 \<inter> resources A B C D E F G = {} \<longleftrightarrow> X4 \<inter> D = {}"
  "ConnectListener ` X5 \<inter> resources A B C D E F G = {} \<longleftrightarrow> X5 \<inter> E = {}"
  "VisitorName ` X6 \<inter> resources A B C D E F G = {} \<longleftrightarrow> X6 \<inter> F = {}"
  "HoleName ` X7 \<inter> resources A B C D E F G = {} \<longleftrightarrow> X7 \<inter> G = {}"
  unfolding resources_def by auto

lemma resources_subset:
  "TcpPort ` X1 \<subseteq> resources A B C D E F G \<longleftrightarrow> X1 \<subseteq> A"
  "UdpPort ` X2 \<subseteq> resources A B C D E F G \<longleftrightarrow> X2 \<subseteq> B"
  "HttpRoute ` X3 \<subseteq> resources A B C D E F G \<longleftrightarrow> X3 \<subseteq> C"
  "HttpsListener ` X4 \<subseteq> resources A B C D E F G \<longleftrightarrow> X4 \<subseteq> D"
  "ConnectListener ` X5 \<subseteq> resources A B C D E F G \<longleftrightarrow> X5 \<subseteq> E"
  "VisitorName ` X6 \<subseteq> resources A B C D E F G \<longleftrightarrow> X6 \<subseteq> F"
  "HoleName ` X7 \<subseteq> resources A B C D E F G \<longleftrightarrow> X7 \<subseteq> G"
  unfolding resources_def by auto

lemma resources_insert:
  "resources (insert x1 A) B C D E F G = insert (TcpPort x1) (resources A B C D E F G)"
  "resources A (insert x2 B) C D E F G = insert (UdpPort x2) (resources A B C D E F G)"
  "resources A B (insert x3 C) D E F G = insert (HttpRoute x3) (resources A B C D E F G)"
  "resources A B C (insert x4 D) E F G = insert (HttpsListener x4) (resources A B C D E F G)"
  "resources A B C D (insert x5 E) F G = insert (ConnectListener x5) (resources A B C D E F G)"
  "resources A B C D E (insert x6 F) G = insert (VisitorName x6) (resources A B C D E F G)"
  "resources A B C D E F (insert x7 G) = insert (HoleName x7) (resources A B C D E F G)"
  unfolding resources_def by blast+

lemma resources_mem [simp]:
  "TcpPort x1 \<in> resources A B C D E F G \<longleftrightarrow> x1 \<in> A"
  "UdpPort x2 \<in> resources A B C D E F G \<longleftrightarrow> x2 \<in> B"
  "HttpRoute x3 \<in> resources A B C D E F G \<longleftrightarrow> x3 \<in> C"
  "HttpsListener x4 \<in> resources A B C D E F G \<longleftrightarrow> x4 \<in> D"
  "ConnectListener x5 \<in> resources A B C D E F G \<longleftrightarrow> x5 \<in> E"
  "VisitorName x6 \<in> resources A B C D E F G \<longleftrightarrow> x6 \<in> F"
  "HoleName x7 \<in> resources A B C D E F G \<longleftrightarrow> x7 \<in> G"
  unfolding resources_def by blast+

lemmas resources_simps = resources_Un resources_Diff resources_disjoint resources_subset resources_insert

definition rc_held :: "'c ResourceController \<Rightarrow> resource set" where
  "rc_held r = resources (held_ports (rcTCP r)) (dom (usedPorts (rcUDPPortManager r))) (http_held (rcHTTP r))
     (ran (mux_routes (rcVhostHTTPSMuxer r))) (tm_held (rcTCPMux r)) (dom (listeners (rcVisitorManager r)))
     (nat_names (rcNatHoleController r))"

definition rc_inv :: "'c ResourceController \<Rightarrow> bool" where
  "rc_inv r \<longleftrightarrow> pm_ok (tportManager (rcTCP r)) \<and> pm_ok (rcUDPPortManager r) \<and> http_inv (rcHTTP r) \<and>
     mux_inv (rcVhostHTTPSMuxer r) \<and> tm_inv (rcTCPMux r) \<and> vm_inv (rcVisitorManager r)"

primrec pxy_owned :: "server_pxy \<Rightarrow> resource set" where
  "pxy_owned (PTCP p) = TcpPort ` {tpRealBindPort p}"
| "pxy_owned (PUDP p) = UdpPort ` {upRealBindPort p}"
| "pxy_owned (PHTTP p) = HttpRoute ` http_owned p"
| "pxy_owned (PHTTPS p) = HttpsListener ` set (tlsListeners p)"
| "pxy_owned (PTCPMux p) = ConnectListener ` (mux_listener_key ` set (mpListeners p))"
| "pxy_owned (PSTCP p) = VisitorName ` {spName p}"
| "pxy_owned (PSUDP p) = VisitorName ` {spName p}"
| "pxy_owned (PXTCP p) = HoleName ` {xpName p}"

primrec pxy_ready :: "server_env \<Rightarrow> server_pxy \<Rightarrow> 'c ResourceController \<Rightarrow> bool" where
  "pxy_ready e (PTCP p) r = tcp_ready (seTCP e) p (rcTCP r)"
| "pxy_ready e (PUDP p) r = udp_ready (seUDP e) p (rcUDPPortManager r)"
| "pxy_ready e (PHTTP p) r = http_ready (seVhost e) p (rcHTTP r)"
| "pxy_ready e (PHTTPS p) r = (tlsListeners p = [] \<and> tlsUsedPortsNum p = 0)"
| "pxy_ready e (PTCPMux p) r = (mpListeners p = [] \<and> mpUsedPortsNum p = 0)"
| "pxy_ready e (PSTCP p) r = (spUsedPortsNum p = 0)"
| "pxy_ready e (PSUDP p) r = (spUsedPortsNum p = 0)"
| "pxy_ready e (PXTCP p) r = (xpUsedPortsNum p = 0)"

primrec pxy_live :: "server_pxy \<Rightarrow> bool" where
  "pxy_live (PTCP p) = tcp_live p"
| "pxy_live (PUDP p) = (upUsedPortsNum p = 1)"
| "pxy_live (PHTTP p) = http_live p"
| "pxy_live (PHTTPS p) = https_live p"
| "pxy_live (PTCPMux p) = tcpmux_live p"
| "pxy_live (PSTCP p) = (spUsedPortsNum p = 0)"
| "pxy_live (PSUDP p) = (spUsedPortsNum p = 0)"
| "pxy_live (PXTCP p) = (xpUsedPortsNum p = 0)"

text \<open>The contracts of the types over the bare operations, with the call as the first premise.\<close>

lemmas type_run_ok = tcp.run_ok [rotated 2, unfolded tcp_ops_def, simplified] udp.run_ok [rotated 2, unfolded udp_ops_def, simplified]
  http.run_ok [rotated 2, unfolded http_ops_def, simplified] https.run_ok [rotated 2, unfolded https_ops_def, simplified]
  tcpmux.run_ok [rotated 2, unfolded tcpmux_ops_def, simplified] stcp.run_ok [rotated 2, unfolded stcp_ops_def, simplified]
  xtcp.run_ok [rotated 2, unfolded xtcp_ops_def, simplified]

lemmas type_run_err = tcp.run_err [rotated 2, unfolded tcp_ops_def, simplified] udp.run_err [rotated 2, unfolded udp_ops_def, simplified]
  http.run_err [rotated 2, unfolded http_ops_def, simplified] https.run_err [rotated 2, unfolded https_ops_def, simplified]
  tcpmux.run_err [rotated 2, unfolded tcpmux_ops_def, simplified] stcp.run_err [rotated 2, unfolded stcp_ops_def, simplified]
  xtcp.run_err [rotated 2, unfolded xtcp_ops_def, simplified]

lemmas type_close_ok = tcp.close_ok [unfolded tcp_ops_def, simplified] udp.close_ok [unfolded udp_ops_def, simplified]
  http.close_ok [unfolded http_ops_def, simplified] https.close_ok [unfolded https_ops_def, simplified]
  tcpmux.close_ok [unfolded tcpmux_ops_def, simplified] stcp.close_ok [unfolded stcp_ops_def, simplified]
  xtcp.close_ok [unfolded xtcp_ops_def, simplified]

lemma pxy_run_err:
  assumes inv: "rc_inv r" and ready: "pxy_ready e p r" and run: "pxy_Run e p r = (Inl x, p', r')"
  shows "rc_inv r' \<and> rc_held r' = rc_held r"
proof (cases p)
  case (PTCP q)
  obtain o1 q' t where q: "TCPProxy_Run (seTCP e) q (rcTCP r) = (o1, q', t)" by (metis prod_cases3)
  with PTCP run have "o1 = Inl x" "p' = PTCP q'" "r' = r\<lparr>rcTCP := t\<rparr>" by (simp_all add: sudp_is_stcp)
  with type_run_err(1) [OF q [unfolded this]] inv ready PTCP show ?thesis by (simp add: rc_inv_def rc_held_def)
next
  case (PUDP q)
  obtain o1 q' t where q: "UDPProxy_Run (seUDP e) q (rcUDPPortManager r) = (o1, q', t)" by (metis prod_cases3)
  with PUDP run have "o1 = Inl x" "p' = PUDP q'" "r' = r\<lparr>rcUDPPortManager := t\<rparr>" by (simp_all add: sudp_is_stcp)
  with type_run_err(2) [OF q [unfolded this]] inv ready PUDP show ?thesis by (simp add: rc_inv_def rc_held_def)
next
  case (PHTTP q)
  obtain o1 q' t where q: "HTTPProxy_Run (seVhost e) q (rcHTTP r) = (o1, q', t)" by (metis prod_cases3)
  with PHTTP run have "o1 = Inl x" "p' = PHTTP q'" "r' = r\<lparr>rcHTTP := t\<rparr>" by (simp_all add: sudp_is_stcp)
  with type_run_err(3) [OF q [unfolded this]] inv ready PHTTP show ?thesis by (simp add: rc_inv_def rc_held_def)
next
  case (PHTTPS q)
  obtain o1 q' t where q: "HTTPSProxy_Run (seVhost e) q (rcVhostHTTPSMuxer r) = (o1, q', t)" by (metis prod_cases3)
  with PHTTPS run have "o1 = Inl x" "p' = PHTTPS q'" "r' = r\<lparr>rcVhostHTTPSMuxer := t\<rparr>" by (simp_all add: sudp_is_stcp)
  with type_run_err(4) [OF q [unfolded this]] inv ready PHTTPS show ?thesis by (simp add: rc_inv_def rc_held_def)
next
  case (PTCPMux q)
  obtain o1 q' t where q: "TCPMuxProxy_Run (seVhost e) q (rcTCPMux r) = (o1, q', t)" by (metis prod_cases3)
  with PTCPMux run have "o1 = Inl x" "p' = PTCPMux q'" "r' = r\<lparr>rcTCPMux := t\<rparr>" by (simp_all add: sudp_is_stcp)
  with type_run_err(5) [OF q [unfolded this]] inv ready PTCPMux show ?thesis by (simp add: rc_inv_def rc_held_def)
next
  case (PSTCP q)
  obtain o1 q' t where q: "STCPProxy_Run q (rcVisitorManager r) = (o1, q', t)" by (metis prod_cases3)
  with PSTCP run have "o1 = Inl x" "p' = PSTCP q'" "r' = r\<lparr>rcVisitorManager := t\<rparr>" by (simp_all add: sudp_is_stcp)
  with type_run_err(6) [OF q [unfolded this]] inv ready PSTCP show ?thesis by (simp add: rc_inv_def rc_held_def)
next
  case (PSUDP q)
  obtain o1 q' t where q: "STCPProxy_Run q (rcVisitorManager r) = (o1, q', t)" by (metis prod_cases3)
  with PSUDP run have "o1 = Inl x" "p' = PSUDP q'" "r' = r\<lparr>rcVisitorManager := t\<rparr>" by (simp_all add: sudp_is_stcp)
  with type_run_err(6) [OF q [unfolded this]] inv ready PSUDP show ?thesis by (simp add: rc_inv_def rc_held_def)
next
  case (PXTCP q)
  obtain o1 q' t where q: "XTCPProxy_Run q (rcNatHoleController r) = (o1, q', t)" by (metis prod_cases3)
  with PXTCP run have "o1 = Inl x" "p' = PXTCP q'" "r' = r\<lparr>rcNatHoleController := t\<rparr>" by (simp_all add: sudp_is_stcp)
  with type_run_err(7) [OF q [unfolded this]] inv ready PXTCP show ?thesis by (simp add: rc_inv_def rc_held_def)
qed

lemma pxy_run_ok:
  assumes inv: "rc_inv r" and ready: "pxy_ready e p r" and run: "pxy_Run e p r = (Inr a, p', r')"
  shows "rc_inv r' \<and> pxy_live p' \<and> rc_held r' = rc_held r \<union> pxy_owned p' \<and> pxy_owned p' \<inter> rc_held r = {} \<and>
    pxy_GetName p' = pxy_GetName p \<and> pxy_GetUsedPortsNum p' = pxy_GetUsedPortsNum p"
proof (cases p)
  case (PTCP q)
  obtain o1 q' t where q: "TCPProxy_Run (seTCP e) q (rcTCP r) = (o1, q', t)" by (metis prod_cases3)
  with PTCP run have "o1 = Inr a" "p' = PTCP q'" "r' = r\<lparr>rcTCP := t\<rparr>" by (simp_all add: sudp_is_stcp)
  with type_run_ok(1) [OF q [unfolded this]] inv ready PTCP show ?thesis
    by (simp add: rc_inv_def rc_held_def resources_simps)
next
  case (PUDP q)
  obtain o1 q' t where q: "UDPProxy_Run (seUDP e) q (rcUDPPortManager r) = (o1, q', t)" by (metis prod_cases3)
  with PUDP run have "o1 = Inr a" "p' = PUDP q'" "r' = r\<lparr>rcUDPPortManager := t\<rparr>" by (simp_all add: sudp_is_stcp)
  with type_run_ok(2) [OF q [unfolded this]] inv ready PUDP show ?thesis
    by (simp add: rc_inv_def rc_held_def resources_simps)
next
  case (PHTTP q)
  obtain o1 q' t where q: "HTTPProxy_Run (seVhost e) q (rcHTTP r) = (o1, q', t)" by (metis prod_cases3)
  with PHTTP run have "o1 = Inr a" "p' = PHTTP q'" "r' = r\<lparr>rcHTTP := t\<rparr>" by (simp_all add: sudp_is_stcp)
  with type_run_ok(3) [OF q [unfolded this]] inv ready PHTTP show ?thesis
    by (simp add: rc_inv_def rc_held_def resources_simps)
next
  case (PHTTPS q)
  obtain o1 q' t where q: "HTTPSProxy_Run (seVhost e) q (rcVhostHTTPSMuxer r) = (o1, q', t)" by (metis prod_cases3)
  with PHTTPS run have "o1 = Inr a" "p' = PHTTPS q'" "r' = r\<lparr>rcVhostHTTPSMuxer := t\<rparr>" by (simp_all add: sudp_is_stcp)
  with type_run_ok(4) [OF q [unfolded this]] inv ready PHTTPS show ?thesis
    by (simp add: rc_inv_def rc_held_def resources_simps)
next
  case (PTCPMux q)
  obtain o1 q' t where q: "TCPMuxProxy_Run (seVhost e) q (rcTCPMux r) = (o1, q', t)" by (metis prod_cases3)
  with PTCPMux run have "o1 = Inr a" "p' = PTCPMux q'" "r' = r\<lparr>rcTCPMux := t\<rparr>" by (simp_all add: sudp_is_stcp)
  with type_run_ok(5) [OF q [unfolded this]] inv ready PTCPMux show ?thesis
    by (simp add: rc_inv_def rc_held_def resources_simps)
next
  case (PSTCP q)
  obtain o1 q' t where q: "STCPProxy_Run q (rcVisitorManager r) = (o1, q', t)" by (metis prod_cases3)
  with PSTCP run have "o1 = Inr a" "p' = PSTCP q'" "r' = r\<lparr>rcVisitorManager := t\<rparr>" by (simp_all add: sudp_is_stcp)
  with type_run_ok(6) [OF q [unfolded this]] inv ready PSTCP show ?thesis
    by (auto simp: rc_inv_def rc_held_def resources_simps)
next
  case (PSUDP q)
  obtain o1 q' t where q: "STCPProxy_Run q (rcVisitorManager r) = (o1, q', t)" by (metis prod_cases3)
  with PSUDP run have "o1 = Inr a" "p' = PSUDP q'" "r' = r\<lparr>rcVisitorManager := t\<rparr>" by (simp_all add: sudp_is_stcp)
  with type_run_ok(6) [OF q [unfolded this]] inv ready PSUDP show ?thesis
    by (auto simp: rc_inv_def rc_held_def resources_simps)
next
  case (PXTCP q)
  obtain o1 q' t where q: "XTCPProxy_Run q (rcNatHoleController r) = (o1, q', t)" by (metis prod_cases3)
  with PXTCP run have "o1 = Inr a" "p' = PXTCP q'" "r' = r\<lparr>rcNatHoleController := t\<rparr>" by (simp_all add: sudp_is_stcp)
  with type_run_ok(7) [OF q [unfolded this]] inv ready PXTCP show ?thesis
    by (auto simp: rc_inv_def rc_held_def resources_simps)
qed

lemma pxy_close_ok:
  assumes inv: "rc_inv r" and live: "pxy_live p" and own: "pxy_owned p \<subseteq> rc_held r"
  shows "\<exists>r'. pxy_Close e p r = Some r' \<and> rc_inv r' \<and> rc_held r' = rc_held r - pxy_owned p"
proof (cases p)
  case (PTCP q)
  with type_close_ok(1) [of "rcTCP r" q "seTCP e"] inv live own show ?thesis
    by (auto simp: rc_inv_def rc_held_def resources_simps)
next
  case (PUDP q)
  with type_close_ok(2) [of "rcUDPPortManager r" q "seUDP e"] inv live own show ?thesis
    by (simp add: rc_inv_def rc_held_def resources_simps)
next
  case (PHTTP q)
  with type_close_ok(3) [of "rcHTTP r" q] inv live own show ?thesis
    by (auto simp: rc_inv_def rc_held_def resources_simps)
next
  case (PHTTPS q)
  with type_close_ok(4) [of "rcVhostHTTPSMuxer r" q] inv live own show ?thesis
    by (auto simp: rc_inv_def rc_held_def resources_simps)
next
  case (PTCPMux q)
  with type_close_ok(5) [of "rcTCPMux r" q] inv live own show ?thesis
    by (auto simp: rc_inv_def rc_held_def resources_simps)
next
  case (PSTCP q)
  with type_close_ok(6) [of "rcVisitorManager r" q] inv live own show ?thesis
    by (simp add: rc_inv_def rc_held_def resources_simps)
next
  case (PSUDP q)
  with type_close_ok(6) [of "rcVisitorManager r" q] inv live own show ?thesis
    by (simp add: rc_inv_def rc_held_def resources_simps sudp_is_stcp)
next
  case (PXTCP q)
  with type_close_ok(7) [of q "rcNatHoleController r"] inv live own show ?thesis
    by (auto simp: rc_inv_def rc_held_def resources_simps)
qed

subsection \<open>The ports that may be granted\<close>

definition rc_total :: "'c ResourceController \<Rightarrow> int set \<times> int set" where
  "rc_total r = (pm_total (tportManager (rcTCP r)), pm_total (rcUDPPortManager r))"

lemma tcp_run_total:
  assumes "tcp_ready env p r" "pm_ok (tportManager r)" "TCPProxy_Run env p r = (out, p', r')"
  shows "pm_total (tportManager r') = pm_total (tportManager r)"
  using assms
proof (cases rule: tcp_run_cases)
  case (unbound q pm)
  then show ?thesis
    using pm_total_acquire [OF assms(2) unbound(1)] pm_total_release [OF pmgr.acquire_invar [OF assms(2) unbound(1)]] by simp
qed (use pm_total_acquire [OF assms(2)] in auto)

lemma udp_run_total:
  assumes "udp_ready env p pm" "pm_ok pm" "UDPProxy_Run env p pm = (out, p', pm')"
  shows "pm_total pm' = pm_total pm"
  using assms
proof (cases rule: udp_run_cases)
  case (unbound q pm1)
  then show ?thesis
    using pm_total_acquire [OF assms(2) unbound(1)] pm_total_release [OF pmgr.acquire_invar [OF assms(2) unbound(1)]] by simp
qed (use pm_total_acquire [OF assms(2)] in auto)

lemma pxy_Run_total:
  assumes "rc_inv r" "pxy_ready e p r" "pxy_Run e p r = (out, p', r')"
  shows "rc_total r' = rc_total r"
  using assms
  by (cases p) (auto simp: rc_total_def rc_inv_def dest: tcp_run_total udp_run_total split: prod.splits)

lemma pxy_Close_total:
  assumes "rc_inv r" "pxy_live p" "pxy_Close e p r = Some r'"
  shows "rc_total r' = rc_total r"
  using assms
  by (cases p) (auto simp: rc_total_def rc_inv_def tcp_live_def TCPProxy_Close_def UDPProxy_Close_def close_net_listeners
      pm_total_release Let_def split: prod.splits if_splits option.splits)

text \<open>The invariant of the resources of a server that may grant the ports \<open>T\<close>.\<close>

definition rc_ok :: "int set \<times> int set \<Rightarrow> 'c ResourceController \<Rightarrow> bool" where
  "rc_ok T r \<longleftrightarrow> rc_inv r \<and> rc_total r = T"

lemma rc_okI: "rc_inv r \<Longrightarrow> rc_ok (rc_total r) r"
  by (simp add: rc_ok_def)

interpretation pxy: server_proxy pxy_ops pxy_ready pxy_live "rc_ok T" rc_held pxy_owned for T
proof unfold_locales
  show "pxy_live p \<Longrightarrow> 0 \<le> GetUsedPortsNum pxy_ops p" for p
    by (cases p) (simp_all add: pxy_ops_def tcp_live_def http_live_def https_live_def tcpmux_live_def)
  show "rc_ok T r \<Longrightarrow> pxy_live p \<Longrightarrow> pxy_owned p \<subseteq> rc_held r \<Longrightarrow>
      \<exists>r'. Close pxy_ops e p r = Some r' \<and> rc_ok T r' \<and> rc_held r' = rc_held r - pxy_owned p" for r p e
    using pxy_close_ok [of r p e] pxy_Close_total [of r p e] by (auto simp: pxy_ops_def rc_ok_def)
qed (auto simp: pxy_ops_def rc_ok_def dest: pxy_run_err pxy_run_ok pxy_Run_total)

abbreviation server_ok :: "int set \<times> int set \<Rightarrow> int \<Rightarrow> (server_pxy, 'c) Control list \<times> server_pxy smap \<times> 'c ResourceController \<Rightarrow> bool" where
  "server_ok T mp \<equiv> server_proxy.system_ok pxy_ops pxy_live (rc_ok T) rc_held pxy_owned {} mp"

section \<open>The whole server\<close>

lemma owned_iff:
  "TcpPort q \<in> pxy_owned x \<longleftrightarrow> (\<exists>p. x = PTCP p \<and> q = tpRealBindPort p)"
  "UdpPort q \<in> pxy_owned x \<longleftrightarrow> (\<exists>p. x = PUDP p \<and> q = upRealBindPort p)"
  "HttpRoute k \<in> pxy_owned x \<longleftrightarrow> (\<exists>p. x = PHTTP p \<and> k \<in> http_owned p)"
  "HttpsListener al \<in> pxy_owned x \<longleftrightarrow> (\<exists>p. x = PHTTPS p \<and> al \<in> set (tlsListeners p))"
  "ConnectListener m \<in> pxy_owned x \<longleftrightarrow> (\<exists>p. x = PTCPMux p \<and> m \<in> mux_listener_key ` set (mpListeners p))"
  "VisitorName n \<in> pxy_owned x \<longleftrightarrow> (\<exists>p. (x = PSTCP p \<or> x = PSUDP p) \<and> n = spName p)"
  "HoleName n \<in> pxy_owned x \<longleftrightarrow> (\<exists>p. x = PXTCP p \<and> n = xpName p)"
  by (cases x; auto)+

lemma rc_held_iff:
  "q \<in> held_ports (rcTCP r) \<longleftrightarrow> TcpPort q \<in> rc_held r"
  "q \<in> dom (usedPorts (rcUDPPortManager r)) \<longleftrightarrow> UdpPort q \<in> rc_held r"
  "k \<in> http_held (rcHTTP r) \<longleftrightarrow> HttpRoute k \<in> rc_held r"
  "al \<in> ran (mux_routes (rcVhostHTTPSMuxer r)) \<longleftrightarrow> HttpsListener al \<in> rc_held r"
  "m \<in> tm_held (rcTCPMux r) \<longleftrightarrow> ConnectListener m \<in> rc_held r"
  "n \<in> dom (listeners (rcVisitorManager r)) \<longleftrightarrow> VisitorName n \<in> rc_held r"
  "n \<in> nat_names (rcNatHoleController r) \<longleftrightarrow> HoleName n \<in> rc_held r"
  unfolding rc_held_def by (simp_all only: resources_mem)

text \<open>What the invariant of the server says of each resource.\<close>

lemma held_resources:
  assumes "server_ok T mp (cs, pm, r)"
  shows "held_ports (rcTCP r) = {tpRealBindPort p |p. PTCP p \<in> ran pm}"
    "dom (usedPorts (rcUDPPortManager r)) = {upRealBindPort p |p. PUDP p \<in> ran pm}"
    "http_held (rcHTTP r) = {k. \<exists>p. PHTTP p \<in> ran pm \<and> k \<in> http_owned p}"
    "ran (mux_routes (rcVhostHTTPSMuxer r)) = {l. \<exists>p. PHTTPS p \<in> ran pm \<and> l \<in> set (tlsListeners p)}"
    "tm_held (rcTCPMux r) = {m. \<exists>p. PTCPMux p \<in> ran pm \<and> m \<in> mux_listener_key ` set (mpListeners p)}"
    "dom (listeners (rcVisitorManager r)) = {spName p |p. PSTCP p \<in> ran pm \<or> PSUDP p \<in> ran pm}"
    "nat_names (rcNatHoleController r) = {xpName p |p. PXTCP p \<in> ran pm}"
proof -
  have held: "x \<in> rc_held r \<longleftrightarrow> (\<exists>p \<in> ran pm. x \<in> pxy_owned p)" for x
    using pxy.system_ok_summary(1) [OF assms] by auto
  show "held_ports (rcTCP r) = {tpRealBindPort p |p. PTCP p \<in> ran pm}"
    by (rule set_eqI, unfold rc_held_iff(1) held owned_iff) blast
  show "dom (usedPorts (rcUDPPortManager r)) = {upRealBindPort p |p. PUDP p \<in> ran pm}"
    by (rule set_eqI, unfold rc_held_iff(2) held owned_iff) blast
  show "http_held (rcHTTP r) = {k. \<exists>p. PHTTP p \<in> ran pm \<and> k \<in> http_owned p}"
    by (rule set_eqI, unfold rc_held_iff(3) held owned_iff) blast
  show "ran (mux_routes (rcVhostHTTPSMuxer r)) = {l. \<exists>p. PHTTPS p \<in> ran pm \<and> l \<in> set (tlsListeners p)}"
    by (rule set_eqI, unfold rc_held_iff(4) held owned_iff) blast
  show "tm_held (rcTCPMux r) = {m. \<exists>p. PTCPMux p \<in> ran pm \<and> m \<in> mux_listener_key ` set (mpListeners p)}"
    by (rule set_eqI, unfold rc_held_iff(5) held owned_iff) blast
  show "dom (listeners (rcVisitorManager r)) = {spName p |p. PSTCP p \<in> ran pm \<or> PSUDP p \<in> ran pm}"
    by (rule set_eqI, unfold rc_held_iff(6) held owned_iff) blast
  show "nat_names (rcNatHoleController r) = {xpName p |p. PXTCP p \<in> ran pm}"
    by (rule set_eqI, unfold rc_held_iff(7) held owned_iff) blast
qed

lemma system_ports_limit:
  assumes "server_ok T mp (cs, pm, r)"
  shows "\<forall>i < length cs. 0 < mp \<and> \<not> shutdown_done (cs ! i) \<longrightarrow>
    (\<Sum>n \<in> dom (cproxies (cs ! i)). pxy_GetUsedPortsNum (the (cproxies (cs ! i) n))) \<le> mp"
  using pxy.system_ok_summary(4) [OF assms] by (simp add: ports_of_def pxy_ops_def)

text \<open>The resources of a server that has just started.\<close>

definition fresh_rc :: "nat ResourceController" where
  "fresh_rc = \<lparr>rcTCP = NewTCPGroupCtl example_pm, rcUDPPortManager = udp_pm, rcHTTP = NewHTTPGroupController NewRouters,
     rcVhostHTTPSMuxer = NewMuxer, rcTCPMux = NewTCPMuxGroupCtl NewMuxer, rcVisitorManager = NewVisitorManager,
     rcNatHoleController = None\<rparr>"

lemma NewMuxer_routes: "mux_routes NewMuxer = Map.empty"
  by (auto simp: NewMuxer_def routes_abs_def Routers_exist_def NewRouters_def)

lemma fresh_rc_ok: "rc_inv fresh_rc" "rc_held fresh_rc = {}"
proof -
  have "http_inv (NewHTTPGroupController NewRouters)" by (rule http_reach_inv [OF http_reach.start])
  moreover have "pm_ok udp_pm" unfolding udp_pm_def by (rule pm_okI [OF NewPortManager_inv]) simp
  moreover have "vm_inv NewVisitorManager" by (simp add: vm_inv_def NewVisitorManager_def)
  ultimately show "rc_inv fresh_rc"
    using example_pm_ok mux_inv_NewMuxer tm_inv_new by (simp add: rc_inv_def fresh_rc_def NewTCPGroupCtl_def)
  have "http_held (NewHTTPGroupController NewRouters) = {}"
    by (rule http_keys_eqI) (auto simp: NewHTTPGroupController_def routes_abs_def Routers_exist_def NewRouters_def)
  then show "rc_held fresh_rc = {}"
    by (simp add: rc_held_def fresh_rc_def resources_def NewTCPGroupCtl_def example_pm_def udp_pm_def NewPortManager_def
        NewTCPMuxGroupCtl_def NewVisitorManager_def tm_held_def open_members_def NewMuxer_routes)
qed

end
