(* ===== verification/Proxy_Factory.thy ===== *)
theory Proxy_Factory
  imports Resource_Controller Proxy_Config
begin

text \<open>
  From a message to a running proxy: the factories of \<^verbatim>\<open>server/proxy\<close> that build a proxy of the type of its
  configuration, and the texts of configuration errors. The statements here join the configuration with
  the proxies: a configuration arrives at the server as the client wrote it, and the domains of accepted proxies
  do not collide across the two ways of naming them.
\<close>

section \<open>Error texts\<close>

fun config_error_text :: "config_error \<Rightarrow> string" where
  "config_error_text ErrUnit = ''unit not support''"
| "config_error_text (ErrFloat s) = ''strconv.ParseFloat: parsing '' @ s @ '': invalid syntax''"
| "config_error_text (ErrProxyProtocolVersion v) = ''no support proxy protocol version: '' @ v"
| "config_error_text ErrBandwidthLimitMode = ''bandwidth_limit_mode should be client or server''"
| "config_error_text ErrLocalIPRequired = ''local ip or plugin is required''"
| "config_error_text ErrLocalPort = ''error local_port''"
| "config_error_text ErrHealthCheckType = ''unsupport health check type''"
| "config_error_text ErrHealthCheckURL = ''health_check_url is required for health check type 'http'' @ [CHR 0x27]"
| "config_error_text ErrNoDomain = ''custom_domains and subdomain should set at least one of them''"
| "config_error_text (ErrCustomDomain d h) = ''custom domain ['' @ d @ ''] should not belong to subdomain_host ['' @ h @ '']''"
| "config_error_text ErrSubDomainDisabled = ''subdomain is not supported because this feature is not enabled in remote frps''"
| "config_error_text ErrSubDomainChars = [CHR 0x27] @ ''.' and '*' is not supported in subdomain''"
| "config_error_text (ErrDomainConf n e) = ''proxy ['' @ n @ ''] domain conf check error: '' @ config_error_text e"
| "config_error_text (ErrClientMultiplexer m) = ''parse conf error: incorrect multiplexer ['' @ m @ '']''"
| "config_error_text (ErrServerMultiplexer n m) = ''proxy ['' @ n @ ''] incorrect multiplexer ['' @ m @ '']''"
| "config_error_text (ErrTCPMuxPort n) =
     ''proxy ['' @ n @ ''] type [tcpmux] with multiplexer [httpconnect] requires tcpmux_httpconnect_port configuration''"
| "config_error_text ErrVhostHTTPPort = ''type [http] not support when vhost_http_port is not set''"
| "config_error_text ErrVhostHTTPSPort = ''type [https] not support when vhost_https_port is not set''"
| "config_error_text ErrRole = ''role should be 'server'' @ [CHR 0x27]"
| "config_error_text (ErrIniType t) = ''invalid type ['' @ t @ '']''"
| "config_error_text (ErrMsgType n t) = ''proxy ['' @ n @ ''] type ['' @ t @ ''] error''"
| "config_error_text (ErrIni e) = e"

section \<open>Factories\<close>

definition NewHTTPProxy :: "HTTPProxyConf \<Rightarrow> HTTPProxy" where
  "NewHTTPProxy c =
     \<lparr>hpName = bProxyName c, hpGroup = bGroup c, hpGroupKey = bGroupKey c, hpCustomDomains = dCustomDomains (hcDomainConf c),
      hpSubDomain = dSubDomain (hcDomainConf c), hpLocations = hcLocations c, hpHostHeaderRewrite = hcHostHeaderRewrite c,
      hpHeaders = hcHeaders c, hpHTTPUser = hcHTTPUser c, hpHTTPPwd = hcHTTPPwd c, hpRouteByHTTPUser = hcRouteByHTTPUser c,
      hpCloseFuncs = [], hpUsedPortsNum = 0\<rparr>"

definition NewHTTPSProxy :: "HTTPSProxyConf \<Rightarrow> HTTPSProxy" where
  "NewHTTPSProxy c =
     \<lparr>tlsName = bProxyName c, tlsCustomDomains = dCustomDomains (scDomainConf c), tlsSubDomain = dSubDomain (scDomainConf c),
      tlsListeners = [], tlsUsedPortsNum = 0\<rparr>"

definition NewTCPMuxProxy :: "TCPMuxProxyConf \<Rightarrow> TCPMuxProxy" where
  "NewTCPMuxProxy c =
     \<lparr>mpName = bProxyName c, mpMultiplexer = mcMultiplexer c, mpGroup = bGroup c, mpGroupKey = bGroupKey c,
      mpCustomDomains = dCustomDomains (mcDomainConf c), mpSubDomain = dSubDomain (mcDomainConf c),
      mpRouteByHTTPUser = mcRouteByHTTPUser c, mpHTTPUser = mcHTTPUser c, mpHTTPPwd = mcHTTPPwd c, mpListeners = [],
      mpUsedPortsNum = 0\<rparr>"

text \<open>\<^verbatim>\<open>NewProxy\<close> finds the factory by the type of the configuration; every type has one. \<open>user\<close> is the user of the login.\<close>

primrec NewProxy_server :: "string \<Rightarrow> ProxyConf \<Rightarrow> server_pxy" where
  "NewProxy_server user (TCPConf c) = PTCP (NewTCPProxy (bProxyName c) (bGroup c) (bGroupKey c) (tcRemotePort c))"
| "NewProxy_server user (TCPMuxConf c) = PTCPMux (NewTCPMuxProxy c)"
| "NewProxy_server user (UDPConf c) = PUDP (NewUDPProxy (bProxyName c) (ucRemotePort c))"
| "NewProxy_server user (HTTPConf c) = PHTTP (NewHTTPProxy c)"
| "NewProxy_server user (HTTPSConf c) = PHTTPS (NewHTTPSProxy c)"
| "NewProxy_server user (STCPConf c) = PSTCP (NewSTCPProxy (bProxyName c) (rSk (rcRole c)) (rAllowUsers (rcRole c)) user)"
| "NewProxy_server user (XTCPConf c) = PXTCP (NewXTCPProxy (bProxyName c) (rSk (rcRole c)) (rAllowUsers (rcRole c)) user)"
| "NewProxy_server user (SUDPConf c) = PSUDP (NewSTCPProxy (bProxyName c) (rSk (rcRole c)) (rAllowUsers (rcRole c)) user)"

text \<open>The limiter of a proxy on the server: the bytes per second, none for an unlimited proxy or one limited by the
  client.\<close>

definition proxy_limiter :: "ProxyConf \<Rightarrow> int option" where
  "proxy_limiter conf =
     (let b = GetBaseConfig conf
      in if qi (bBandwidthLimit b) > 0 \<and> bBandwidthLimitMode b = ''server'' then Some (qi (bBandwidthLimit b)) else None)"

definition pxy_from_msg :: "(string \<Rightarrow> int \<Rightarrow> int option) \<Rightarrow> vhost_cfg \<Rightarrow> string \<Rightarrow> NewProxy \<Rightarrow> (string, server_pxy) result" where
  "pxy_from_msg flt srv user m =
     (case NewProxyConfFromMsg flt m srv of
        Inl e \<Rightarrow> Inl (config_error_text e)
      | Inr conf \<Rightarrow> Inr (NewProxy_server user conf))"

section \<open>The proxy a message describes\<close>

primrec pxy_type :: "server_pxy \<Rightarrow> string" where
  "pxy_type (PTCP _) = ''tcp''"
| "pxy_type (PUDP _) = ''udp''"
| "pxy_type (PHTTP _) = ''http''"
| "pxy_type (PHTTPS _) = ''https''"
| "pxy_type (PTCPMux _) = ''tcpmux''"
| "pxy_type (PSTCP _) = ''stcp''"
| "pxy_type (PSUDP _) = ''sudp''"
| "pxy_type (PXTCP _) = ''xtcp''"

lemma NewProxy_server_type [simp]: "pxy_type (NewProxy_server user conf) = conf_type conf"
  by (cases conf) simp_all

lemma NewProxy_server_name: "pxy_GetName (NewProxy_server user conf) = bProxyName (GetBaseConfig conf)"
  by (cases conf) (simp_all add: BaseProxyConf.defs NewTCPProxy_def NewUDPProxy_def NewHTTPProxy_def NewHTTPSProxy_def
      NewTCPMuxProxy_def NewSTCPProxy_def NewXTCPProxy_def)

lemma unmarshal_type [simp]: "conf_type (UnmarshalFromMsg flt m conf) = conf_type conf"
  by (cases conf) simp_all

lemma unmarshal_base:
  "bProxyName (GetBaseConfig (UnmarshalFromMsg flt m conf)) = npProxyName m"
  by (cases conf) (simp_all add: conf_msg_defs Base_unmarshalFromMsg_def BaseProxyConf.defs Let_def)

text \<open>The message the server works with: an empty type is TCP.\<close>

definition msg_tcp :: "NewProxy \<Rightarrow> NewProxy" where
  "msg_tcp m = (if npProxyType m = [] then m\<lparr>npProxyType := ''tcp''\<rparr> else m)"

lemma NewProxyConfFromMsg_Inr_iff:
  "NewProxyConfFromMsg flt m srv = Inr conf \<longleftrightarrow>
     (\<exists>c0. DefaultProxyConf (npProxyType (msg_tcp m)) = Some c0 \<and> conf = UnmarshalFromMsg flt (msg_tcp m) c0 \<and>
        ValidateForServer srv conf = None)"
  by (auto simp: NewProxyConfFromMsg_def msg_tcp_def Let_def split: option.splits)

lemma pxy_from_msg_Inr:
  assumes "pxy_from_msg flt srv user m = Inr p"
  obtains c0 conf where "DefaultProxyConf (npProxyType (msg_tcp m)) = Some c0" "conf = UnmarshalFromMsg flt (msg_tcp m) c0"
    "ValidateForServer srv conf = None" "p = NewProxy_server user conf"
  using assms by (auto simp: pxy_from_msg_def NewProxyConfFromMsg_Inr_iff split: sum.splits)

text \<open>C16: a proxy is built exactly from a message of one of the eight types whose configuration the server's checks
  accept; it is of the type and has the name that the message says, an empty type standing for TCP, and an
  unknown type is an error.\<close>

theorem message_gives_typed_proxy:
  "(pxy_from_msg flt srv user m = Inr p \<longrightarrow>
      pxy_type p = npProxyType (msg_tcp m) \<and> pxy_GetName p = npProxyName m \<and>
      pxy_GetUsedPortsNum p = (if pxy_type p \<in> {''tcp'', ''udp''} then 1 else 0)) \<and>
   (npProxyType (msg_tcp m) \<notin> range conf_type \<longleftrightarrow>
      NewProxyConfFromMsg flt m srv = Inl (ErrMsgType (npProxyName m) (npProxyType (msg_tcp m))))"
proof
  show "pxy_from_msg flt srv user m = Inr p \<longrightarrow>
      pxy_type p = npProxyType (msg_tcp m) \<and> pxy_GetName p = npProxyName m \<and>
      pxy_GetUsedPortsNum p = (if pxy_type p \<in> {''tcp'', ''udp''} then 1 else 0)"
  proof
    assume "pxy_from_msg flt srv user m = Inr p"
    then obtain c0 conf where c: "DefaultProxyConf (npProxyType (msg_tcp m)) = Some c0" "conf = UnmarshalFromMsg flt (msg_tcp m) c0"
      "p = NewProxy_server user conf" by (rule pxy_from_msg_Inr)
    have "npProxyName (msg_tcp m) = npProxyName m" by (simp add: msg_tcp_def)
    moreover have "pxy_GetUsedPortsNum (NewProxy_server user conf) = (if conf_type conf \<in> {''tcp'', ''udp''} then 1 else 0)"
      by (cases conf) (simp_all add: NewTCPProxy_def NewUDPProxy_def NewHTTPProxy_def NewHTTPSProxy_def NewTCPMuxProxy_def
          NewSTCPProxy_def NewXTCPProxy_def)
    ultimately show "pxy_type p = npProxyType (msg_tcp m) \<and> pxy_GetName p = npProxyName m \<and>
        pxy_GetUsedPortsNum p = (if pxy_type p \<in> {''tcp'', ''udp''} then 1 else 0)"
      using DefaultProxyConf_type [OF c(1)] c(2,3) by (simp add: NewProxy_server_name unmarshal_base)
  qed
  have name: "npProxyName (msg_tcp m) = npProxyName m" by (simp add: msg_tcp_def)
  have val: "ValidateForServer srv conf \<noteq> Some (ErrMsgType x y)" for conf x y
    by (cases conf) (auto simp: Base_validateForServer_def TCPMuxConf_ValidateForServer_def HTTPConf_ValidateForServer_def
        HTTPSConf_ValidateForServer_def split: option.splits)
  show "npProxyType (msg_tcp m) \<notin> range conf_type \<longleftrightarrow>
      NewProxyConfFromMsg flt m srv = Inl (ErrMsgType (npProxyName m) (npProxyType (msg_tcp m)))"
    unfolding DefaultProxyConf_None [symmetric] NewProxyConfFromMsg_def msg_tcp_def [symmetric] Let_def name
    using val by (auto split: option.splits)
qed

definition example_srv :: vhost_cfg where
  "example_srv = \<lparr>SubDomainHost = ''frp.io'', VhostHTTPPort = 80, VhostHTTPSPort = 443, TCPMuxHTTPConnectPort = 0\<rparr>"

definition no_float :: "string \<Rightarrow> int \<Rightarrow> int option" where
  "no_float s base = None"

lemmas example_defs = pxy_from_msg_def NewProxyConfFromMsg_def empty_NewProxy_def conf_new_defs example_srv_def
  Base_SetDefaultValues_def zero_base_def Base_unmarshalFromMsg_def Base_validateForServer_def Let_def

lemma example_tcp: "\<exists>p. pxy_from_msg no_float example_srv ''u'' (empty_NewProxy\<lparr>npProxyName := ''ssh'', npRemotePort := 6000\<rparr>) = Inr p"
  by (simp add: example_defs TCPConf_UnmarshalFromMsg_def TCPProxyConf.defs)

theorem message_gives_typed_proxy_witness:
  "\<exists>p. pxy_from_msg no_float example_srv ''u'' (empty_NewProxy\<lparr>npProxyName := ''ssh'', npRemotePort := 6000\<rparr>) = Inr p \<and>
     pxy_type p = ''tcp'' \<and> pxy_GetName p = ''ssh''"
proof -
  obtain p where p: "pxy_from_msg no_float example_srv ''u'' (empty_NewProxy\<lparr>npProxyName := ''ssh'', npRemotePort := 6000\<rparr>) = Inr p"
    using example_tcp by blast
  with message_gives_typed_proxy [of no_float example_srv "''u''" "empty_NewProxy\<lparr>npProxyName := ''ssh'', npRemotePort := 6000\<rparr>" p]
  show ?thesis by (simp add: msg_tcp_def empty_NewProxy_def)
qed

section \<open>The way of a configuration\<close>

lemma NewProxy_server_view [simp]: "NewProxy_server user (server_view cfg) = NewProxy_server user cfg"
  by (cases cfg) (simp_all add: base_view_def role_view_def NewHTTPProxy_def NewHTTPSProxy_def NewTCPMuxProxy_def)

lemma proxy_limiter_view [simp]: "proxy_limiter (server_view cfg) = proxy_limiter cfg"
  by (cases cfg) (simp_all add: proxy_limiter_def base_view_def role_view_def BaseProxyConf.defs)

text \<open>C13: the proxy that the server builds from the message of a client is the proxy that the client's
  section of the ini file describes, with the same bandwidth limit and the name with the user's prefix: nothing the server
  uses is lost in the message. The server refuses it exactly when its own checks fail on what it knows of it.\<close>

theorem configuration_reaches_server:
  assumes "NewProxyConfFromIni flt pre name sec = Inr cfg" "ini_maps sec"
  shows "pxy_from_msg flt srv user (MarshalToMsg cfg empty_NewProxy) =
      (case ValidateForServer srv (server_view cfg) of
         Some e \<Rightarrow> Inl (config_error_text e) | None \<Rightarrow> Inr (NewProxy_server user cfg)) \<and>
    pxy_GetName (NewProxy_server user cfg) = pre @ name \<and>
    (\<forall>conf. NewProxyConfFromMsg flt (MarshalToMsg cfg empty_NewProxy) srv = Inr conf \<longrightarrow>
       conf = server_view cfg \<and> proxy_limiter conf = proxy_limiter cfg)"
proof -
  note ini = NewProxyConfFromIni_Inr [OF assms]
  from NewProxyConfFromMsg_marshal [OF ini(1)] ini(2) show ?thesis
    by (simp add: pxy_from_msg_def NewProxy_server_name split: option.split)
qed

definition example_section :: ini_section where
  "example_section =
     \<lparr>iniName = ''ssh'', iniKey = (\<lambda>k. if k = ''type'' then ''tcp'' else []),
      iniKeysHash = [(''type'', ''tcp''), (''local_port'', ''22''), (''remote_port'', ''6000''), (''meta_id'', ''7'')],
      iniGetKey = map_of [(''type'', ''tcp''), (''local_port'', ''22''), (''remote_port'', ''6000''), (''meta_id'', ''7'')],
      iniMapTo = (\<lambda>c. case c of
         TCPConf c \<Rightarrow> Inr (TCPConf (c\<lparr>bProxyType := ''tcp'', tcRemotePort := 6000,
           bLocalSvrConf := (bLocalSvrConf c)\<lparr>LocalPort := 22\<rparr>\<rparr>))
       | _ \<Rightarrow> Inl ''not a TCP proxy'')\<rparr>"

lemma example_section_maps: "ini_maps example_section"
  by (auto simp: ini_maps_def example_section_def BaseProxyConf.defs split: ProxyConf.splits)

lemma example_section_conf:
  "\<exists>c. NewProxyConfFromIni no_float ''alice.'' ''ssh'' example_section = Inr (TCPConf c) \<and> tcRemotePort c = 6000 \<and>
     bGroup c = [] \<and> bGroupKey c = [] \<and> bProxyName c = ''alice.ssh'' \<and> bBandwidthLimitMode c = ''client''"
  by (simp add: NewProxyConfFromIni_def UnmarshalFromIni_def preUnmarshalFromIni_def example_section_def conf_new_defs
      Base_SetDefaultValues_def zero_base_def Base_decorate_def decorate_health_def Base_validateForClient_def
      LocalSvrConf_validateForClient_def HealthCheckConf_validateForClient_def zero_LocalSvrConf_def zero_HealthCheckConf_def
      BaseProxyConf.defs TCPProxyConf.defs Let_def)

theorem configuration_reaches_server_witness:
  "\<exists>cfg. NewProxyConfFromIni no_float ''alice.'' ''ssh'' example_section = Inr cfg \<and>
     pxy_from_msg no_float example_srv ''alice'' (MarshalToMsg cfg empty_NewProxy) =
       Inr (PTCP (NewTCPProxy ''alice.ssh'' [] [] 6000))"
proof -
  obtain c where c: "NewProxyConfFromIni no_float ''alice.'' ''ssh'' example_section = Inr (TCPConf c)" "tcRemotePort c = 6000"
    "bGroup c = []" "bGroupKey c = []" "bProxyName c = ''alice.ssh''" "bBandwidthLimitMode c = ''client''"
    using example_section_conf by blast
  from configuration_reaches_server [OF c(1) example_section_maps, of example_srv "''alice''"] c(2-)
  show ?thesis using c(1) by (auto simp: Base_validateForServer_def base_view_def)
qed

section \<open>Domains\<close>

lemma Contains_infix: "Contains (a @ p @ b) p"
proof (induction a)
  case Nil
  have "HasPrefix (p @ b) p" by (simp add: HasPrefix_def)
  then show ?case by (cases "p @ b") auto
qed simp

lemma Contains_char: "Contains s [c] \<longleftrightarrow> c \<in> set s"
  by (induction s) (auto simp: HasPrefix_def)

lemma check_custom_domains_None:
  "check_custom_domains host ds = None \<longleftrightarrow>
     (\<forall>d \<in> set ds. \<not> (host \<noteq> [] \<and> length (Split CHR ''.'' host) < length (Split CHR ''.'' d) \<and> Contains d host))"
  by (induction ds) auto

text \<open>What an accepted pair of custom domains and subdomain satisfies.\<close>

lemma DomainConf_validateForServer_None:
  assumes "DomainConf_validateForServer srv c = None"
  shows "dCustomDomains c \<noteq> [] \<or> dSubDomain c \<noteq> []"
    "dSubDomain c \<noteq> [] \<Longrightarrow> SubDomainHost srv \<noteq> [] \<and> CHR ''.'' \<notin> set (dSubDomain c) \<and> CHR ''*'' \<notin> set (dSubDomain c)"
    "CHR ''.'' \<notin> set sub \<Longrightarrow> SubDomainHost srv \<noteq> [] \<Longrightarrow> sub @ ''.'' @ SubDomainHost srv \<notin> set (dCustomDomains c)"
proof -
  show "dCustomDomains c \<noteq> [] \<or> dSubDomain c \<noteq> []" using assms
    by (auto simp: DomainConf_validateForServer_def DomainConf_check_def)
  show "dSubDomain c \<noteq> [] \<Longrightarrow> SubDomainHost srv \<noteq> [] \<and> CHR ''.'' \<notin> set (dSubDomain c) \<and> CHR ''*'' \<notin> set (dSubDomain c)"
    using assms by (auto simp: DomainConf_validateForServer_def Contains_char split: option.splits if_splits)
  assume sub: "CHR ''.'' \<notin> set sub" and host: "SubDomainHost srv \<noteq> []"
  have custom: "check_custom_domains (SubDomainHost srv) (dCustomDomains c) = None"
    using assms by (auto simp: DomainConf_validateForServer_def split: option.splits)
  have "Contains (sub @ ''.'' @ SubDomainHost srv) (SubDomainHost srv)"
    using Contains_infix [of "sub @ ''.''" "SubDomainHost srv" "[]"] by simp
  moreover have "length (Split CHR ''.'' (SubDomainHost srv)) < length (Split CHR ''.'' (sub @ ''.'' @ SubDomainHost srv))"
    using Split_append_sep [OF sub, of "SubDomainHost srv"] by simp
  ultimately show "sub @ ''.'' @ SubDomainHost srv \<notin> set (dCustomDomains c)"
    using custom host unfolding check_custom_domains_None by blast
qed

text \<open>The domains a proxy asks for.\<close>

fun pxy_domains :: "vhost_cfg \<Rightarrow> server_pxy \<Rightarrow> string set" where
  "pxy_domains srv (PHTTP p) = Domain ` set (http_routes_of srv p)"
| "pxy_domains srv (PHTTPS p) = set (https_domains srv p)"
| "pxy_domains srv (PTCPMux p) = set (tcpmux_domains srv p)"
| "pxy_domains srv _ = {}"

primrec conf_domains :: "ProxyConf \<Rightarrow> DomainConf option" where
  "conf_domains (TCPConf _) = None"
| "conf_domains (TCPMuxConf c) = Some (mcDomainConf c)"
| "conf_domains (UDPConf _) = None"
| "conf_domains (HTTPConf c) = Some (hcDomainConf c)"
| "conf_domains (HTTPSConf c) = Some (scDomainConf c)"
| "conf_domains (STCPConf _) = None"
| "conf_domains (XTCPConf _) = None"
| "conf_domains (SUDPConf _) = None"

lemma ValidateForServer_domains:
  "ValidateForServer srv conf = None \<Longrightarrow> conf_domains conf = Some c \<Longrightarrow> DomainConf_validateForServer srv c = None"
  by (cases conf) (auto simp: TCPMuxConf_ValidateForServer_def HTTPConf_ValidateForServer_def HTTPSConf_ValidateForServer_def
      split: option.splits if_splits)

lemma http_routes_domains:
  "Domain ` set (http_routes_of srv p) =
     {d \<in> set (hpCustomDomains p). d \<noteq> []} \<union> (if hpSubDomain p \<noteq> [] then {hpSubDomain p @ ''.'' @ SubDomainHost srv} else {})"
proof -
  define ls where "ls = (if hpLocations p = [] then [''''] else hpLocations p)"
  have ls: "ls \<noteq> []" by (simp add: ls_def)
  have r: "Domain ` set (map (\<lambda>l. (http_route_config p)\<lparr>Domain := d, Location := l\<rparr>) ls) = {d}" for d
    using ls by (auto simp: image_iff neq_Nil_conv)
  have c: "Domain ` set (concat (map (\<lambda>d. map (\<lambda>l. (http_route_config p)\<lparr>Domain := d, Location := l\<rparr>) ls) ds)) = set ds" for ds
    using r by (induction ds) (auto simp: image_Un)
  show ?thesis unfolding http_routes_of_def ls_def [symmetric] Let_def set_append image_Un c
    using r by (cases "hpSubDomain p = []") auto
qed

lemma pxy_domains_conf:
  "d \<in> pxy_domains srv (NewProxy_server user conf) \<longleftrightarrow>
     (\<exists>c. conf_domains conf = Some c \<and>
        (d \<in> set (dCustomDomains c) \<and> d \<noteq> [] \<or> dSubDomain c \<noteq> [] \<and> d = dSubDomain c @ ''.'' @ SubDomainHost srv))"
  by (cases conf) (auto simp: NewHTTPProxy_def NewHTTPSProxy_def NewTCPMuxProxy_def http_routes_domains https_domains_def
      tcpmux_domains_def)

lemma unmarshal_domains:
  "conf_domains (UnmarshalFromMsg flt m c0) = Some c \<Longrightarrow> dSubDomain c = npSubDomain m \<and> dCustomDomains c = npCustomDomains m"
  by (cases c0) (auto simp: conf_msg_defs)

text \<open>C15: the names below the server's subdomain host are given out by subdomain only: when an accepted proxy of
  any virtual host type asks for a subdomain, another accepted proxy has that domain only if it asks for the same subdomain;
  no list of custom domains, wildcard included, contains it.\<close>

theorem subdomains_are_separate:
  assumes "pxy_from_msg flt srv u1 m1 = Inr p1" "npSubDomain m1 @ ''.'' @ SubDomainHost srv \<in> pxy_domains srv p1"
    and "npSubDomain m1 \<noteq> []"
    and "pxy_from_msg flt srv u2 m2 = Inr p2" "npSubDomain m1 @ ''.'' @ SubDomainHost srv \<in> pxy_domains srv p2"
  shows "npSubDomain m2 = npSubDomain m1 \<and> CHR ''.'' \<notin> set (npSubDomain m1) \<and>
    npSubDomain m1 @ ''.'' @ SubDomainHost srv \<notin> set (npCustomDomains m2) \<and>
    ''*.'' @ SubDomainHost srv \<notin> set (npCustomDomains m2)"
proof -
  have conf: "\<exists>c. DomainConf_validateForServer srv c = None \<and> dSubDomain c = npSubDomain m \<and> dCustomDomains c = npCustomDomains m \<and>
      (d \<in> set (dCustomDomains c) \<or> dSubDomain c \<noteq> [] \<and> d = dSubDomain c @ ''.'' @ SubDomainHost srv)"
    if "pxy_from_msg flt srv u m = Inr p" "d \<in> pxy_domains srv p" for u m p d
  proof -
    from that(1) obtain c0 conf where c: "conf = UnmarshalFromMsg flt (msg_tcp m) c0" "ValidateForServer srv conf = None"
      "p = NewProxy_server u conf" by (rule pxy_from_msg_Inr)
    from that(2) obtain dc where dc: "conf_domains conf = Some dc"
      "d \<in> set (dCustomDomains dc) \<or> dSubDomain dc \<noteq> [] \<and> d = dSubDomain dc @ ''.'' @ SubDomainHost srv"
      unfolding c(3) pxy_domains_conf by blast
    with ValidateForServer_domains [OF c(2)] unmarshal_domains [of flt "msg_tcp m" c0 dc] c(1) show ?thesis
      by (intro exI [of _ dc]) (simp add: msg_tcp_def split: if_splits)
  qed
  from conf [OF assms(1,2)] obtain c1 where c1: "DomainConf_validateForServer srv c1 = None" "dSubDomain c1 = npSubDomain m1" by blast
  with DomainConf_validateForServer_None(2) [OF c1(1)] assms(3)
  have s1: "SubDomainHost srv \<noteq> []" "CHR ''.'' \<notin> set (npSubDomain m1)" by auto
  from conf [OF assms(4,5)] obtain c2 where c2: "DomainConf_validateForServer srv c2 = None" "dSubDomain c2 = npSubDomain m2"
    "dCustomDomains c2 = npCustomDomains m2"
    "npSubDomain m1 @ ''.'' @ SubDomainHost srv \<in> set (dCustomDomains c2) \<or>
     npSubDomain m1 @ ''.'' @ SubDomainHost srv = dSubDomain c2 @ ''.'' @ SubDomainHost srv" by blast
  note out = DomainConf_validateForServer_None(3) [OF c2(1) _ s1(1)]
  from out [OF s1(2)] out [of "''*''"] c2 s1(2) show ?thesis by auto
qed

definition example_sub :: NewProxy where
  "example_sub = empty_NewProxy\<lparr>npProxyName := ''web'', npProxyType := ''https'', npSubDomain := ''a''\<rparr>"

lemma example_sub_accepted:
  "\<exists>p. pxy_from_msg no_float example_srv ''u'' example_sub = Inr p \<and> ''a.frp.io'' \<in> pxy_domains example_srv p"
  by (simp add: example_defs example_sub_def HTTPSConf_UnmarshalFromMsg_def HTTPSConf_ValidateForServer_def HTTPSProxyConf.defs
      DomainConf_validateForServer_def DomainConf_check_def NewHTTPSProxy_def https_domains_def HasPrefix_def)

theorem subdomains_are_separate_witness:
  "(\<exists>p. pxy_from_msg no_float example_srv ''u'' example_sub = Inr p) \<and> ''*.frp.io'' \<notin> set (npCustomDomains example_sub)"
proof -
  obtain p where p: "pxy_from_msg no_float example_srv ''u'' example_sub = Inr p" "''a.frp.io'' \<in> pxy_domains example_srv p"
    using example_sub_accepted by blast
  with subdomains_are_separate [of no_float example_srv "''u''" example_sub p "''u''" example_sub p]
  show ?thesis by (auto simp: example_srv_def example_sub_def)
qed

end
