(* ===== verification/Server_Service.thy ===== *)
theory Server_Service
  imports Plugin_Manager Account_API Proxy_Factory
begin

text \<open>
  Model of \<^verbatim>\<open>server/service.go\<close> and of the message loop of \<^verbatim>\<open>server/control.go\<close>: what the server does with the first
  message of a connection (login, work connection, visitor connection) and with the messages of a client that is
  logged in. The controls, the table of run ids, the proxy manager, the plugins, the verifier and the shared resources
  are one state, \<open>Service\<close>. A login that replaces a control of the same run id waits for it, so it is two
  operations, \<open>RegisterControl\<close> and \<open>RegisterControl_start\<close>, with the steps of other connections in between. What comes
  from outside (clock, random numbers, the account service, the operating system) is the record \<open>service_env\<close>.
  Panics that nothing recovers are \<open>None\<close>.
\<close>

section \<open>State\<close>

datatype svc_msg = MLogin Login | MNewProxy NewProxy | MPing Ping | MNewWorkConn NewWorkConn | MCloseProxy string

record NewVisitorConn =
  vcRunID :: string
  vcProxyName :: string
  vcSignKey :: string
  vcTimestamp :: int
  vcUseEncryption :: bool
  vcUseCompression :: bool

record service_conf =
  sfVhost :: vhost_cfg
  sfMaxPoolCount :: int
  sfMaxPortsPerClient :: int
  sfDetailedErrorsToClient :: bool
  sfEnableAPI :: bool
  sfAPIToken :: string
  sfTCPMux :: bool
  sfHeartbeatTimeout :: int

record 'c service_env =
  xNow :: int
  xRandID :: "(string, string) result"
  xAuth :: auth_env
  xAPIParse :: "string option"
  xGet :: http_get
  xDecode :: "string \<Rightarrow> (string, bool \<times> string) result"
  xDecodeStatus :: "string \<Rightarrow> (string, int \<times> string) result"
  xDecodeLimit :: "string \<Rightarrow> (string, 64 word \<times> 64 word) result"
  xDomains :: "string list \<Rightarrow> string"
  xFloat :: "string \<Rightarrow> int \<Rightarrow> int option"
  xPxy :: server_env
  xLo :: lo_lib
  xWrap :: "'c conn_wrap"
  xSid :: string

record 'c Service =
  svCtlManager :: "(server_pxy, 'c) ControlManager"
  svLogins :: "Login list"
  svPxyManager :: "server_pxy smap"
  svPlugins :: "svc_msg PluginManager"
  svVerifier :: Verifier
  svRC :: "'c ResourceController"

abbreviation svCtls :: "'c Service \<Rightarrow> (server_pxy, 'c) Control list" where
  "svCtls s \<equiv> ctls (svCtlManager s)"

abbreviation svTable :: "'c Service \<Rightarrow> addr smap" where
  "svTable s \<equiv> ctlsByRunID (svCtlManager s)"

definition set_ctl :: "addr \<Rightarrow> (server_pxy, 'c) Control \<Rightarrow> 'c Service \<Rightarrow> 'c Service" where
  "set_ctl a ctl s = s\<lparr>svCtlManager := (svCtlManager s)\<lparr>ctls := (svCtls s)[a := ctl]\<rparr>\<rparr>"

section \<open>Logging in\<close>

text \<open>The user names that the regular expression \<^verbatim>\<open>^[A-Za-z0-9]{1,64}$\<close> matches.\<close>

definition alnum :: "char \<Rightarrow> bool" where
  "alnum c \<longleftrightarrow> (let n = (of_char c :: nat) in 48 \<le> n \<and> n \<le> 57 \<or> 65 \<le> n \<and> n \<le> 90 \<or> 97 \<le> n \<and> n \<le> 122)"

definition valid_username :: "string \<Rightarrow> bool" where
  "valid_username u \<longleftrightarrow> 1 \<le> length u \<and> length u \<le> 64 \<and> (\<forall>c \<in> set u. alnum c)"

text \<open>The admission by the account service; the inner \<open>None\<close> is no error.\<close>

definition api_login :: "service_conf \<Rightarrow> 'c service_env \<Rightarrow> Login \<Rightarrow> string option option" where
  "api_login cfg env m =
     (if \<not> sfEnableAPI cfg then Some None
      else case xAPIParse env of
        Some e \<Rightarrow> Some (Some e)
      | None \<Rightarrow>
          if \<not> valid_username (lUser m) then Some (Some ''invalid username'')
          else case CheckToken (xGet env) (xDecode env) (lUser m) (lPrivilegeKey m) (xNow env) (sfAPIToken cfg) of
            Inl e \<Rightarrow> Some (Some (api_error_text e))
          | Inr valid \<Rightarrow>
              if \<not> valid then Some (Some ''authorization failed'')
              else case GetProxyLimit (xGet env) (xDecodeStatus env) (xDecodeLimit env) (lUser m) (xNow env) (sfAPIToken cfg) of
                None \<Rightarrow> None
              | Some (Inl e) \<Rightarrow> Some (Some (api_error_text e))
              | Some (Inr limits) \<Rightarrow> Some None)"

text \<open>\<^verbatim>\<open>RegisterControl\<close> up to the table entry: the new control and the one it replaces, which has to be waited for.\<close>

definition RegisterControl :: "service_conf \<Rightarrow> 'c service_env \<Rightarrow> Login \<Rightarrow> 'c Service \<Rightarrow>
    ((string, addr \<times> addr option) result \<times> 'c Service) option" where
  "RegisterControl cfg env m0 s =
     (case (if lRunID m0 = [] then map_sum id (\<lambda>rand. m0\<lparr>lRunID := lUser m0 @ ''-'' @ rand\<rparr>) (xRandID env) else Inr m0) of
        Inl e \<Rightarrow> Some (Inl e, s)
      | Inr m \<Rightarrow>
          if \<not> fst (Compat (lVersion m)) then Some (Inl (snd (Compat (lVersion m))), s)
          else case VerifyLogin (xAuth env) (svVerifier s) m of
            None \<Rightarrow> None
          | Some (Some e, v) \<Rightarrow> Some (Inl e, s\<lparr>svVerifier := v\<rparr>)
          | Some (None, v) \<Rightarrow>
              (let s1 = s\<lparr>svVerifier := v\<rparr>
               in case api_login cfg env m of
                    None \<Rightarrow> None
                  | Some (Some e) \<Rightarrow> Some (Inl e, s1)
                  | Some None \<Rightarrow>
                      (case NewControl (xNow env) (sfMaxPoolCount cfg) (lPoolCount m) (lRunID m) of
                         None \<Rightarrow> None
                       | Some ctl \<Rightarrow>
                           (let a = length (svCtls s1);
                                cm = (svCtlManager s1)\<lparr>ctls := svCtls s1 @ [ctl]\<rparr>;
                                (old, cm1) = ControlManager_Add (lRunID m) a cm
                            in Some (Inr (a, old), s1\<lparr>svCtlManager := cm1, svLogins := svLogins s1 @ [m]\<rparr>)))))"

text \<open>The rest of \<^verbatim>\<open>RegisterControl\<close>: wait for the replaced control (\<open>None\<close> while it blocks), then start.\<close>

definition RegisterControl_start :: "addr \<Rightarrow> addr option \<Rightarrow> 'c Service \<Rightarrow> 'c Service option" where
  "RegisterControl_start a old s =
     (case old of
        None \<Rightarrow> Some (set_ctl a (Control_Start (svCtls s ! a)) s)
      | Some b \<Rightarrow>
          (case WaitClosed (svCtls s ! b) of
             (False, _) \<Rightarrow> None
           | (True, ctl) \<Rightarrow> (let s1 = set_ctl b ctl s in Some (set_ctl a (Control_Start (svCtls s1 ! a)) s1))))"

text \<open>The goroutine that \<^verbatim>\<open>RegisterControl\<close> leaves behind: it removes the entry when the control is closed.\<close>

definition RegisterControl_gone :: "addr \<Rightarrow> 'c Service \<Rightarrow> 'c Service" where
  "RegisterControl_gone a s = s\<lparr>svCtlManager := ControlManager_Del (lRunID (svLogins s ! a)) a (svCtlManager s)\<rparr>"

section \<open>Work connections and visitors\<close>

definition user_info :: "Login \<Rightarrow> UserInfo" where
  "user_info m = \<lparr>uiUser = lUser m, uiMetas = lMetas m, uiRunID = lRunID m\<rparr>"

text \<open>The reply is the error of a \<^verbatim>\<open>StartWorkConn\<close> message, when one is written.\<close>

definition Service_RegisterWorkConn :: "service_conf \<Rightarrow> 'c service_env \<Rightarrow> 'c \<Rightarrow> NewWorkConn \<Rightarrow> 'c Service \<Rightarrow>
    (string option \<times> string option \<times> 'c Service) option" where
  "Service_RegisterWorkConn cfg env conn m s =
     (case ControlManager_GetByID (wRunID m) (svCtlManager s) of
        None \<Rightarrow> Some (None, Some (''no client control found for run id ['' @ wRunID m @ '']''), s)
      | Some a \<Rightarrow>
          (let refuse = (\<lambda>(m1 :: NewWorkConn) e. Some (Some (GenerateResponseErrorString ''invalid NewWorkConn'' e (sfDetailedErrorsToClient cfg)),
                           Some (''invalid NewWorkConn with run id ['' @ wRunID m1 @ '']''), s))
           in case PluginManager_NewWorkConn (svPlugins s) (NewWorkConnContent (user_info (svLogins s ! a)) (MNewWorkConn m)) of
                PluginErr e \<Rightarrow> refuse m e
              | PluginOk (NewWorkConnContent _ (MNewWorkConn m1)) \<Rightarrow>
                  (case VerifyNewWorkConn (xAuth env) (svVerifier s) m1 of
                     None \<Rightarrow> None
                   | Some (Some e) \<Rightarrow> refuse m1 e
                   | Some None \<Rightarrow>
                       (case RegisterWorkConn conn (svCtls s ! a) of
                          (err, ctl) \<Rightarrow> Some (None, err, set_ctl a ctl s)))
              | _ \<Rightarrow> None))"

text \<open>Without a run id the user of a visitor is empty, for clients of older versions.\<close>

definition visitor_user :: "NewVisitorConn \<Rightarrow> 'c Service \<Rightarrow> (string, string) result" where
  "visitor_user m s =
     (if vcRunID m = [] then Inr []
      else case ControlManager_GetByID (vcRunID m) (svCtlManager s) of
        None \<Rightarrow> Inl (''no client control found for run id ['' @ vcRunID m @ '']'')
      | Some a \<Rightarrow> Inr (lUser (svLogins s ! a)))"

definition Service_RegisterVisitorConn :: "'c service_env \<Rightarrow> 'c \<Rightarrow> NewVisitorConn \<Rightarrow> 'c Service \<Rightarrow>
    string option \<times> 'c Service" where
  "Service_RegisterVisitorConn env conn m s =
     (case visitor_user m s of
        Inl e \<Rightarrow> (Some e, s)
      | Inr visitorUser \<Rightarrow>
          (case VisitorManager_NewConn (xLo env) (aeMd5 (xAuth env)) (xWrap env) (vcProxyName m) conn (vcTimestamp m) (vcSignKey m)
                  (vcUseEncryption m) (vcUseCompression m) visitorUser (rcVisitorManager (svRC s)) of
             (err, vm, _) \<Rightarrow> (err, s\<lparr>svRC := (svRC s)\<lparr>rcVisitorManager := vm\<rparr>\<rparr>)))"

definition CloseUser :: "string \<Rightarrow> 'c Service \<Rightarrow> string option \<times> 'c Service" where
  "CloseUser user s =
     (case ControlManager_GetByID user (svCtlManager s) of
        None \<Rightarrow> (Some ''user not login'', s)
      | Some a \<Rightarrow> (None, set_ctl a (Control_Close (svCtls s ! a)) s))"

definition Service_Close :: "addr list \<Rightarrow> 'c Service \<Rightarrow> 'c Service" where
  "Service_Close order s = s\<lparr>svCtlManager := ControlManager_Close order (svCtlManager s)\<rparr>"

section \<open>The first message of a connection\<close>

datatype first_msg = FReadError | FLogin Login | FNewWorkConn NewWorkConn | FNewVisitorConn NewVisitorConn | FOther

datatype svc_reply = LoginRespError string | StartWorkConnError string | NewVisitorConnResp string string

text \<open>The replies written to the connection, whether it is closed, the login that goes on with
  \<open>RegisterControl_start\<close>, and the state.\<close>

definition handleConnection :: "service_conf \<Rightarrow> 'c service_env \<Rightarrow> string \<Rightarrow> 'c \<Rightarrow> first_msg \<Rightarrow> 'c Service \<Rightarrow>
    (svc_reply list \<times> bool \<times> (addr \<times> addr option) option \<times> 'c Service) option" where
  "handleConnection cfg env clientAddr conn rawMsg s =
     (case rawMsg of
        FReadError \<Rightarrow> Some ([], True, None, s)
      | FLogin m \<Rightarrow>
          (let refuse = (\<lambda>e s1. Some ([LoginRespError (GenerateResponseErrorString ''register control error'' e
                                         (sfDetailedErrorsToClient cfg))], True, None, s1))
           in case PluginManager_Login (svPlugins s) (LoginContent (MLogin m) clientAddr) of
                PluginErr e \<Rightarrow> refuse e s
              | PluginOk (LoginContent (MLogin m1) _) \<Rightarrow>
                  (case RegisterControl cfg env m1 s of
                     None \<Rightarrow> None
                   | Some (Inl e, s1) \<Rightarrow> refuse e s1
                   | Some (Inr p, s1) \<Rightarrow> Some ([], False, Some p, s1))
              | _ \<Rightarrow> None)
      | FNewWorkConn m \<Rightarrow>
          (case Service_RegisterWorkConn cfg env conn m s of
             None \<Rightarrow> None
           | Some (reply, err, s1) \<Rightarrow>
               Some (case reply of None \<Rightarrow> [] | Some e \<Rightarrow> [StartWorkConnError e], err \<noteq> None, None, s1))
      | FNewVisitorConn m \<Rightarrow>
          (case Service_RegisterVisitorConn env conn m s of
             (Some e, s1) \<Rightarrow> Some ([NewVisitorConnResp (vcProxyName m)
                 (GenerateResponseErrorString ''register visitor conn error'' e (sfDetailedErrorsToClient cfg))], True, None, s1)
           | (None, s1) \<Rightarrow> Some ([NewVisitorConnResp (vcProxyName m) []], False, None, s1))
      | FOther \<Rightarrow> Some ([], True, None, s))"

section \<open>Messages of a client\<close>

definition api_proxy :: "service_conf \<Rightarrow> 'c service_env \<Rightarrow> Login \<Rightarrow> NewProxy \<Rightarrow> api_outcome" where
  "api_proxy cfg env login m =
     (case xAPIParse env of
        Some e \<Rightarrow> ApiError e
      | None \<Rightarrow>
          if \<not> sfEnableAPI cfg then ApiAccepts
          else case CheckProxy (xGet env) (xDecode env) (xDomains env) (lUser login) m (xNow env) (sfAPIToken cfg) login of
            Inl e \<Rightarrow> ApiError (api_error_text e)
          | Inr ok \<Rightarrow> if ok then ApiAccepts else ApiRejects)"

text \<open>\<^verbatim>\<open>Control.RegisterProxy\<close> on the message: the account service, the configuration, the proxy, and the
  registration.\<close>

definition env_of :: "service_conf \<Rightarrow> 'c service_env \<Rightarrow> server_env" where
  "env_of cfg env = (xPxy env)\<lparr>seVhost := sfVhost cfg\<rparr>"

definition Control_RegisterProxy :: "service_conf \<Rightarrow> 'c service_env \<Rightarrow> addr \<Rightarrow> NewProxy \<Rightarrow> 'c Service \<Rightarrow>
    ((string, string) result \<times> 'c Service) option" where
  "Control_RegisterProxy cfg env a m s =
     (case RegisterProxy pxy_ops (sfMaxPortsPerClient cfg) (env_of cfg env) (api_proxy cfg env (svLogins s ! a) m)
             (pxy_from_msg (xFloat env) (sfVhost cfg) (lUser (svLogins s ! a)) m) (npProxyName m)
             (svCtls s ! a, svPxyManager s, svRC s) of
        None \<Rightarrow> None
      | Some (out, ctl, pm, r) \<Rightarrow> Some (out, (set_ctl a ctl s)\<lparr>svPxyManager := pm, svRC := r\<rparr>))"

definition send_to :: "addr \<Rightarrow> ctl_msg \<Rightarrow> 'c Service \<Rightarrow> 'c Service" where
  "send_to a m s = set_ctl a ((svCtls s ! a)\<lparr>sendCh := sendCh (svCtls s ! a) @ [m]\<rparr>) s"

definition shut :: "addr \<Rightarrow> 'c Service \<Rightarrow> 'c Service" where
  "shut a s = set_ctl a (Control_Close (svCtls s ! a)) s"

text \<open>A panic inside the loop is recovered; the loop then ends and the control shuts down.\<close>

definition manager_NewProxy :: "service_conf \<Rightarrow> 'c service_env \<Rightarrow> addr \<Rightarrow> NewProxy \<Rightarrow> 'c Service \<Rightarrow> 'c Service option" where
  "manager_NewProxy cfg env a m s =
     (let refuse = (\<lambda>(m1 :: NewProxy) e s1. Some (send_to a (NewProxyResp (npProxyName m1) []
                       (GenerateResponseErrorString (''new proxy ['' @ npProxyName m1 @ ''] error'') e
                          (sfDetailedErrorsToClient cfg))) s1))
      in case PluginManager_NewProxy (svPlugins s) (NewProxyContent (user_info (svLogins s ! a)) (MNewProxy m)) of
           PluginErr e \<Rightarrow> refuse m e s
         | PluginOk (NewProxyContent _ (MNewProxy m1)) \<Rightarrow>
             (case Control_RegisterProxy cfg env a m1 s of
                None \<Rightarrow> None
              | Some (Inl e, s1) \<Rightarrow> refuse m1 e s1
              | Some (Inr remoteAddr, s1) \<Rightarrow> Some (send_to a (NewProxyResp (npProxyName m1) remoteAddr []) s1))
         | _ \<Rightarrow> Some (shut a s))"

definition manager_CloseProxy :: "service_conf \<Rightarrow> 'c service_env \<Rightarrow> addr \<Rightarrow> string \<Rightarrow> 'c Service \<Rightarrow> 'c Service option" where
  "manager_CloseProxy cfg env a name s =
     (case Control_CloseProxy pxy_ops (sfMaxPortsPerClient cfg) (env_of cfg env) name (svCtls s ! a, svPxyManager s, svRC s) of
        None \<Rightarrow> None
      | Some (ctl, pm, r) \<Rightarrow> Some ((set_ctl a ctl s)\<lparr>svPxyManager := pm, svRC := r\<rparr>))"

definition manager_Ping :: "service_conf \<Rightarrow> 'c service_env \<Rightarrow> addr \<Rightarrow> Ping \<Rightarrow> 'c Service \<Rightarrow> 'c Service" where
  "manager_Ping cfg env a m s =
     (let refuse = (\<lambda>e. shut a (send_to a (Pong (GenerateResponseErrorString ''invalid ping'' e (sfDetailedErrorsToClient cfg))) s))
      in case PluginManager_Ping (svPlugins s) (PingContent (user_info (svLogins s ! a)) (MPing m)) of
           PluginErr e \<Rightarrow> refuse e
         | PluginOk (PingContent _ (MPing m1)) \<Rightarrow>
             (case VerifyPing (xAuth env) (svVerifier s) m1 of
                None \<Rightarrow> shut a s
              | Some (Some e) \<Rightarrow> refuse e
              | Some None \<Rightarrow> send_to a (Pong []) (set_ctl a ((svCtls s ! a)\<lparr>lastPing := xNow env\<rparr>) s))
         | _ \<Rightarrow> shut a s)"

definition manager_heartbeat :: "service_conf \<Rightarrow> int \<Rightarrow> addr \<Rightarrow> 'c Service \<Rightarrow> 'c Service" where
  "manager_heartbeat cfg now a s =
     (if \<not> sfTCPMux cfg \<and> sfHeartbeatTimeout cfg > 0 \<and> now - lastPing (svCtls s ! a) > sfHeartbeatTimeout cfg then shut a s else s)"

datatype ctl_in = InNewProxy NewProxy | InCloseProxy string | InPing Ping

primrec manager_message :: "service_conf \<Rightarrow> 'c service_env \<Rightarrow> addr \<Rightarrow> ctl_in \<Rightarrow> 'c Service \<Rightarrow> 'c Service option" where
  "manager_message cfg env a (InNewProxy m) s = manager_NewProxy cfg env a m s"
| "manager_message cfg env a (InCloseProxy name) s = manager_CloseProxy cfg env a name s"
| "manager_message cfg env a (InPing m) s = Some (manager_Ping cfg env a m s)"

text \<open>The stopper of a control.\<close>

definition Service_stoper :: "service_conf \<Rightarrow> 'c service_env \<Rightarrow> (bool \<Rightarrow> bool) \<Rightarrow> bool \<Rightarrow> server_pxy list \<Rightarrow> addr \<Rightarrow> 'c Service \<Rightarrow>
    'c Service option" where
  "Service_stoper cfg env close_err drained order a s =
     (case stoper pxy_ops (env_of cfg env) close_err drained order (svCtls s ! a, svPxyManager s, svRC s) of
        None \<Rightarrow> None
      | Some (ctl, pm, r) \<Rightarrow> Some ((set_ctl a ctl s)\<lparr>svPxyManager := pm, svRC := r\<rparr>))"

section \<open>Steps of the service\<close>

text \<open>What starting the proxy of a message needs: the operating system never lets a used port be bound again, and a TCP proxy
  is in no group.\<close>

definition msg_ready :: "server_env \<Rightarrow> 'c ResourceController \<Rightarrow> NewProxy \<Rightarrow> bool" where
  "msg_ready e r m \<longleftrightarrow> os_honest (eos (seTCP e)) (tportManager (rcTCP r)) \<and> os_honest (eos (seUDP e)) (rcUDPPortManager r) \<and>
     (npProxyType (msg_tcp m) = ''tcp'' \<longrightarrow> npGroup m = [])"

text \<open>The message that is registered, after the plugins.\<close>

definition registered_msg :: "addr \<Rightarrow> ctl_in \<Rightarrow> 'c Service \<Rightarrow> NewProxy option" where
  "registered_msg a im s =
     (case im of
        InNewProxy m \<Rightarrow>
          (case PluginManager_NewProxy (svPlugins s) (NewProxyContent (user_info (svLogins s ! a)) (MNewProxy m)) of
             PluginOk (NewProxyContent _ (MNewProxy m1)) \<Rightarrow> Some m1
           | _ \<Rightarrow> None)
      | _ \<Rightarrow> None)"

text \<open>The state of the service with the logins that wait for a control they replace.\<close>

type_synonym 'c service_state = "'c Service \<times> (addr \<times> addr option) list"

inductive service_step :: "service_conf \<Rightarrow> 'c service_state \<Rightarrow> 'c service_state \<Rightarrow> bool" for cfg where
  connect: "handleConnection cfg env clientAddr conn m s = Some (replies, closed, p, s') \<Longrightarrow>
    service_step cfg (s, pend) (s', pend @ (case p of None \<Rightarrow> [] | Some x \<Rightarrow> [x]))"
| start: "(a, old) \<in> set pend \<Longrightarrow> RegisterControl_start a old s = Some s' \<Longrightarrow>
    service_step cfg (s, pend) (s', remove1 (a, old) pend)"
| gone: "a < length (svCtls s) \<Longrightarrow> cstarted (svCtls s ! a) \<Longrightarrow> all_done (svCtls s ! a) \<Longrightarrow>
    service_step cfg (s, pend) (RegisterControl_gone a s, pend)"
| message: "a < length (svCtls s) \<Longrightarrow> cstarted (svCtls s ! a) \<Longrightarrow> \<not> shutdown_done (svCtls s ! a) \<Longrightarrow>
    (\<And>m1. registered_msg a m s = Some m1 \<Longrightarrow> msg_ready (env_of cfg env) (svRC s) m1) \<Longrightarrow>
    manager_message cfg env a m s = Some s' \<Longrightarrow> service_step cfg (s, pend) (s', pend)"
| heartbeat: "a < length (svCtls s) \<Longrightarrow> cstarted (svCtls s ! a) \<Longrightarrow> \<not> shutdown_done (svCtls s ! a) \<Longrightarrow>
    service_step cfg (s, pend) (manager_heartbeat cfg now a s, pend)"
| reader: "a < length (svCtls s) \<Longrightarrow> cstarted (svCtls s ! a) \<Longrightarrow> \<not> shutdown_done (svCtls s ! a) \<Longrightarrow>
    service_step cfg (s, pend) (set_ctl a (reader_exit eof (svCtls s ! a)) s, pend)"
| pool: "a < length (svCtls s) \<Longrightarrow> GetWorkConn wait (svCtls s ! a) = (r, ctl) \<Longrightarrow>
    service_step cfg (s, pend) (set_ctl a ctl s, pend)"
| stop: "a < length (svCtls s) \<Longrightarrow> cstarted (svCtls s ! a) \<Longrightarrow> shutdown_started (svCtls s ! a) \<Longrightarrow> \<not> shutdown_done (svCtls s ! a) \<Longrightarrow>
    set order = ran (cproxies (svCtls s ! a)) \<Longrightarrow> distinct order \<Longrightarrow>
    Service_stoper cfg env close_err drained order a s = Some s' \<Longrightarrow> service_step cfg (s, pend) (s', pend)"
| close_user: "CloseUser user s = (e, s') \<Longrightarrow> service_step cfg (s, pend) (s', pend)"
| close_all: "set order = ran (svTable s) \<Longrightarrow> service_step cfg (s, pend) (Service_Close order s, pend)"
| hole: "rcNatHoleController (svRC s) = Some c \<Longrightarrow> nat_step lib libText md5 c c' \<Longrightarrow> clientCfgs c' = clientCfgs c \<Longrightarrow>
    service_step cfg (s, pend) (s\<lparr>svRC := (svRC s)\<lparr>rcNatHoleController := Some c'\<rparr>\<rparr>, pend)"
| accept: "l < length (lheap (rcVisitorManager (svRC s))) \<Longrightarrow> InternalListener_Accept (lheap (rcVisitorManager (svRC s)) ! l) = (x, l') \<Longrightarrow>
    service_step cfg (s, pend) (s\<lparr>svRC := (svRC s)\<lparr>rcVisitorManager := (rcVisitorManager (svRC s))\<lparr>lheap :=
      (lheap (rcVisitorManager (svRC s)))[l := l']\<rparr>\<rparr>\<rparr>, pend)"

definition initial_service :: "svc_msg PluginManager \<Rightarrow> Verifier \<Rightarrow> 'c ResourceController \<Rightarrow> 'c Service" where
  "initial_service plugins v r0 =
     \<lparr>svCtlManager = NewControlManager, svLogins = [], svPxyManager = Map.empty, svPlugins = plugins, svVerifier = v, svRC = r0\<rparr>"

inductive service_reach :: "service_conf \<Rightarrow> 'c Service \<Rightarrow> 'c service_state \<Rightarrow> bool" for cfg s0 where
  boot: "service_reach cfg s0 (s0, [])"
| step: "service_reach cfg s0 x \<Longrightarrow> service_step cfg x y \<Longrightarrow> service_reach cfg s0 y"

section \<open>The table of run ids\<close>

text \<open>An entry names a control with that run id; a control that is not being shut down has its entry; a control that is
  over was shut down; whoever waits, waits for a control that is being shut down; and a finished stopper ends the wait.\<close>

definition table_inv :: "addr smap \<Rightarrow> ('p, 'c) Control list \<Rightarrow> Login list \<Rightarrow> (addr \<times> addr option) list \<Rightarrow> bool" where
  "table_inv tbl cs ls pend \<longleftrightarrow> length ls = length cs \<and>
     (\<forall>R a. tbl R = Some a \<longrightarrow> a < length cs \<and> lRunID (ls ! a) = R) \<and>
     (\<forall>a < length cs. \<not> shutdown_started (cs ! a) \<longrightarrow> tbl (lRunID (ls ! a)) = Some a) \<and>
     (\<forall>a < length cs. all_done (cs ! a) \<longrightarrow> shutdown_started (cs ! a)) \<and>
     (\<forall>a old. (a, old) \<in> set pend \<longrightarrow> a < length cs) \<and>
     (\<forall>a b. (a, Some b) \<in> set pend \<longrightarrow> b < length cs \<and> shutdown_started (cs ! b)) \<and>
     (\<forall>a < length cs. shutdown_done (cs ! a) \<longrightarrow> all_done (cs ! a))"

lemma table_invD:
  assumes "table_inv tbl cs ls pend"
  shows "length ls = length cs" "tbl R = Some a \<Longrightarrow> a < length cs \<and> lRunID (ls ! a) = R"
    "a < length cs \<Longrightarrow> \<not> shutdown_started (cs ! a) \<Longrightarrow> tbl (lRunID (ls ! a)) = Some a"
    "a < length cs \<Longrightarrow> all_done (cs ! a) \<Longrightarrow> shutdown_started (cs ! a)"
    "(a, old) \<in> set pend \<Longrightarrow> a < length cs" "(a, Some b) \<in> set pend \<Longrightarrow> b < length cs \<and> shutdown_started (cs ! b)"
    "a < length cs \<Longrightarrow> shutdown_done (cs ! a) \<Longrightarrow> all_done (cs ! a)"
  using assms unfolding table_inv_def by blast+

lemma table_invI:
  assumes "length ls = length cs" "\<And>R a. tbl R = Some a \<Longrightarrow> a < length cs \<and> lRunID (ls ! a) = R"
    and "\<And>a. a < length cs \<Longrightarrow> \<not> shutdown_started (cs ! a) \<Longrightarrow> tbl (lRunID (ls ! a)) = Some a"
    and "\<And>a. a < length cs \<Longrightarrow> all_done (cs ! a) \<Longrightarrow> shutdown_started (cs ! a)"
    and "\<And>a old. (a, old) \<in> set pend \<Longrightarrow> a < length cs"
    and "\<And>a b. (a, Some b) \<in> set pend \<Longrightarrow> b < length cs \<and> shutdown_started (cs ! b)"
    and "\<And>a. a < length cs \<Longrightarrow> shutdown_done (cs ! a) \<Longrightarrow> all_done (cs ! a)"
  shows "table_inv tbl cs ls pend"
  unfolding table_inv_def
  by (intro conjI allI impI; (rule assms(1) | erule assms(2) [THEN conjunct1] | erule assms(2) [THEN conjunct2] | erule (1) assms(3) |
      erule (1) assms(4) | erule assms(5) | erule assms(6) [THEN conjunct1] | erule assms(6) [THEN conjunct2] | erule (1) assms(7)))

text \<open>A control goes on: a shutdown is not taken back, and it is over only when it was shut down.\<close>

definition ctl_goes_on :: "('p, 'c) Control \<Rightarrow> ('p, 'c) Control \<Rightarrow> bool" where
  "ctl_goes_on c c' \<longleftrightarrow> (shutdown_started c \<longrightarrow> shutdown_started c') \<and> (all_done c' \<longrightarrow> all_done c \<or> shutdown_started c') \<and>
     (all_done c \<longrightarrow> all_done c') \<and> (shutdown_done c' \<longrightarrow> shutdown_done c \<or> all_done c')"

lemma table_inv_upd:
  assumes "table_inv tbl cs ls pend" "ctl_goes_on (cs ! a) c"
  shows "table_inv tbl (cs[a := c]) ls pend"
proof (rule table_invI)
  note inv = table_invD [OF assms(1)]
  show "length ls = length (cs[a := c])" using inv(1) by simp
  show "b < length (cs[a := c]) \<and> lRunID (ls ! b) = R" if "tbl R = Some b" for R b using inv(2) [OF that] by simp
  show "tbl (lRunID (ls ! b)) = Some b" if "b < length (cs[a := c])" "\<not> shutdown_started (cs[a := c] ! b)" for b
    using that inv(3) [of b] assms(2) by (cases "b = a") (auto simp: ctl_goes_on_def)
  show "shutdown_started (cs[a := c] ! b)" if "b < length (cs[a := c])" "all_done (cs[a := c] ! b)" for b
    using that inv(4) [of b] assms(2) by (cases "b = a") (auto simp: ctl_goes_on_def)
  show "b < length (cs[a := c])" if "(b, old) \<in> set pend" for b old using inv(5) [OF that] by simp
  show "b < length (cs[a := c]) \<and> shutdown_started (cs[a := c] ! b)" if "(d, Some b) \<in> set pend" for d b
    using inv(6) [OF that] assms(2) by (cases "b = a") (auto simp: ctl_goes_on_def)
  show "all_done (cs[a := c] ! b)" if "b < length (cs[a := c])" "shutdown_done (cs[a := c] ! b)" for b
    using that inv(7) [of b] assms(2) by (cases "b = a") (auto simp: ctl_goes_on_def)
qed

lemma table_inv_pend: "table_inv tbl cs ls pend \<Longrightarrow> set pend' \<subseteq> set pend \<Longrightarrow> table_inv tbl cs ls pend'"
  unfolding table_inv_def by blast

lemma table_inv_login:
  assumes inv: "table_inv tbl cs ls pend" and m: "lRunID m = R"
    and ctl: "\<not> shutdown_started ctl" "\<not> all_done ctl" "\<not> shutdown_done ctl"
    and cs': "cs' = (case tbl R of None \<Rightarrow> cs | Some b \<Rightarrow> cs[b := Control_Replaced (cs ! b)])"
  shows "table_inv (tbl(R \<mapsto> length cs)) (cs' @ [ctl]) (ls @ [m]) (pend @ [(length cs, tbl R)])"
proof (rule table_invI)
  note I = table_invD [OF inv]
  have len: "length cs' = length cs" "length ls = length cs" using cs' I(1) by (auto split: option.split)
  have nth: "cs' ! b = (if tbl R = Some b then Control_Replaced (cs ! b) else cs ! b)" if "b < length cs" for b
    using that cs' by (auto split: option.split)
  show "length (ls @ [m]) = length (cs' @ [ctl])" using len by simp
  show "a < length (cs' @ [ctl]) \<and> lRunID ((ls @ [m]) ! a) = Q" if "(tbl(R \<mapsto> length cs)) Q = Some a" for Q a
    using that I(2) [of Q a] m len by (auto simp: nth_append split: if_splits)
  show "(tbl(R \<mapsto> length cs)) (lRunID ((ls @ [m]) ! a)) = Some a"
    if "a < length (cs' @ [ctl])" "\<not> shutdown_started ((cs' @ [ctl]) ! a)" for a
  proof (cases "a < length cs")
    case True
    with that len nth have a: "\<not> shutdown_started (cs ! a)" "tbl R \<noteq> Some a"
      by (auto simp: nth_append Control_Replaced_def split: if_splits)
    with I(3) [OF True] True len show ?thesis by (auto simp: nth_append)
  next
    case False
    with that len m show ?thesis by (simp add: nth_append less_Suc_eq)
  qed
  show "shutdown_started ((cs' @ [ctl]) ! a)" if "a < length (cs' @ [ctl])" "all_done ((cs' @ [ctl]) ! a)" for a
  proof (cases "a < length cs")
    case True
    with that len nth I(4) [OF True] show ?thesis by (auto simp: nth_append Control_Replaced_def split: if_splits)
  next
    case False
    with that len ctl show ?thesis by (simp add: nth_append less_Suc_eq)
  qed
  show "a < length (cs' @ [ctl])" if "(a, old) \<in> set (pend @ [(length cs, tbl R)])" for a old
    using that I(5) len by fastforce
  show "b < length (cs' @ [ctl]) \<and> shutdown_started ((cs' @ [ctl]) ! b)" if "(a, Some b) \<in> set (pend @ [(length cs, tbl R)])" for a b
  proof (cases "tbl R = Some b")
    case True
    then show ?thesis using I(2) [OF True] nth [of b] len by (simp add: nth_append Control_Replaced_def)
  next
    case False
    with that have "(a, Some b) \<in> set pend" by auto
    from I(6) [OF this] nth [of b] len False show ?thesis by (auto simp: nth_append)
  qed
  show "all_done ((cs' @ [ctl]) ! a)" if "a < length (cs' @ [ctl])" "shutdown_done ((cs' @ [ctl]) ! a)" for a
  proof (cases "a < length cs")
    case True
    with that len nth I(7) [OF True] show ?thesis by (auto simp: nth_append Control_Replaced_def split: if_splits)
  next
    case False
    with that len ctl show ?thesis by (simp add: nth_append less_Suc_eq)
  qed
qed

lemma table_inv_gone:
  assumes "table_inv tbl cs ls pend" "a < length cs" "all_done (cs ! a)" "tbl R = Some a"
  shows "table_inv (tbl(R := None)) cs ls pend"
proof (rule table_invI)
  note I = table_invD [OF assms(1)]
  show "(tbl(R := None)) (lRunID (ls ! b)) = Some b" if "b < length cs" "\<not> shutdown_started (cs ! b)" for b
    using I(3) [OF that] I(4) [OF assms(2,3)] assms(4) that by auto
qed (use table_invD [OF assms(1)] in \<open>auto split: if_splits\<close>)

lemma Control_Close_simps [simp]:
  "shutdown_started (Control_Close c)" "Control_Close (Control_Close c) = Control_Close c"
  "all_done (Control_Close c) = all_done c" "cproxies (Control_Close c) = cproxies c"
  "portsUsedNum (Control_Close c) = portsUsedNum c" "shutdown_done (Control_Close c) = shutdown_done c"
  by (simp_all add: Control_Close_def)

lemma fold_close_nth:
  "length (fold (\<lambda>a cs. cs[a := Control_Close (cs ! a)]) order cs) = length cs"
  "b < length cs \<Longrightarrow>
     fold (\<lambda>a cs. cs[a := Control_Close (cs ! a)]) order cs ! b = (if b \<in> set order then Control_Close (cs ! b) else cs ! b)"
proof (induction order arbitrary: cs)
  case (Cons a order)
  { case 1 show ?case using Cons.IH(1) by simp }
  { case 2 then show ?case using Cons.IH(2) [of "cs[a := Control_Close (cs ! a)]"] by (cases "a = b") simp_all }
qed simp_all

lemma table_inv_close:
  assumes "table_inv tbl cs ls pend" "set order = ran tbl"
  shows "table_inv Map.empty (fold (\<lambda>a cs. cs[a := Control_Close (cs ! a)]) order cs) ls pend"
proof (rule table_invI)
  let ?cs = "fold (\<lambda>a cs. cs[a := Control_Close (cs ! a)]) order cs"
  note I = table_invD [OF assms(1)]
  have F: "length ?cs = length cs" by (rule fold_close_nth)
  have st: "shutdown_started (?cs ! b)" if "b < length ?cs" for b
    using F that I(3) [of b] assms(2) by (cases "shutdown_started (cs ! b)") (auto simp: fold_close_nth intro: ranI)
  then show "Map.empty (lRunID (ls ! b)) = Some b" if "b < length ?cs" "\<not> shutdown_started (?cs ! b)" for b using that by blast
  show "shutdown_started (?cs ! b)" if "b < length ?cs" "all_done (?cs ! b)" for b using st [OF that(1)] .
  show "b < length ?cs \<and> shutdown_started (?cs ! b)" if "(a, Some b) \<in> set pend" for a b using I(6) [OF that] st F by simp
  show "all_done (?cs ! b)" if "b < length ?cs" "shutdown_done (?cs ! b)" for b
    using that F I(7) [of b] by (auto simp: fold_close_nth split: if_splits)
qed (use table_invD [OF assms(1)] in \<open>auto simp: fold_close_nth\<close>)

section \<open>The invariant of the service\<close>

definition service_inv :: "int set \<times> int set \<Rightarrow> service_conf \<Rightarrow> 'c service_state \<Rightarrow> bool" where
  "service_inv T cfg x \<longleftrightarrow>
     (case x of (s, pend) \<Rightarrow>
        server_ok T (sfMaxPortsPerClient cfg) (svCtls s, svPxyManager s, svRC s) \<and>
        table_inv (svTable s) (svCtls s) (svLogins s) pend)"

lemma service_invD:
  assumes "service_inv T cfg (s, pend)"
  shows "server_ok T (sfMaxPortsPerClient cfg) (svCtls s, svPxyManager s, svRC s)"
    "table_inv (svTable s) (svCtls s) (svLogins s) pend"
  using assms by (simp_all add: service_inv_def)

lemma service_invI:
  "server_ok T (sfMaxPortsPerClient cfg) (svCtls s, svPxyManager s, svRC s) \<Longrightarrow>
   table_inv (svTable s) (svCtls s) (svLogins s) pend \<Longrightarrow> service_inv T cfg (s, pend)"
  by (simp add: service_inv_def)

lemma set_ctl_simps [simp]:
  "svCtls (set_ctl a c s) = (svCtls s)[a := c]" "svTable (set_ctl a c s) = svTable s" "svLogins (set_ctl a c s) = svLogins s"
  "svPxyManager (set_ctl a c s) = svPxyManager s" "svRC (set_ctl a c s) = svRC s" "svPlugins (set_ctl a c s) = svPlugins s"
  "svVerifier (set_ctl a c s) = svVerifier s"
  by (simp_all add: set_ctl_def)

text \<open>The steps that touch only flags, queues and clocks of a control.\<close>

definition same_proxies :: "('p, 'c) Control \<Rightarrow> ('p, 'c) Control \<Rightarrow> bool" where
  "same_proxies c c' \<longleftrightarrow> cproxies c' = cproxies c \<and> portsUsedNum c' = portsUsedNum c \<and> shutdown_done c' = shutdown_done c"

lemma service_inv_ctl:
  assumes "service_inv T cfg (s, pend)" "same_proxies (svCtls s ! a) c" "ctl_goes_on (svCtls s ! a) c"
  shows "service_inv T cfg (set_ctl a c s, pend)"
proof (rule service_invI)
  note inv = service_invD [OF assms(1)]
  show "server_ok T (sfMaxPortsPerClient cfg) (svCtls (set_ctl a c s), svPxyManager (set_ctl a c s), svRC (set_ctl a c s))"
    using pxy.system_same [OF inv(1) _ _ _ pxy.system_okD(1) [OF inv(1)], of c a] assms(2) by (simp add: same_proxies_def)
  show "table_inv (svTable (set_ctl a c s)) (svCtls (set_ctl a c s)) (svLogins (set_ctl a c s)) pend"
    using table_inv_upd [OF inv(2) assms(3)] by simp
qed

text \<open>The steps that touch the resources without taking or freeing any.\<close>

lemma service_inv_rc:
  assumes "service_inv T cfg (s, pend)" "rc_ok T r" "rc_held r = rc_held (svRC s)"
  shows "service_inv T cfg (s\<lparr>svRC := r\<rparr>, pend)"
proof (rule service_invI)
  note inv = service_invD [OF assms(1)]
  have "server_proxy.registry_ok pxy_ops pxy_live (rc_ok T) rc_held pxy_owned {} (svPxyManager s) r" using pxy.system_okD(1) [OF inv(1)] assms(2,3) by (simp add: pxy.registry_ok_def)
  from pxy.system_same [OF inv(1) refl refl refl this, of 0]
  show "server_ok T (sfMaxPortsPerClient cfg) (svCtls (s\<lparr>svRC := r\<rparr>), svPxyManager (s\<lparr>svRC := r\<rparr>), svRC (s\<lparr>svRC := r\<rparr>))"
    by simp
qed (use service_invD(2) [OF assms(1)] in simp)

lemma service_inv_verifier: "service_inv T cfg (s, pend) \<Longrightarrow> service_inv T cfg (s\<lparr>svVerifier := v\<rparr>, pend)"
  by (simp add: service_inv_def)

lemma rc_inv_of: "service_inv T cfg (s, pend) \<Longrightarrow> rc_ok T (svRC s)"
  using pxy.registry_okD(1) [OF pxy.system_okD(1) [OF service_invD(1)]] .

subsection \<open>Logins\<close>

lemma RegisterControl_cases:
  fixes s :: "'c Service"
  assumes "RegisterControl cfg env m0 s = Some (out, s')"
  obtains (refused) e v where "out = Inl e" "s' = s\<lparr>svVerifier := v\<rparr>"
  | (admitted) m v ctl where "m = (if lRunID m0 = [] then m0\<lparr>lRunID := lRunID m\<rparr> else m0)"
      "lRunID m0 = [] \<Longrightarrow> \<exists>rand. xRandID env = Inr rand \<and> lRunID m = lUser m0 @ ''-'' @ rand"
      "fst (Compat (lVersion m))" "VerifyLogin (xAuth env) (svVerifier s) m = Some (None, v)" "api_login cfg env m = Some None"
      "NewControl (xNow env) (sfMaxPoolCount cfg) (lPoolCount m) (lRunID m) = Some ctl"
      "out = Inr (length (svCtls s), svTable s (lRunID m))"
      "s' = s\<lparr>svVerifier := v, svLogins := svLogins s @ [m],
              svCtlManager := \<lparr>ctlsByRunID = (svTable s)(lRunID m \<mapsto> length (svCtls s)),
                ctls = (case svTable s (lRunID m) of None \<Rightarrow> svCtls s @ [ctl]
                  | Some b \<Rightarrow> (svCtls s @ [ctl])[b := Control_Replaced ((svCtls s @ [ctl]) ! b)])\<rparr>\<rparr>"
proof -
  obtain m where m: "(if lRunID m0 = [] then map_sum id (\<lambda>rand. m0\<lparr>lRunID := lUser m0 @ ''-'' @ rand\<rparr>) (xRandID env) else Inr m0) = Inr m \<or>
      (\<exists>e. out = Inl e \<and> s' = s)"
    using assms by (auto simp: RegisterControl_def split: sum.splits if_splits)
  show thesis
  proof (cases "\<exists>e. out = Inl e")
    case True
    then obtain e where "out = Inl e" by blast
    with assms have "s' = s \<or> (\<exists>v. s' = s\<lparr>svVerifier := v\<rparr>)"
      by (auto simp: RegisterControl_def Let_def split: sum.splits if_splits option.splits prod.splits)
    then have "\<exists>v. s' = s\<lparr>svVerifier := v\<rparr>" by (metis Service.surjective Service.update_convs(5))
    with \<open>out = Inl e\<close> show thesis using refused by blast
  next
    case False
    with m have m: "(if lRunID m0 = [] then map_sum id (\<lambda>rand. m0\<lparr>lRunID := lUser m0 @ ''-'' @ rand\<rparr>) (xRandID env) else Inr m0) = Inr m"
      by blast
    with assms False obtain v where v: "fst (Compat (lVersion m))" "VerifyLogin (xAuth env) (svVerifier s) m = Some (None, v)"
      "api_login cfg env m = Some None"
      by (auto simp: RegisterControl_def Let_def split: if_splits option.splits prod.splits)
    from assms False m v obtain ctl :: "(server_pxy, 'c) Control" where
      ctl: "NewControl (xNow env) (sfMaxPoolCount cfg) (lPoolCount m) (lRunID m) = Some ctl"
      by (auto simp: RegisterControl_def Let_def split: option.splits)
    show thesis
    proof (rule admitted [OF _ _ v ctl])
      show "m = (if lRunID m0 = [] then m0\<lparr>lRunID := lRunID m\<rparr> else m0)" "lRunID m0 = [] \<Longrightarrow> \<exists>rand. xRandID env = Inr rand \<and> lRunID m = lUser m0 @ ''-'' @ rand"
        using m by (auto simp: map_sum_def split: if_splits sum.splits)
      show "out = Inr (length (svCtls s), svTable s (lRunID m))"
        "s' = s\<lparr>svVerifier := v, svLogins := svLogins s @ [m],
              svCtlManager := \<lparr>ctlsByRunID = (svTable s)(lRunID m \<mapsto> length (svCtls s)),
                ctls = (case svTable s (lRunID m) of None \<Rightarrow> svCtls s @ [ctl]
                  | Some b \<Rightarrow> (svCtls s @ [ctl])[b := Control_Replaced ((svCtls s @ [ctl]) ! b)])\<rparr>\<rparr>"
        using assms m v ctl unfolding RegisterControl_def m
        by (auto simp: ControlManager_Add_def Let_def split: option.splits)
    qed
  qed
qed

lemma NewControl_flags:
  "NewControl now mx n R = Some ctl \<Longrightarrow> \<not> shutdown_started ctl \<and> \<not> all_done ctl \<and> \<not> shutdown_done ctl \<and> \<not> cstarted ctl \<and> crunID ctl = R \<and>
     cproxies ctl = Map.empty"
  by (auto simp: NewControl_def Let_def split: if_splits)

lemma Control_Replaced_simps [simp]:
  "shutdown_started (Control_Replaced c)" "all_done (Control_Replaced c) = all_done c" "cproxies (Control_Replaced c) = cproxies c"
  "portsUsedNum (Control_Replaced c) = portsUsedNum c" "shutdown_done (Control_Replaced c) = shutdown_done c"
  by (simp_all add: Control_Replaced_def)

lemma service_inv_login:
  assumes inv: "service_inv T cfg (s, pend)" and mp: "0 \<le> sfMaxPortsPerClient cfg"
    and reg: "RegisterControl cfg env m0 s = Some (Inr p, s')"
  shows "service_inv T cfg (s', pend @ [p])"
  using reg
proof (cases rule: RegisterControl_cases)
  case (admitted m v ctl)
  note I = service_invD [OF inv]
  let ?cs = "svCtls s" and ?R = "lRunID m"
  define cs' where "cs' = (case svTable s ?R of None \<Rightarrow> ?cs | Some b \<Rightarrow> ?cs[b := Control_Replaced (?cs ! b)])"
  have upd: "(?cs @ [ctl])[b := Control_Replaced ((?cs @ [ctl]) ! b)] = ?cs[b := Control_Replaced (?cs ! b)] @ [ctl]" if "svTable s ?R = Some b" for b
    using table_invD(2) [OF I(2) that] by (simp add: list_update_append nth_append)
  have cs: "svCtls s' = cs' @ [ctl]" using admitted(8) upd by (auto simp: cs'_def split: option.split)
  have old: "server_ok T (sfMaxPortsPerClient cfg) (?cs @ [ctl], svPxyManager s, svRC s)"
    by (rule pxy.system_login [OF I(1) admitted(6) mp])
  have "server_ok T (sfMaxPortsPerClient cfg) (cs' @ [ctl], svPxyManager s, svRC s)"
  proof (cases "svTable s ?R")
    case (Some b)
    with pxy.system_same [OF old _ _ _ pxy.system_okD(1) [OF old], of "Control_Replaced ((?cs @ [ctl]) ! b)" b] upd
    show ?thesis by (simp add: cs'_def)
  qed (use old in \<open>simp add: cs'_def\<close>)
  moreover have "table_inv ((svTable s)(?R \<mapsto> length ?cs)) (cs' @ [ctl]) (svLogins s @ [m]) (pend @ [(length ?cs, svTable s ?R)])"
    using table_inv_login [OF I(2) refl _ _ _ cs'_def] NewControl_flags [OF admitted(6)] by simp
  ultimately show ?thesis using admitted(7,8) cs by (simp add: service_inv_def)
qed simp

lemma service_inv_start:
  assumes inv: "service_inv T cfg (s, pend)" and p: "(a, old) \<in> set pend" and st: "RegisterControl_start a old s = Some s'"
  shows "service_inv T cfg (s', remove1 (a, old) pend)"
proof -
  have go: "service_inv T cfg (set_ctl a (Control_Start (svCtls t ! a)) t, pend)" if "service_inv T cfg (t, pend)" for t
    by (rule service_inv_ctl [OF that]) (simp_all add: same_proxies_def ctl_goes_on_def Control_Start_def)
  have "service_inv T cfg (s', pend)"
  proof (cases old)
    case None
    with st go [OF inv] show ?thesis by (simp add: RegisterControl_start_def)
  next
    case (Some b)
    with st obtain c where c: "WaitClosed (svCtls s ! b) = (True, c)"
      and s': "s' = set_ctl a (Control_Start (svCtls (set_ctl b c s) ! a)) (set_ctl b c s)"
      by (auto simp: RegisterControl_start_def Let_def split: prod.splits bool.splits)
    have "shutdown_started (svCtls s ! b)" using table_invD(6) [OF service_invD(2) [OF inv]] p Some by simp
    with c have "same_proxies (svCtls s ! b) c" "ctl_goes_on (svCtls s ! b) c"
      by (auto simp: WaitClosed_def same_proxies_def ctl_goes_on_def split: if_splits)
    from go [OF service_inv_ctl [OF inv this]] show ?thesis unfolding s' .
  qed
  then show ?thesis
    using table_inv_pend [OF service_invD(2), of T cfg s' pend "remove1 (a, old) pend"] set_remove1_subset [of "(a, old)" pend]
    by (simp add: service_inv_def)
qed

lemma service_inv_gone:
  assumes inv: "service_inv T cfg (s, pend)" and a: "a < length (svCtls s)" "all_done (svCtls s ! a)"
  shows "service_inv T cfg (RegisterControl_gone a s, pend)"
proof -
  note I = service_invD [OF inv]
  show ?thesis
  proof (cases "svTable s (lRunID (svLogins s ! a)) = Some a")
    case True
    from table_inv_gone [OF I(2) a True] I(1) True show ?thesis
      by (simp add: service_inv_def RegisterControl_gone_def ControlManager_Del_def)
  qed (use inv in \<open>simp add: RegisterControl_gone_def ControlManager_Del_def\<close>)
qed

lemma service_inv_close_all:
  assumes inv: "service_inv T cfg (s, pend)" and order: "set order = ran (svTable s)"
  shows "service_inv T cfg (Service_Close order s, pend)"
proof -
  note I = service_invD [OF inv]
  have sys: "server_ok T mp (fold (\<lambda>a cs. cs[a := Control_Close (cs ! a)]) xs cs, pm, r)"
    if "server_ok T mp (cs, pm, r)" for xs mp cs pm r
    using that
  proof (induction xs arbitrary: cs)
    case (Cons a xs)
    from pxy.system_same [OF Cons.prems _ _ _ pxy.system_okD(1) [OF Cons.prems], of "Control_Close (cs ! a)" a] Cons.IH
    show ?case by simp
  qed simp
  from sys [OF I(1)] table_inv_close [OF I(2) order] show ?thesis
    by (simp add: service_inv_def Service_Close_def ControlManager_Close_def)
qed

subsection \<open>Connections\<close>

lemma RegisterWorkConn_same:
  "RegisterWorkConn c ctl = (e, ctl') \<Longrightarrow> same_proxies ctl ctl' \<and> ctl_goes_on ctl ctl'"
  by (auto simp: RegisterWorkConn_def same_proxies_def ctl_goes_on_def split: if_splits)

lemma service_inv_workconn:
  assumes "service_inv T cfg (s, pend)" "Service_RegisterWorkConn cfg env conn m s = Some (reply, err, s')"
  shows "service_inv T cfg (s', pend)"
proof -
  have "s' = s \<or> (\<exists>a e c. RegisterWorkConn conn (svCtls s ! a) = (e, c) \<and> s' = set_ctl a c s)"
    using assms(2) by (auto simp: Service_RegisterWorkConn_def Let_def split: option.splits prod.splits plugin_result.splits
        plugin_content.splits svc_msg.splits)
  then consider "s' = s" | a e c where "RegisterWorkConn conn (svCtls s ! a) = (e, c)" "s' = set_ctl a c s" by blast
  then show ?thesis
  proof cases
    case 2
    with RegisterWorkConn_same [OF 2(1)] service_inv_ctl [OF assms(1)] show ?thesis by simp
  qed (use assms(1) in simp)
qed

lemma VisitorManager_NewConn_listeners:
  "VisitorManager_NewConn lib md5 wrap name conn ts key enc cmpr user vm = (e, vm', d) \<Longrightarrow> listeners vm' = listeners vm"
  by (auto simp: VisitorManager_NewConn_def split: option.splits if_splits sum.splits prod.splits)

lemma service_inv_visitor:
  assumes "service_inv T cfg (s, pend)" "Service_RegisterVisitorConn env conn m s = (err, s')"
  shows "service_inv T cfg (s', pend)"
proof (cases "visitor_user m s")
  case (Inl e)
  with assms show ?thesis by (simp add: Service_RegisterVisitorConn_def)
next
  case (Inr u)
  obtain e vm d where vm: "VisitorManager_NewConn (xLo env) (aeMd5 (xAuth env)) (xWrap env) (vcProxyName m) conn (vcTimestamp m)
      (vcSignKey m) (vcUseEncryption m) (vcUseCompression m) u (rcVisitorManager (svRC s)) = (e, vm, d)"
    by (metis prod_cases3)
  with assms(2) Inr have s': "s' = s\<lparr>svRC := (svRC s)\<lparr>rcVisitorManager := vm\<rparr>\<rparr>" by (simp add: Service_RegisterVisitorConn_def)
  have "vm_inv vm" using vm_inv_NewConn [OF _ vm] rc_inv_of [OF assms(1)] by (simp add: rc_inv_def rc_ok_def rc_total_def)
  then have "rc_ok T ((svRC s)\<lparr>rcVisitorManager := vm\<rparr>)" using rc_inv_of [OF assms(1)] by (simp add: rc_inv_def rc_ok_def rc_total_def)
  moreover have "rc_held ((svRC s)\<lparr>rcVisitorManager := vm\<rparr>) = rc_held (svRC s)"
    using VisitorManager_NewConn_listeners [OF vm] by (simp add: rc_held_def)
  ultimately show ?thesis using service_inv_rc [OF assms(1)] s' by simp
qed

lemma service_inv_connect:
  assumes inv: "service_inv T cfg (s, pend)" and mp: "0 \<le> sfMaxPortsPerClient cfg"
    and h: "handleConnection cfg env addr conn m s = Some (replies, closed, p, s')"
  shows "service_inv T cfg (s', pend @ (case p of None \<Rightarrow> [] | Some x \<Rightarrow> [x]))"
proof (cases m)
  case (FLogin l)
  consider "s' = s" "p = None" | m1 e where "RegisterControl cfg env m1 s = Some (Inl e, s')" "p = None"
    | m1 x where "RegisterControl cfg env m1 s = Some (Inr x, s')" "p = Some x"
    using h FLogin by (auto simp: handleConnection_def Let_def split: option.splits prod.splits sum.splits plugin_result.splits
        plugin_content.splits svc_msg.splits)
  then show ?thesis
  proof cases
    case 2
    from 2(1) show ?thesis by (cases rule: RegisterControl_cases) (use service_inv_verifier [OF inv] 2(2) in simp_all)
  qed (use inv service_inv_login [OF inv mp] in simp_all)
next
  case (FNewWorkConn w)
  with h service_inv_workconn [OF inv, of env conn w] show ?thesis
    by (auto simp: handleConnection_def split: option.splits prod.splits)
next
  case (FNewVisitorConn v)
  with h service_inv_visitor [OF inv, of env conn v] show ?thesis
    by (auto simp: handleConnection_def split: option.splits prod.splits)
qed (use h inv in \<open>auto simp: handleConnection_def\<close>)

subsection \<open>Messages\<close>

lemma msg_ready_pxy:
  assumes "msg_ready e r m" "pxy_from_msg flt srv user m = Inr p"
  shows "pxy_ready e p r" "GetName pxy_ops p = npProxyName m"
proof -
  from assms(2) obtain c0 conf where c: "DefaultProxyConf (npProxyType (msg_tcp m)) = Some c0" "conf = UnmarshalFromMsg flt (msg_tcp m) c0"
    "p = NewProxy_server user conf" by (rule pxy_from_msg_Inr)
  have grp: "npGroup (msg_tcp m) = npGroup m" "npProxyName (msg_tcp m) = npProxyName m" by (simp_all add: msg_tcp_def)
  show "GetName pxy_ops p = npProxyName m" using c grp by (simp add: pxy_ops_def NewProxy_server_name unmarshal_base)
  have "bGroup tc = npGroup m" if "conf = TCPConf tc" for tc
    using that c(2) grp by (cases c0) (auto simp: TCPConf_UnmarshalFromMsg_def Base_unmarshalFromMsg_def Let_def)
  moreover have "npProxyType (msg_tcp m) = ''tcp''" if "conf = TCPConf tc" for tc
    using that DefaultProxyConf_type [OF c(1)] c(2) by (metis conf_type.simps(1) unmarshal_type)
  ultimately show "pxy_ready e p r" using assms(1) c(3)
    by (cases conf) (auto simp: msg_ready_def tcp_ready_def udp_ready_def http_ready_def NewTCPProxy_def NewUDPProxy_def NewHTTPProxy_def
        NewHTTPSProxy_def NewTCPMuxProxy_def NewSTCPProxy_def NewXTCPProxy_def)
qed

lemma ctl_goes_on_flags:
  "shutdown_started c' = shutdown_started c \<Longrightarrow> all_done c' = all_done c \<Longrightarrow> shutdown_done c' = shutdown_done c \<Longrightarrow> ctl_goes_on c c'"
  by (simp add: ctl_goes_on_def)

lemma service_inv_registered:
  assumes inv: "service_inv T cfg (s, pend)" and a: "a < length (svCtls s)" "\<not> shutdown_done (svCtls s ! a)"
    and ready: "msg_ready (env_of cfg env) (svRC s) m" and reg: "Control_RegisterProxy cfg env a m s = Some (out, s')"
  shows "service_inv T cfg (s', pend)"
proof -
  note I = service_invD [OF inv]
  from reg obtain ctl pm r where reg: "RegisterProxy pxy_ops (sfMaxPortsPerClient cfg) (env_of cfg env) (api_proxy cfg env (svLogins s ! a) m)
      (pxy_from_msg (xFloat env) (sfVhost cfg) (lUser (svLogins s ! a)) m) (npProxyName m)
      (svCtls s ! a, svPxyManager s, svRC s) = Some (out, ctl, pm, r)"
    and s': "s' = (set_ctl a ctl s)\<lparr>svPxyManager := pm, svRC := r\<rparr>"
    by (auto simp: Control_RegisterProxy_def split: option.splits)
  have "server_ok T (sfMaxPortsPerClient cfg) ((svCtls s)[a := ctl], pm, r)"
    by (rule pxy.system_register [OF I(1) a _ reg]) (use msg_ready_pxy [OF ready] in blast)
  moreover have "ctl_goes_on (svCtls s ! a) ctl"
    using reg by (cases rule: pxy.RegisterProxy_cases) (simp_all add: ctl_goes_on_def)
  ultimately show ?thesis using table_inv_upd [OF I(2)] by (simp add: service_inv_def s')
qed

lemma service_inv_send: "service_inv T cfg (s, pend) \<Longrightarrow> service_inv T cfg (send_to a m s, pend)"
  unfolding send_to_def by (rule service_inv_ctl) (simp_all add: same_proxies_def ctl_goes_on_def)

lemma service_inv_shut: "service_inv T cfg (s, pend) \<Longrightarrow> service_inv T cfg (shut a s, pend)"
  unfolding shut_def by (rule service_inv_ctl) (simp_all add: same_proxies_def ctl_goes_on_def)

lemma service_inv_newproxy:
  assumes inv: "service_inv T cfg (s, pend)" and a: "a < length (svCtls s)" "\<not> shutdown_done (svCtls s ! a)"
    and ready: "\<And>m1. registered_msg a (InNewProxy m) s = Some m1 \<Longrightarrow> msg_ready (env_of cfg env) (svRC s) m1"
    and h: "manager_NewProxy cfg env a m s = Some s'"
  shows "service_inv T cfg (s', pend)"
proof (cases "registered_msg a (InNewProxy m) s")
  case None
  with h have "s' = shut a s \<or> (\<exists>x. s' = send_to a x s)"
    by (auto simp: manager_NewProxy_def registered_msg_def Let_def split: plugin_result.splits plugin_content.splits svc_msg.splits)
  with inv service_inv_send service_inv_shut show ?thesis by metis
next
  case (Some m1)
  with h obtain out s1 x where "Control_RegisterProxy cfg env a m1 s = Some (out, s1)" "s' = send_to a x s1"
    by (auto simp: manager_NewProxy_def registered_msg_def Let_def
        split: option.splits prod.splits sum.splits plugin_result.splits plugin_content.splits svc_msg.splits)
  with service_inv_registered [OF inv a ready [OF Some]] service_inv_send show ?thesis by metis
qed

lemma service_inv_closeproxy:
  assumes inv: "service_inv T cfg (s, pend)" and a: "a < length (svCtls s)" "\<not> shutdown_done (svCtls s ! a)"
    and h: "manager_CloseProxy cfg env a name s = Some s'"
  shows "service_inv T cfg (s', pend)"
proof -
  note I = service_invD [OF inv]
  from h obtain ctl pm r where cl: "Control_CloseProxy pxy_ops (sfMaxPortsPerClient cfg) (env_of cfg env) name
      (svCtls s ! a, svPxyManager s, svRC s) = Some (ctl, pm, r)"
    and s': "s' = (set_ctl a ctl s)\<lparr>svPxyManager := pm, svRC := r\<rparr>"
    by (auto simp: manager_CloseProxy_def split: option.splits)
  have "ctl_goes_on (svCtls s ! a) ctl" using cl
    by (auto simp: Control_CloseProxy_def split: option.splits if_splits intro!: ctl_goes_on_flags)
  with pxy.system_close [OF I(1) a cl] table_inv_upd [OF I(2)] show ?thesis by (simp add: service_inv_def s')
qed

lemma service_inv_stop:
  assumes inv: "service_inv T cfg (s, pend)" and a: "a < length (svCtls s)" "\<not> shutdown_done (svCtls s ! a)" "shutdown_started (svCtls s ! a)"
    and order: "set order = ran (cproxies (svCtls s ! a))" "distinct order"
    and h: "Service_stoper cfg env close_err drained order a s = Some s'"
  shows "service_inv T cfg (s', pend)"
proof -
  note I = service_invD [OF inv]
  from h obtain ctl pm r where st: "stoper pxy_ops (env_of cfg env) close_err drained order
      (svCtls s ! a, svPxyManager s, svRC s) = Some (ctl, pm, r)"
    and s': "s' = (set_ctl a ctl s)\<lparr>svPxyManager := pm, svRC := r\<rparr>"
    by (auto simp: Service_stoper_def split: option.splits)
  have "ctl_goes_on (svCtls s ! a) ctl" using st a(3)
    by (auto simp: stoper_def ctl_goes_on_def Let_def split: if_splits option.splits)
  with pxy.system_shutdown [OF I(1) a(1,2) order st] table_inv_upd [OF I(2)] show ?thesis by (simp add: service_inv_def s')
qed

lemma service_inv_ping:
  assumes inv: "service_inv T cfg (s, pend)" shows "service_inv T cfg (manager_Ping cfg env a m s, pend)"
proof -
  have "service_inv T cfg (set_ctl a ((svCtls s ! a)\<lparr>lastPing := t\<rparr>) s, pend)" for t
    by (rule service_inv_ctl [OF inv]) (simp_all add: same_proxies_def ctl_goes_on_def)
  note this [simp] service_inv_send [simp] service_inv_shut [simp] inv [simp]
  show ?thesis
    by (simp add: manager_Ping_def Let_def split: plugin_result.split plugin_content.split svc_msg.split option.split)
qed

subsection \<open>Every step keeps it\<close>

lemma service_inv_boot:
  "rc_ok T r0 \<Longrightarrow> rc_held r0 = {} \<Longrightarrow> service_inv T cfg (initial_service plugins v r0, [])"
  by (intro service_invI pxy.system_okI table_invI) (auto simp: initial_service_def NewControlManager_def pxy.registry_ok_def)

lemma service_step_inv:
  assumes mp: "0 \<le> sfMaxPortsPerClient cfg"
  shows "service_step cfg x y \<Longrightarrow> service_inv T cfg x \<Longrightarrow> service_inv T cfg y"
proof (induction rule: service_step.induct)
  case (connect env clientAddr conn m s replies closed p s' pend)
  show ?case by (rule service_inv_connect [OF connect.prems mp connect.hyps])
next
  case (start a old pend s s')
  then show ?case using service_inv_start by blast
next
  case (gone a s pend)
  then show ?case using service_inv_gone by blast
next
  case (message a s m env s' pend)
  then show ?case
    using service_inv_newproxy [of T cfg s pend a _ env s'] service_inv_closeproxy [of T cfg s pend a env _ s']
    by (cases m) (auto intro: service_inv_ping)
next
  case (heartbeat a s pend now)
  then show ?case by (simp add: manager_heartbeat_def service_inv_shut)
next
  case (reader a s pend eof)
  show ?case by (rule service_inv_ctl [OF reader.prems]) (simp_all add: reader_exit_def same_proxies_def ctl_goes_on_def)
next
  case (pool a s wait r ctl pend)
  then have "same_proxies (svCtls s ! a) ctl \<and> ctl_goes_on (svCtls s ! a) ctl"
    by (auto simp: GetWorkConn_def request_conn_def Let_def same_proxies_def ctl_goes_on_def
        split: list.splits if_splits wait_outcome.splits)
  with service_inv_ctl [OF pool.prems] show ?case by blast
next
  case (stop a s order env close_err drained s' pend)
  then show ?case using service_inv_stop by blast
next
  case (close_user user s e s' pend)
  then have "s' = s \<or> (\<exists>a. s' = shut a s)" by (auto simp: CloseUser_def shut_def split: option.splits)
  with close_user.prems service_inv_shut show ?case by metis
next
  case (close_all order s pend)
  then show ?case using service_inv_close_all by blast
next
  case (hole s c lib libText md5 c' pend)
  have "rc_ok T ((svRC s)\<lparr>rcNatHoleController := Some c'\<rparr>)" using rc_inv_of [OF hole.prems] by (simp add: rc_inv_def rc_ok_def rc_total_def)
  moreover have "rc_held ((svRC s)\<lparr>rcNatHoleController := Some c'\<rparr>) = rc_held (svRC s)"
    using hole.hyps by (simp add: rc_held_def)
  ultimately show ?case by (rule service_inv_rc [OF hole.prems])
next
  case (accept l s x l' pend)
  let ?vm = "rcVisitorManager (svRC s)"
  have "vm_inv (?vm\<lparr>lheap := (lheap ?vm)[l := l']\<rparr>)"
    using rc_inv_of [OF accept.prems] accept.hyps
    by (intro vm_inv_heap) (auto simp: rc_inv_def rc_ok_def InternalListener_Accept_def split: list.splits if_splits)
  then have "rc_ok T ((svRC s)\<lparr>rcVisitorManager := ?vm\<lparr>lheap := (lheap ?vm)[l := l']\<rparr>\<rparr>)"
    using rc_inv_of [OF accept.prems] by (simp add: rc_inv_def rc_ok_def rc_total_def)
  then show ?case by (rule service_inv_rc [OF accept.prems]) (simp add: rc_held_def)
qed

lemma service_reach_inv:
  assumes "0 \<le> sfMaxPortsPerClient cfg" "rc_ok T r0" "rc_held r0 = {}"
  shows "service_reach cfg (initial_service plugins v r0) x \<Longrightarrow> service_inv T cfg x"
proof (induction rule: service_reach.induct)
  case boot
  then show ?case using service_inv_boot [OF assms(2,3)] .
next
  case (step x y)
  then show ?case using service_step_inv [OF assms(1)] by blast
qed

section \<open>Properties\<close>

text \<open>An example: a server without account service and plugins, and a client that logs in with the token.\<close>

definition example_conf :: service_conf where
  "example_conf = \<lparr>sfVhost = example_srv, sfMaxPoolCount = 5, sfMaxPortsPerClient = 0, sfDetailedErrorsToClient = True,
     sfEnableAPI = False, sfAPIToken = [], sfTCPMux = True, sfHeartbeatTimeout = 90\<rparr>"

definition example_env :: "nat service_env" where
  "example_env = \<lparr>xNow = 7, xRandID = Inr ''f00d'',
     xAuth = \<lparr>aeMd5 = id, aeIssue = Inl [], aeOidc = (\<lambda>_. Inl []), aeNow = 7\<rparr>, xAPIParse = None,
     xGet = (\<lambda>_. (None, Some ''unused'')), xDecode = (\<lambda>_. Inl []), xDecodeStatus = (\<lambda>_. Inl []), xDecodeLimit = (\<lambda>_. Inl []),
     xDomains = concat, xFloat = no_float, xPxy = \<lparr>seTCP = tcp_example_env, seUDP = tcp_example_env, seVhost = example_srv\<rparr>,
     xLo = lo_ref, xWrap = plain_wrap, xSid = ''s''\<rparr>"

definition example_verifier :: Verifier where
  "example_verifier = TokenVerifier (NewTokenAuth getDefaultBaseConf ''t'')"

definition example_login :: Login where
  "example_login = \<lparr>lVersion = ''0.18.0'', lUser = ''alice'', lPrivilegeKey = ''t7'', lTimestamp = 7, lRunID = ''r'', lMetas = [], lPoolCount = 1\<rparr>"

definition example_service :: "nat Service" where
  "example_service = initial_service NewPluginManager example_verifier fresh_rc"

definition example_ctl :: "(server_pxy, nat) Control" where
  "example_ctl = the (NewControl 7 5 1 ''r'')"

lemma example_ctl_new: "NewControl 7 5 1 ''r'' = Some example_ctl"
  by (simp add: example_ctl_def NewControl_def)

lemma example_admitted: "fst (Compat ''0.18.0'')" "GetAuthKey id ''t'' 7 = ''t7''" by code_simp+

lemmas example_service_defs = example_conf_def example_env_def example_verifier_def example_login_def example_service_def
  initial_service_def NewControlManager_def NewPluginManager_def

definition example_logged_in :: "nat Service" where
  "example_logged_in = example_service\<lparr>svLogins := [example_login],
     svCtlManager := \<lparr>ctlsByRunID = [''r'' \<mapsto> 0], ctls = [example_ctl]\<rparr>\<rparr>"

lemma example_register: "RegisterControl example_conf example_env example_login example_service = Some (Inr (0, None), example_logged_in)"
  using example_ctl_new example_admitted
  by (simp add: RegisterControl_def example_service_defs example_logged_in_def api_login_def Token_VerifyLogin_def
      NewTokenAuth_def ConstantTimeEqString_def ControlManager_Add_def)


lemma example_reach: "service_reach example_conf example_service (example_logged_in, [(0, None)])"
proof -
  have "handleConnection example_conf example_env [] 0 (FLogin example_login) example_service = Some ([], False, Some (0, None), example_logged_in)"
    using example_register by (simp add: handleConnection_def PluginManager_Login_def example_service_def initial_service_def NewPluginManager_def)
  from service_reach.step [OF service_reach.boot service_step.connect [OF this]] show ?thesis by simp
qed



text \<open>C2: at any time there is at most one control with a given run id that is not being shut down, and the table of
  the server maps the run id to it: a client that logs in again takes over from its earlier control.\<close>

theorem one_control_per_run_id:
  assumes "0 \<le> sfMaxPortsPerClient cfg" "rc_inv r0" "rc_held r0 = {}"
    and "service_reach cfg (initial_service plugins v r0) (s, pend)"
    and "a < length (svCtls s)" "\<not> shutdown_started (svCtls s ! a)"
  shows "svTable s (lRunID (svLogins s ! a)) = Some a \<and>
    (\<forall>b < length (svCtls s). \<not> shutdown_started (svCtls s ! b) \<and> lRunID (svLogins s ! b) = lRunID (svLogins s ! a) \<longrightarrow> b = a)"
proof -
  note inv = table_invD(3) [OF service_invD(2) [OF service_reach_inv [OF assms(1) rc_okI [OF assms(2)] assms(3,4)]]]
  have a: "svTable s (lRunID (svLogins s ! a)) = Some a" by (rule inv [OF assms(5,6)])
  moreover have "b = a" if "b < length (svCtls s)" "\<not> shutdown_started (svCtls s ! b)" "lRunID (svLogins s ! b) = lRunID (svLogins s ! a)" for b
    using inv [OF that(1,2)] a that(3) by (metis option.inject)
  ultimately show ?thesis by simp
qed

theorem one_control_per_run_id_witness: "svTable example_logged_in ''r'' = Some 0"
proof -
  have "0 \<le> sfMaxPortsPerClient example_conf" "0 < length (svCtls example_logged_in)" "\<not> shutdown_started (svCtls example_logged_in ! 0)"
    using NewControl_flags [OF example_ctl_new] by (simp_all add: example_service_defs example_logged_in_def)
  from one_control_per_run_id [OF this(1) fresh_rc_ok example_reach [unfolded example_service_def] this(2,3)]
  show ?thesis by (simp add: example_logged_in_def example_login_def)
qed

text \<open>C3: a login is admitted only if the version is supported, the verifier accepts it and the account service admits the
  user; it then is entered under its run id (a generated one when the message has none), and the control it replaces is
  told to shut down. A refused login changes nothing but the state of the verifier.\<close>

theorem login_admission:
  assumes "RegisterControl cfg env m0 s = Some (out, s')"
  shows "case out of
      Inl e \<Rightarrow> \<exists>v. s' = s\<lparr>svVerifier := v\<rparr>
    | Inr (a, old) \<Rightarrow> \<exists>m v.
        (if lRunID m0 = [] then \<exists>rand. xRandID env = Inr rand \<and> m = m0\<lparr>lRunID := lUser m0 @ ''-'' @ rand\<rparr> else m = m0) \<and>
        \<not> LessThan (lVersion m) ''0.18.0'' \<and> VerifyLogin (xAuth env) (svVerifier s) m = Some (None, v) \<and>
        api_login cfg env m = Some None \<and> a = length (svCtls s) \<and> old = svTable s (lRunID m) \<and>
        svTable s' = (svTable s)(lRunID m \<mapsto> a) \<and> svLogins s' = svLogins s @ [m] \<and> length (svCtls s') = Suc a \<and>
        (\<forall>b < length (svCtls s). svCtls s' ! b = (if old = Some b then Control_Replaced (svCtls s ! b) else svCtls s ! b)) \<and>
        svPxyManager s' = svPxyManager s \<and> svRC s' = svRC s"
  using assms
proof (cases rule: RegisterControl_cases)
  case (admitted m v ctl)
  have id: "if lRunID m0 = [] then \<exists>rand. xRandID env = Inr rand \<and> m = m0\<lparr>lRunID := lUser m0 @ ''-'' @ rand\<rparr> else m = m0"
    using admitted(1,2) by (cases "lRunID m0 = []") (simp_all, metis)
  have "\<not> LessThan (lVersion m) ''0.18.0''" using admitted(3) by (simp add: Compat_def split: if_splits)
  moreover have "length (svCtls s') = Suc (length (svCtls s))"
    "\<forall>b < length (svCtls s). svCtls s' ! b = (if svTable s (lRunID m) = Some b then Control_Replaced (svCtls s ! b) else svCtls s ! b)"
    using admitted(8) by (auto simp: nth_append nth_list_update split: option.splits)
  ultimately show ?thesis using id admitted(4,5,8) unfolding admitted(7) sum.case prod.case
    by (intro exI [of _ m] exI [of _ v]) simp
qed auto

theorem login_admission_witness:
  "svTable example_logged_in = [''r'' \<mapsto> 0] \<and> svRC example_logged_in = fresh_rc"
  using login_admission [OF example_register] by (auto simp: example_service_defs)


text \<open>The client of the example has started and logs in again.\<close>

definition example_started :: "nat Service" where
  "example_started = set_ctl 0 (Control_Start example_ctl) example_logged_in"

definition example_again :: "nat Service" where
  "example_again = example_service\<lparr>svLogins := [example_login, example_login],
     svCtlManager := \<lparr>ctlsByRunID = [''r'' \<mapsto> 1], ctls = [Control_Replaced (Control_Start example_ctl), example_ctl]\<rparr>\<rparr>"

lemma example_reach_again: "service_reach example_conf example_service (example_again, [(1, Some 0)])"
proof -
  have "RegisterControl_start 0 None example_logged_in = Some example_started"
    by (simp add: RegisterControl_start_def example_started_def example_logged_in_def)
  from service_reach.step [OF example_reach service_step.start [OF _ this]]
  have started: "service_reach example_conf example_service (example_started, [])" by simp
  have "RegisterControl example_conf example_env example_login example_started = Some (Inr (1, Some 0), example_again)"
    using example_ctl_new example_admitted
    by (simp add: RegisterControl_def example_service_defs example_logged_in_def example_started_def example_again_def set_ctl_def
        api_login_def Token_VerifyLogin_def NewTokenAuth_def ConstantTimeEqString_def ControlManager_Add_def)
  then have "handleConnection example_conf example_env [] 0 (FLogin example_login) example_started = Some ([], False, Some (1, Some 0), example_again)"
    by (simp add: handleConnection_def PluginManager_Login_def example_started_def example_logged_in_def example_service_def
        initial_service_def NewPluginManager_def)
  from service_reach.step [OF started service_step.connect [OF this]] show ?thesis by simp
qed


end
