(* ===== verification/Server_Config.thy ===== *)
theory Server_Config
  imports Server_Service
begin

text \<open>
  Model of \<^verbatim>\<open>pkg/config/server.go\<close>, of \<^verbatim>\<open>pkg/plugin/server/http.go\<close> and of \<^verbatim>\<open>NewService\<close> in \<^verbatim>\<open>server/service.go\<close>: the
  configuration file of the server and the state in which the server starts. The functions of the ini library that are used
  are the record \<open>server_ini\<close>, the validator library, the HTTP request to a plugin and the decoding of its answer
  are parameters. What starting asks of the operating system is the record \<open>start_env\<close>: \<open>None\<close> is success, \<open>Some\<close> the
  error. A parser of ranges that does not return and a panic are \<open>None\<close>.
\<close>

section \<open>Plugins over HTTP\<close>

record HTTPPluginOptions =
  poName :: string
  poAddr :: string
  poPath :: string
  poOps :: "string list"
  poTLSVerify :: bool

definition plugin_url :: "HTTPPluginOptions \<Rightarrow> string" where
  "plugin_url options =
     (let url = poAddr options @ poPath options
      in if \<not> HasPrefix url ''https://'' \<and> \<not> HasPrefix url ''http://'' then ''http://'' @ url else url)"

definition op_of_name :: "string \<Rightarrow> plugin_op option" where
  "op_of_name s = map_of [(''Login'', OpLogin), (''NewProxy'', OpNewProxy), (''CloseProxy'', OpCloseProxy), (''Ping'', OpPing),
     (''NewWorkConn'', OpNewWorkConn), (''NewUserConn'', OpNewUserConn)] s"

text \<open>The request is posted to the URL; the answer is a status and a body.\<close>

record 'm plugin_http =
  phPost :: "string \<Rightarrow> bool \<Rightarrow> plugin_op \<Rightarrow> 'm plugin_content \<Rightarrow> (string, int \<times> (string, string) result) result"
  phUnmarshal :: "plugin_op \<Rightarrow> string \<Rightarrow> (string, Response \<times> 'm plugin_content option) result"

definition httpPlugin_do :: "'m plugin_http \<Rightarrow> HTTPPluginOptions \<Rightarrow> plugin_op \<Rightarrow> 'm plugin_content \<Rightarrow>
    (string, Response \<times> 'm plugin_content option) result" where
  "httpPlugin_do ph options op content =
     (case phPost ph (plugin_url options)
             (HasPrefix (poAddr options @ poPath options) ''https://'' \<and> \<not> poTLSVerify options) op content of
        Inl e \<Rightarrow> Inl e
      | Inr (code, body) \<Rightarrow>
          if code \<noteq> 200 then Inl (''do http request error code: '' @ Itoa code)
          else (case body of Inl e \<Rightarrow> Inl e | Inr buf \<Rightarrow> phUnmarshal ph op buf))"

definition NewHTTPPluginOptions :: "'m plugin_http \<Rightarrow> HTTPPluginOptions \<Rightarrow> 'm Plugin" where
  "NewHTTPPluginOptions ph options = \<lparr>plName = poName options, plOps = List.map_filter op_of_name (poOps options),
     plHandle = httpPlugin_do ph options\<rparr>"

section \<open>Settings\<close>

record ServerCommonConf =
  scAuth :: ServerConfig
  scBindAddr :: string
  scBindPort :: int
  scKCPBindPort :: int
  scQUICBindPort :: int
  scQUICKeepalivePeriod :: int
  scQUICMaxIdleTimeout :: int
  scQUICMaxIncomingStreams :: int
  scProxyBindAddr :: string
  scVhostHTTPPort :: int
  scVhostHTTPSPort :: int
  scTCPMuxHTTPConnectPort :: int
  scTCPMuxPassthrough :: bool
  scVhostHTTPTimeout :: int
  scDashboardAddr :: string
  scDashboardPort :: int
  scDashboardTLSCertFile :: string
  scDashboardTLSKeyFile :: string
  scDashboardTLSMode :: bool
  scDashboardUser :: string
  scDashboardPwd :: string
  scEnablePrometheus :: bool
  scAssetsDir :: string
  scLogFile :: string
  scLogWay :: string
  scLogLevel :: string
  scLogMaxDays :: int
  scDisableLogColor :: bool
  scDetailedErrorsToClient :: bool
  scSubDomainHost :: string
  scTCPMux :: bool
  scTCPMuxKeepaliveInterval :: int
  scTCPKeepAlive :: int
  scCustom404Page :: string
  scAllowPorts :: "int set"
  scAllowPortsStr :: string
  scMaxPoolCount :: int
  scMaxPortsPerClient :: int
  scTLSOnly :: bool
  scTLSCertFile :: string
  scTLSKeyFile :: string
  scTLSTrustedCaFile :: string
  scHeartbeatTimeout :: int
  scUserConnTimeout :: int
  scHTTPPlugins :: "(string \<times> HTTPPluginOptions) list"
  scUDPPacketSize :: int
  scPprofEnable :: bool
  scEnableAPI :: bool
  scAPIBaseURL :: string
  scAPIToken :: string
  scNatHoleAnalysisDataReserveHours :: int

definition GetDefaultServerCommonConf :: ServerCommonConf where
  "GetDefaultServerCommonConf =
     \<lparr>scAuth = GetDefaultServerConf, scBindAddr = ''0.0.0.0'', scBindPort = 7000, scKCPBindPort = 0, scQUICBindPort = 0,
      scQUICKeepalivePeriod = 10, scQUICMaxIdleTimeout = 30, scQUICMaxIncomingStreams = 100000, scProxyBindAddr = [],
      scVhostHTTPPort = 0, scVhostHTTPSPort = 0, scTCPMuxHTTPConnectPort = 0, scTCPMuxPassthrough = False,
      scVhostHTTPTimeout = 60, scDashboardAddr = ''0.0.0.0'', scDashboardPort = 0, scDashboardTLSCertFile = [],
      scDashboardTLSKeyFile = [], scDashboardTLSMode = False, scDashboardUser = [], scDashboardPwd = [],
      scEnablePrometheus = False, scAssetsDir = [], scLogFile = ''console'', scLogWay = ''console'', scLogLevel = ''info'',
      scLogMaxDays = 3, scDisableLogColor = False, scDetailedErrorsToClient = True, scSubDomainHost = [], scTCPMux = True,
      scTCPMuxKeepaliveInterval = 60, scTCPKeepAlive = 7200, scCustom404Page = [], scAllowPorts = {}, scAllowPortsStr = [],
      scMaxPoolCount = 5, scMaxPortsPerClient = 0, scTLSOnly = False, scTLSCertFile = [], scTLSKeyFile = [],
      scTLSTrustedCaFile = [], scHeartbeatTimeout = 90, scUserConnTimeout = 10, scHTTPPlugins = [], scUDPPacketSize = 1500,
      scPprofEnable = False, scEnableAPI = False, scAPIBaseURL = [], scAPIToken = [],
      scNatHoleAnalysisDataReserveHours = 7 * 24\<rparr>"

section \<open>Reading the file\<close>

record 'f server_ini =
  siLoad :: "string \<Rightarrow> (string, 'f) result"
  siSections :: "'f \<Rightarrow> string list"
  siKey :: "'f \<Rightarrow> string \<Rightarrow> string"
  siMapTo :: "'f \<Rightarrow> ServerCommonConf \<Rightarrow> (string, ServerCommonConf) result"
  siPluginMapTo :: "'f \<Rightarrow> string \<Rightarrow> HTTPPluginOptions \<Rightarrow> (string, HTTPPluginOptions) result"

definition zero_HTTPPluginOptions :: HTTPPluginOptions where
  "zero_HTTPPluginOptions = \<lparr>poName = [], poAddr = [], poPath = [], poOps = [], poTLSVerify = False\<rparr>"

definition loadHTTPPluginOpt :: "'f server_ini \<Rightarrow> 'f \<Rightarrow> string \<Rightarrow> (string, HTTPPluginOptions) result" where
  "loadHTTPPluginOpt lib f section_name =
     map_sum id (\<lambda>opt. opt\<lparr>poName := TrimSpace (TrimPrefix section_name ''plugin.'')\<rparr>)
       (siPluginMapTo lib f section_name zero_HTTPPluginOptions)"

fun load_plugins :: "'f server_ini \<Rightarrow> 'f \<Rightarrow> string list \<Rightarrow> (string \<times> HTTPPluginOptions) list \<Rightarrow>
    (string, (string \<times> HTTPPluginOptions) list) result" where
  "load_plugins lib f [] opts = Inr opts"
| "load_plugins lib f (name # names) opts =
     (if \<not> HasPrefix name ''plugin.'' then load_plugins lib f names opts
      else case loadHTTPPluginOpt lib f name of
        Inl e \<Rightarrow> Inl e
      | Inr opt \<Rightarrow> load_plugins lib f names (AList.update (poName opt) opt opts))"

datatype server_conf_error = ServerIni string | AllowPortsSyntax range_error | ServerInvalid string

definition allow_ports_of :: "string \<Rightarrow> ServerCommonConf \<Rightarrow> (server_conf_error, ServerCommonConf) result option" where
  "allow_ports_of allowPortStr common =
     (if allowPortStr = [] then Some (Inr common)
      else case ParseRangeNumbers allowPortStr of
        None \<Rightarrow> None
      | Some (Inl e) \<Rightarrow> Some (Inl (AllowPortsSyntax e))
      | Some (Inr ports) \<Rightarrow>
          Some (Inr (common\<lparr>scAllowPorts := scAllowPorts common \<union> set ports, scAllowPortsStr := allowPortStr\<rparr>)))"

definition UnmarshalServerConfFromIni :: "'f server_ini \<Rightarrow> string \<Rightarrow> (server_conf_error, ServerCommonConf) result option" where
  "UnmarshalServerConfFromIni lib source =
     (case siLoad lib source of
        Inl e \<Rightarrow> Some (Inl (ServerIni e))
      | Inr f \<Rightarrow>
          if ''common'' \<notin> set (siSections lib f) then Some (Inl (ServerIni ''section 'common' does not exist''))
          else (case siMapTo lib f GetDefaultServerCommonConf of
             Inl e \<Rightarrow> Some (Inl (ServerIni e))
           | Inr common \<Rightarrow>
               (case allow_ports_of (siKey lib f ''allow_ports'') common of
                  None \<Rightarrow> None
                | Some (Inl e) \<Rightarrow> Some (Inl e)
                | Some (Inr c1) \<Rightarrow>
                    (let c2 = c1\<lparr>scEnableAPI := (siKey lib f ''api_enable'' \<noteq> ''false''), scAPIBaseURL := siKey lib f ''api_baseurl'',
                                 scAPIToken := siKey lib f ''api_token''\<rparr>
                     in case load_plugins lib f (siSections lib f) [] of
                          Inl e \<Rightarrow> Some (Inl (ServerIni e))
                        | Inr opts \<Rightarrow> Some (Inr (c2\<lparr>scHTTPPlugins := opts\<rparr>))))))"

definition Server_Complete :: "ServerCommonConf \<Rightarrow> ServerCommonConf" where
  "Server_Complete cfg =
     cfg\<lparr>scLogWay := (if scLogFile cfg = ''console'' then ''console'' else ''file''),
         scProxyBindAddr := (if scProxyBindAddr cfg = [] then scBindAddr cfg else scProxyBindAddr cfg),
         scTLSOnly := (scTLSTrustedCaFile cfg \<noteq> [] \<or> scTLSOnly cfg)\<rparr>"

text \<open>The last check is the validator library, over the tags of the fields.\<close>

definition Server_Validate :: "(ServerCommonConf \<Rightarrow> string option) \<Rightarrow> ServerCommonConf \<Rightarrow> string option" where
  "Server_Validate validator cfg =
     (if scDashboardTLSMode cfg \<and> scDashboardTLSCertFile cfg = []
      then Some ''ERROR! dashboard_tls_cert_file must be specified when dashboard_tls_mode is true''
      else if scDashboardTLSMode cfg \<and> scDashboardTLSKeyFile cfg = []
      then Some ''ERROR! dashboard_tls_cert_file must be specified when dashboard_tls_mode is true''
      else validator cfg)"

section \<open>Starting the server\<close>

record start_env =
  seTLSError :: "string option"
  seReachable :: "string \<Rightarrow> bool"
  seListen :: "string \<Rightarrow> string option"
  seListenKCP :: "string \<Rightarrow> string option"
  seListenQUIC :: "string \<Rightarrow> string option"
  seDashboard :: "string \<Rightarrow> string option"

definition service_conf_of :: "ServerCommonConf \<Rightarrow> service_conf" where
  "service_conf_of cfg =
     \<lparr>sfVhost = \<lparr>SubDomainHost = scSubDomainHost cfg, VhostHTTPPort = scVhostHTTPPort cfg, VhostHTTPSPort = scVhostHTTPSPort cfg,
                TCPMuxHTTPConnectPort = scTCPMuxHTTPConnectPort cfg\<rparr>,
      sfMaxPoolCount = scMaxPoolCount cfg, sfMaxPortsPerClient = scMaxPortsPerClient cfg,
      sfDetailedErrorsToClient = scDetailedErrorsToClient cfg, sfEnableAPI = scEnableAPI cfg, sfAPIToken = scAPIToken cfg,
      sfTCPMux = scTCPMux cfg, sfHeartbeatTimeout = scHeartbeatTimeout cfg\<rparr>"

definition new_rc :: "ServerCommonConf \<Rightarrow> 'c ResourceController" where
  "new_rc cfg =
     \<lparr>rcTCP = NewTCPGroupCtl (NewPortManager ''tcp'' (scProxyBindAddr cfg) (scAllowPorts cfg)),
      rcUDPPortManager = NewPortManager ''udp'' (scProxyBindAddr cfg) (scAllowPorts cfg),
      rcHTTP = NewHTTPGroupController NewRouters, rcVhostHTTPSMuxer = NewMuxer, rcTCPMux = NewTCPMuxGroupCtl NewMuxer,
      rcVisitorManager = NewVisitorManager,
      rcNatHoleController = Some (NewController (scNatHoleAnalysisDataReserveHours cfg * 3600))\<rparr>"

definition all_plugins :: "svc_msg plugin_http \<Rightarrow> ServerCommonConf \<Rightarrow> svc_msg PluginManager" where
  "all_plugins ph cfg = fold (\<lambda>(_, opt). PluginManager_Register (NewHTTPPluginOptions ph opt)) (sort_key fst (scHTTPPlugins cfg)) NewPluginManager"

text \<open>The first error of the listed attempts, in order.\<close>

fun first_error :: "(bool \<times> string \<times> string option) list \<Rightarrow> string option" where
  "first_error [] = None"
| "first_error ((needed, what, e) # es) = (case (needed, e) of (True, Some x) \<Rightarrow> Some (what @ x) | _ \<Rightarrow> first_error es)"

definition start_errors :: "start_env \<Rightarrow> ServerCommonConf \<Rightarrow> (bool \<times> string \<times> string option) list" where
  "start_errors env cfg =
     (let a = (\<lambda>host port. JoinHostPort host (Itoa port));
          shared = (\<lambda>port. scBindAddr cfg = scProxyBindAddr cfg \<and> scBindPort cfg = port)
      in [(scTCPMuxHTTPConnectPort cfg > 0, ''create server listener error, '', seListen env (a (scProxyBindAddr cfg) (scTCPMuxHTTPConnectPort cfg))),
          (True, ''create server listener error, '', seListen env (a (scBindAddr cfg) (scBindPort cfg))),
          (scKCPBindPort cfg > 0, ''listen on kcp udp address '' @ a (scBindAddr cfg) (scKCPBindPort cfg) @ '' error: '',
             seListenKCP env (a (scBindAddr cfg) (scKCPBindPort cfg))),
          (scQUICBindPort cfg > 0, ''listen on quic udp address '' @ a (scBindAddr cfg) (scQUICBindPort cfg) @ '' error: '',
             seListenQUIC env (a (scBindAddr cfg) (scQUICBindPort cfg))),
          (scVhostHTTPPort cfg > 0 \<and> \<not> shared (scVhostHTTPPort cfg), ''create vhost http listener error, '',
             seListen env (a (scProxyBindAddr cfg) (scVhostHTTPPort cfg))),
          (scVhostHTTPSPort cfg > 0 \<and> \<not> shared (scVhostHTTPSPort cfg), ''create server listener error, '',
             seListen env (a (scProxyBindAddr cfg) (scVhostHTTPSPort cfg))),
          (scDashboardPort cfg > 0, ''create dashboard web server error, '', seDashboard env (a (scDashboardAddr cfg) (scDashboardPort cfg)))])"

definition NewService :: "start_env \<Rightarrow> svc_msg plugin_http \<Rightarrow> ServerCommonConf \<Rightarrow> (string, 'c Service) result option" where
  "NewService env ph cfg =
     (case seTLSError env of
        Some e \<Rightarrow> Some (Inl e)
      | None \<Rightarrow>
          (case NewAuthVerifier (seReachable env) (scAuth cfg) of
             None \<Rightarrow> None
           | Some v \<Rightarrow>
               (case first_error (start_errors env cfg) of
                  Some e \<Rightarrow> Some (Inl e)
                | None \<Rightarrow> Some (Inr (initial_service (all_plugins ph cfg) v (new_rc cfg))))))"

section \<open>The ports of a server\<close>

definition granted_ports :: "ServerCommonConf \<Rightarrow> int set" where
  "granted_ports cfg = (if scAllowPorts cfg \<noteq> {} then scAllowPorts cfg else {1..65535})"

lemma new_rc_ok:
  assumes "0 \<notin> scAllowPorts cfg"
  shows "rc_ok (granted_ports cfg, granted_ports cfg) (new_rc cfg)" "rc_held (new_rc cfg) = {}"
proof -
  let ?pm = "\<lambda>nt. NewPortManager nt (scProxyBindAddr cfg) (scAllowPorts cfg)"
  have pm: "pm_ok (?pm nt)" for nt by (rule pm_okI [OF NewPortManager_inv]) (use assms in auto)
  have "http_inv (NewHTTPGroupController NewRouters)" by (rule http_reach_inv [OF http_reach.start])
  moreover have "vm_inv NewVisitorManager" by (simp add: vm_inv_def NewVisitorManager_def)
  ultimately have "rc_inv (new_rc cfg)"
    using pm mux_inv_NewMuxer tm_inv_new by (simp add: rc_inv_def new_rc_def NewTCPGroupCtl_def)
  moreover have "pm_total (?pm nt) = granted_ports cfg" for nt
    by (simp add: pm_total_def NewPortManager_def granted_ports_def MinPort_def MaxPort_def)
  ultimately show "rc_ok (granted_ports cfg, granted_ports cfg) (new_rc cfg)"
    by (simp add: rc_ok_def rc_total_def new_rc_def NewTCPGroupCtl_def)
  have "http_held (NewHTTPGroupController NewRouters) = {}"
    by (rule http_keys_eqI) (auto simp: NewHTTPGroupController_def routes_abs_def Routers_exist_def NewRouters_def)
  then show "rc_held (new_rc cfg) = {}"
    by (simp add: rc_held_def new_rc_def resources_def NewTCPGroupCtl_def NewPortManager_def NewController_def
        NewTCPMuxGroupCtl_def NewVisitorManager_def tm_held_def open_members_def NewMuxer_routes)
qed

lemma started_server_inv:
  assumes "NewService env ph cfg = Some (Inr s0)" "0 \<notin> scAllowPorts cfg" "0 \<le> scMaxPortsPerClient cfg"
    and "service_reach (service_conf_of cfg) s0 x"
  shows "service_inv (granted_ports cfg, granted_ports cfg) (service_conf_of cfg) x"
proof -
  from assms(1) obtain v where s0: "s0 = initial_service (all_plugins ph cfg) v (new_rc cfg)"
    by (auto simp: NewService_def split: option.splits)
  have "0 \<le> sfMaxPortsPerClient (service_conf_of cfg)" using assms(3) by (simp add: service_conf_of_def)
  from service_reach_inv [OF this new_rc_ok [OF assms(2)] assms(4) [unfolded s0]] show ?thesis .
qed

lemma held_in_total:
  assumes "rc_ok (A, B) r"
  shows "held_ports (rcTCP r) \<subseteq> A" "dom (usedPorts (rcUDPPortManager r)) \<subseteq> B"
  using assms by (auto simp: rc_ok_def rc_total_def pm_total_def)

lemma UnmarshalServerConf_ports:
  assumes "UnmarshalServerConfFromIni lib source = Some (Inr cfg)" "siLoad lib source = Inr f"
    and "\<And>c c'. siMapTo lib f c = Inr c' \<Longrightarrow> scAllowPorts c' = scAllowPorts c"
    and "siKey lib f ''allow_ports'' \<noteq> []" "ParseRangeNumbers (siKey lib f ''allow_ports'') = Some (Inr ports)"
  shows "scAllowPorts cfg = set ports"
proof -
  from assms(1,2) obtain common c1 where m: "siMapTo lib f GetDefaultServerCommonConf = Inr common"
    and p: "allow_ports_of (siKey lib f ''allow_ports'') common = Some (Inr c1)" and c: "scAllowPorts cfg = scAllowPorts c1"
    by (auto simp: UnmarshalServerConfFromIni_def Let_def split: if_splits sum.splits option.splits)
  have "scAllowPorts common = {}" using assms(3) [OF m] by (simp add: GetDefaultServerCommonConf_def)
  with p c assms(4,5) show ?thesis by (auto simp: allow_ports_of_def)
qed

lemma started_server_ports:
  assumes "scAllowPorts cfg = A" "A \<noteq> {}" "0 \<notin> A" "0 \<le> scMaxPortsPerClient cfg" "NewService env ph cfg = Some (Inr s0)"
    and reach: "service_reach (service_conf_of cfg) s0 (s, pend)"
  shows "held_ports (rcTCP (svRC s)) \<subseteq> A \<and> dom (usedPorts (rcUDPPortManager (svRC s))) \<subseteq> A"
proof -
  have "granted_ports cfg = A" using assms(1,2) by (simp add: granted_ports_def)
  with started_server_inv [OF assms(5) _ assms(4) reach] assms(1,3) have "service_inv (A, A) (service_conf_of cfg) (s, pend)" by simp
  from held_in_total [OF rc_inv_of [OF this]] show ?thesis by simp
qed

definition good_start :: start_env where
  "good_start = \<lparr>seTLSError = None, seReachable = (\<lambda>_. True), seListen = (\<lambda>_. None), seListenKCP = (\<lambda>_. None),
     seListenQUIC = (\<lambda>_. None), seDashboard = (\<lambda>_. None)\<rparr>"

end
