(* ===== verification/Server_Command.thy ===== *)
theory Server_Command
  imports Server_Config
begin

text \<open>
  Model of \<^verbatim>\<open>cmd/frps\<close>: the configuration of the server from a file or from the flags of the command line, and the start of the
  server with it. The globals the flags are parsed into are a record; the ini library, the validator and the
  rendering of the file are parameters. \<open>None\<close> is the divergence of the parser of port ranges or a panic of the start.
\<close>

record server_flags =
  sfgBindAddr :: string
  sfgBindPort :: int
  sfgKCPBindPort :: int
  sfgProxyBindAddr :: string
  sfgVhostHTTPPort :: int
  sfgVhostHTTPSPort :: int
  sfgVhostHTTPTimeout :: int
  sfgDashboardAddr :: string
  sfgDashboardPort :: int
  sfgDashboardUser :: string
  sfgDashboardPwd :: string
  sfgEnablePrometheus :: bool
  sfgLogFile :: string
  sfgLogLevel :: string
  sfgLogMaxDays :: int
  sfgDisableLogColor :: bool
  sfgToken :: string
  sfgSubDomainHost :: string
  sfgAllowPorts :: string
  sfgMaxPortsPerClient :: int
  sfgTLSOnly :: bool
  sfgDashboardTLSMode :: bool
  sfgDashboardTLSCertFile :: string
  sfgDashboardTLSKeyFile :: string

text \<open>The values of the flags that are not given.\<close>

definition default_flags :: server_flags where
  "default_flags =
     \<lparr>sfgBindAddr = ''0.0.0.0'', sfgBindPort = 7000, sfgKCPBindPort = 0, sfgProxyBindAddr = ''0.0.0.0'', sfgVhostHTTPPort = 0,
      sfgVhostHTTPSPort = 0, sfgVhostHTTPTimeout = 60, sfgDashboardAddr = ''0.0.0.0'', sfgDashboardPort = 0,
      sfgDashboardUser = ''admin'', sfgDashboardPwd = ''admin'', sfgEnablePrometheus = False, sfgLogFile = ''console'',
      sfgLogLevel = ''info'', sfgLogMaxDays = 3, sfgDisableLogColor = False, sfgToken = [], sfgSubDomainHost = [],
      sfgAllowPorts = [], sfgMaxPortsPerClient = 0, sfgTLSOnly = False, sfgDashboardTLSMode = False,
      sfgDashboardTLSCertFile = [], sfgDashboardTLSKeyFile = []\<rparr>"

datatype cfg_file_type = CfgFileTypeIni | CfgFileTypeCmd

definition parseServerCommonCfgFromCmd :: "server_flags \<Rightarrow> (server_conf_error, ServerCommonConf) result option" where
  "parseServerCommonCfgFromCmd f =
     (let cfg = GetDefaultServerCommonConf
            \<lparr>scBindAddr := sfgBindAddr f, scBindPort := sfgBindPort f, scKCPBindPort := sfgKCPBindPort f,
             scProxyBindAddr := sfgProxyBindAddr f, scVhostHTTPPort := sfgVhostHTTPPort f, scVhostHTTPSPort := sfgVhostHTTPSPort f,
             scVhostHTTPTimeout := sfgVhostHTTPTimeout f, scDashboardAddr := sfgDashboardAddr f, scDashboardPort := sfgDashboardPort f,
             scDashboardUser := sfgDashboardUser f, scDashboardPwd := sfgDashboardPwd f, scEnablePrometheus := sfgEnablePrometheus f,
             scDashboardTLSCertFile := sfgDashboardTLSCertFile f, scDashboardTLSKeyFile := sfgDashboardTLSKeyFile f,
             scDashboardTLSMode := sfgDashboardTLSMode f, scLogFile := sfgLogFile f, scLogLevel := sfgLogLevel f,
             scLogMaxDays := sfgLogMaxDays f, scSubDomainHost := sfgSubDomainHost f, scTLSOnly := sfgTLSOnly f,
             scAuth := GetDefaultServerConf\<lparr>svToken := sfgToken f\<rparr>\<rparr>;
          rest = (\<lambda>cfg. cfg\<lparr>scMaxPortsPerClient := sfgMaxPortsPerClient f, scDisableLogColor := sfgDisableLogColor f\<rparr>)
      in if sfgAllowPorts f = [] then Some (Inr (rest cfg))
         else (case ParseRangeNumbers (sfgAllowPorts f) of
                 None \<Rightarrow> None
               | Some (Inl e) \<Rightarrow> Some (Inl (AllowPortsSyntax e))
               | Some (Inr ports) \<Rightarrow> Some (Inr (rest (cfg\<lparr>scAllowPorts := scAllowPorts cfg \<union> set ports\<rparr>)))))"

definition parseServerCommonCfg :: "'f server_ini \<Rightarrow> (ServerCommonConf \<Rightarrow> string option) \<Rightarrow> cfg_file_type \<Rightarrow> server_flags \<Rightarrow> string \<Rightarrow>
    (server_conf_error, ServerCommonConf) result option" where
  "parseServerCommonCfg lib validator fileType f source =
     (case (case fileType of CfgFileTypeIni \<Rightarrow> UnmarshalServerConfFromIni lib source | CfgFileTypeCmd \<Rightarrow> parseServerCommonCfgFromCmd f) of
        None \<Rightarrow> None
      | Some (Inl e) \<Rightarrow> Some (Inl e)
      | Some (Inr cfg0) \<Rightarrow>
          (let cfg = Server_Complete cfg0
           in case Server_Validate validator cfg of Some e \<Rightarrow> Some (Inl (ServerInvalid e)) | None \<Rightarrow> Some (Inr cfg)))"

datatype frps_outcome = FrpsVersion string | FrpsRender string | FrpsConf server_conf_error

text \<open>The configuration with which the root command starts the server.\<close>

definition frps_root :: "'f server_ini \<Rightarrow> (ServerCommonConf \<Rightarrow> string option) \<Rightarrow> (string \<Rightarrow> (string, string) result) \<Rightarrow> bool \<Rightarrow> string \<Rightarrow>
    server_flags \<Rightarrow> (frps_outcome, ServerCommonConf) result option" where
  "frps_root lib validator render showVersion cfgFile f =
     (if showVersion then Some (Inl (FrpsVersion Full))
      else if cfgFile \<noteq> [] then
        (case render cfgFile of
           Inl e \<Rightarrow> Some (Inl (FrpsRender e))
         | Inr content \<Rightarrow> map_option (map_sum FrpsConf id) (parseServerCommonCfg lib validator CfgFileTypeIni f content))
      else map_option (map_sum FrpsConf id) (parseServerCommonCfg lib validator CfgFileTypeCmd f []))"

definition frps_verify :: "'f server_ini \<Rightarrow> (ServerCommonConf \<Rightarrow> string option) \<Rightarrow> (string \<Rightarrow> (string, string) result) \<Rightarrow> string \<Rightarrow>
    server_flags \<Rightarrow> bool option" where
  "frps_verify lib validator render cfgFile f =
     (if cfgFile = [] then Some True
      else case render cfgFile of
             Inl e \<Rightarrow> Some False
           | Inr content \<Rightarrow> map_option (\<lambda>r. \<not> isl r) (parseServerCommonCfg lib validator CfgFileTypeIni f content))"

section \<open>The ports of a server that was started\<close>

text \<open>The text of the allowed ports that a start reads: the key of the file, or the flag.\<close>

definition allow_ports_text :: "'f server_ini \<Rightarrow> (string \<Rightarrow> (string, string) result) \<Rightarrow> string \<Rightarrow> server_flags \<Rightarrow> string \<Rightarrow> bool" where
  "allow_ports_text lib render cfgFile f t \<longleftrightarrow>
     (if cfgFile = [] then sfgAllowPorts f = t
      else \<forall>content ini. render cfgFile = Inr content \<longrightarrow> siLoad lib content = Inr ini \<longrightarrow> siKey lib ini ''allow_ports'' = t)"

lemma parseServerCommonCfg_Inr:
  "parseServerCommonCfg lib validator ty f source = Some (Inr cfg) \<Longrightarrow>
   \<exists>cfg0. (case ty of CfgFileTypeIni \<Rightarrow> UnmarshalServerConfFromIni lib source | CfgFileTypeCmd \<Rightarrow> parseServerCommonCfgFromCmd f) = Some (Inr cfg0) \<and>
     cfg = Server_Complete cfg0"
  by (cases "case ty of CfgFileTypeIni \<Rightarrow> UnmarshalServerConfFromIni lib source | CfgFileTypeCmd \<Rightarrow> parseServerCommonCfgFromCmd f")
    (auto simp: parseServerCommonCfg_def Let_def split: sum.splits option.splits)

lemma cmd_ports:
  assumes "parseServerCommonCfgFromCmd f = Some (Inr cfg)" "sfgAllowPorts f \<noteq> []" "ParseRangeNumbers (sfgAllowPorts f) = Some (Inr ports)"
  shows "scAllowPorts cfg = set ports"
  using assms by (auto simp: parseServerCommonCfgFromCmd_def Let_def GetDefaultServerCommonConf_def)

lemma root_ports:
  assumes "frps_root lib validator render False cfgFile f = Some (Inr cfg)"
    and "\<And>ini c c'. siMapTo lib ini c = Inr c' \<Longrightarrow> scAllowPorts c' = scAllowPorts c"
    and "allow_ports_text lib render cfgFile f t" "t \<noteq> []" "ParseRangeNumbers t = Some (Inr ports)"
  shows "scAllowPorts cfg = set ports"
proof (cases "cfgFile = []")
  case True
  then obtain r where r: "parseServerCommonCfg lib validator CfgFileTypeCmd f [] = Some r" "map_sum FrpsConf id r = Inr cfg"
    using assms(1) by (auto simp: frps_root_def)
  then have "r = Inr cfg" by (cases r) simp_all
  with r(1) parseServerCommonCfg_Inr obtain cfg0 where "parseServerCommonCfgFromCmd f = Some (Inr cfg0)" "cfg = Server_Complete cfg0" by fastforce
  with cmd_ports [of f cfg0 ports] assms(3-5) True show ?thesis by (simp add: allow_ports_text_def Server_Complete_def)
next
  case False
  then obtain content r where r: "render cfgFile = Inr content" "parseServerCommonCfg lib validator CfgFileTypeIni f content = Some r"
    "map_sum FrpsConf id r = Inr cfg" using assms(1) by (auto simp: frps_root_def split: sum.splits)
  then have "r = Inr cfg" by (cases r) simp_all
  with r(2) parseServerCommonCfg_Inr obtain cfg0 where c: "UnmarshalServerConfFromIni lib content = Some (Inr cfg0)" "cfg = Server_Complete cfg0"
    by fastforce
  then obtain ini where ini: "siLoad lib content = Inr ini" by (auto simp: UnmarshalServerConfFromIni_def split: sum.splits)
  have t: "siKey lib ini ''allow_ports'' = t" using assms(3) False r(1) ini by (simp add: allow_ports_text_def)
  from UnmarshalServerConf_ports [OF c(1) ini assms(2)] t assms(4,5) c(2) show ?thesis by (simp add: Server_Complete_def)
qed


definition no_files :: "unit server_ini" where
  "no_files = \<lparr>siLoad = (\<lambda>_. Inl ''no such file''), siSections = (\<lambda>_. []), siKey = (\<lambda>_ _. []), siMapTo = (\<lambda>_. Inr), siPluginMapTo = (\<lambda>_ _. Inr)\<rparr>"


end
