(* ===== verification/Dashboard.thy ===== *)
theory Dashboard
  imports Metrics Server_Command
begin

text \<open>
  Model of \<^verbatim>\<open>server/dashboard_api.go\<close>, of the routes of \<^verbatim>\<open>server/dashboard.go\<close> and of the authentication of
  \<^verbatim>\<open>pkg/util/net/http.go\<close>. The router that matches a URL to a route is a library, so a request is its route with the variables in it.
  The values that are encoded as JSON are the answers; the JSON round trip of a configuration through the type it
  is shown as keeps the fields of that type. The table of proxies is a parameter: the configuration and the version of the client by name.
\<close>

section \<open>Configurations as they are shown\<close>

text \<open>A type without a case is decoded into a generic value, which has every field.\<close>

datatype out_conf = TCPOutConf BaseProxyConf int | TCPMuxOutConf BaseProxyConf DomainConf string | UDPOutConf BaseProxyConf int
  | HTTPOutConf BaseProxyConf DomainConf "string list" string | HTTPSOutConf BaseProxyConf DomainConf | STCPOutConf BaseProxyConf
  | XTCPOutConf BaseProxyConf | GenericOutConf ProxyConf

text \<open>The values of the keys of the encoded configuration, zero values where it has no such key.\<close>

fun json_remote_port :: "ProxyConf \<Rightarrow> int" where
  "json_remote_port (TCPConf c) = tcRemotePort c"
| "json_remote_port (UDPConf c) = ucRemotePort c"
| "json_remote_port _ = 0"

fun json_domains :: "ProxyConf \<Rightarrow> DomainConf" where
  "json_domains (HTTPConf c) = hcDomainConf c"
| "json_domains (HTTPSConf c) = scDomainConf c"
| "json_domains (TCPMuxConf c) = mcDomainConf c"
| "json_domains _ = zero_DomainConf"

fun json_multiplexer :: "ProxyConf \<Rightarrow> string" where
  "json_multiplexer (TCPMuxConf c) = mcMultiplexer c"
| "json_multiplexer _ = []"

fun json_locations :: "ProxyConf \<Rightarrow> string list" where
  "json_locations (HTTPConf c) = hcLocations c"
| "json_locations _ = []"

fun json_host_header_rewrite :: "ProxyConf \<Rightarrow> string" where
  "json_host_header_rewrite (HTTPConf c) = hcHostHeaderRewrite c"
| "json_host_header_rewrite _ = []"

definition getConfByType :: "string \<Rightarrow> ProxyConf \<Rightarrow> out_conf" where
  "getConfByType proxyType c =
     (let b = GetBaseConfig c
      in if proxyType = ''tcp'' then TCPOutConf b (json_remote_port c)
         else if proxyType = ''tcpmux'' then TCPMuxOutConf b (json_domains c) (json_multiplexer c)
         else if proxyType = ''udp'' then UDPOutConf b (json_remote_port c)
         else if proxyType = ''http'' then HTTPOutConf b (json_domains c) (json_locations c) (json_host_header_rewrite c)
         else if proxyType = ''https'' then HTTPSOutConf b (json_domains c)
         else if proxyType = ''stcp'' then STCPOutConf b
         else if proxyType = ''xtcp'' then XTCPOutConf b
         else GenericOutConf c)"

text \<open>Decoding reads the text of the bandwidth limit again, except into a generic value.\<close>

definition shown_conf :: "(string \<Rightarrow> int \<Rightarrow> int option) \<Rightarrow> string \<Rightarrow> ProxyConf \<Rightarrow> (config_error, out_conf) result" where
  "shown_conf flt proxyType c =
     (case (getConfByType proxyType c, BandwidthQuantity_UnmarshalString flt (qs (bBandwidthLimit (GetBaseConfig c))) zero_quantity) of
        (GenericOutConf c', _) \<Rightarrow> Inr (GenericOutConf c')
      | (out, Inl e) \<Rightarrow> Inl e
      | (out, Inr _) \<Rightarrow> Inr out)"

section \<open>The answers\<close>

record serverInfoResp =
  irVersion :: string
  irBindPort :: int
  irVhostHTTPPort :: int
  irVhostHTTPSPort :: int
  irTCPMuxHTTPConnectPort :: int
  irKCPBindPort :: int
  irQUICBindPort :: int
  irSubdomainHost :: string
  irMaxPoolCount :: int
  irMaxPortsPerClient :: int
  irHeartBeatTimeout :: int
  irAllowPortsStr :: string
  irTLSOnly :: bool
  irTotalTrafficIn :: int
  irTotalTrafficOut :: int
  irCurConns :: int
  irClientCounts :: int
  irProxyTypeCounts :: "(string \<times> int) list"

record ProxyStatsInfo =
  piName :: string
  piConf :: "out_conf option"
  piClientVersion :: string
  piTodayTrafficIn :: int
  piTodayTrafficOut :: int
  piCurConns :: int
  piLastStartTime :: string
  piLastCloseTime :: string
  piStatus :: string

datatype dash_body = NoBody | TextBody string | ServerInfo serverInfoResp | ProxyList "ProxyStatsInfo list" | OneProxy ProxyStatsInfo
  | Traffic string "int list" "int list" | CloseUserResp int string

record clock =
  ckFormat :: "int \<Rightarrow> string"
  ckMidnight :: "int \<Rightarrow> int"
  ckNow :: int

type_synonym online = "string \<Rightarrow> (ProxyConf \<times> string option) option"

definition APIServerInfo :: "clock \<Rightarrow> ServerCommonConf \<Rightarrow> ServerStatistics \<Rightarrow> (int \<times> dash_body) \<times> ServerStatistics" where
  "APIServerInfo ck cfg m =
     (case GetServer (ckMidnight ck) (ckNow ck) m of
        (stats, m') \<Rightarrow>
          ((200, ServerInfo
             \<lparr>irVersion = Full, irBindPort = scBindPort cfg, irVhostHTTPPort = scVhostHTTPPort cfg, irVhostHTTPSPort = scVhostHTTPSPort cfg,
              irTCPMuxHTTPConnectPort = scTCPMuxHTTPConnectPort cfg, irKCPBindPort = scKCPBindPort cfg, irQUICBindPort = scQUICBindPort cfg,
              irSubdomainHost = scSubDomainHost cfg, irMaxPoolCount = scMaxPoolCount cfg, irMaxPortsPerClient = scMaxPortsPerClient cfg,
              irHeartBeatTimeout = scHeartbeatTimeout cfg, irAllowPortsStr = scAllowPortsStr cfg, irTLSOnly = scTLSOnly cfg,
              irTotalTrafficIn = sTotalTrafficIn stats, irTotalTrafficOut = sTotalTrafficOut stats, irCurConns = sCurConns stats,
              irClientCounts = sClientCounts stats, irProxyTypeCounts = sProxyTypeCounts stats\<rparr>), m'))"

definition proxy_info :: "string \<Rightarrow> ProxyStats \<Rightarrow> out_conf option \<Rightarrow> string \<Rightarrow> ProxyStatsInfo" where
  "proxy_info name ps conf status =
     \<lparr>piName = name, piConf = conf, piClientVersion = [], piTodayTrafficIn = pTodayTrafficIn ps, piTodayTrafficOut = pTodayTrafficOut ps,
      piCurConns = pCurConns ps, piLastStartTime = pLastStartTime ps, piLastCloseTime = pLastCloseTime ps, piStatus = status\<rparr>"

fun proxy_infos :: "(string \<Rightarrow> int \<Rightarrow> int option) \<Rightarrow> online \<Rightarrow> ProxyStats list \<Rightarrow> ProxyStatsInfo list" where
  "proxy_infos flt pxys [] = []"
| "proxy_infos flt pxys (ps # rest) =
     (case pxys (pName ps) of
        None \<Rightarrow> proxy_info (pName ps) ps None ''offline'' # proxy_infos flt pxys rest
      | Some (c, login) \<Rightarrow>
          (case shown_conf flt (pType ps) c of
             Inl _ \<Rightarrow> proxy_infos flt pxys rest
           | Inr out \<Rightarrow>
               (proxy_info (pName ps) ps (Some out) ''online'')\<lparr>piClientVersion := (case login of None \<Rightarrow> [] | Some v \<Rightarrow> v)\<rparr> #
               proxy_infos flt pxys rest))"

definition getProxyStatsByType :: "(string \<Rightarrow> int \<Rightarrow> int option) \<Rightarrow> clock \<Rightarrow> online \<Rightarrow> string \<Rightarrow> ServerStatistics \<Rightarrow>
    ProxyStatsInfo list \<times> ServerStatistics" where
  "getProxyStatsByType flt ck pxys proxyType m =
     (case GetProxiesByType (ckFormat ck) (ckMidnight ck) (ckNow ck) proxyType m of (rows, m') \<Rightarrow> (proxy_infos flt pxys rows, m'))"

definition getProxyStatsByTypeAndName :: "(string \<Rightarrow> int \<Rightarrow> int option) \<Rightarrow> clock \<Rightarrow> online \<Rightarrow> string \<Rightarrow> string \<Rightarrow> ServerStatistics \<Rightarrow>
    (int \<times> dash_body) \<times> ServerStatistics" where
  "getProxyStatsByTypeAndName flt ck pxys proxyType proxyName m =
     (case GetProxiesByTypeAndName (ckFormat ck) (ckMidnight ck) (ckNow ck) proxyType proxyName m of
        (None, m') \<Rightarrow> ((404, TextBody ''no proxy info found''), m')
      | (Some ps, m') \<Rightarrow>
          (case pxys proxyName of
             None \<Rightarrow> ((200, OneProxy (proxy_info proxyName ps None ''offline'')), m')
           | Some (c, _) \<Rightarrow>
               (case shown_conf flt (pType ps) c of
                  Inl _ \<Rightarrow> ((400, TextBody ''parse conf error''), m')
                | Inr out \<Rightarrow> ((200, OneProxy (proxy_info proxyName ps (Some out) ''online'')), m'))))"

definition APIProxyTraffic :: "clock \<Rightarrow> string \<Rightarrow> ServerStatistics \<Rightarrow> (int \<times> dash_body) \<times> ServerStatistics" where
  "APIProxyTraffic ck name m =
     (case GetProxyTraffic (ckMidnight ck) (ckNow ck) name m of
        (None, m') \<Rightarrow> ((404, TextBody ''no proxy info found''), m')
      | (Some info, m') \<Rightarrow> ((200, Traffic name (tiTrafficIn info) (tiTrafficOut info)), m'))"

text \<open>The status is part of the body; the status of the HTTP answer is always 200.\<close>

definition APICloseClient :: "string \<Rightarrow> 'c Service \<Rightarrow> (int \<times> dash_body) \<times> 'c Service" where
  "APICloseClient user s =
     (case CloseUser user s of
        (Some e, s') \<Rightarrow> ((200, CloseUserResp 404 e), s')
      | (None, s') \<Rightarrow> ((200, CloseUserResp 200 ''OK''), s'))"

section \<open>Routes and authentication\<close>

datatype dash_route = Healthz | Pprof | MetricsRoute | ServerInfoRoute | ProxyByType string | ProxyByTypeAndName string string
  | TrafficRoute string | CloseClientRoute string | StaticRoute | RootRoute

definition HTTPAuthMiddleware :: "string \<Rightarrow> string \<Rightarrow> (string \<times> string) option \<Rightarrow> bool" where
  "HTTPAuthMiddleware user passwd auth \<longleftrightarrow> user = [] \<and> passwd = [] \<or> auth = Some (user, passwd)"

record 'c dash_state =
  dsStats :: ServerStatistics
  dsService :: "'c Service"

definition with_stats :: "(int \<times> dash_body) \<times> ServerStatistics \<Rightarrow> 'c dash_state \<Rightarrow> (int \<times> dash_body) \<times> 'c dash_state" where
  "with_stats r d = (fst r, d\<lparr>dsStats := snd r\<rparr>)"

definition dashboard :: "(string \<Rightarrow> int \<Rightarrow> int option) \<Rightarrow> clock \<Rightarrow> ServerCommonConf \<Rightarrow> online \<Rightarrow> (string \<times> string) option \<Rightarrow> dash_route \<Rightarrow>
    'c dash_state \<Rightarrow> (int \<times> dash_body) \<times> 'c dash_state" where
  "dashboard flt ck cfg pxys auth route d =
     (if route = Healthz then ((200, NoBody), d)
      else if route = Pprof \<and> scPprofEnable cfg then ((200, NoBody), d)
      else if route = Pprof \<or> route = MetricsRoute \<and> \<not> scEnablePrometheus cfg then ((404, TextBody ''404 page not found''), d)
      else if \<not> HTTPAuthMiddleware (scDashboardUser cfg) (scDashboardPwd cfg) auth then ((401, TextBody ''Unauthorized''), d)
      else case route of
             ServerInfoRoute \<Rightarrow> with_stats (APIServerInfo ck cfg (dsStats d)) d
           | ProxyByType t \<Rightarrow>
               (case getProxyStatsByType flt ck pxys t (dsStats d) of (infos, m) \<Rightarrow> ((200, ProxyList infos), d\<lparr>dsStats := m\<rparr>))
           | ProxyByTypeAndName t n \<Rightarrow> with_stats (getProxyStatsByTypeAndName flt ck pxys t n (dsStats d)) d
           | TrafficRoute n \<Rightarrow> with_stats (APIProxyTraffic ck n (dsStats d)) d
           | CloseClientRoute u \<Rightarrow> (case APICloseClient u (dsService d) of (r, s) \<Rightarrow> (r, d\<lparr>dsService := s\<rparr>))
           | RootRoute \<Rightarrow> ((301, NoBody), d)
           | _ \<Rightarrow> ((200, NoBody), d))"

section \<open>What the dashboard discloses\<close>

text \<open>A configuration without its secrets: keys of secret proxies with the users they allow, HTTP credentials and headers.\<close>

primrec scrub :: "ProxyConf \<Rightarrow> ProxyConf" where
  "scrub (TCPConf c) = TCPConf c"
| "scrub (TCPMuxConf c) = TCPMuxConf (c\<lparr>mcHTTPUser := [], mcHTTPPwd := [], mcRouteByHTTPUser := []\<rparr>)"
| "scrub (UDPConf c) = UDPConf c"
| "scrub (HTTPConf c) = HTTPConf (c\<lparr>hcHTTPUser := [], hcHTTPPwd := [], hcHeaders := [], hcRouteByHTTPUser := []\<rparr>)"
| "scrub (HTTPSConf c) = HTTPSConf c"
| "scrub (STCPConf c) = STCPConf (c\<lparr>rcRole := zero_Role\<rparr>)"
| "scrub (XTCPConf c) = XTCPConf (c\<lparr>rcRole := zero_Role\<rparr>)"
| "scrub (SUDPConf c) = SUDPConf (c\<lparr>rcRole := zero_Role\<rparr>)"

definition typed_stats :: "ServerStatistics \<Rightarrow> bool" where
  "typed_stats m \<longleftrightarrow> (\<forall>(n, s) \<in> set (ProxyStatistics_map m).
     psProxyType s \<in> {''tcp'', ''tcpmux'', ''udp'', ''http'', ''https'', ''stcp'', ''xtcp''})"

lemma shown_conf_scrub:
  assumes "t \<in> {''tcp'', ''tcpmux'', ''udp'', ''http'', ''https'', ''stcp'', ''xtcp''}"
  shows "shown_conf flt t (scrub c) = shown_conf flt t c"
  using assms unfolding insert_iff empty_iff simp_thms
  by (elim disjE; cases c; simp add: shown_conf_def getConfByType_def BaseProxyConf.defs Let_def)

definition same_scrubbed :: "online \<Rightarrow> online \<Rightarrow> bool" where
  "same_scrubbed p q \<longleftrightarrow> (\<forall>n. map_option (map_prod scrub id) (p n) = map_option (map_prod scrub id) (q n))"

lemma same_scrubbed_cases:
  assumes "same_scrubbed p q"
  obtains "p n = None" "q n = None"
  | c c' v where "p n = Some (c, v)" "q n = Some (c', v)" "scrub c = scrub c'"
  using assms [unfolded same_scrubbed_def, rule_format, of n] by (cases "p n"; cases "q n") auto

lemma shown_conf_same:
  "scrub c = scrub c' \<Longrightarrow> t \<in> {''tcp'', ''tcpmux'', ''udp'', ''http'', ''https'', ''stcp'', ''xtcp''} \<Longrightarrow> shown_conf flt t c = shown_conf flt t c'"
  by (metis shown_conf_scrub)

lemma proxy_infos_same:
  assumes "same_scrubbed p q" "\<forall>ps \<in> set rows. pType ps \<in> {''tcp'', ''tcpmux'', ''udp'', ''http'', ''https'', ''stcp'', ''xtcp''}"
  shows "proxy_infos flt p rows = proxy_infos flt q rows"
  using assms(2)
proof (induction rows)
  case (Cons ps rows)
  from assms(1) show ?case
  proof (cases rule: same_scrubbed_cases [where n = "pName ps"])
    case 1
    with Cons show ?thesis by simp
  next
    case (2 c c' v)
    have "shown_conf flt (pType ps) c = shown_conf flt (pType ps) c'" using shown_conf_same [OF 2(3)] Cons(2) by simp
    with Cons 2 show ?thesis by (simp split: sum.split)
  qed
qed simp

lemma proxy_row_type: "proxy_row fmt midnight now n s = (row, s') \<Longrightarrow> psProxyType s = pType row"
  by (auto simp: proxy_row_def Let_def split: prod.splits)

lemma rows_by_type_typed:
  "rows_by_type fmt midnight now ty ss = (rows, ss') \<Longrightarrow> ps \<in> set rows \<Longrightarrow> \<exists>(n, s) \<in> set ss. psProxyType s = pType ps"
proof (induction ss arbitrary: rows ss')
  case (Cons x ss)
  obtain n s where x: "x = (n, s)" by (cases x)
  obtain rows1 ss1 where r: "rows_by_type fmt midnight now ty ss = (rows1, ss1)" by fastforce
  obtain row s' where row: "proxy_row fmt midnight now n s = (row, s')" by fastforce
  from Cons(2) x r row have "rows = (if psProxyType s = ty then row # rows1 else rows1)" by (auto split: if_splits)
  with Cons(3) consider "ps = row" | "ps \<in> set rows1" by (auto split: if_splits)
  then show ?case
  proof cases
    case 1
    with proxy_row_type [OF row] x show ?thesis by auto
  next
    case 2
    from Cons(1) [OF r 2] show ?thesis by auto
  qed
qed simp

lemma stats_by_type_same:
  assumes "same_scrubbed p q" "typed_stats m"
  shows "getProxyStatsByType flt ck p t m = getProxyStatsByType flt ck q t m"
proof -
  obtain rows m' where r: "rows_by_type (ckFormat ck) (ckMidnight ck) (ckNow ck) t (ProxyStatistics_map m) = (rows, m')" by fastforce
  have "\<forall>ps \<in> set rows. pType ps \<in> {''tcp'', ''tcpmux'', ''udp'', ''http'', ''https'', ''stcp'', ''xtcp''}"
    using rows_by_type_typed [OF r] assms(2) unfolding typed_stats_def by fastforce
  from proxy_infos_same [OF assms(1) this] show ?thesis by (simp add: getProxyStatsByType_def GetProxiesByType_def r)
qed

lemma found_type:
  assumes "GetProxiesByTypeAndName fmt midnight now t n m = (Some ps, m')"
  shows "pType ps = t" "typed_stats m \<Longrightarrow> t \<in> {''tcp'', ''tcpmux'', ''udp'', ''http'', ''https'', ''stcp'', ''xtcp''}"
proof -
  from assms obtain name s s' where f: "List.find (\<lambda>(name, s). psProxyType s = t \<and> name = n) (ProxyStatistics_map m) = Some (name, s)"
    and r: "proxy_row fmt midnight now name s = (ps, s')"
    by (auto simp: GetProxiesByTypeAndName_def split: option.splits prod.splits)
  from find_SomeD [OF f] have "psProxyType s = t" "(name, s) \<in> set (ProxyStatistics_map m)" by auto
  with proxy_row_type [OF r] show "pType ps = t" "typed_stats m \<Longrightarrow> t \<in> {''tcp'', ''tcpmux'', ''udp'', ''http'', ''https'', ''stcp'', ''xtcp''}"
    by (auto simp: typed_stats_def)
qed

lemma stats_by_name_same:
  assumes "same_scrubbed p q" "typed_stats m"
  shows "getProxyStatsByTypeAndName flt ck p t n m = getProxyStatsByTypeAndName flt ck q t n m"
proof (cases "GetProxiesByTypeAndName (ckFormat ck) (ckMidnight ck) (ckNow ck) t n m")
  case (Pair r m')
  show ?thesis
  proof (cases r)
    case None
    with Pair show ?thesis by (simp add: getProxyStatsByTypeAndName_def)
  next
    case (Some ps)
    note ty = found_type [OF Pair [unfolded Some]]
    from assms(1) show ?thesis
    proof (cases rule: same_scrubbed_cases [where n = n])
      case 1
      with Pair Some show ?thesis by (simp add: getProxyStatsByTypeAndName_def)
    next
      case (2 c c' v)
      have "shown_conf flt (pType ps) c = shown_conf flt (pType ps) c'"
        by (rule shown_conf_same [OF 2(3)]) (use ty assms(2) in simp)
      with Pair Some 2 show ?thesis by (simp add: getProxyStatsByTypeAndName_def)
    qed
  qed
qed

lemma dashboard_same:
  assumes "same_scrubbed p q" "typed_stats (dsStats d)"
  shows "dashboard flt ck cfg p auth route d = dashboard flt ck cfg q auth route d"
  by (simp add: dashboard_def stats_by_type_same [OF assms] stats_by_name_same [OF assms] cong: dash_route.case_cong)

text \<open>Without the credentials only the state of health, and the profiler when it is on, can be asked for, and nothing changes.\<close>

lemma dashboard_needs_credentials:
  assumes "\<not> HTTPAuthMiddleware (scDashboardUser cfg) (scDashboardPwd cfg) auth"
  shows "snd (dashboard flt ck cfg pxys auth route d) = d"
    "fst (fst (dashboard flt ck cfg pxys auth route d)) = 200 \<longleftrightarrow> route = Healthz \<or> route = Pprof \<and> scPprofEnable cfg"
  using assms by (auto simp: dashboard_def)

lemma sudp_found:
  assumes "List.find (\<lambda>(name, s). psProxyType s = ''sudp'' \<and> name = n) (ProxyStatistics_map m) = Some r"
    and "pxys n = Some (SUDPConf c, v)"
  shows "\<exists>info m'. getProxyStatsByTypeAndName flt ck pxys ''sudp'' n m = ((200, OneProxy info), m') \<and> piConf info = Some (GenericOutConf (SUDPConf c))"
proof -
  obtain name s where r: "r = (name, s)" by (cases r)
  obtain ps s' where row: "proxy_row (ckFormat ck) (ckMidnight ck) (ckNow ck) name s = (ps, s')" by fastforce
  have "pType ps = ''sudp''" using proxy_row_type [OF row] find_SomeD [OF assms(1)] r by simp
  then have "shown_conf flt (pType ps) (SUDPConf c) = Inr (GenericOutConf (SUDPConf c))" by (simp add: shown_conf_def getConfByType_def Let_def)
  with assms r row show ?thesis by (simp add: getProxyStatsByTypeAndName_def GetProxiesByTypeAndName_def proxy_info_def)
qed


definition sudp_conf :: "string \<Rightarrow> SUDPProxyConf" where
  "sudp_conf sk = zero_base (RoleProxyConf.fields \<lparr>rRole = ''server'', rSk = sk, rAllowUsers = []\<rparr>)"


end
