(* ===== verification/Client_Config.thy ===== *)
theory Client_Config
  imports Proxy_Config Auth
begin

text \<open>
  Model of \<^verbatim>\<open>pkg/config/visitor.go\<close>, \<^verbatim>\<open>pkg/config/client.go\<close> and \<^verbatim>\<open>pkg/config/parse.go\<close>: the configuration file
  of the client. A file has a section \<^verbatim>\<open>[common]\<close>, sections that each describe a proxy or a visitor, and
  sections \<^verbatim>\<open>[range:...]\<close> that stand for one proxy per port. The ini library is third party code: the record
  \<open>ini_lib\<close> holds its functions, on files of any type, and \<open>ini_ok\<close> states what its documentation promises. A section
  is identified by its name. What the operating system answers about include files is the record \<open>file_system\<close>.
  The parser of ranges may run forever; then the result is \<open>None\<close>.
\<close>

section \<open>Visitors\<close>

record BaseVisitorConf =
  vbProxyName :: string
  vbProxyType :: string
  vbUseEncryption :: bool
  vbUseCompression :: bool
  vbRole :: string
  vbSk :: string
  vbServerUser :: string
  vbServerName :: string
  vbBindAddr :: string
  vbBindPort :: int

record XTCPVisitorConf = BaseVisitorConf +
  vxProtocol :: string
  vxKeepTunnelOpen :: bool
  vxMaxRetriesAnHour :: int
  vxMinRetryInterval :: int
  vxFallbackTo :: string
  vxFallbackTimeoutMs :: int

datatype VisitorConf = STCPVisitorConf BaseVisitorConf | XTCPVisitor XTCPVisitorConf | SUDPVisitorConf BaseVisitorConf

primrec Visitor_GetBaseConfig :: "VisitorConf \<Rightarrow> BaseVisitorConf" where
  "Visitor_GetBaseConfig (STCPVisitorConf c) = c"
| "Visitor_GetBaseConfig (XTCPVisitor c) = BaseVisitorConf.truncate c"
| "Visitor_GetBaseConfig (SUDPVisitorConf c) = c"

definition zero_BaseVisitorConf :: BaseVisitorConf where
  "zero_BaseVisitorConf = \<lparr>vbProxyName = [], vbProxyType = [], vbUseEncryption = False, vbUseCompression = False, vbRole = [],
     vbSk = [], vbServerUser = [], vbServerName = [], vbBindAddr = [], vbBindPort = 0\<rparr>"

definition zero_XTCPVisitorConf :: XTCPVisitorConf where
  "zero_XTCPVisitorConf = BaseVisitorConf.extend zero_BaseVisitorConf \<lparr>vxProtocol = [], vxKeepTunnelOpen = False,
     vxMaxRetriesAnHour = 0, vxMinRetryInterval = 0, vxFallbackTo = [], vxFallbackTimeoutMs = 0\<rparr>"

definition DefaultVisitorConf :: "string \<Rightarrow> VisitorConf option" where
  "DefaultVisitorConf visitorType =
     (if visitorType = ''stcp'' then Some (STCPVisitorConf zero_BaseVisitorConf)
      else if visitorType = ''xtcp'' then Some (XTCPVisitor zero_XTCPVisitorConf)
      else if visitorType = ''sudp'' then Some (SUDPVisitorConf zero_BaseVisitorConf)
      else None)"

definition BaseVisitor_validate :: "'a BaseVisitorConf_scheme \<Rightarrow> string option" where
  "BaseVisitor_validate cfg =
     (if vbRole cfg \<noteq> ''visitor'' then Some ''invalid role''
      else if vbBindAddr cfg = [] then Some ''bind_addr shouldn't be empty''
      else if vbBindPort cfg = 0 then Some ''bind_port is required''
      else None)"

definition BaseVisitor_unmarshalFromIni :: "string \<Rightarrow> string \<Rightarrow> 'a BaseVisitorConf_scheme \<Rightarrow> 'a BaseVisitorConf_scheme" where
  "BaseVisitor_unmarshalFromIni pre name cfg =
     cfg\<lparr>vbProxyName := pre @ name,
         vbServerName := (if vbServerUser cfg = [] then pre @ vbServerName cfg else vbServerUser cfg @ ''.'' @ vbServerName cfg),
         vbBindAddr := (if vbBindAddr cfg = [] then ''127.0.0.1'' else vbBindAddr cfg)\<rparr>"

definition XTCPVisitor_defaults :: "XTCPVisitorConf \<Rightarrow> XTCPVisitorConf" where
  "XTCPVisitor_defaults cfg =
     cfg\<lparr>vxProtocol := (if vxProtocol cfg = [] then ''quic'' else vxProtocol cfg),
         vxMaxRetriesAnHour := (if vxMaxRetriesAnHour cfg \<le> 0 then 8 else vxMaxRetriesAnHour cfg),
         vxMinRetryInterval := (if vxMinRetryInterval cfg \<le> 0 then 90 else vxMinRetryInterval cfg),
         vxFallbackTimeoutMs := (if vxFallbackTimeoutMs cfg \<le> 0 then 1000 else vxFallbackTimeoutMs cfg)\<rparr>"

definition Visitor_UnmarshalFromIni ::
  "string \<Rightarrow> string \<Rightarrow> (VisitorConf \<Rightarrow> (string, VisitorConf) result) \<Rightarrow> VisitorConf \<Rightarrow> (string, VisitorConf) result" where
  "Visitor_UnmarshalFromIni pre name mapTo cfg =
     (case mapTo cfg of
        Inl e \<Rightarrow> Inl e
      | Inr (STCPVisitorConf c) \<Rightarrow> Inr (STCPVisitorConf (BaseVisitor_unmarshalFromIni pre name c))
      | Inr (XTCPVisitor c) \<Rightarrow> Inr (XTCPVisitor (XTCPVisitor_defaults (BaseVisitor_unmarshalFromIni pre name c)))
      | Inr (SUDPVisitorConf c) \<Rightarrow> Inr (SUDPVisitorConf (BaseVisitor_unmarshalFromIni pre name c)))"

primrec Visitor_Validate :: "VisitorConf \<Rightarrow> string option" where
  "Visitor_Validate (STCPVisitorConf c) = BaseVisitor_validate c"
| "Visitor_Validate (XTCPVisitor c) =
     (case BaseVisitor_validate c of
        Some e \<Rightarrow> Some e
      | None \<Rightarrow> if vxProtocol c \<in> {[], ''kcp'', ''quic''} then None else Some (''protocol should be 'kcp' or 'quic'' @ [CHR 0x27]))"
| "Visitor_Validate (SUDPVisitorConf c) = BaseVisitor_validate c"

definition NewVisitorConfFromIni ::
  "string \<Rightarrow> string \<Rightarrow> string \<Rightarrow> (VisitorConf \<Rightarrow> (string, VisitorConf) result) \<Rightarrow> (string, VisitorConf) result" where
  "NewVisitorConfFromIni pre name visitorType mapTo =
     (if visitorType = [] then Inl ''type shouldn't be empty''
      else case DefaultVisitorConf visitorType of
        None \<Rightarrow> Inl (''type ['' @ visitorType @ ''] error'')
      | Some conf0 \<Rightarrow>
          (case Visitor_UnmarshalFromIni pre name mapTo conf0 of
             Inl _ \<Rightarrow> Inl (''type ['' @ visitorType @ ''] error'')
           | Inr conf \<Rightarrow> (case Visitor_Validate conf of Some e \<Rightarrow> Inl e | None \<Rightarrow> Inr conf)))"

section \<open>Common settings\<close>

record ClientCommonConf =
  clAuth :: ClientConfig
  clServerAddr :: string
  clServerPort :: int
  clNatHoleSTUNServer :: string
  clDialServerTimeout :: int
  clDialServerKeepAlive :: int
  clConnectServerLocalIP :: string
  clHTTPProxy :: string
  clLogFile :: string
  clLogWay :: string
  clLogLevel :: string
  clLogMaxDays :: int
  clDisableLogColor :: bool
  clAdminAddr :: string
  clAdminPort :: int
  clAdminUser :: string
  clAdminPwd :: string
  clAssetsDir :: string
  clPoolCount :: int
  clTCPMux :: bool
  clTCPMuxKeepaliveInterval :: int
  clUser :: string
  clDNSServer :: string
  clLoginFailExit :: bool
  clStart :: "string list"
  clProtocol :: string
  clQUICKeepalivePeriod :: int
  clQUICMaxIdleTimeout :: int
  clQUICMaxIncomingStreams :: int
  clTLSEnable :: bool
  clTLSCertFile :: string
  clTLSKeyFile :: string
  clTLSTrustedCaFile :: string
  clTLSServerName :: string
  clDisableCustomTLSFirstByte :: bool
  clHeartbeatInterval :: int
  clHeartbeatTimeout :: int
  clMetas :: "(string \<times> string) list"
  clUDPPacketSize :: int
  clIncludeConfigFiles :: "string list"
  clPprofEnable :: bool

text \<open>\<open>http_proxy\<close> is the value of the environment variable.\<close>

definition GetDefaultClientCommonConf :: "string \<Rightarrow> ClientCommonConf" where
  "GetDefaultClientCommonConf http_proxy =
     \<lparr>clAuth = GetDefaultClientConf, clServerAddr = ''0.0.0.0'', clServerPort = 7000,
      clNatHoleSTUNServer = ''stun.easyvoip.com:3478'', clDialServerTimeout = 10, clDialServerKeepAlive = 7200,
      clConnectServerLocalIP = [], clHTTPProxy = http_proxy, clLogFile = ''console'', clLogWay = ''console'',
      clLogLevel = ''info'', clLogMaxDays = 3, clDisableLogColor = False, clAdminAddr = ''127.0.0.1'', clAdminPort = 0,
      clAdminUser = [], clAdminPwd = [], clAssetsDir = [], clPoolCount = 1, clTCPMux = True, clTCPMuxKeepaliveInterval = 60,
      clUser = [], clDNSServer = [], clLoginFailExit = True, clStart = [], clProtocol = ''tcp'', clQUICKeepalivePeriod = 10,
      clQUICMaxIdleTimeout = 30, clQUICMaxIncomingStreams = 100000, clTLSEnable = True, clTLSCertFile = [], clTLSKeyFile = [],
      clTLSTrustedCaFile = [], clTLSServerName = [], clDisableCustomTLSFirstByte = True, clHeartbeatInterval = 30,
      clHeartbeatTimeout = 90, clMetas = [], clUDPPacketSize = 1500, clIncludeConfigFiles = [], clPprofEnable = False\<rparr>"

definition Client_Complete :: "ClientCommonConf \<Rightarrow> ClientCommonConf" where
  "Client_Complete cfg = cfg\<lparr>clLogWay := (if clLogFile cfg = ''console'' then ''console'' else ''file'')\<rparr>"

text \<open>The file system as the include files see it: the directory of a path, whether it is missing, its entries with
  whether they are directories, whether an entry matches the last part of the path, and a rendered file.\<close>

record file_system =
  fsAbsDir :: "string \<Rightarrow> (string, string) result"
  fsMissing :: "string \<Rightarrow> bool"
  fsReadDir :: "string \<Rightarrow> (string, (string \<times> bool) list) result"
  fsMatch :: "string \<Rightarrow> string \<Rightarrow> string \<Rightarrow> bool"
  fsRender :: "string \<Rightarrow> string \<Rightarrow> (string, string) result"

fun check_includes :: "file_system \<Rightarrow> string list \<Rightarrow> string option" where
  "check_includes fs [] = None"
| "check_includes fs (f # files) =
     (case fsAbsDir fs f of
        Inl _ \<Rightarrow> Some (''include: parse directory of '' @ f @ '' failed: '')
      | Inr absDir \<Rightarrow>
          if fsMissing fs absDir then Some (''include: directory of '' @ f @ '' not exist'') else check_includes fs files)"

definition Client_Validate :: "file_system \<Rightarrow> ClientCommonConf \<Rightarrow> string option" where
  "Client_Validate fs cfg =
     (if clHeartbeatTimeout cfg > 0 \<and> clHeartbeatInterval cfg > 0 \<and> clHeartbeatTimeout cfg < clHeartbeatInterval cfg
      then Some ''invalid heartbeat_timeout, heartbeat_timeout is less than heartbeat_interval''
      else if clProtocol cfg \<notin> {''tcp'', ''kcp'', ''quic'', ''websocket'', ''wss''} then Some ''invalid protocol''
      else check_includes fs (clIncludeConfigFiles cfg))"

section \<open>The ini library\<close>

record 'f ini_lib =
  iLoad :: "string \<Rightarrow> (string, 'f) result"
  iSections :: "'f \<Rightarrow> string list"
  iKey :: "'f \<Rightarrow> string \<Rightarrow> string \<Rightarrow> string"
  iKeysHash :: "'f \<Rightarrow> string \<Rightarrow> (string \<times> string) list"
  iGetKey :: "'f \<Rightarrow> string \<Rightarrow> string \<Rightarrow> string option"
  iNewSection :: "string \<Rightarrow> 'f \<Rightarrow> (string, 'f) result"
  iNewKey :: "string \<Rightarrow> string \<Rightarrow> string \<Rightarrow> 'f \<Rightarrow> (string, 'f) result"
  iCommonMapTo :: "'f \<Rightarrow> ClientCommonConf \<Rightarrow> (string, ClientCommonConf) result"
  iProxyMapTo :: "'f \<Rightarrow> string \<Rightarrow> ProxyConf \<Rightarrow> (string, ProxyConf) result"
  iVisitorMapTo :: "'f \<Rightarrow> string \<Rightarrow> VisitorConf \<Rightarrow> (string, VisitorConf) result"

definition section_of :: "'f ini_lib \<Rightarrow> 'f \<Rightarrow> string \<Rightarrow> ini_section" where
  "section_of lib f name = \<lparr>iniName = name, iniKey = iKey lib f name, iniKeysHash = iKeysHash lib f name,
     iniGetKey = iGetKey lib f name, iniMapTo = iProxyMapTo lib f name\<rparr>"

definition UnmarshalClientConfFromIni :: "'f ini_lib \<Rightarrow> string \<Rightarrow> string \<Rightarrow> (string, ClientCommonConf) result" where
  "UnmarshalClientConfFromIni lib http_proxy source =
     (case iLoad lib source of
        Inl e \<Rightarrow> Inl e
      | Inr f \<Rightarrow>
          if ''common'' \<notin> set (iSections lib f) then Inl ''invalid configuration file, not found [common] section''
          else (case iCommonMapTo lib f (GetDefaultClientCommonConf http_proxy) of
                  Inl e \<Rightarrow> Inl e
                | Inr common \<Rightarrow>
                    (let hash = iKeysHash lib f ''common''; a = clAuth common
                     in Inr (common\<lparr>clMetas := GetMapWithoutPrefix hash ''meta_'',
                               clAuth := a\<lparr>ccOidc := (ccOidc a)\<lparr>OidcAdditionalEndpointParams :=
                                 GetMapWithoutPrefix hash ''oidc_additional_''\<rparr>\<rparr>\<rparr>))))"

section \<open>Range sections\<close>

datatype load_error = LoadIni string | LoadTemplate string template_error | LoadProxy string config_error
  | LoadVisitor string string | LoadRole string
and template_error = PortsMissing | PortsSyntax range_error | PortsLength | PortsEmpty | TemplateIni string

fun copy_keys :: "'f ini_lib \<Rightarrow> (string \<times> string) list \<Rightarrow> string \<Rightarrow> 'f \<Rightarrow> 'f" where
  "copy_keys lib [] target f = f"
| "copy_keys lib ((key, v) # kvs) target f =
     copy_keys lib kvs target (case iNewKey lib target key v f of Inl _ \<Rightarrow> f | Inr f1 \<Rightarrow> f1)"

definition copySection :: "'f ini_lib \<Rightarrow> string \<Rightarrow> string \<Rightarrow> 'f \<Rightarrow> 'f" where
  "copySection lib source target f = copy_keys lib (iKeysHash lib f source) target f"

definition range_name :: "string \<Rightarrow> nat \<Rightarrow> string" where
  "range_name name i = TrimSpace (TrimPrefix name ''range:'') @ ''_'' @ Itoa (int i)"

text \<open>The loop over the ports, from index \<open>i\<close>.\<close>

fun render_ports :: "'f ini_lib \<Rightarrow> string \<Rightarrow> nat \<Rightarrow> (int \<times> int) list \<Rightarrow> 'f \<Rightarrow> (template_error, 'f) result" where
  "render_ports lib name i [] f = Inr f"
| "render_ports lib name i ((localPort, remotePort) # ports) f =
     (case iNewSection lib (range_name name i) f of
        Inl e \<Rightarrow> Inl (TemplateIni e)
      | Inr f1 \<Rightarrow>
          (case iNewKey lib (range_name name i) ''local_port'' (Itoa localPort) (copySection lib name (range_name name i) f1) of
             Inl e \<Rightarrow> Inl (TemplateIni e)
           | Inr f2 \<Rightarrow>
               (case iNewKey lib (range_name name i) ''remote_port'' (Itoa remotePort) f2 of
                  Inl e \<Rightarrow> Inl (TemplateIni e)
                | Inr f3 \<Rightarrow> render_ports lib name (Suc i) ports f3)))"

definition renderRangeProxyTemplates :: "'f ini_lib \<Rightarrow> string \<Rightarrow> 'f \<Rightarrow> (template_error, 'f) result option" where
  "renderRangeProxyTemplates lib name f =
     (if iKey lib f name ''local_port'' = [] \<or> iKey lib f name ''remote_port'' = [] then Some (Inl PortsMissing)
      else case ParseRangeNumbers (iKey lib f name ''local_port'') of
        None \<Rightarrow> None
      | Some (Inl e) \<Rightarrow> Some (Inl (PortsSyntax e))
      | Some (Inr localPorts) \<Rightarrow>
          (case ParseRangeNumbers (iKey lib f name ''remote_port'') of
             None \<Rightarrow> None
           | Some (Inl e) \<Rightarrow> Some (Inl (PortsSyntax e))
           | Some (Inr remotePorts) \<Rightarrow>
               if length localPorts \<noteq> length remotePorts then Some (Inl PortsLength)
               else if localPorts = [] then Some (Inl PortsEmpty)
               else Some (render_ports lib name 0 (zip localPorts remotePorts) f)))"

section \<open>All proxies and visitors of a file\<close>

fun render_all :: "'f ini_lib \<Rightarrow> string list \<Rightarrow> 'f \<Rightarrow> (load_error, 'f) result option" where
  "render_all lib [] f = Some (Inr f)"
| "render_all lib (name # names) f =
     (case renderRangeProxyTemplates lib name f of
        None \<Rightarrow> None
      | Some (Inl e) \<Rightarrow> Some (Inl (LoadTemplate name e))
      | Some (Inr f1) \<Rightarrow> render_all lib names f1)"

definition skipped :: "string list \<Rightarrow> string \<Rightarrow> bool" where
  "skipped start name \<longleftrightarrow> name = ''DEFAULT'' \<or> name = ''common'' \<or> HasPrefix name ''range:'' \<or> (start \<noteq> [] \<and> name \<notin> set start)"

type_synonym client_confs = "ProxyConf smap \<times> VisitorConf smap"

definition load_section :: "(string \<Rightarrow> int \<Rightarrow> int option) \<Rightarrow> 'f ini_lib \<Rightarrow> string \<Rightarrow> 'f \<Rightarrow> string \<Rightarrow> client_confs \<Rightarrow>
    (load_error, client_confs) result" where
  "load_section flt lib pre f name confs =
     (let role = (if iKey lib f name ''role'' = [] then ''server'' else iKey lib f name ''role'')
      in if role = ''server'' then
           (case NewProxyConfFromIni flt pre name (section_of lib f name) of
              Inl e \<Rightarrow> Inl (LoadProxy name e)
            | Inr conf \<Rightarrow> Inr ((fst confs)(pre @ name \<mapsto> conf), snd confs))
         else if role = ''visitor'' then
           (case NewVisitorConfFromIni pre name (iKey lib f name ''type'') (iVisitorMapTo lib f name) of
              Inl e \<Rightarrow> Inl (LoadVisitor name e)
            | Inr conf \<Rightarrow> Inr (fst confs, (snd confs)(pre @ name \<mapsto> conf)))
         else Inl (LoadRole name))"

fun load_sections :: "(string \<Rightarrow> int \<Rightarrow> int option) \<Rightarrow> 'f ini_lib \<Rightarrow> string \<Rightarrow> string list \<Rightarrow> 'f \<Rightarrow> string list \<Rightarrow> client_confs \<Rightarrow>
    (load_error, client_confs) result" where
  "load_sections flt lib pre start f [] confs = Inr confs"
| "load_sections flt lib pre start f (name # names) confs =
     (if skipped start name then load_sections flt lib pre start f names confs
      else case load_section flt lib pre f name confs of
        Inl e \<Rightarrow> Inl e
      | Inr confs1 \<Rightarrow> load_sections flt lib pre start f names confs1)"

definition LoadAllProxyConfsFromIni :: "(string \<Rightarrow> int \<Rightarrow> int option) \<Rightarrow> 'f ini_lib \<Rightarrow> string \<Rightarrow> string \<Rightarrow> string list \<Rightarrow>
    (load_error, client_confs) result option" where
  "LoadAllProxyConfsFromIni flt lib user source start =
     (case iLoad lib source of
        Inl e \<Rightarrow> Some (Inl (LoadIni e))
      | Inr f \<Rightarrow>
          (case render_all lib (filter (\<lambda>name. HasPrefix name ''range:'') (iSections lib f)) f of
             None \<Rightarrow> None
           | Some (Inl e) \<Rightarrow> Some (Inl e)
           | Some (Inr f1) \<Rightarrow>
               Some (load_sections flt lib (if user \<noteq> [] then user @ ''.'' else []) start f1 (iSections lib f1)
                       (Map.empty, Map.empty))))"

section \<open>The whole file\<close>

fun include_dir :: "file_system \<Rightarrow> string \<Rightarrow> string \<Rightarrow> (string \<times> bool) list \<Rightarrow> (string, string) result" where
  "include_dir fs absDir path [] = Inr []"
| "include_dir fs absDir path ((name, isDir) # files) =
     (if isDir \<or> \<not> fsMatch fs absDir path name then include_dir fs absDir path files
      else case fsRender fs absDir name of
        Inl e \<Rightarrow> Inl (''render extra config '' @ absDir @ ''/'' @ name @ '' error: '' @ e)
      | Inr content \<Rightarrow> map_sum id (\<lambda>rest. content @ [CHR 0x0A] @ rest) (include_dir fs absDir path files))"

text \<open>A directory that is missing ends the loop with the error of \<^verbatim>\<open>os.Stat\<close>.\<close>

fun getIncludeContents :: "file_system \<Rightarrow> string list \<Rightarrow> (string, string) result" where
  "getIncludeContents fs [] = Inr []"
| "getIncludeContents fs (path # paths) =
     (case fsAbsDir fs path of
        Inl e \<Rightarrow> Inl e
      | Inr absDir \<Rightarrow>
          if fsMissing fs absDir then Inl (''stat '' @ absDir)
          else (case fsReadDir fs absDir of
                  Inl e \<Rightarrow> Inl e
                | Inr files \<Rightarrow>
                    (case include_dir fs absDir path files of
                       Inl e \<Rightarrow> Inl e
                     | Inr content \<Rightarrow> map_sum id (\<lambda>rest. content @ rest) (getIncludeContents fs paths))))"

datatype parse_conf_error = ParseCommon string | ParseValidate string | ParseInclude string | ParseLoad load_error

definition ParseClientConfig :: "(string \<Rightarrow> int \<Rightarrow> int option) \<Rightarrow> 'f ini_lib \<Rightarrow> file_system \<Rightarrow> string \<Rightarrow> string \<Rightarrow>
    (parse_conf_error, ClientCommonConf \<times> client_confs) result option" where
  "ParseClientConfig flt lib fs http_proxy fileContent =
     (case UnmarshalClientConfFromIni lib http_proxy fileContent of
        Inl e \<Rightarrow> Some (Inl (ParseCommon e))
      | Inr cfg0 \<Rightarrow>
          (let cfg = Client_Complete cfg0
           in case Client_Validate fs cfg of
                Some e \<Rightarrow> Some (Inl (ParseValidate e))
              | None \<Rightarrow>
                  (case getIncludeContents fs (clIncludeConfigFiles cfg) of
                     Inl e \<Rightarrow> Some (Inl (ParseInclude e))
                   | Inr buf \<Rightarrow>
                       map_option (map_sum ParseLoad (\<lambda>confs. (cfg, confs)))
                         (LoadAllProxyConfsFromIni flt lib (clUser cfg) (fileContent @ [CHR 0x0A] @ buf) (clStart cfg)))))"

section \<open>What the ini library promises\<close>

text \<open>Sections and keys are unique and named; the text of a key is its value, unless it holds a reference to another
  key; creating a section or a key that exists keeps it in its place, and a key then has the new value. Nothing else
  changes.\<close>

definition ini_ok :: "'f ini_lib \<Rightarrow> bool" where
  "ini_ok lib \<longleftrightarrow>
     (\<forall>f. distinct (iSections lib f)) \<and>
     (\<forall>f s. distinct (map fst (iKeysHash lib f s)) \<and> [] \<notin> fst ` set (iKeysHash lib f s)) \<and>
     (\<forall>f s k v. map_of (iKeysHash lib f s) k = Some v \<and> CHR ''%'' \<notin> set v \<longrightarrow> iKey lib f s k = v) \<and>
     (\<forall>s f. s \<noteq> [] \<longrightarrow> (\<exists>f'. iNewSection lib s f = Inr f' \<and>
        iSections lib f' = (if s \<in> set (iSections lib f) then iSections lib f else iSections lib f @ [s]) \<and>
        (\<forall>t. map_of (iKeysHash lib f' t) = map_of (iKeysHash lib f t)))) \<and>
     (\<forall>s k v f. s \<in> set (iSections lib f) \<and> k \<noteq> [] \<longrightarrow> (\<exists>f'. iNewKey lib s k v f = Inr f' \<and>
        iSections lib f' = iSections lib f \<and> map_of (iKeysHash lib f' s) = (map_of (iKeysHash lib f s))(k \<mapsto> v) \<and>
        (\<forall>t. t \<noteq> s \<longrightarrow> map_of (iKeysHash lib f' t) = map_of (iKeysHash lib f t))))"

lemma ini_okD:
  assumes "ini_ok lib"
  shows "distinct (iSections lib f)" "distinct (map fst (iKeysHash lib f s))" "[] \<notin> fst ` set (iKeysHash lib f s)"
    "map_of (iKeysHash lib f s) k = Some v \<Longrightarrow> CHR ''%'' \<notin> set v \<Longrightarrow> iKey lib f s k = v"
    "s \<noteq> [] \<Longrightarrow> \<exists>f'. iNewSection lib s f = Inr f' \<and>
        iSections lib f' = (if s \<in> set (iSections lib f) then iSections lib f else iSections lib f @ [s]) \<and>
        (\<forall>t. map_of (iKeysHash lib f' t) = map_of (iKeysHash lib f t))"
    "s \<in> set (iSections lib f) \<Longrightarrow> k \<noteq> [] \<Longrightarrow> \<exists>f'. iNewKey lib s k v f = Inr f' \<and>
        iSections lib f' = iSections lib f \<and> map_of (iKeysHash lib f' s) = (map_of (iKeysHash lib f s))(k \<mapsto> v) \<and>
        (\<forall>t. t \<noteq> s \<longrightarrow> map_of (iKeysHash lib f' t) = map_of (iKeysHash lib f t))"
proof -
  note D = assms [unfolded ini_ok_def]
  show "distinct (iSections lib f)" "distinct (map fst (iKeysHash lib f s))" "[] \<notin> fst ` set (iKeysHash lib f s)"
    using D by simp_all
  show "map_of (iKeysHash lib f s) k = Some v \<Longrightarrow> CHR ''%'' \<notin> set v \<Longrightarrow> iKey lib f s k = v"
    by (rule D [THEN conjunct2, THEN conjunct2, THEN conjunct1, rule_format]) simp
  show "s \<noteq> [] \<Longrightarrow> \<exists>f'. iNewSection lib s f = Inr f' \<and>
        iSections lib f' = (if s \<in> set (iSections lib f) then iSections lib f else iSections lib f @ [s]) \<and>
        (\<forall>t. map_of (iKeysHash lib f' t) = map_of (iKeysHash lib f t))"
    by (rule D [THEN conjunct2, THEN conjunct2, THEN conjunct2, THEN conjunct1, rule_format])
  show "s \<in> set (iSections lib f) \<Longrightarrow> k \<noteq> [] \<Longrightarrow> \<exists>f'. iNewKey lib s k v f = Inr f' \<and>
        iSections lib f' = iSections lib f \<and> map_of (iKeysHash lib f' s) = (map_of (iKeysHash lib f s))(k \<mapsto> v) \<and>
        (\<forall>t. t \<noteq> s \<longrightarrow> map_of (iKeysHash lib f' t) = map_of (iKeysHash lib f t))"
    by (rule D [THEN conjunct2, THEN conjunct2, THEN conjunct2, THEN conjunct2, rule_format]) simp
qed

section \<open>Expansion of ranges\<close>

lemma copy_keys_ok:
  assumes lib: "ini_ok lib"
  shows "target \<in> set (iSections lib f) \<Longrightarrow> distinct (map fst kvs) \<Longrightarrow> [] \<notin> fst ` set kvs \<Longrightarrow>
    iSections lib (copy_keys lib kvs target f) = iSections lib f \<and>
    map_of (iKeysHash lib (copy_keys lib kvs target f) target) = map_of (iKeysHash lib f target) ++ map_of kvs \<and>
    (\<forall>t. t \<noteq> target \<longrightarrow> map_of (iKeysHash lib (copy_keys lib kvs target f) t) = map_of (iKeysHash lib f t))"
proof (induction kvs arbitrary: f)
  case (Cons kv kvs)
  obtain k v where kv: "kv = (k, v)" by (cases kv)
  from Cons.prems kv have "k \<noteq> []" by auto
  from ini_okD(6) [OF lib Cons.prems(1) this, of v] obtain f1 where f1: "iNewKey lib target k v f = Inr f1"
    "iSections lib f1 = iSections lib f" "map_of (iKeysHash lib f1 target) = (map_of (iKeysHash lib f target))(k \<mapsto> v)"
    "\<forall>t. t \<noteq> target \<longrightarrow> map_of (iKeysHash lib f1 t) = map_of (iKeysHash lib f t)" by blast
  have "k \<notin> dom (map_of kvs)" using Cons.prems kv by (auto simp: dom_map_of_conv_image_fst)
  then have "(map_of (iKeysHash lib f target))(k \<mapsto> v) ++ map_of kvs = map_of (iKeysHash lib f target) ++ map_of ((k, v) # kvs)"
    by (simp add: map_add_upd_left)
  moreover have "target \<in> set (iSections lib f1)" "distinct (map fst kvs)" "[] \<notin> fst ` set kvs"
    using Cons.prems f1(2) by auto
  note Cons.IH [OF this]
  moreover have "copy_keys lib (kv # kvs) target f = copy_keys lib kvs target f1" using f1(1) kv by simp
  ultimately show ?case using f1(2-4) unfolding kv by metis
qed simp

lemma Itoa_nat_inj: "Itoa (int i) = Itoa (int j) \<longleftrightarrow> i = j"
proof -
  have "Itoa (int n) = nat_digits n" for n by (simp add: Itoa_def)
  then show ?thesis by (metis digits_val_nat_digits option.inject)
qed

lemma range_name_inj: "range_name name i = range_name name j \<longleftrightarrow> i = j"
  by (simp add: range_name_def Itoa_nat_inj)

lemma Count_le_TrimSpace: "count_list (TrimSpace s) c \<le> count_list s c"
proof -
  have "count_list (dropWhile P xs) c \<le> count_list xs c" for P xs by (induction xs) auto
  from this [of is_space "rev (dropWhile is_space s)"] this [of is_space s] show ?thesis
    by (simp add: TrimSpace_def)
qed

text \<open>A section made from a range is never that range: it has a colon less.\<close>

lemma range_name_neq: "HasPrefix name ''range:'' \<Longrightarrow> range_name name i \<noteq> name"
proof
  assume "HasPrefix name ''range:''" and eq: "range_name name i = name"
  then obtain rest where rest: "name = ''range:'' @ rest"
    by (metis HasPrefix_def append_take_drop_id)
  have "CHR '':'' \<notin> set (Itoa (int i))" by (simp add: Itoa_no_char)
  then have "count_list (range_name name i) (CHR '':'') = count_list (TrimSpace rest) (CHR '':'')"
    by (simp add: range_name_def TrimPrefix_def rest HasPrefix_def count_list_0_iff)
  also have "\<dots> \<le> count_list rest (CHR '':'')" by (rule Count_le_TrimSpace)
  also have "\<dots> < count_list name (CHR '':'')" by (simp add: rest)
  finally show False using eq by simp
qed

text \<open>The keys of the section for one pair of ports: those it had, those of the range, and the ports.\<close>

definition range_keys :: "'f ini_lib \<Rightarrow> 'f \<Rightarrow> string \<Rightarrow> nat \<Rightarrow> int \<times> int \<Rightarrow> string smap" where
  "range_keys lib f name i ports =
     (map_of (iKeysHash lib f (range_name name i)) ++ map_of (iKeysHash lib f name))
       (''local_port'' \<mapsto> Itoa (fst ports), ''remote_port'' \<mapsto> Itoa (snd ports))"

lemma render_one:
  assumes lib: "ini_ok lib" and name: "HasPrefix name ''range:''"
  shows "\<exists>f'. render_ports lib name i ((lp, rp) # ports) f = render_ports lib name (Suc i) ports f' \<and>
    iSections lib f' = (if range_name name i \<in> set (iSections lib f) then iSections lib f else iSections lib f @ [range_name name i]) \<and>
    map_of (iKeysHash lib f' (range_name name i)) = range_keys lib f name i (lp, rp) \<and>
    (\<forall>t. t \<noteq> range_name name i \<longrightarrow> map_of (iKeysHash lib f' t) = map_of (iKeysHash lib f t))"
proof -
  let ?n = "range_name name i"
  have "?n \<noteq> []" by (simp add: range_name_def)
  from ini_okD(5) [OF lib this, of f] obtain f1 where f1: "iNewSection lib ?n f = Inr f1"
    "iSections lib f1 = (if ?n \<in> set (iSections lib f) then iSections lib f else iSections lib f @ [?n])"
    "\<forall>t. map_of (iKeysHash lib f1 t) = map_of (iKeysHash lib f t)" by blast
  have in1: "?n \<in> set (iSections lib f1)" using f1(2) by simp
  define fc where "fc = copySection lib name ?n f1"
  note C = copy_keys_ok [OF lib in1 ini_okD(2,3) [OF lib, of f1 name], folded copySection_def, folded fc_def]
  have inc: "?n \<in> set (iSections lib fc)" using C in1 by simp
  from ini_okD(6) [OF lib inc, of "''local_port''" "Itoa lp"] obtain f2 where f2: "iNewKey lib ?n ''local_port'' (Itoa lp) fc = Inr f2"
    "iSections lib f2 = iSections lib fc" "map_of (iKeysHash lib f2 ?n) = (map_of (iKeysHash lib fc ?n))(''local_port'' \<mapsto> Itoa lp)"
    "\<forall>t. t \<noteq> ?n \<longrightarrow> map_of (iKeysHash lib f2 t) = map_of (iKeysHash lib fc t)" by auto
  from ini_okD(6) [OF lib, of ?n f2 "''remote_port''" "Itoa rp"] inc f2(2) obtain f3 where f3:
    "iNewKey lib ?n ''remote_port'' (Itoa rp) f2 = Inr f3"
    "iSections lib f3 = iSections lib f2" "map_of (iKeysHash lib f3 ?n) = (map_of (iKeysHash lib f2 ?n))(''remote_port'' \<mapsto> Itoa rp)"
    "\<forall>t. t \<noteq> ?n \<longrightarrow> map_of (iKeysHash lib f3 t) = map_of (iKeysHash lib f2 t)" by auto
  show ?thesis
  proof (intro exI [of _ f3] conjI)
    show "render_ports lib name i ((lp, rp) # ports) f = render_ports lib name (Suc i) ports f3"
      using f1(1) f2(1) f3(1) by (simp add: fc_def)
    show "iSections lib f3 = (if ?n \<in> set (iSections lib f) then iSections lib f else iSections lib f @ [?n])"
      using f1(2) f2(2) f3(2) C by (simp only:)
    show "map_of (iKeysHash lib f3 ?n) = range_keys lib f name i (lp, rp)"
      using f1(3) f2(3) f3(3) C by (simp add: range_keys_def)
    show "\<forall>t. t \<noteq> ?n \<longrightarrow> map_of (iKeysHash lib f3 t) = map_of (iKeysHash lib f t)"
      using f1(3) f2(4) f3(4) C by (simp only:) simp
  qed
qed

lemma render_ports_ok:
  assumes lib: "ini_ok lib" and name: "HasPrefix name ''range:''"
  shows "\<exists>f'. render_ports lib name i ports f = Inr f' \<and>
    iSections lib f' = iSections lib f @ filter (\<lambda>s. s \<notin> set (iSections lib f)) (map (range_name name) [i..<i + length ports]) \<and>
    (\<forall>j < length ports. map_of (iKeysHash lib f' (range_name name (i + j))) = range_keys lib f name (i + j) (ports ! j)) \<and>
    (\<forall>t. t \<notin> range_name name ` {i..<i + length ports} \<longrightarrow> map_of (iKeysHash lib f' t) = map_of (iKeysHash lib f t))"
proof (induction ports arbitrary: i f)
  case (Cons p ports)
  obtain lp rp where p: "p = (lp, rp)" by (cases p)
  let ?n = "range_name name i"
  from render_one [OF lib name, of i lp rp ports f] obtain f1 where f1:
    "render_ports lib name i (p # ports) f = render_ports lib name (Suc i) ports f1"
    "iSections lib f1 = (if ?n \<in> set (iSections lib f) then iSections lib f else iSections lib f @ [?n])"
    "map_of (iKeysHash lib f1 ?n) = range_keys lib f name i p"
    "\<forall>t. t \<noteq> ?n \<longrightarrow> map_of (iKeysHash lib f1 t) = map_of (iKeysHash lib f t)" unfolding p by blast
  from Cons.IH [of "Suc i" f1] obtain f' where f': "render_ports lib name (Suc i) ports f1 = Inr f'"
    "iSections lib f' = iSections lib f1 @ filter (\<lambda>s. s \<notin> set (iSections lib f1)) (map (range_name name) [Suc i..<Suc i + length ports])"
    "\<forall>j < length ports. map_of (iKeysHash lib f' (range_name name (Suc i + j))) = range_keys lib f1 name (Suc i + j) (ports ! j)"
    "\<forall>t. t \<notin> range_name name ` {Suc i..<Suc i + length ports} \<longrightarrow> map_of (iKeysHash lib f' t) = map_of (iKeysHash lib f1 t)"
    by blast
  have "?n \<notin> range_name name ` {Suc i..<Suc i + length ports}" by (auto simp: range_name_inj)
  with f'(4) have same: "map_of (iKeysHash lib f' ?n) = map_of (iKeysHash lib f1 ?n)" by blast
  have keys: "range_keys lib f1 name j q = range_keys lib f name j q" if "j \<noteq> i" for j q
    using f1(4) that range_name_neq [OF name, of i] by (simp add: range_keys_def range_name_inj)
  show ?case
  proof (intro exI [of _ f'] conjI allI impI)
    show "render_ports lib name i (p # ports) f = Inr f'" using f1(1) f'(1) by simp
    show "iSections lib f' = iSections lib f @ filter (\<lambda>s. s \<notin> set (iSections lib f)) (map (range_name name) [i..<i + length (p # ports)])"
    proof -
      have "[i..<i + length (p # ports)] = i # [Suc i..<Suc i + length ports]" by (simp add: upt_conv_Cons del: upt_Suc)
      moreover have "filter (\<lambda>s. s \<notin> set (iSections lib f1)) (map (range_name name) [Suc i..<Suc i + length ports]) =
          filter (\<lambda>s. s \<notin> set (iSections lib f)) (map (range_name name) [Suc i..<Suc i + length ports])"
        by (rule filter_cong) (auto simp: f1(2) range_name_inj)
      ultimately show ?thesis using f'(2) f1(2) by simp
    qed
    show "map_of (iKeysHash lib f' (range_name name (i + j))) = range_keys lib f name (i + j) ((p # ports) ! j)"
      if "j < length (p # ports)" for j
      using that f'(3) same f1(3) keys by (cases j) auto
    show "map_of (iKeysHash lib f' t) = map_of (iKeysHash lib f t)" if "t \<notin> range_name name ` {i..<i + length (p # ports)}" for t
    proof -
      have "t \<noteq> ?n" "t \<notin> range_name name ` {Suc i..<Suc i + length ports}" using that by auto
      with f'(4) f1(4) show ?thesis by metis
    qed
  qed
qed auto

lemma Itoa_no_percent: "CHR ''%'' \<notin> set (Itoa i)"
  by (auto simp: Itoa_def dest: nat_digits_range)

text \<open>C17: a section \<^verbatim>\<open>[range:x]\<close> whose local and remote ports are two lists of the same length is replaced by
  sections \<^verbatim>\<open>x_0\<close>, \<^verbatim>\<open>x_1\<close>, ..., one for each pair of ports in order: each has the ports of its pair and all other keys
  of the range (and of a section of that name that was already there). The other sections stay as they are.\<close>

theorem range_section_expands:
  assumes "ini_ok lib" "HasPrefix name ''range:''"
    and "ParseRangeNumbers (iKey lib f name ''local_port'') = Some (Inr ls)"
    and "ParseRangeNumbers (iKey lib f name ''remote_port'') = Some (Inr rs)" "length ls = length rs" "ls \<noteq> []"
  shows "\<exists>f'. renderRangeProxyTemplates lib name f = Some (Inr f') \<and>
    iSections lib f' = iSections lib f @ filter (\<lambda>s. s \<notin> set (iSections lib f)) (map (range_name name) [0..<length ls]) \<and>
    (\<forall>i < length ls. iKey lib f' (range_name name i) ''local_port'' = Itoa (ls ! i) \<and>
       iKey lib f' (range_name name i) ''remote_port'' = Itoa (rs ! i) \<and>
       (\<forall>k. k \<noteq> ''local_port'' \<and> k \<noteq> ''remote_port'' \<longrightarrow> map_of (iKeysHash lib f' (range_name name i)) k =
          (map_of (iKeysHash lib f (range_name name i)) ++ map_of (iKeysHash lib f name)) k)) \<and>
    (\<forall>t. t \<notin> range_name name ` {..<length ls} \<longrightarrow> map_of (iKeysHash lib f' t) = map_of (iKeysHash lib f t))"
proof -
  have ne: "iKey lib f name ''local_port'' \<noteq> []" "iKey lib f name ''remote_port'' \<noteq> []"
    using assms(3,4) ParseRangeNumbers_Nil by metis+
  from render_ports_ok [OF assms(1,2), of 0 "zip ls rs" f] obtain f' where f': "render_ports lib name 0 (zip ls rs) f = Inr f'"
    "iSections lib f' = iSections lib f @ filter (\<lambda>s. s \<notin> set (iSections lib f)) (map (range_name name) [0..<length ls])"
    "\<forall>j < length ls. map_of (iKeysHash lib f' (range_name name j)) = range_keys lib f name j (ls ! j, rs ! j)"
    "\<forall>t. t \<notin> range_name name ` {..<length ls} \<longrightarrow> map_of (iKeysHash lib f' t) = map_of (iKeysHash lib f t)"
    using assms(5) by (auto simp: atLeast0LessThan)
  have "renderRangeProxyTemplates lib name f = Some (Inr f')"
    using ne assms(3-6) f'(1) by (simp add: renderRangeProxyTemplates_def)
  moreover have "iKey lib f' (range_name name i) ''local_port'' = Itoa (ls ! i)" "iKey lib f' (range_name name i) ''remote_port'' = Itoa (rs ! i)"
    if "i < length ls" for i
    using f'(3) that by (auto intro!: ini_okD(4) [OF assms(1)] simp: range_keys_def Itoa_no_percent)
  ultimately show ?thesis using f'(2-4) by (intro exI [of _ f']) (simp add: range_keys_def)
qed

section \<open>Loading a file\<close>

definition server_role :: "'f ini_lib \<Rightarrow> 'f \<Rightarrow> string \<Rightarrow> bool" where
  "server_role lib f s \<longleftrightarrow> iKey lib f s ''role'' \<in> {[], ''server''}"

lemma load_section_Inr:
  assumes "load_section flt lib pre f name confs = Inr confs'"
  shows "(server_role lib f name \<and> (\<exists>c. NewProxyConfFromIni flt pre name (section_of lib f name) = Inr c \<and>
      confs' = ((fst confs)(pre @ name \<mapsto> c), snd confs))) \<or>
    (iKey lib f name ''role'' = ''visitor'' \<and>
      (\<exists>c. NewVisitorConfFromIni pre name (iKey lib f name ''type'') (iVisitorMapTo lib f name) = Inr c \<and>
        confs' = (fst confs, (snd confs)(pre @ name \<mapsto> c))))"
  using assms by (auto simp: load_section_def server_role_def Let_def split: if_splits sum.splits)

text \<open>The entry that a section contributes to the proxies and to the visitors.\<close>

definition proxy_entry :: "(string \<Rightarrow> int \<Rightarrow> int option) \<Rightarrow> 'f ini_lib \<Rightarrow> string \<Rightarrow> string list \<Rightarrow> 'f \<Rightarrow> string \<Rightarrow> ProxyConf \<Rightarrow> bool" where
  "proxy_entry flt lib pre start f s c \<longleftrightarrow> \<not> skipped start s \<and> server_role lib f s \<and>
     NewProxyConfFromIni flt pre s (section_of lib f s) = Inr c"

definition visitor_entry :: "'f ini_lib \<Rightarrow> string \<Rightarrow> string list \<Rightarrow> 'f \<Rightarrow> string \<Rightarrow> VisitorConf \<Rightarrow> bool" where
  "visitor_entry lib pre start f s c \<longleftrightarrow> \<not> skipped start s \<and> iKey lib f s ''role'' = ''visitor'' \<and>
     NewVisitorConfFromIni pre s (iKey lib f s ''type'') (iVisitorMapTo lib f s) = Inr c"

lemma load_sections_cases:
  assumes "load_sections flt lib pre start f (name # names) confs = Inr confs'"
  obtains (skip) "skipped start name" "load_sections flt lib pre start f names confs = Inr confs'"
  | (proxy) c where "proxy_entry flt lib pre start f name c"
      "load_sections flt lib pre start f names ((fst confs)(pre @ name \<mapsto> c), snd confs) = Inr confs'"
  | (visitor) c where "visitor_entry lib pre start f name c"
      "load_sections flt lib pre start f names (fst confs, (snd confs)(pre @ name \<mapsto> c)) = Inr confs'"
proof (cases "skipped start name")
  case False
  with assms obtain confs1 where "load_section flt lib pre f name confs = Inr confs1"
    "load_sections flt lib pre start f names confs1 = Inr confs'" by (auto split: sum.splits)
  with load_section_Inr [of flt lib pre f name confs confs1] False proxy visitor show ?thesis
    by (auto simp: proxy_entry_def visitor_entry_def)
qed (use assms skip in simp)

lemma load_sections_from:
  assumes "load_sections flt lib pre start f names confs = Inr confs'"
  shows "fst confs' n = Some c \<Longrightarrow> (\<exists>s \<in> set names. n = pre @ s \<and> proxy_entry flt lib pre start f s c) \<or> fst confs n = Some c"
    and "snd confs' n = Some v \<Longrightarrow> (\<exists>s \<in> set names. n = pre @ s \<and> visitor_entry lib pre start f s v) \<or> snd confs n = Some v"
  using assms
proof (induction names arbitrary: confs)
  case (Cons name names)
  { case 1
    from 1(2) show ?case using Cons.IH(1) [OF 1(1)]
      by (cases rule: load_sections_cases) (fastforce split: if_splits)+ }
  { case 2
    from 2(2) show ?case using Cons.IH(2) [OF 2(1)]
      by (cases rule: load_sections_cases) (fastforce split: if_splits)+ }
qed simp_all

lemma load_sections_keep:
  assumes "load_sections flt lib pre start f names confs = Inr confs'"
  shows "dom (fst confs) \<subseteq> dom (fst confs') \<and> dom (snd confs) \<subseteq> dom (snd confs')"
  using assms
proof (induction names arbitrary: confs)
  case (Cons name names)
  from Cons.prems show ?case using Cons.IH by (cases rule: load_sections_cases) fastforce+
qed simp

lemma load_sections_complete:
  assumes "load_sections flt lib pre start f names confs = Inr confs'" "s \<in> set names" "\<not> skipped start s"
  shows "(\<exists>c. proxy_entry flt lib pre start f s c) \<and> pre @ s \<in> dom (fst confs') \<or>
    (\<exists>c. visitor_entry lib pre start f s c) \<and> pre @ s \<in> dom (snd confs')"
  using assms
proof (induction names arbitrary: confs)
  case (Cons name names)
  from Cons.prems(1) show ?case
  proof (cases rule: load_sections_cases)
    case skip
    with Cons.prems(2,3) have "s \<in> set names" by auto
    from Cons.IH [OF skip(2) this Cons.prems(3)] show ?thesis .
  next
    case (proxy c)
    show ?thesis
    proof (cases "s = name")
      case True
      with proxy(1) load_sections_keep [OF proxy(2)] show ?thesis by auto
    qed (use Cons.IH [OF proxy(2)] Cons.prems(2,3) in simp)
  next
    case (visitor c)
    show ?thesis
    proof (cases "s = name")
      case True
      with visitor(1) load_sections_keep [OF visitor(2)] show ?thesis by auto
    qed (use Cons.IH [OF visitor(2)] Cons.prems(2,3) in simp)
  qed
qed simp

text \<open>C18: when a client's file is loaded, every section of the file with its ranges expanded that is to be started
  gives exactly one configuration, of a proxy or of a visitor according to its role, under the user's prefix and its
  name; there are no others, and no name is both.\<close>

theorem client_file_loaded:
  assumes "LoadAllProxyConfsFromIni flt lib user source start = Some (Inr (pcs, vcs))"
    and "pre = (if user \<noteq> [] then user @ ''.'' else [])"
  shows "\<exists>f0 f. iLoad lib source = Inr f0 \<and>
    render_all lib (filter (\<lambda>s. HasPrefix s ''range:'') (iSections lib f0)) f0 = Some (Inr f) \<and>
    (\<forall>n c. pcs n = Some c \<longleftrightarrow> (\<exists>s \<in> set (iSections lib f). n = pre @ s \<and> proxy_entry flt lib pre start f s c)) \<and>
    (\<forall>n c. vcs n = Some c \<longleftrightarrow> (\<exists>s \<in> set (iSections lib f). n = pre @ s \<and> visitor_entry lib pre start f s c)) \<and>
    {pre @ s |s. s \<in> set (iSections lib f) \<and> \<not> skipped start s} = dom pcs \<union> dom vcs \<and> dom pcs \<inter> dom vcs = {}"
proof -
  from assms obtain f0 f where f: "iLoad lib source = Inr f0"
    "render_all lib (filter (\<lambda>s. HasPrefix s ''range:'') (iSections lib f0)) f0 = Some (Inr f)"
    and ld: "load_sections flt lib pre start f (iSections lib f) (Map.empty, Map.empty) = Inr (pcs, vcs)"
    by (auto simp: LoadAllProxyConfsFromIni_def split: sum.splits option.splits)
  note from_file = load_sections_from [OF ld, simplified] and complete = load_sections_complete [OF ld, simplified]
  have excl: "\<not> (proxy_entry flt lib pre start f s c \<and> visitor_entry lib pre start f s v)" for s c v
    by (auto simp: proxy_entry_def visitor_entry_def server_role_def)
  have P: "pcs n = Some c \<longleftrightarrow> (\<exists>s \<in> set (iSections lib f). n = pre @ s \<and> proxy_entry flt lib pre start f s c)" for n c
  proof
    assume "\<exists>s \<in> set (iSections lib f). n = pre @ s \<and> proxy_entry flt lib pre start f s c"
    then obtain s where s: "s \<in> set (iSections lib f)" "n = pre @ s" "proxy_entry flt lib pre start f s c" by blast
    with complete [of s] excl obtain c' where c': "pcs n = Some c'" by (auto simp: proxy_entry_def)
    from from_file(1) [OF this] s(2,3) have "c' = c" by (auto simp: proxy_entry_def)
    with c' show "pcs n = Some c" by simp
  qed (rule from_file(1))
  have V: "vcs n = Some c \<longleftrightarrow> (\<exists>s \<in> set (iSections lib f). n = pre @ s \<and> visitor_entry lib pre start f s c)" for n c
  proof
    assume "\<exists>s \<in> set (iSections lib f). n = pre @ s \<and> visitor_entry lib pre start f s c"
    then obtain s where s: "s \<in> set (iSections lib f)" "n = pre @ s" "visitor_entry lib pre start f s c" by blast
    with complete [of s] excl obtain c' where c': "vcs n = Some c'" by (auto simp: visitor_entry_def)
    from from_file(2) [OF this] s(2,3) have "c' = c" by (auto simp: visitor_entry_def)
    with c' show "vcs n = Some c" by simp
  qed (rule from_file(2))
  have "dom pcs \<inter> dom vcs = {}"
  proof (rule equals0I)
    fix n assume "n \<in> dom pcs \<inter> dom vcs"
    then obtain c v where "pcs n = Some c" "vcs n = Some v" by auto
    with P [of n c] V [of n v] excl show False by auto
  qed
  moreover have "{pre @ s |s. s \<in> set (iSections lib f) \<and> \<not> skipped start s} = dom pcs \<union> dom vcs"
  proof
    show "{pre @ s |s. s \<in> set (iSections lib f) \<and> \<not> skipped start s} \<subseteq> dom pcs \<union> dom vcs" using complete by blast
    show "dom pcs \<union> dom vcs \<subseteq> {pre @ s |s. s \<in> set (iSections lib f) \<and> \<not> skipped start s}"
      using P V unfolding proxy_entry_def visitor_entry_def by blast
  qed
  ultimately show ?thesis using f P V by blast
qed

text \<open>An accepted visitor has a name with the user's prefix, an address and a port; the limits of the hole punching
  visitor are positive, so that the retry interval computed from them is defined.\<close>

lemma visitor_conf_valid:
  assumes "NewVisitorConfFromIni pre name ty mapTo = Inr conf"
  shows "vbProxyName (Visitor_GetBaseConfig conf) = pre @ name" "vbRole (Visitor_GetBaseConfig conf) = ''visitor''"
    "vbBindAddr (Visitor_GetBaseConfig conf) \<noteq> []" "vbBindPort (Visitor_GetBaseConfig conf) \<noteq> 0"
    "conf = XTCPVisitor x \<Longrightarrow> 0 < vxMaxRetriesAnHour x \<and> 0 < vxMinRetryInterval x \<and> 0 < vxFallbackTimeoutMs x \<and>
       vxProtocol x \<in> {''kcp'', ''quic''}"
proof -
  from assms obtain conf0 where u: "Visitor_UnmarshalFromIni pre name mapTo conf0 = Inr conf" and v: "Visitor_Validate conf = None"
    by (auto simp: NewVisitorConfFromIni_def split: if_splits option.splits sum.splits)
  show "vbProxyName (Visitor_GetBaseConfig conf) = pre @ name"
    using u by (auto simp: Visitor_UnmarshalFromIni_def BaseVisitor_unmarshalFromIni_def XTCPVisitor_defaults_def BaseVisitorConf.defs
        split: sum.splits VisitorConf.splits)
  show "vbRole (Visitor_GetBaseConfig conf) = ''visitor''" "vbBindAddr (Visitor_GetBaseConfig conf) \<noteq> []"
    "vbBindPort (Visitor_GetBaseConfig conf) \<noteq> 0"
    using v by (cases conf; auto simp: BaseVisitor_validate_def BaseVisitorConf.defs split: if_splits option.splits)+
  show "0 < vxMaxRetriesAnHour x \<and> 0 < vxMinRetryInterval x \<and> 0 < vxFallbackTimeoutMs x \<and> vxProtocol x \<in> {''kcp'', ''quic''}"
    if "conf = XTCPVisitor x"
  proof -
    from u that obtain c where c: "x = XTCPVisitor_defaults c"
      by (auto simp: Visitor_UnmarshalFromIni_def split: sum.splits VisitorConf.splits)
    have "vxProtocol x \<in> {[], ''kcp'', ''quic''}" using v that by (auto split: option.splits if_splits)
    then show ?thesis unfolding c by (auto simp: XTCPVisitor_defaults_def)
  qed
qed

section \<open>A reference ini library\<close>

text \<open>Files as association lists; a section is read without its nameless keys and without duplicates.\<close>

type_synonym ini_file = "(string \<times> (string \<times> string) list) list"

definition ini_raw :: "ini_file \<Rightarrow> string \<Rightarrow> (string \<times> string) list" where
  "ini_raw f s = (case map_of f s of None \<Rightarrow> [] | Some kvs \<Rightarrow> kvs)"

definition ini_keys :: "ini_file \<Rightarrow> string \<Rightarrow> (string \<times> string) list" where
  "ini_keys f s = AList.clearjunk (AList.restrict (- {[]}) (ini_raw f s))"

definition ini_text :: "ini_file \<Rightarrow> string \<Rightarrow> string \<Rightarrow> string" where
  "ini_text f s k = (case map_of (ini_keys f s) k of None \<Rightarrow> [] | Some v \<Rightarrow> v)"

text \<open>The mapping of sections to structures covers the fields the examples use.\<close>

definition ini_ref :: "ini_file \<Rightarrow> ini_file ini_lib" where
  "ini_ref file = \<lparr>iLoad = (\<lambda>_. Inr file), iSections = (\<lambda>f. remdups (map fst f)), iKey = ini_text, iKeysHash = ini_keys,
     iGetKey = (\<lambda>f s. map_of (ini_keys f s)),
     iNewSection = (\<lambda>s f. if s = [] then Inl ''empty section name'' else Inr (if s \<in> set (map fst f) then f else f @ [(s, [])])),
     iNewKey = (\<lambda>s k v f. if k = [] then Inl ''empty key name'' else Inr (AList.update s (AList.update k v (ini_raw f s)) f)),
     iCommonMapTo = (\<lambda>_. Inr),
     iProxyMapTo = (\<lambda>f s c. case c of
         TCPConf t \<Rightarrow> Inr (TCPConf (t\<lparr>bLocalSvrConf := (bLocalSvrConf t)\<lparr>LocalIP := ''127.0.0.1'', LocalPort := fst (ParseInt (ini_text f s ''local_port''))\<rparr>,
                                    tcRemotePort := fst (ParseInt (ini_text f s ''remote_port''))\<rparr>))
       | c \<Rightarrow> Inr c),
     iVisitorMapTo = (\<lambda>f s. Inr)\<rparr>"

lemma ini_keys_map: "map_of (ini_keys f s) = (map_of (ini_raw f s)) |` (- {[]})"
  by (simp add: ini_keys_def AList.restr_conv' map_of_clearjunk)

lemma ini_raw_update: "ini_raw (AList.update s kvs f) t = (if t = s then kvs else ini_raw f t)"
  by (simp add: ini_raw_def update_conv')

lemma remdups_snoc: "x \<notin> set xs \<Longrightarrow> remdups (xs @ [x]) = remdups xs @ [x]"
  by (induction xs) auto

lemma ini_ref_ok: "ini_ok (ini_ref file)"
  unfolding ini_ok_def
proof (intro conjI allI impI)
  show "distinct (iSections (ini_ref file) f)" for f by (simp add: ini_ref_def)
  show "distinct (map fst (iKeysHash (ini_ref file) f s))" for f s by (simp add: ini_ref_def ini_keys_def)
  show "[] \<notin> fst ` set (iKeysHash (ini_ref file) f s)" for f s
    using dom_map_of_conv_image_fst [of "ini_keys f s"] by (simp add: ini_ref_def ini_keys_map) (metis (no_types) ComplD IntD2 singletonI)
  show "iKey (ini_ref file) f s k = v" if "map_of (iKeysHash (ini_ref file) f s) k = Some v \<and> CHR ''%'' \<notin> set v" for f s k v
    using that by (simp add: ini_ref_def ini_text_def)
  show "\<exists>f'. iNewSection (ini_ref file) s f = Inr f' \<and>
      iSections (ini_ref file) f' = (if s \<in> set (iSections (ini_ref file) f) then iSections (ini_ref file) f else iSections (ini_ref file) f @ [s]) \<and>
      (\<forall>t. map_of (iKeysHash (ini_ref file) f' t) = map_of (iKeysHash (ini_ref file) f t))" if "s \<noteq> []" for s f
  proof (cases "s \<in> set (map fst f)")
    case True
    with that show ?thesis by (intro exI [of _ f]) (simp add: ini_ref_def)
  next
    case False
    then have "remdups (map fst (f @ [(s, [])])) = remdups (map fst f) @ [s]" using remdups_snoc [of s "map fst f"] by simp
    moreover have "ini_keys (f @ [(s, [])]) t = ini_keys f t" for t
      by (simp add: ini_keys_def ini_raw_def map_add_def split: option.split)
    ultimately show ?thesis using that False by (intro exI [of _ "f @ [(s, [])]"]) (simp add: ini_ref_def)
  qed
  show "\<exists>f'. iNewKey (ini_ref file) s k v f = Inr f' \<and> iSections (ini_ref file) f' = iSections (ini_ref file) f \<and>
      map_of (iKeysHash (ini_ref file) f' s) = (map_of (iKeysHash (ini_ref file) f s))(k \<mapsto> v) \<and>
      (\<forall>t. t \<noteq> s \<longrightarrow> map_of (iKeysHash (ini_ref file) f' t) = map_of (iKeysHash (ini_ref file) f t))"
    if "s \<in> set (iSections (ini_ref file) f) \<and> k \<noteq> []" for s k v f
    using that by (auto simp: ini_ref_def ini_keys_map ini_raw_update update_conv' update_keys restrict_map_def fun_eq_iff)
qed

section \<open>An example\<close>

definition range_file :: ini_file where
  "range_file = [(''common'', []), (''range:ssh'', [(''local_port'', ''22-23''), (''remote_port'', ''6000,7000''), (''meta_x'', ''1'')])]"

definition range_ini :: "ini_file ini_lib" where
  "range_ini = ini_ref range_file"

lemmas example_ini_defs = range_ini_def ini_ref_def ini_text_def ini_keys_def ini_raw_def AList.restrict_eq

lemma example_digits:
  "digit_char 0 = CHR ''0''" "digit_char 1 = CHR ''1''" "digit_char 2 = CHR ''2''" "digit_char 3 = CHR ''3''" "digit_char 6 = CHR ''6''"
  "digit_char 7 = CHR ''7''"
  by code_simp+

lemmas example_number_defs = Itoa_def nat_digits.simps example_digits example_digits(2) [folded One_nat_def, unfolded One_nat_def]

lemma range_ports:
  "ParseRangeNumbers (iKey range_ini range_file ''range:ssh'' ''local_port'') = Some (Inr [22, 23])"
  "ParseRangeNumbers (iKey range_ini range_file ''range:ssh'' ''remote_port'') = Some (Inr [6000, 7000])"
proof -
  have "Join (map render_item [Range 22 23]) '','' = ''22-23''" "Join (map render_item [Single 6000, Single 7000]) '','' = ''6000,7000''"
    by (simp_all add: example_number_defs)
  moreover have "iKey range_ini range_file ''range:ssh'' ''local_port'' = ''22-23''"
    "iKey range_ini range_file ''range:ssh'' ''remote_port'' = ''6000,7000''"
    by (simp_all add: example_ini_defs range_file_def)
  ultimately have "iKey range_ini range_file ''range:ssh'' ''local_port'' = Join (map render_item [Range 22 23]) '',''"
    "iKey range_ini range_file ''range:ssh'' ''remote_port'' = Join (map render_item [Single 6000, Single 7000]) '',''"
    by (simp_all only:)
  with ParseRangeNumbers_items [of "[Range 22 23]"] ParseRangeNumbers_items [of "[Single 6000, Single 7000]"]
  show "ParseRangeNumbers (iKey range_ini range_file ''range:ssh'' ''local_port'') = Some (Inr [22, 23])"
    "ParseRangeNumbers (iKey range_ini range_file ''range:ssh'' ''remote_port'') = Some (Inr [6000, 7000])"
    by (simp_all add: max_int64_def upto.simps)
qed

theorem range_section_expands_witness:
  "\<exists>f'. renderRangeProxyTemplates range_ini ''range:ssh'' range_file = Some (Inr f') \<and>
     iSections range_ini f' = [''common'', ''range:ssh'', ''ssh_0'', ''ssh_1''] \<and> iKey range_ini f' ''ssh_1'' ''remote_port'' = ''7000''"
proof -
  have names: "range_name ''range:ssh'' 0 = ''ssh_0''" "range_name ''range:ssh'' 1 = ''ssh_1''" "HasPrefix ''range:ssh'' ''range:''"
    "Itoa 7000 = ''7000''"
    by (simp_all add: example_number_defs range_name_def HasPrefix_def TrimPrefix_def TrimSpace_def is_space_def)
  have secs: "iSections range_ini range_file = [''common'', ''range:ssh'']" by (simp add: example_ini_defs range_file_def)
  have "length [22, 23 :: int] = length [6000, 7000 :: int]" "[22, 23 :: int] \<noteq> []" by simp_all
  from range_section_expands [OF ini_ref_ok names(3) range_ports [unfolded range_ini_def] this, folded range_ini_def]
  obtain f' where f': "renderRangeProxyTemplates range_ini ''range:ssh'' range_file = Some (Inr f')"
    "iSections range_ini f' = iSections range_ini range_file @
       filter (\<lambda>s. s \<notin> set (iSections range_ini range_file)) (map (range_name ''range:ssh'') [0..<length [22, 23 :: int]])"
    "\<forall>i < length [22, 23 :: int]. iKey range_ini f' (range_name ''range:ssh'' i) ''local_port'' = Itoa ([22, 23] ! i) \<and>
       iKey range_ini f' (range_name ''range:ssh'' i) ''remote_port'' = Itoa ([6000, 7000] ! i) \<and>
       (\<forall>k. k \<noteq> ''local_port'' \<and> k \<noteq> ''remote_port'' \<longrightarrow> map_of (iKeysHash range_ini f' (range_name ''range:ssh'' i)) k =
          (map_of (iKeysHash range_ini range_file (range_name ''range:ssh'' i)) ++ map_of (iKeysHash range_ini range_file ''range:ssh'')) k)"
    by (elim exE conjE) (rule that; assumption)
  have "iKey range_ini f' ''ssh_1'' ''remote_port'' = ''7000''" using f'(3) [rule_format, of 1] names by simp
  with f'(1,2) names secs show ?thesis by simp
qed

definition plain_file :: ini_file where
  "plain_file = [(''common'', []), (''ssh'', [(''local_port'', ''22''), (''remote_port'', ''6000'')])]"

lemma plain_file_loads:
  "case LoadAllProxyConfsFromIni (\<lambda>_ _. None) (ini_ref plain_file) ''alice'' [] [] of
     Some (Inr (pcs, vcs)) \<Rightarrow> True | _ \<Rightarrow> False"
  by code_simp

lemma case_loaded: "(case r of Some (Inr (p, v)) \<Rightarrow> True | _ \<Rightarrow> False) \<Longrightarrow> \<exists>p v. r = Some (Inr (p, v))"
  by (auto split: option.splits sum.splits)

theorem client_file_loaded_witness:
  "\<exists>pcs vcs. LoadAllProxyConfsFromIni (\<lambda>_ _. None) (ini_ref plain_file) ''alice'' [] [] = Some (Inr (pcs, vcs)) \<and>
     dom pcs \<union> dom vcs = {''alice.ssh''}"
proof -
  from case_loaded [OF plain_file_loads] obtain pcs vcs where
    l: "LoadAllProxyConfsFromIni (\<lambda>_ _. None) (ini_ref plain_file) ''alice'' [] [] = Some (Inr (pcs, vcs))" by blast
  from client_file_loaded [OF l refl] obtain f0 f where f: "iLoad (ini_ref plain_file) [] = Inr f0"
    "render_all (ini_ref plain_file) (filter (\<lambda>s. HasPrefix s ''range:'') (iSections (ini_ref plain_file) f0)) f0 = Some (Inr f)"
    "{(if ''alice'' \<noteq> [] then ''alice'' @ ''.'' else []) @ s |s. s \<in> set (iSections (ini_ref plain_file) f) \<and> \<not> skipped [] s} = dom pcs \<union> dom vcs"
    by (elim exE conjE) (rule that; assumption)
  from f(1) have "f0 = plain_file" by (simp add: ini_ref_def)
  with f(2) have "f = plain_file" by (simp add: ini_ref_def plain_file_def HasPrefix_def)
  then have "{s. s \<in> set (iSections (ini_ref plain_file) f) \<and> \<not> skipped [] s} = {''ssh''}"
    by (auto simp: ini_ref_def plain_file_def skipped_def HasPrefix_def)
  then have "{(if ''alice'' \<noteq> [] then ''alice'' @ ''.'' else []) @ s |s. s \<in> set (iSections (ini_ref plain_file) f) \<and> \<not> skipped [] s} = {''alice.ssh''}"
    by auto
  with f(3) l show ?thesis by auto
qed

end
