(* ===== verification/Client_Visitor.thy ===== *)
theory Client_Visitor
  imports Client_Config Server_Service
begin

text \<open>
  Model of \<^verbatim>\<open>client/visitor\<close>: the visitors of a client, which listen on a local port and hand each connection to a
  proxy of another client, and the manager that keeps them in step with the configuration. The answer of the operating
  system to binding an address is the parameter \<open>bind\<close> (\<open>None\<close> is success). A visitor that is taken out of the table
  is closed and appended to the list \<open>vmClosed\<close>. Panics are \<open>None\<close>. The tunnels of XTCP visitors are opened by hole punching, whose outcome is an
  input.
\<close>

section \<open>Visitors\<close>

record 'c client_visitor =
  cvConf :: VisitorConf
  cvListening :: bool
  cvInternal :: "'c InternalListener"

definition NewVisitor :: "VisitorConf \<Rightarrow> 'c client_visitor" where
  "NewVisitor cfg = \<lparr>cvConf = cfg, cvListening = False, cvInternal = NewInternalListener\<rparr>"

definition visitor_addr :: "'a BaseVisitorConf_scheme \<Rightarrow> string" where
  "visitor_addr c = JoinHostPort (vbBindAddr c) (Itoa (vbBindPort c))"

text \<open>STCP and XTCP visitors with a negative port only take connections from other visitors.\<close>

definition run_tcp :: "(string \<Rightarrow> string \<Rightarrow> string option) \<Rightarrow> 'a BaseVisitorConf_scheme \<Rightarrow> 'c client_visitor \<Rightarrow>
    string option \<times> 'c client_visitor" where
  "run_tcp bind c v =
     (if vbBindPort c > 0 then
        (case bind ''tcp'' (visitor_addr c) of Some e \<Rightarrow> (Some e, v) | None \<Rightarrow> (None, v\<lparr>cvListening := True\<rparr>))
      else (None, v))"

text \<open>With \<^verbatim>\<open>keep_tunnel_open\<close> the interval between retries is an hour divided by their number, which panics for zero.\<close>

definition Visitor_Run :: "(string \<Rightarrow> string \<Rightarrow> string option) \<Rightarrow> 'c client_visitor \<Rightarrow> (string option \<times> 'c client_visitor) option" where
  "Visitor_Run bind v =
     (case cvConf v of
        STCPVisitorConf c \<Rightarrow> Some (run_tcp bind c v)
      | XTCPVisitor c \<Rightarrow>
          (case run_tcp bind c v of
             (Some e, v1) \<Rightarrow> Some (Some e, v1)
           | (None, v1) \<Rightarrow> if vxKeepTunnelOpen c \<and> vxMaxRetriesAnHour c = 0 then None else Some (None, v1))
      | SUDPVisitorConf c \<Rightarrow>
          Some (case bind ''udp'' (visitor_addr c) of Some e \<Rightarrow> (Some e, v) | None \<Rightarrow> (None, v\<lparr>cvListening := True\<rparr>)))"

definition Visitor_AcceptConn :: "'c \<Rightarrow> 'c client_visitor \<Rightarrow> string option \<times> 'c client_visitor \<times> 'c option" where
  "Visitor_AcceptConn conn v = (case PutConn conn (cvInternal v) of (e, l, dropped) \<Rightarrow> (e, v\<lparr>cvInternal := l\<rparr>, dropped))"

definition Visitor_Close :: "'c client_visitor \<Rightarrow> 'c client_visitor" where
  "Visitor_Close v = v\<lparr>cvListening := False, cvInternal := InternalListener_Close (cvInternal v)\<rparr>"

section \<open>The manager\<close>

record 'c visitor_manager =
  vmCfgs :: "VisitorConf smap"
  vmVisitors :: "'c client_visitor smap"
  vmClosed :: "'c client_visitor list"
  vmStopped :: bool

definition NewVisitorMgr :: "'c visitor_manager" where
  "NewVisitorMgr = \<lparr>vmCfgs = Map.empty, vmVisitors = Map.empty, vmClosed = [], vmStopped = False\<rparr>"

definition startVisitor :: "(string \<Rightarrow> string \<Rightarrow> string option) \<Rightarrow> VisitorConf \<Rightarrow> 'c visitor_manager \<Rightarrow> 'c visitor_manager option" where
  "startVisitor bind cfg m =
     (case Visitor_Run bind (NewVisitor cfg) of
        None \<Rightarrow> None
      | Some (Some e, _) \<Rightarrow> Some m
      | Some (None, v) \<Rightarrow> Some (m\<lparr>vmVisitors := (vmVisitors m)(vbProxyName (Visitor_GetBaseConfig cfg) \<mapsto> v)\<rparr>))"

text \<open>One tick of \<^verbatim>\<open>Run\<close> over the configurations in the order \<open>names\<close>.\<close>

fun VisitorMgr_tick :: "(string \<Rightarrow> string \<Rightarrow> string option) \<Rightarrow> string list \<Rightarrow> 'c visitor_manager \<Rightarrow> 'c visitor_manager option" where
  "VisitorMgr_tick bind [] m = Some m"
| "VisitorMgr_tick bind (n # names) m =
     (case vmCfgs m n of
        None \<Rightarrow> VisitorMgr_tick bind names m
      | Some cfg \<Rightarrow>
          if vmVisitors m (vbProxyName (Visitor_GetBaseConfig cfg)) \<noteq> None then VisitorMgr_tick bind names m
          else (case startVisitor bind cfg m of None \<Rightarrow> None | Some m1 \<Rightarrow> VisitorMgr_tick bind names m1))"

text \<open>Closed visitors stay in the table.\<close>

definition VisitorMgr_Close :: "'c visitor_manager \<Rightarrow> 'c visitor_manager" where
  "VisitorMgr_Close m = m\<lparr>vmVisitors := map_option Visitor_Close \<circ> vmVisitors m, vmStopped := True\<rparr>"

definition drop_visitor :: "VisitorConf smap \<Rightarrow> string \<Rightarrow> 'c visitor_manager \<Rightarrow> 'c visitor_manager" where
  "drop_visitor cfgs n m =
     (if vmCfgs m n = None \<or> cfgs n = vmCfgs m n then m
      else m\<lparr>vmCfgs := (vmCfgs m)(n := None), vmVisitors := (vmVisitors m)(n := None),
             vmClosed := vmClosed m @ (case vmVisitors m n of None \<Rightarrow> [] | Some v \<Rightarrow> [Visitor_Close v])\<rparr>)"

fun add_visitors :: "(string \<Rightarrow> string \<Rightarrow> string option) \<Rightarrow> VisitorConf smap \<Rightarrow> string list \<Rightarrow> 'c visitor_manager \<Rightarrow> 'c visitor_manager option" where
  "add_visitors bind cfgs [] m = Some m"
| "add_visitors bind cfgs (n # names) m =
     (case cfgs n of
        None \<Rightarrow> add_visitors bind cfgs names m
      | Some cfg \<Rightarrow>
          if vmCfgs m n \<noteq> None then add_visitors bind cfgs names m
          else (case startVisitor bind cfg (m\<lparr>vmCfgs := (vmCfgs m)(n \<mapsto> cfg)\<rparr>) of
                  None \<Rightarrow> None
                | Some m1 \<Rightarrow> add_visitors bind cfgs names m1))"

text \<open>\<open>old\<close> and \<open>new\<close> are the orders in which the two maps are iterated.\<close>

definition VisitorMgr_Reload :: "(string \<Rightarrow> string \<Rightarrow> string option) \<Rightarrow> string list \<Rightarrow> string list \<Rightarrow> VisitorConf smap \<Rightarrow>
    'c visitor_manager \<Rightarrow> 'c visitor_manager option" where
  "VisitorMgr_Reload bind old new cfgs m = add_visitors bind cfgs new (fold (drop_visitor cfgs) old m)"

definition TransferConn :: "string \<Rightarrow> 'c \<Rightarrow> 'c visitor_manager \<Rightarrow> string option \<times> 'c visitor_manager \<times> 'c option" where
  "TransferConn name conn m =
     (case vmVisitors m name of
        None \<Rightarrow> (Some (''visitor ['' @ name @ ''] not found''), m, None)
      | Some v \<Rightarrow>
          (case Visitor_AcceptConn conn v of
             (e, v1, dropped) \<Rightarrow> (e, m\<lparr>vmVisitors := (vmVisitors m)(name \<mapsto> v1)\<rparr>, dropped)))"

section \<open>Asking the server\<close>

text \<open>The message that STCP and SUDP visitors send on a new connection.\<close>

definition visitor_msg :: "(string \<Rightarrow> string) \<Rightarrow> int \<Rightarrow> string \<Rightarrow> 'a BaseVisitorConf_scheme \<Rightarrow> NewVisitorConn" where
  "visitor_msg md5 now runID c =
     \<lparr>vcRunID = runID, vcProxyName = vbServerName c, vcSignKey = GetAuthKey md5 (vbSk c) now, vcTimestamp = now,
      vcUseEncryption = vbUseEncryption c, vcUseCompression = vbUseCompression c\<rparr>"

text \<open>What becomes of a user's connection at an STCP visitor: \<open>server\<close> is the answer to the message, \<open>None\<close> when connecting,
  writing or reading fails. The connection is joined with the server's and closed in any case.\<close>

datatype conn_fate = ConnClosed | ConnJoined | ConnTransferred

definition STCPVisitor_handleConn :: "(NewVisitorConn \<Rightarrow> string option) \<Rightarrow> (string \<Rightarrow> string option) \<Rightarrow> (string \<Rightarrow> string) \<Rightarrow> int \<Rightarrow> string \<Rightarrow>
    BaseVisitorConf \<Rightarrow> conn_fate" where
  "STCPVisitor_handleConn server encrypt md5 now runID c =
     (case server (visitor_msg md5 now runID c) of
        None \<Rightarrow> ConnClosed
      | Some respError \<Rightarrow>
          if respError \<noteq> [] then ConnClosed
          else if vbUseEncryption c \<and> encrypt (vbSk c) \<noteq> None then ConnClosed
          else ConnJoined)"

section \<open>Tunnels of XTCP visitors\<close>

text \<open>A session holds a tunnel after a successful hole punching, until an attempt to open a connection fails. Whether the
  worker that punches holes is waiting for a request is \<open>waiting\<close>; a request that finds it busy is dropped.\<close>

record tunnel =
  tnSession :: bool
  tnRequests :: nat

datatype open_error = ErrNoTunnelSession | OpenFailed string

definition TunnelSession_OpenConn :: "(string, 'c) result \<Rightarrow> tunnel \<Rightarrow> (open_error, 'c) result" where
  "TunnelSession_OpenConn stream t =
     (if \<not> tnSession t then Inl ErrNoTunnelSession else case stream of Inl e \<Rightarrow> Inl (OpenFailed e) | Inr c \<Rightarrow> Inr c)"

definition TunnelSession_Close :: "tunnel \<Rightarrow> tunnel" where
  "TunnelSession_Close t = t\<lparr>tnSession := False\<rparr>"

definition getTunnelConn :: "(string, 'c) result \<Rightarrow> bool \<Rightarrow> tunnel \<Rightarrow> (open_error, 'c) result \<times> tunnel" where
  "getTunnelConn stream waiting t =
     (case TunnelSession_OpenConn stream t of
        Inr c \<Rightarrow> (Inr c, t)
      | Inl e \<Rightarrow> (Inl e, (TunnelSession_Close t)\<lparr>tnRequests := tnRequests t + (if waiting then 1 else 0)\<rparr>))"

text \<open>The steps of punching a hole, each with its possible error; the session is set up by the last one.\<close>

record punch =
  puPreCheck :: "string option"
  puPrepare :: "string option"
  puExchange :: "string option"
  puMakeHole :: "string option"
  puInit :: "string option"

definition makeNatHole :: "punch \<Rightarrow> tunnel \<Rightarrow> tunnel" where
  "makeNatHole p t =
     (if puPreCheck p \<noteq> None \<or> puPrepare p \<noteq> None \<or> puExchange p \<noteq> None \<or> puMakeHole p \<noteq> None \<or> puInit p \<noteq> None then t
      else t\<lparr>tnSession := True\<rparr>)"

text \<open>What the loop of \<^verbatim>\<open>openTunnel\<close> receives next: the visitor is closed, the time for a fallback is over, a trigger
  with what opening a stream would yield, or the timeout of twenty seconds. Other goroutines may set up a session in
  between (\<open>Punched\<close>).\<close>

datatype 'c tunnel_event = VisitorDone | FallbackDone | Try "(string, 'c) result" bool | OpenTimeout | Punched punch

fun openTunnel :: "'c tunnel_event list \<Rightarrow> tunnel \<Rightarrow> (string, 'c) result option \<times> tunnel" where
  "openTunnel [] t = (None, t)"
| "openTunnel (VisitorDone # es) t = (Some (Inl ''context canceled''), t)"
| "openTunnel (FallbackDone # es) t = (Some (Inl ''context deadline exceeded''), t)"
| "openTunnel (OpenTimeout # es) t = (Some (Inl ''open tunnel timeout''), t)"
| "openTunnel (Punched p # es) t = openTunnel es (makeNatHole p t)"
| "openTunnel (Try stream waiting # es) t =
     (case getTunnelConn stream waiting t of
        (Inr c, t1) \<Rightarrow> (Some (Inr c), t1)
      | (Inl e, t1) \<Rightarrow> openTunnel es t1)"

text \<open>What becomes of a user's connection, once the tunnel is open or failed to open.\<close>

definition XTCPVisitor_handleConn :: "(string \<Rightarrow> string option) \<Rightarrow> XTCPVisitorConf \<Rightarrow> (string, 'c) result \<Rightarrow> 'c \<Rightarrow> 'c visitor_manager \<Rightarrow>
    conn_fate \<times> 'c visitor_manager \<times> 'c option" where
  "XTCPVisitor_handleConn encrypt c tunnelConn userConn m =
     (case tunnelConn of
        Inl e \<Rightarrow>
          if vxFallbackTo c = [] then (ConnClosed, m, None)
          else (case TransferConn (vxFallbackTo c) userConn m of
                  (Some _, m1, dropped) \<Rightarrow> (ConnClosed, m1, dropped)
                | (None, m1, dropped) \<Rightarrow> (ConnTransferred, m1, dropped))
      | Inr _ \<Rightarrow>
          if vbUseEncryption c \<and> encrypt (vbSk c) \<noteq> None then (ConnClosed, m, None) else (ConnJoined, m, None))"

section \<open>Reloading\<close>

text \<open>A configuration under its own name whose start cannot panic.\<close>

definition visitor_conf_ok :: "string \<Rightarrow> VisitorConf \<Rightarrow> bool" where
  "visitor_conf_ok n c \<longleftrightarrow> vbProxyName (Visitor_GetBaseConfig c) = n \<and> (\<forall>x. c = XTCPVisitor x \<longrightarrow> vxKeepTunnelOpen x \<longrightarrow> vxMaxRetriesAnHour x \<noteq> 0)"

lemma loaded_visitor_ok: "NewVisitorConfFromIni pre name ty mapTo = Inr c \<Longrightarrow> visitor_conf_ok (pre @ name) c"
  using visitor_conf_valid(1,5) [of pre name ty mapTo c] by (auto simp: visitor_conf_ok_def)

definition started :: "(string \<Rightarrow> string \<Rightarrow> string option) \<Rightarrow> VisitorConf \<Rightarrow> 'c client_visitor option" where
  "started bind c = (case Visitor_Run bind (NewVisitor c) of Some (None, v) \<Rightarrow> Some v | _ \<Rightarrow> None)"

lemma startVisitor_ok:
  assumes "visitor_conf_ok n c"
  shows "startVisitor bind c m = Some (case started bind c of None \<Rightarrow> m | Some v \<Rightarrow> m\<lparr>vmVisitors := (vmVisitors m)(n \<mapsto> v)\<rparr>)"
  using assms
  by (cases c) (auto simp: startVisitor_def started_def visitor_conf_ok_def Visitor_Run_def NewVisitor_def run_tcp_def
      split: option.split prod.split)

lemma started_conf: "started bind c = Some v \<Longrightarrow> cvConf v = c"
  by (cases c) (auto simp: started_def Visitor_Run_def NewVisitor_def run_tcp_def split: option.splits prod.splits if_splits)

definition vmgr_inv :: "'c visitor_manager \<Rightarrow> bool" where
  "vmgr_inv m \<longleftrightarrow> (\<forall>n v. vmVisitors m n = Some v \<longrightarrow> vmCfgs m n = Some (cvConf v)) \<and>
     (\<forall>n c. vmCfgs m n = Some c \<longrightarrow> visitor_conf_ok n c)"

definition outdated_visitor :: "VisitorConf smap \<Rightarrow> 'c visitor_manager \<Rightarrow> string \<Rightarrow> bool" where
  "outdated_visitor cfgs m n \<longleftrightarrow> vmCfgs m n \<noteq> None \<and> cfgs n \<noteq> vmCfgs m n"

lemma fold_drop:
  "vmCfgs (fold (drop_visitor cfgs) old m) n = (if n \<in> set old \<and> outdated_visitor cfgs m n then None else vmCfgs m n) \<and>
   vmVisitors (fold (drop_visitor cfgs) old m) n = (if n \<in> set old \<and> outdated_visitor cfgs m n then None else vmVisitors m n)"
proof (induction old arbitrary: m)
  case (Cons k old)
  show ?case using Cons.IH [of "drop_visitor cfgs k m"] by (auto simp: drop_visitor_def outdated_visitor_def)
qed simp

lemma fold_drop_closed:
  "set (vmClosed (fold (drop_visitor cfgs) old m)) =
     set (vmClosed m) \<union> {Visitor_Close v |n v. n \<in> set old \<and> outdated_visitor cfgs m n \<and> vmVisitors m n = Some v}"
proof (induction old arbitrary: m)
  case (Cons k old)
  show ?case
  proof (cases "outdated_visitor cfgs m k")
    case False
    then have "drop_visitor cfgs k m = m" by (auto simp: drop_visitor_def outdated_visitor_def)
    with False Cons.IH [of m] show ?thesis by auto
  next
    case True
    let ?m = "drop_visitor cfgs k m"
    have m: "set (vmClosed ?m) = set (vmClosed m) \<union> {Visitor_Close v |v. vmVisitors m k = Some v}"
      "outdated_visitor cfgs ?m n \<longleftrightarrow> n \<noteq> k \<and> outdated_visitor cfgs m n" "n \<noteq> k \<Longrightarrow> vmVisitors ?m n = vmVisitors m n" for n
      using True by (auto simp: drop_visitor_def outdated_visitor_def split: option.split)
    have "{Visitor_Close v |n v. n \<in> set old \<and> outdated_visitor cfgs ?m n \<and> vmVisitors ?m n = Some v} =
        {Visitor_Close v |n v. n \<in> set old \<and> n \<noteq> k \<and> outdated_visitor cfgs m n \<and> vmVisitors m n = Some v}"
      using m(2,3) by metis
    with Cons.IH [of ?m] m(1) True show ?thesis by auto
  qed
qed simp

lemma add_visitors_ok:
  assumes "\<And>n c. cfgs n = Some c \<Longrightarrow> visitor_conf_ok n c"
  shows "\<exists>m'. add_visitors bind cfgs new m = Some m' \<and> vmClosed m' = vmClosed m \<and>
    (\<forall>n. vmCfgs m' n = (if n \<in> set new \<and> vmCfgs m n = None then cfgs n else vmCfgs m n) \<and>
      vmVisitors m' n = (if n \<in> set new \<and> vmCfgs m n = None \<and> cfgs n \<noteq> None
        then (case started bind (the (cfgs n)) of None \<Rightarrow> vmVisitors m n | Some v \<Rightarrow> Some v) else vmVisitors m n))"
proof (induction new arbitrary: m)
  case (Cons k new)
  show ?case
  proof (cases "cfgs k = None \<or> vmCfgs m k \<noteq> None")
    case True
    then have "add_visitors bind cfgs (k # new) m = add_visitors bind cfgs new m" by (auto split: option.split)
    with Cons.IH [of m] True show ?thesis by (metis (no_types, lifting) set_ConsD list.set_intros(2))
  next
    case False
    then obtain c where c: "cfgs k = Some c" "vmCfgs m k = None" by auto
    let ?m = "m\<lparr>vmCfgs := (vmCfgs m)(k \<mapsto> c)\<rparr>"
    define m1 where "m1 = (case started bind c of None \<Rightarrow> ?m | Some v \<Rightarrow> ?m\<lparr>vmVisitors := (vmVisitors ?m)(k \<mapsto> v)\<rparr>)"
    have "startVisitor bind c ?m = Some m1" unfolding m1_def by (rule startVisitor_ok [OF assms [OF c(1)]])
    then have go: "add_visitors bind cfgs (k # new) m = add_visitors bind cfgs new m1" using c by simp
    have m1: "vmCfgs m1 = (vmCfgs m)(k \<mapsto> c)" "vmClosed m1 = vmClosed m"
      "vmVisitors m1 = (case started bind c of None \<Rightarrow> vmVisitors m | Some v \<Rightarrow> (vmVisitors m)(k \<mapsto> v))"
      by (simp_all add: m1_def split: option.split)
    from Cons.IH [of m1] obtain m' where m': "add_visitors bind cfgs new m1 = Some m'" "vmClosed m' = vmClosed m1"
      "\<And>n. vmCfgs m' n = (if n \<in> set new \<and> vmCfgs m1 n = None then cfgs n else vmCfgs m1 n)"
      "\<And>n. vmVisitors m' n = (if n \<in> set new \<and> vmCfgs m1 n = None \<and> cfgs n \<noteq> None
        then (case started bind (the (cfgs n)) of None \<Rightarrow> vmVisitors m1 n | Some v \<Rightarrow> Some v) else vmVisitors m1 n)" by blast
    show ?thesis
      using go m'(1,2) m1 c by (intro exI [of _ m'] conjI allI) (auto simp: m'(3,4) split: option.split)
  qed
qed simp

lemma VisitorMgr_Reload_ok:
  assumes "vmgr_inv m" "\<And>n c. cfgs n = Some c \<Longrightarrow> visitor_conf_ok n c"
    and "set old = dom (vmCfgs m)" "set new = dom cfgs"
  shows "\<exists>m'. VisitorMgr_Reload bind old new cfgs m = Some m' \<and> vmgr_inv m' \<and> vmCfgs m' = cfgs \<and>
    (\<forall>n. cfgs n = vmCfgs m n \<longrightarrow> vmVisitors m' n = vmVisitors m n) \<and>
    (\<forall>n c. cfgs n = Some c \<and> cfgs n \<noteq> vmCfgs m n \<longrightarrow> vmVisitors m' n = started bind c) \<and>
    set (vmClosed m') = set (vmClosed m) \<union> {Visitor_Close v |n v. vmVisitors m n = Some v \<and> cfgs n \<noteq> vmCfgs m n}"
proof -
  let ?m = "fold (drop_visitor cfgs) old m"
  have out: "n \<in> set old \<and> outdated_visitor cfgs m n \<longleftrightarrow> vmCfgs m n \<noteq> None \<and> cfgs n \<noteq> vmCfgs m n" for n
    using assms(3) by (auto simp: outdated_visitor_def)
  have D: "vmCfgs ?m n = (if vmCfgs m n \<noteq> None \<and> cfgs n \<noteq> vmCfgs m n then None else vmCfgs m n)"
    "vmVisitors ?m n = (if vmCfgs m n \<noteq> None \<and> cfgs n \<noteq> vmCfgs m n then None else vmVisitors m n)" for n
    using fold_drop [of cfgs old m n] out by simp_all
  have vis: "vmVisitors m n = Some v \<Longrightarrow> vmCfgs m n = Some (cvConf v)" for n v using assms(1) by (simp add: vmgr_inv_def)
  from add_visitors_ok [OF assms(2), where bind = bind and new = new and m = ?m] obtain m' where m':
    "VisitorMgr_Reload bind old new cfgs m = Some m'" "vmClosed m' = vmClosed ?m"
    "\<And>n. vmCfgs m' n = (if n \<in> set new \<and> vmCfgs ?m n = None then cfgs n else vmCfgs ?m n)"
    "\<And>n. vmVisitors m' n = (if n \<in> set new \<and> vmCfgs ?m n = None \<and> cfgs n \<noteq> None
        then (case started bind (the (cfgs n)) of None \<Rightarrow> vmVisitors ?m n | Some v \<Rightarrow> Some v) else vmVisitors ?m n)"
    unfolding VisitorMgr_Reload_def by blast
  have cfgs: "vmCfgs m' n = cfgs n" for n using m'(3) [of n] D(1) [of n] assms(4) by (auto split: if_splits)
  have same: "vmVisitors m' n = vmVisitors m n" if "cfgs n = vmCfgs m n" for n
    using m'(4) [of n] D [of n] that by (cases "cfgs n") auto
  have new: "vmVisitors m' n = started bind c" if "cfgs n = Some c" "cfgs n \<noteq> vmCfgs m n" for n c
  proof -
    have "vmVisitors ?m n = None" using D(2) [of n] that vis [of n] by (cases "vmVisitors m n") auto
    then show ?thesis using m'(4) [of n] D [of n] that assms(4) by (auto split: option.split)
  qed
  have gone: "vmVisitors m' n = None" if "cfgs n = None" for n
    using m'(4) [of n] D(2) [of n] that vis [of n] by (cases "vmVisitors m n") auto
  have "vmgr_inv m'"
    unfolding vmgr_inv_def
  proof (intro conjI allI impI)
    show "visitor_conf_ok n c" if "vmCfgs m' n = Some c" for n c using assms(2) that cfgs by simp
    show "vmCfgs m' n = Some (cvConf v)" if v: "vmVisitors m' n = Some v" for n v
    proof (cases "cfgs n")
      case None
      with gone v show ?thesis by simp
    next
      case (Some c)
      show ?thesis
      proof (cases "cfgs n = vmCfgs m n")
        case True
        with same v vis cfgs show ?thesis by simp
      next
        case False
        with new [OF Some] v started_conf [of bind c v] cfgs Some show ?thesis by simp
      qed
    qed
  qed
  moreover have "set (vmClosed m') = set (vmClosed m) \<union> {Visitor_Close v |n v. vmVisitors m n = Some v \<and> cfgs n \<noteq> vmCfgs m n}"
    unfolding m'(2) fold_drop_closed using out vis by (metis (no_types, lifting) option.distinct(1))
  ultimately show ?thesis using m'(1) cfgs same new by (intro exI [of _ m']) (auto simp: fun_eq_iff)
qed

text \<open>A reload of the visitors never panics on a loaded configuration and leaves the manager with exactly the new
  configurations; a visitor whose configuration did not change goes on undisturbed, one that was removed or changed is
  closed, and each new one runs if its address can be bound. Every visitor in the table runs the configuration of its name.\<close>

lemma visitor_reload_synchronises:
  assumes "vmgr_inv m" "\<And>n c. cfgs n = Some c \<Longrightarrow> visitor_conf_ok n c"
    and "set old = dom (vmCfgs m)" "set new = dom cfgs"
  shows "\<exists>m'. VisitorMgr_Reload bind old new cfgs m = Some m' \<and> vmgr_inv m' \<and> vmCfgs m' = cfgs \<and>
    (\<forall>n. cfgs n = vmCfgs m n \<longrightarrow> vmVisitors m' n = vmVisitors m n) \<and>
    (\<forall>n c. cfgs n = Some c \<and> cfgs n \<noteq> vmCfgs m n \<longrightarrow> vmVisitors m' n = started bind c) \<and>
    set (vmClosed m') = set (vmClosed m) \<union> {Visitor_Close v |n v. vmVisitors m n = Some v \<and> cfgs n \<noteq> vmCfgs m n}"
  by (rule VisitorMgr_Reload_ok [OF assms])

definition ssh_visitor :: VisitorConf where
  "ssh_visitor = STCPVisitorConf (zero_BaseVisitorConf\<lparr>vbProxyName := ''v'', vbRole := ''visitor'', vbBindAddr := ''127.0.0.1'', vbBindPort := 6000\<rparr>)"

text \<open>A tick starts what is missing and can be bound, and disturbs nothing.\<close>

lemma VisitorMgr_tick_ok:
  fixes m :: "'c visitor_manager"
  assumes "vmgr_inv m"
  shows "\<exists>m'. VisitorMgr_tick bind names m = Some m' \<and> vmgr_inv m' \<and> vmCfgs m' = vmCfgs m \<and>
    (\<forall>n v. vmVisitors m n = Some v \<longrightarrow> vmVisitors m' n = Some v) \<and>
    (\<forall>n \<in> set names. \<forall>c. vmCfgs m n = Some c \<and> started bind c \<noteq> (None :: 'c client_visitor option) \<longrightarrow> vmVisitors m' n \<noteq> None)"
  using assms
proof (induction names arbitrary: m)
  case (Cons k names)
  show ?case
  proof (cases "vmCfgs m k")
    case None
    with Cons.IH [OF Cons.prems] show ?thesis by auto
  next
    case (Some c)
    then have ok: "visitor_conf_ok k c" using Cons.prems by (simp add: vmgr_inv_def)
    then have k: "vbProxyName (Visitor_GetBaseConfig c) = k" by (simp add: visitor_conf_ok_def)
    show ?thesis
    proof (cases "vmVisitors m k")
      case None
      define m1 where "m1 = (case started bind c of None \<Rightarrow> m | Some v \<Rightarrow> m\<lparr>vmVisitors := (vmVisitors m)(k \<mapsto> v)\<rparr>)"
      have go: "VisitorMgr_tick bind (k # names) m = VisitorMgr_tick bind names m1"
        using startVisitor_ok [OF ok, of bind m] Some None k by (simp add: m1_def)
      have "vmgr_inv m1" using Cons.prems Some started_conf [of bind c]
        by (auto simp: m1_def vmgr_inv_def split: option.split)
      from Cons.IH [OF this] obtain m' where m': "VisitorMgr_tick bind names m1 = Some m'" "vmgr_inv m'" "vmCfgs m' = vmCfgs m1"
        "\<forall>n v. vmVisitors m1 n = Some v \<longrightarrow> vmVisitors m' n = Some v"
        "\<forall>n \<in> set names. \<forall>c. vmCfgs m1 n = Some c \<and> started bind c \<noteq> (None :: 'c client_visitor option) \<longrightarrow> vmVisitors m' n \<noteq> None" by blast
      moreover have "vmCfgs m1 = vmCfgs m" by (simp add: m1_def split: option.split)
      moreover have "vmVisitors m1 n = Some v" if "vmVisitors m n = Some v" for n v
        using that None by (auto simp: m1_def split: option.split)
      moreover have "vmVisitors m1 k = started bind c" using None by (simp add: m1_def split: option.split)
      ultimately have all: "vmCfgs m' = vmCfgs m" "\<And>n v. vmVisitors m n = Some v \<Longrightarrow> vmVisitors m' n = Some v"
        "\<And>v. started bind c = Some v \<Longrightarrow> vmVisitors m' k = Some v"
        "\<And>n d. n \<in> set names \<Longrightarrow> vmCfgs m n = Some d \<Longrightarrow> started bind d \<noteq> (None :: 'c client_visitor option) \<Longrightarrow> vmVisitors m' n \<noteq> None"
        by simp_all
      have "vmVisitors m' n \<noteq> None"
        if "n \<in> set (k # names)" "vmCfgs m n = Some d" "started bind d \<noteq> (None :: 'c client_visitor option)" for n d
      proof (cases "n = k")
        case True
        with that Some obtain v :: "'c client_visitor" where "started bind c = Some v" by auto
        from all(3) [OF this] True show ?thesis by simp
      qed (use that all(4) in auto)
      with all(1,2) m'(1,2) show ?thesis unfolding go by (intro exI [of _ m']) blast
    next
      case (Some v)
      then have "VisitorMgr_tick bind (k # names) m = VisitorMgr_tick bind names m" using \<open>vmCfgs m k = Some c\<close> k by simp
      with Cons.IH [OF Cons.prems] Some show ?thesis by fastforce
    qed
  qed
qed simp

section \<open>From a visitor to the proxy it names\<close>


definition secret_server :: "nat Service" where
  "secret_server = example_logged_in\<lparr>svRC := (svRC example_logged_in)\<lparr>rcVisitorManager :=
     snd (VisitorManager_Listen ''bob.ssh'' ''sk'' [''alice''] NewVisitorManager)\<rparr>\<rparr>"

definition secret_raw :: BaseVisitorConf where
  "secret_raw = zero_BaseVisitorConf\<lparr>vbRole := ''visitor'', vbSk := ''sk'', vbServerUser := ''bob'', vbServerName := ''ssh'', vbBindPort := 6000\<rparr>"


end
