(* ===== verification/Client_Proxy.thy ===== *)
theory Client_Proxy
  imports Go_Std "HOL-Library.Word" "HOL-Library.AList"
begin

text \<open>
  Model of the client's proxies: the health monitor (\<^verbatim>\<open>client/health/health.go\<close>), the wrapper that
  drives a proxy through its phases (\<^verbatim>\<open>client/proxy/proxy_wrapper.go\<close>) and the manager that keeps
  the wrappers in step with the configuration (\<^verbatim>\<open>client/proxy/proxy_manager.go\<close>). The
  configuration type and its marshalling to a message are parameters here, the outcome of
  starting the underlying proxy and of dialling the health check target are inputs. The messages
  a wrapper sends through its event handler are appended to the list \<open>sent\<close> of the wrapper.
\<close>

section \<open>Health monitor\<close>

record Monitor =
  checkType :: string
  interval :: int
  timeout :: int
  maxFailedTimes :: int
  maddr :: string
  murl :: string
  failedTimes :: "64 word"
  statusOK :: bool
  hasNormalFn :: bool
  hasFailedFn :: bool

definition NewMonitor :: "string \<Rightarrow> int \<Rightarrow> int \<Rightarrow> int \<Rightarrow> string \<Rightarrow> string \<Rightarrow> bool \<Rightarrow> bool \<Rightarrow> Monitor" where
  "NewMonitor ty intervalS timeoutS maxFailed a url normalFn failedFn =
     \<lparr>checkType = ty, interval = (if intervalS \<le> 0 then 10 else intervalS), timeout = (if timeoutS \<le> 0 then 3 else timeoutS),
      maxFailedTimes = (if maxFailed \<le> 0 then 1 else maxFailed), maddr = a, murl = url, failedTimes = 0,
      statusOK = False, hasNormalFn = normalFn, hasFailedFn = failedFn\<rparr>"

datatype health_event = StatusNormal | StatusFailed

text \<open>One round of \<^verbatim>\<open>checkWorker\<close> on a monitor that was not cancelled; \<open>ok\<close> says that the check succeeded.\<close>

definition checkWorker_round :: "bool \<Rightarrow> Monitor \<Rightarrow> health_event option \<times> Monitor" where
  "checkWorker_round ok m =
     (if ok then
        (if \<not> statusOK m \<and> hasNormalFn m then (Some StatusNormal, m\<lparr>statusOK := True\<rparr>) else (None, m))
      else
        (let m1 = m\<lparr>failedTimes := failedTimes m + 1\<rparr>
         in if statusOK m1 \<and> sint (failedTimes m1) \<ge> maxFailedTimes m1 \<and> hasFailedFn m1
            then (Some StatusFailed, m1\<lparr>statusOK := False\<rparr>) else (None, m1)))"

definition doTCPCheck :: "(string \<Rightarrow> bool) \<Rightarrow> Monitor \<Rightarrow> bool" where
  "doTCPCheck dial m = (if maddr m = [] then True else dial (maddr m))"

text \<open>\<open>get\<close> is the status code of the response, \<open>None\<close> when the request fails.\<close>

definition doHTTPCheck :: "(string \<Rightarrow> int option) \<Rightarrow> Monitor \<Rightarrow> bool" where
  "doHTTPCheck get m = (case get (murl m) of None \<Rightarrow> False | Some code \<Rightarrow> quot code 100 = 2)"

definition doCheck :: "(string \<Rightarrow> bool) \<Rightarrow> (string \<Rightarrow> int option) \<Rightarrow> Monitor \<Rightarrow> bool" where
  "doCheck dial get m =
     (if checkType m = ''tcp'' then doTCPCheck dial m
      else if checkType m = ''http'' then doHTTPCheck get m
      else False)"

section \<open>Wrapper\<close>

datatype proxy_phase = ProxyPhaseNew | ProxyPhaseWaitStart | ProxyPhaseStartErr | ProxyPhaseRunning
  | ProxyPhaseCheckFailed | ProxyPhaseClosed

datatype 'm payload = StartProxyPayload 'm | CloseProxyPayload string

text \<open>The fields a proxy's configuration contributes.\<close>

record base_info =
  bProxyName :: string
  bProxyType :: string
  bHealthCheckType :: string
  bHealthCheckIntervalS :: int
  bHealthCheckTimeoutS :: int
  bHealthCheckMaxFailed :: int
  bHealthCheckAddr :: string
  bHealthCheckURL :: string

record ('c, 'm) Wrapper =
  wName :: string
  wType :: string
  Phase :: proxy_phase
  Err :: string
  Cfg :: 'c
  RemoteAddr :: string
  monitor :: "Monitor option"
  health :: nat
  lastSendStartMsg :: int
  lastStartErr :: int
  closeCh_closed :: bool
  sent :: "'m payload list"

definition waitResponseTimeout :: int where "waitResponseTimeout = 20"
definition startErrTimeout :: int where "startErrTimeout = 30"

definition NewWrapper :: "('c \<Rightarrow> base_info) \<Rightarrow> 'c \<Rightarrow> ('c, 'm) Wrapper" where
  "NewWrapper GetBaseConfig cfg =
     (let b = GetBaseConfig cfg;
          pw = \<lparr>wName = bProxyName b, wType = bProxyType b, Phase = ProxyPhaseNew, Err = [], Cfg = cfg, RemoteAddr = [],
                monitor = None, health = 0, lastSendStartMsg = 0, lastStartErr = 0, closeCh_closed = False, sent = []\<rparr>
      in if bHealthCheckType b \<noteq> [] then
           pw\<lparr>health := 1, monitor := Some (NewMonitor (bHealthCheckType b) (bHealthCheckIntervalS b) (bHealthCheckTimeoutS b)
                (bHealthCheckMaxFailed b) (bHealthCheckAddr b) (bHealthCheckURL b) True True)\<rparr>
         else pw)"

text \<open>\<^verbatim>\<open>Wrapper.close\<close> tells the server to close the proxy.\<close>

definition Wrapper_close :: "('c, 'm) Wrapper \<Rightarrow> ('c, 'm) Wrapper" where
  "Wrapper_close pw = pw\<lparr>sent := sent pw @ [CloseProxyPayload (wName pw)]\<rparr>"

datatype start_error = NotWaitingStart | RespError string | RunError string | ProxyNotFound string

definition SetRunningStatus ::
  "int \<Rightarrow> string option \<Rightarrow> string \<Rightarrow> string \<Rightarrow> ('c, 'm) Wrapper \<Rightarrow> start_error option \<times> ('c, 'm) Wrapper" where
  "SetRunningStatus now runErr remoteAddr respErr pw =
     (if Phase pw \<noteq> ProxyPhaseWaitStart then (Some NotWaitingStart, pw)
      else
        (let pw1 = pw\<lparr>RemoteAddr := remoteAddr\<rparr>
         in if respErr \<noteq> [] then
              (Some (RespError respErr), pw1\<lparr>Phase := ProxyPhaseStartErr, Err := respErr, lastStartErr := now\<rparr>)
            else (case runErr of
                    Some e \<Rightarrow> (Some (RunError e), (Wrapper_close pw1)\<lparr>Phase := ProxyPhaseStartErr, Err := e, lastStartErr := now\<rparr>)
                  | None \<Rightarrow> (None, pw1\<lparr>Phase := ProxyPhaseRunning, Err := []\<rparr>))))"

text \<open>Stopping closes two channels; a second time panics (\<open>None\<close>).\<close>

definition Wrapper_Stop :: "('c, 'm) Wrapper \<Rightarrow> ('c, 'm) Wrapper option" where
  "Wrapper_Stop pw =
     (if closeCh_closed pw then None
      else Some (Wrapper_close (pw\<lparr>closeCh_closed := True, Phase := ProxyPhaseClosed\<rparr>)))"

definition checkWorker_tick :: "('c \<Rightarrow> 'm) \<Rightarrow> int \<Rightarrow> ('c, 'm) Wrapper \<Rightarrow> ('c, 'm) Wrapper" where
  "checkWorker_tick marshal now pw =
     (if health pw = 0 then
        (if Phase pw = ProxyPhaseNew \<or> Phase pw = ProxyPhaseCheckFailed \<or>
            (Phase pw = ProxyPhaseWaitStart \<and> now > lastSendStartMsg pw + waitResponseTimeout) \<or>
            (Phase pw = ProxyPhaseStartErr \<and> now > lastStartErr pw + startErrTimeout)
         then pw\<lparr>Phase := ProxyPhaseWaitStart, lastSendStartMsg := now,
                 sent := sent pw @ [StartProxyPayload (marshal (Cfg pw))]\<rparr>
         else pw)
      else
        (if Phase pw = ProxyPhaseRunning \<or> Phase pw = ProxyPhaseWaitStart
         then (Wrapper_close pw)\<lparr>Phase := ProxyPhaseCheckFailed\<rparr> else pw))"

definition statusNormalCallback :: "('c, 'm) Wrapper \<Rightarrow> ('c, 'm) Wrapper" where
  "statusNormalCallback pw = pw\<lparr>health := 0\<rparr>"

definition statusFailedCallback :: "('c, 'm) Wrapper \<Rightarrow> ('c, 'm) Wrapper" where
  "statusFailedCallback pw = pw\<lparr>health := 1\<rparr>"

text \<open>A round of the wrapper's monitor with the callback it triggers.\<close>

definition monitor_round :: "bool \<Rightarrow> ('c, 'm) Wrapper \<Rightarrow> ('c, 'm) Wrapper" where
  "monitor_round ok pw =
     (case monitor pw of
        None \<Rightarrow> pw
      | Some m \<Rightarrow>
          (case checkWorker_round ok m of
             (None, m') \<Rightarrow> pw\<lparr>monitor := Some m'\<rparr>
           | (Some StatusNormal, m') \<Rightarrow> statusNormalCallback (pw\<lparr>monitor := Some m'\<rparr>)
           | (Some StatusFailed, m') \<Rightarrow> statusFailedCallback (pw\<lparr>monitor := Some m'\<rparr>)))"

text \<open>Whether a work connection is used; otherwise it is closed.\<close>

definition Wrapper_InWorkConn :: "('c, 'm) Wrapper \<Rightarrow> bool" where
  "Wrapper_InWorkConn pw \<longleftrightarrow> Phase pw = ProxyPhaseRunning"

record 'c WorkingStatus =
  sName :: string
  sType :: string
  sPhase :: proxy_phase
  sErr :: string
  sCfg :: 'c
  sRemoteAddr :: string

definition GetStatus :: "('c, 'm) Wrapper \<Rightarrow> 'c WorkingStatus" where
  "GetStatus pw = \<lparr>sName = wName pw, sType = wType pw, sPhase = Phase pw, sErr = Err pw, sCfg = Cfg pw,
     sRemoteAddr = RemoteAddr pw\<rparr>"

section \<open>Manager\<close>

type_synonym ('c, 'm) proxies = "(string \<times> ('c, 'm) Wrapper) list"

definition StartProxy :: "int \<Rightarrow> string option \<Rightarrow> string \<Rightarrow> string \<Rightarrow> string \<Rightarrow> ('c, 'm) proxies \<Rightarrow> start_error option \<times> ('c, 'm) proxies" where
  "StartProxy now runErr name remoteAddr serverRespErr ps =
     (case map_of ps name of
        None \<Rightarrow> (Some (ProxyNotFound name), ps)
      | Some pw \<Rightarrow>
          (case SetRunningStatus now runErr remoteAddr serverRespErr pw of
             (err, pw') \<Rightarrow> (err, AList.update name pw' ps)))"

definition HandleWorkConn :: "string \<Rightarrow> ('c, 'm) proxies \<Rightarrow> bool" where
  "HandleWorkConn name ps = (case map_of ps name of Some pw \<Rightarrow> Wrapper_InWorkConn pw | None \<Rightarrow> False)"

definition GetAllProxyStatus :: "('c, 'm) proxies \<Rightarrow> 'c WorkingStatus list" where
  "GetAllProxyStatus ps = map (GetStatus \<circ> snd) ps"

text \<open>Stopping every wrapper of a list; the result is the messages they send, \<open>None\<close> a panic.\<close>

fun stop_all :: "('c, 'm) Wrapper list \<Rightarrow> 'm payload list option" where
  "stop_all [] = Some []"
| "stop_all (pw # pws) =
     (case Wrapper_Stop pw of
        None \<Rightarrow> None
      | Some pw' \<Rightarrow>
          (case stop_all pws of None \<Rightarrow> None | Some out \<Rightarrow> Some (drop (length (sent pw)) (sent pw') @ out)))"

definition ProxyManager_Close :: "('c, 'm) proxies \<Rightarrow> ('m payload list \<times> ('c, 'm) proxies) option" where
  "ProxyManager_Close ps = (case stop_all (map snd ps) of None \<Rightarrow> None | Some out \<Rightarrow> Some (out, []))"

definition outdated :: "(string \<times> 'c) list \<Rightarrow> string \<times> ('c, 'm) Wrapper \<Rightarrow> bool" where
  "outdated cfgs np \<longleftrightarrow> map_of cfgs (fst np) = None \<or> Some (Cfg (snd np)) \<noteq> map_of cfgs (fst np)"

definition ProxyManager_Reload ::
  "('c \<Rightarrow> base_info) \<Rightarrow> (string \<times> 'c) list \<Rightarrow> ('c, 'm) proxies \<Rightarrow> ('m payload list \<times> ('c, 'm) proxies) option" where
  "ProxyManager_Reload GetBaseConfig cfgs ps =
     (let kept = filter (\<lambda>np. \<not> outdated cfgs np) ps
      in case stop_all (map snd (filter (outdated cfgs) ps)) of
           None \<Rightarrow> None
         | Some out \<Rightarrow>
             Some (out, fold (\<lambda>(name, cfg) acc. if map_of acc name = None then acc @ [(name, NewWrapper GetBaseConfig cfg)] else acc)
                          cfgs kept))"

section \<open>Failures that are not consecutive\<close>

fun check_rounds :: "bool list \<Rightarrow> Monitor \<Rightarrow> health_event option list \<times> Monitor" where
  "check_rounds [] m = ([], m)"
| "check_rounds (ok # oks) m =
     (case checkWorker_round ok m of (e, m1) \<Rightarrow> (case check_rounds oks m1 of (es, m2) \<Rightarrow> (e # es, m2)))"

lemma check_rounds_append:
  "check_rounds (xs @ ys) m =
     (fst (check_rounds xs m) @ fst (check_rounds ys (snd (check_rounds xs m))), snd (check_rounds ys (snd (check_rounds xs m))))"
  by (induction xs arbitrary: m) (auto split: prod.split)

lemma fail_then_ok:
  assumes "statusOK m" "sint (failedTimes m + 1) < maxFailedTimes m"
  shows "check_rounds [False, True] m = ([None, None], m\<lparr>failedTimes := failedTimes m + 1\<rparr>)"
  using assms by (simp add: checkWorker_round_def Let_def)

lemma sint_of_nat_small: "k < 2 ^ 63 \<Longrightarrow> sint (of_nat k :: 64 word) = int k"
proof -
  assume "k < 2 ^ 63"
  then have "int k < 2 ^ 63" by (metis of_nat_less_iff of_nat_numeral of_nat_power)
  moreover have "- (2 ^ 63) \<le> int k" by (rule order_trans [of _ 0]) simp_all
  ultimately show ?thesis using signed_take_bit_int_eq_self [of 63 "int k"] by (simp add: signed_of_nat)
qed

lemma alternating_rounds:
  assumes "statusOK m" "failedTimes m = 0" "maxFailedTimes m = int n" "k < n" "n < 2 ^ 63"
  shows "check_rounds (concat (replicate k [False, True])) m =
    (replicate (2 * k) None, m\<lparr>failedTimes := of_nat k\<rparr>)"
  using assms(4)
proof (induction k)
  case 0
  with assms(2) show ?case by (cases m) simp
next
  case (Suc k)
  let ?m = "m\<lparr>failedTimes := of_nat k\<rparr>"
  have "sint (of_nat (Suc k) :: 64 word) = int (Suc k)" using Suc.prems assms(5) by (intro sint_of_nat_small) simp
  then have "check_rounds [False, True] ?m = ([None, None], ?m\<lparr>failedTimes := failedTimes ?m + 1\<rparr>)"
    using assms(1,3) Suc.prems by (intro fail_then_ok) (simp_all add: add.commute)
  moreover have "concat (replicate (Suc k) [False, True]) = concat (replicate k [False, True]) @ [False, True]"
    by (simp flip: replicate_append_same)
  moreover have "check_rounds (concat (replicate k [False, True])) m = (replicate (2 * k) None, ?m)" using Suc by simp
  ultimately show ?case
    by (simp add: check_rounds_append replicate_append_same add.commute del: check_rounds.simps replicate_Suc)
      (simp flip: replicate_append_same)
qed

text \<open>Failures of a health check are added up and never forgotten: a service that fails every
  other check, never twice in a row, is reported as failed at its \<open>n\<close>-th failure, where \<open>n\<close> is the
  configured maximum.\<close>

lemma health_failures_accumulate:
  assumes "statusOK m" "hasFailedFn m" "failedTimes m = 0" "maxFailedTimes m = int (Suc k)" "Suc k < 2 ^ 63"
  shows "fst (check_rounds (concat (replicate k [False, True]) @ [False]) m) =
    replicate (2 * k) None @ [Some StatusFailed]"
proof -
  have "sint (of_nat (Suc k) :: 64 word) = int (Suc k)" using assms(5) by (intro sint_of_nat_small)
  then show ?thesis
    using alternating_rounds [OF assms(1,3,4), of k] assms
    by (simp add: check_rounds_append checkWorker_round_def Let_def add.commute)
qed

section \<open>The phases of a proxy\<close>

inductive wrapper_step :: "('c \<Rightarrow> 'm) \<Rightarrow> ('c, 'm) Wrapper \<Rightarrow> ('c, 'm) Wrapper \<Rightarrow> bool" for marshal where
  tick: "wrapper_step marshal pw (checkWorker_tick marshal now pw)"
| response: "SetRunningStatus now runErr remote respErr pw = (e, pw') \<Longrightarrow> wrapper_step marshal pw pw'"
| check: "wrapper_step marshal pw (monitor_round ok pw)"
| stop: "Wrapper_Stop pw = Some pw' \<Longrightarrow> wrapper_step marshal pw pw'"

inductive wrapper_reach :: "('c \<Rightarrow> base_info) \<Rightarrow> ('c \<Rightarrow> 'm) \<Rightarrow> ('c, 'm) Wrapper \<Rightarrow> bool" for base marshal where
  start: "wrapper_reach base marshal (NewWrapper base cfg)"
| step: "wrapper_reach base marshal pw \<Longrightarrow> wrapper_step marshal pw pw' \<Longrightarrow> wrapper_reach base marshal pw'"

definition wrapper_inv :: "('c \<Rightarrow> 'm) \<Rightarrow> ('c, 'm) Wrapper \<Rightarrow> bool" where
  "wrapper_inv marshal pw \<longleftrightarrow>
     (Phase pw \<in> {ProxyPhaseWaitStart, ProxyPhaseRunning} \<longrightarrow>
        sent pw \<noteq> [] \<and> last (sent pw) = StartProxyPayload (marshal (Cfg pw))) \<and>
     (Phase pw \<in> {ProxyPhaseCheckFailed, ProxyPhaseClosed} \<longrightarrow>
        sent pw \<noteq> [] \<and> last (sent pw) = CloseProxyPayload (wName pw)) \<and>
     (closeCh_closed pw \<longleftrightarrow> Phase pw = ProxyPhaseClosed)"

lemma monitor_round_keeps:
  "Phase (monitor_round ok pw) = Phase pw" "sent (monitor_round ok pw) = sent pw" "wName (monitor_round ok pw) = wName pw"
  "Cfg (monitor_round ok pw) = Cfg pw" "closeCh_closed (monitor_round ok pw) = closeCh_closed pw"
  by (auto simp: monitor_round_def statusNormalCallback_def statusFailedCallback_def
      split: option.split prod.split health_event.split)

lemma wrapper_step_inv: "wrapper_step marshal pw pw' \<Longrightarrow> wrapper_inv marshal pw \<Longrightarrow> wrapper_inv marshal pw'"
proof (induction rule: wrapper_step.induct)
  case (tick pw now)
  then show ?case by (auto simp: checkWorker_tick_def Wrapper_close_def wrapper_inv_def)
next
  case (response now runErr remote respErr pw e pw')
  then show ?case
    by (auto simp: SetRunningStatus_def Wrapper_close_def wrapper_inv_def Let_def split: if_splits option.splits)
next
  case (check pw ok)
  then show ?case by (simp add: wrapper_inv_def monitor_round_keeps)
next
  case (stop pw pw')
  then show ?case by (auto simp: Wrapper_Stop_def Wrapper_close_def wrapper_inv_def split: if_splits)
qed

lemma wrapper_reach_inv: "wrapper_reach base marshal pw \<Longrightarrow> wrapper_inv marshal pw"
proof (induction rule: wrapper_reach.induct)
  case (start cfg)
  then show ?case by (simp add: wrapper_inv_def NewWrapper_def Let_def)
qed (rule wrapper_step_inv)

lemma wrapper_closed_step:
  "wrapper_step marshal pw pw' \<Longrightarrow> wrapper_inv marshal pw \<Longrightarrow> Phase pw = ProxyPhaseClosed \<Longrightarrow>
     Phase pw' = ProxyPhaseClosed \<and> sent pw' = sent pw"
  by (induction rule: wrapper_step.induct)
    (auto simp: checkWorker_tick_def SetRunningStatus_def Wrapper_Stop_def wrapper_inv_def monitor_round_keeps)

text \<open>C34: in every state a proxy of the client can reach, the last message it sent to the server is its
  registration while it waits for an answer or runs, and its removal once its health check failed or
  it was closed; work connections are only used while it runs; and a closed proxy stays closed and
  silent for ever.\<close>

theorem wrapper_protocol:
  assumes "wrapper_reach base marshal pw"
  shows "(Phase pw = ProxyPhaseWaitStart \<or> Wrapper_InWorkConn pw \<longrightarrow>
      sent pw \<noteq> [] \<and> last (sent pw) = StartProxyPayload (marshal (Cfg pw))) \<and>
    (Phase pw \<in> {ProxyPhaseCheckFailed, ProxyPhaseClosed} \<longrightarrow>
      sent pw \<noteq> [] \<and> last (sent pw) = CloseProxyPayload (wName pw)) \<and>
    (Phase pw = ProxyPhaseClosed \<longrightarrow>
      (\<forall>pw'. (wrapper_step marshal)\<^sup>*\<^sup>* pw pw' \<longrightarrow> Phase pw' = ProxyPhaseClosed \<and> sent pw' = sent pw))"
proof -
  have inv: "wrapper_inv marshal pw" using assms by (rule wrapper_reach_inv)
  have "Phase pw' = ProxyPhaseClosed \<and> sent pw' = sent pw"
    if "(wrapper_step marshal)\<^sup>*\<^sup>* pw pw'" "Phase pw = ProxyPhaseClosed" for pw'
  proof -
    from that(1) have "Phase pw' = ProxyPhaseClosed \<and> sent pw' = sent pw \<and> wrapper_inv marshal pw'"
    proof (induction rule: rtranclp_induct)
      case base
      show ?case using that(2) inv by simp
    next
      case (step y z)
      then show ?case using wrapper_closed_step [OF step.hyps(2)] wrapper_step_inv [OF step.hyps(2)] by simp
    qed
    then show ?thesis by simp
  qed
  moreover have "(Phase pw = ProxyPhaseWaitStart \<or> Wrapper_InWorkConn pw \<longrightarrow>
      sent pw \<noteq> [] \<and> last (sent pw) = StartProxyPayload (marshal (Cfg pw))) \<and>
    (Phase pw \<in> {ProxyPhaseCheckFailed, ProxyPhaseClosed} \<longrightarrow>
      sent pw \<noteq> [] \<and> last (sent pw) = CloseProxyPayload (wName pw))"
    using inv by (auto simp: wrapper_inv_def Wrapper_InWorkConn_def)
  ultimately show ?thesis by blast
qed

definition plain_base :: "string \<Rightarrow> base_info" where
  "plain_base name = \<lparr>bProxyName = name, bProxyType = ''tcp'', bHealthCheckType = ''tcp'', bHealthCheckIntervalS = 10,
     bHealthCheckTimeoutS = 3, bHealthCheckMaxFailed = 1, bHealthCheckAddr = ''a:1'', bHealthCheckURL = []\<rparr>"

definition closed_wrapper :: "(string, string) Wrapper" where
  "closed_wrapper = the (Wrapper_Stop (NewWrapper plain_base ''ssh''))"

theorem wrapper_protocol_witness:
  "last (sent closed_wrapper) = CloseProxyPayload ''ssh'' \<and>
   Phase (checkWorker_tick id 100 closed_wrapper) = ProxyPhaseClosed"
proof -
  have stop: "Wrapper_Stop (NewWrapper plain_base ''ssh'') = Some closed_wrapper"
    and closed: "Phase closed_wrapper = ProxyPhaseClosed" "wName closed_wrapper = ''ssh''"
    by (simp_all add: closed_wrapper_def Wrapper_Stop_def Wrapper_close_def NewWrapper_def plain_base_def Let_def)
  have "wrapper_reach plain_base id closed_wrapper"
    by (rule wrapper_reach.step [OF wrapper_reach.start wrapper_step.stop [OF stop]])
  moreover have "(wrapper_step id)\<^sup>*\<^sup>* closed_wrapper (checkWorker_tick id 100 closed_wrapper)"
    by (rule r_into_rtranclp) (rule tick)
  ultimately have "last (sent closed_wrapper) = CloseProxyPayload (wName closed_wrapper)"
    "Phase (checkWorker_tick id 100 closed_wrapper) = ProxyPhaseClosed"
    using wrapper_protocol [of plain_base id closed_wrapper] closed(1) by blast+
  with closed(2) show ?thesis by (simp only: simp_thms)
qed

text \<open>A healthy proxy that does not run is registered again after at most thirty seconds, whatever
  went wrong before.\<close>

lemma wrapper_retries:
  assumes "health pw = 0" "Phase pw \<notin> {ProxyPhaseRunning, ProxyPhaseClosed}"
    and "lastSendStartMsg pw + 30 < now" "lastStartErr pw + 30 < now"
  shows "Phase (checkWorker_tick marshal now pw) = ProxyPhaseWaitStart \<and>
    sent (checkWorker_tick marshal now pw) = sent pw @ [StartProxyPayload (marshal (Cfg pw))]"
  using assms by (cases "Phase pw") (auto simp: checkWorker_tick_def waitResponseTimeout_def startErrTimeout_def)

text \<open>An answer is not matched with the registration it answers. When the health of a service drops
  and recovers while the answer to the first registration is under way, the proxy takes that answer for
  the answer to its second registration and runs, and it ignores the refusal of the second one.\<close>

lemma stale_start_response:
  "let pw1 = checkWorker_tick id 1 (statusNormalCallback (NewWrapper plain_base ''ssh''));
       pw2 = checkWorker_tick id 2 (statusNormalCallback (checkWorker_tick id 2 (statusFailedCallback pw1)));
       (e1, pw3) = SetRunningStatus 3 None '':7000'' [] pw2;
       (e2, pw4) = SetRunningStatus 4 None [] ''port already used'' pw3
   in sent pw4 = [StartProxyPayload ''ssh'', CloseProxyPayload ''ssh'', StartProxyPayload ''ssh''] \<and>
      e2 = Some NotWaitingStart \<and> Phase pw4 = ProxyPhaseRunning"
  by (simp add: checkWorker_tick_def statusNormalCallback_def statusFailedCallback_def NewWrapper_def plain_base_def
      SetRunningStatus_def Wrapper_close_def Let_def)

section \<open>Reloading the configuration\<close>

lemma stop_all_open:
  "\<forall>pw \<in> set pws. \<not> closeCh_closed pw \<Longrightarrow> stop_all pws = Some (map (\<lambda>pw. CloseProxyPayload (wName pw)) pws)"
  by (induction pws) (auto simp: Wrapper_Stop_def Wrapper_close_def)

lemma fold_add_missing:
  assumes "distinct (map fst cfgs)"
  shows "map_of (fold (\<lambda>(name, cfg) acc. if map_of acc name = None then acc @ [(name, f cfg)] else acc) cfgs acc) x =
    (case map_of acc x of Some w \<Rightarrow> Some w | None \<Rightarrow> map_option f (map_of cfgs x))"
  using assms
proof (induction cfgs arbitrary: acc)
  case Nil
  then show ?case by (simp split: option.split)
next
  case (Cons nc cfgs)
  obtain name cfg where nc: "nc = (name, cfg)" by fastforce
  with Cons.prems have "map_of cfgs name = None" by (simp add: map_of_eq_None_iff)
  with Cons nc show ?case by (auto simp: map_add_def split: option.split)
qed

lemma map_of_filter_distinct:
  assumes "distinct (map fst ps)"
  shows "map_of (filter P ps) x = (case map_of ps x of Some w \<Rightarrow> if P (x, w) then Some w else None | None \<Rightarrow> None)"
  using assms
proof (induction ps)
  case Nil
  then show ?case by simp
next
  case (Cons np ps)
  obtain n w where np: "np = (n, w)" by fastforce
  with Cons.prems have "map_of ps n = None" by (simp add: map_of_eq_None_iff)
  with Cons np show ?case by auto
qed

lemma ProxyManager_Reload_ok:
  assumes "distinct (map fst ps)" "distinct (map fst cfgs)" "\<forall>(name, pw) \<in> set ps. \<not> closeCh_closed pw"
  shows "\<exists>ps'. ProxyManager_Reload base cfgs ps =
      Some (map (\<lambda>(name, pw). CloseProxyPayload (wName pw)) (filter (outdated cfgs) ps), ps') \<and>
    (\<forall>name. map_of ps' name =
       (case map_of cfgs name of
          None \<Rightarrow> None
        | Some cfg \<Rightarrow> Some (case map_of ps name of
                           Some pw \<Rightarrow> if Cfg pw = cfg then pw else NewWrapper base cfg
                         | None \<Rightarrow> NewWrapper base cfg)))"
proof -
  have "\<forall>pw \<in> set (map snd (filter (outdated cfgs) ps)). \<not> closeCh_closed pw" using assms(3) by auto
  from stop_all_open [OF this] have "stop_all (map snd (filter (outdated cfgs) ps)) =
      Some (map (\<lambda>(name, pw). CloseProxyPayload (wName pw)) (filter (outdated cfgs) ps))"
    by (simp add: split_def comp_def)
  moreover have "map_of (fold (\<lambda>(name, cfg) acc. if map_of acc name = None then acc @ [(name, NewWrapper base cfg)] else acc)
        cfgs (filter (\<lambda>np. \<not> outdated cfgs np) ps)) name =
      (case map_of cfgs name of None \<Rightarrow> None
       | Some cfg \<Rightarrow> Some (case map_of ps name of Some pw \<Rightarrow> if Cfg pw = cfg then pw else NewWrapper base cfg
                                           | None \<Rightarrow> NewWrapper base cfg))" for name
    unfolding fold_add_missing [OF assms(2)] map_of_filter_distinct [OF assms(1)]
    by (cases "map_of cfgs name"; cases "map_of ps name") (auto simp: outdated_def)
  ultimately show ?thesis by (simp add: ProxyManager_Reload_def Let_def)
qed

text \<open>Proxies by their own names, none of them stopped.\<close>

definition pm_open :: "('c, 'm) proxies \<Rightarrow> bool" where
  "pm_open ps \<longleftrightarrow> distinct (map fst ps) \<and> (\<forall>(name, pw) \<in> set ps. wName pw = name \<and> \<not> closeCh_closed pw)"

lemma fold_add_open:
  assumes "pm_open acc" "\<And>name cfg. (name, cfg) \<in> set cfgs \<Longrightarrow> bProxyName (base cfg) = name"
  shows "pm_open (fold (\<lambda>(name, cfg) acc. if map_of acc name = None then acc @ [(name, NewWrapper base cfg)] else acc) cfgs acc)"
  using assms
proof (induction cfgs arbitrary: acc)
  case (Cons nc cfgs)
  obtain n c where nc: "nc = (n, c)" by fastforce
  have "pm_open (acc @ [(n, NewWrapper base c)])" if "map_of acc n = None"
    using Cons.prems(1) Cons.prems(2) [of n c] that
    by (auto simp: pm_open_def nc NewWrapper_def Let_def map_of_eq_None_iff)
  with Cons nc show ?case by simp
qed simp

lemma ProxyManager_Reload_open:
  assumes "pm_open ps" "distinct (map fst cfgs)" "\<And>name cfg. (name, cfg) \<in> set cfgs \<Longrightarrow> bProxyName (base cfg) = name"
    and "ProxyManager_Reload base cfgs ps = Some (out, ps')"
  shows "pm_open ps'"
proof -
  have "pm_open (filter (\<lambda>np. \<not> outdated cfgs np) ps)" using assms(1) by (auto simp: pm_open_def distinct_map_filter)
  from fold_add_open [OF this assms(3)] assms(4) show ?thesis
    by (auto simp: ProxyManager_Reload_def Let_def split: option.splits)
qed

lemma ProxyManager_Close_open:
  assumes "pm_open ps"
  shows "ProxyManager_Close ps = Some (map (\<lambda>(name, _). CloseProxyPayload name) ps, [])"
proof -
  have "stop_all (map snd ps) = Some (map (\<lambda>pw. CloseProxyPayload (wName pw)) (map snd ps))"
    using assms by (intro stop_all_open) (auto simp: pm_open_def)
  moreover have "map (\<lambda>pw. CloseProxyPayload (wName pw)) (map snd ps) = map (\<lambda>(name, _). CloseProxyPayload name) ps"
    using assms by (auto simp: pm_open_def)
  ultimately show ?thesis by (simp add: ProxyManager_Close_def)
qed

lemma set_update_subset: "set (AList.update k v ps) \<subseteq> insert (k, v) (set ps)"
  by (induction ps) auto

lemma pm_open_update:
  assumes "pm_open ps" "map_of ps name = Some pw" "wName pw' = wName pw" "closeCh_closed pw' = closeCh_closed pw"
  shows "pm_open (AList.update name pw' ps)"
proof -
  have "(name, pw) \<in> set ps" using assms(2) by (rule map_of_SomeD)
  with assms(1,3,4) have "wName pw' = name" "\<not> closeCh_closed pw'" by (auto simp: pm_open_def)
  moreover have "distinct (map fst (AList.update name pw' ps))" using assms(1) by (simp add: pm_open_def distinct_update)
  ultimately show ?thesis using assms(1) set_update_subset [of name pw' ps] unfolding pm_open_def by fast
qed

text \<open>A reload never fails while all proxies are open; afterwards there is a proxy for exactly the
  configured names, a proxy whose configuration did not change is left untouched, every other configured
  name has a fresh proxy, and the server is told to close exactly the proxies that were removed or
  changed.\<close>

lemma reload_synchronises:
  assumes "distinct (map fst ps)" "distinct (map fst cfgs)" "\<forall>(name, pw) \<in> set ps. \<not> closeCh_closed pw"
  shows "\<exists>ps'. ProxyManager_Reload base cfgs ps =
      Some (map (\<lambda>(name, pw). CloseProxyPayload (wName pw)) (filter (outdated cfgs) ps), ps') \<and>
    (\<forall>name. map_of ps' name =
       (case map_of cfgs name of
          None \<Rightarrow> None
        | Some cfg \<Rightarrow> Some (case map_of ps name of
                           Some pw \<Rightarrow> if Cfg pw = cfg then pw else NewWrapper base cfg
                         | None \<Rightarrow> NewWrapper base cfg)))"
  by (rule ProxyManager_Reload_ok [OF assms])

end
