(* ===== verification/Msg_Transport.thy ===== *)
theory Msg_Transport
  imports Go_Std
begin

text \<open>
  Model of \<^verbatim>\<open>pkg/transport/message.go\<close>: requests that wait for a response on the control connection. A request is
  sent with a lane, the type of the response and a key; the message handler dispatches each response to the
  channel that is registered for its lane. Channels are a heap of buffers of capacity one, since the registry, the
  waiting request and a dispatcher share them by pointer. \<^verbatim>\<open>Do\<close> is modelled in two parts, up to the \<^verbatim>\<open>select\<close> and
  from there, and dispatching in two parts, the lookup under the lock and the send after it, so that every interleaving is a
  sequence of steps.
\<close>

section \<open>Operations\<close>

type_synonym chan_addr = nat

record 'm msg_chan =
  chBuf :: "'m list"
  chClosed :: bool

record 'm transporter =
  tpSendClosed :: bool
  tpSent :: "'m list"
  tpChans :: "'m msg_chan list"
  tpRegistry :: "string \<Rightarrow> (string \<Rightarrow> chan_addr option) option"

definition NewMessageTransporter :: "'m transporter" where
  "NewMessageTransporter = \<lparr>tpSendClosed = False, tpSent = [], tpChans = [], tpRegistry = Map.empty\<rparr>"

text \<open>Sending on the closed channel panics, which is turned into an error.\<close>

definition Transporter_Send :: "'m \<Rightarrow> 'm transporter \<Rightarrow> string option \<times> 'm transporter" where
  "Transporter_Send m tp =
     (if tpSendClosed tp then (Some ''send on closed channel'', tp) else (None, tp\<lparr>tpSent := tpSent tp @ [m]\<rparr>))"

definition by_lane_key :: "string \<Rightarrow> 'm transporter \<Rightarrow> string \<Rightarrow> chan_addr option" where
  "by_lane_key msgType tp = (case tpRegistry tp msgType of None \<Rightarrow> Map.empty | Some byLaneKey \<Rightarrow> byLaneKey)"

definition registerMsgChan :: "chan_addr \<Rightarrow> string \<Rightarrow> string \<Rightarrow> 'm transporter \<Rightarrow> 'm transporter" where
  "registerMsgChan recvCh laneKey msgType tp =
     tp\<lparr>tpRegistry := (tpRegistry tp)(msgType \<mapsto> (by_lane_key msgType tp)(laneKey \<mapsto> recvCh))\<rparr>"

definition unregister :: "string \<Rightarrow> string \<Rightarrow> 'm transporter \<Rightarrow> 'm transporter" where
  "unregister laneKey msgType tp =
     tp\<lparr>tpRegistry := (tpRegistry tp)(msgType \<mapsto> (by_lane_key msgType tp)(laneKey := None))\<rparr>"

text \<open>The deferred calls of \<^verbatim>\<open>Do\<close>: the lane is unregistered, then the channel closed.\<close>

definition Do_return :: "chan_addr \<Rightarrow> string \<Rightarrow> string \<Rightarrow> 'm transporter \<Rightarrow> 'm transporter" where
  "Do_return ch laneKey recvMsgType tp =
     (let tp1 = unregister laneKey recvMsgType tp
      in tp1\<lparr>tpChans := (tpChans tp1)[ch := (tpChans tp1 ! ch)\<lparr>chClosed := True\<rparr>]\<rparr>)"

definition Do_begin :: "'m \<Rightarrow> string \<Rightarrow> string \<Rightarrow> 'm transporter \<Rightarrow> (string, chan_addr) result \<times> 'm transporter" where
  "Do_begin req laneKey recvMsgType tp =
     (let ch = length (tpChans tp);
          tp1 = registerMsgChan ch laneKey recvMsgType (tp\<lparr>tpChans := tpChans tp @ [\<lparr>chBuf = [], chClosed = False\<rparr>]\<rparr>)
      in case Transporter_Send req tp1 of
           (None, tp2) \<Rightarrow> (Inr ch, tp2)
         | (Some e, tp2) \<Rightarrow> (Inl e, Do_return ch laneKey recvMsgType tp2))"

text \<open>The \<^verbatim>\<open>select\<close>: the context is done with an error, or a response has arrived (\<open>None\<close> as long as none has).\<close>

datatype do_event = CtxDone string | Recv

definition Do_finish :: "do_event \<Rightarrow> chan_addr \<Rightarrow> string \<Rightarrow> string \<Rightarrow> 'm transporter \<Rightarrow> ((string, 'm) result \<times> 'm transporter) option" where
  "Do_finish ev ch laneKey recvMsgType tp =
     (case ev of
        CtxDone e \<Rightarrow> Some (Inl e, Do_return ch laneKey recvMsgType tp)
      | Recv \<Rightarrow>
          (case chBuf (tpChans tp ! ch) of
             [] \<Rightarrow> None
           | resp # rest \<Rightarrow>
               Some (Inr resp, Do_return ch laneKey recvMsgType
                       (tp\<lparr>tpChans := (tpChans tp)[ch := (tpChans tp ! ch)\<lparr>chBuf := rest\<rparr>]\<rparr>))))"

definition dispatch_lookup :: "string \<Rightarrow> string \<Rightarrow> 'm transporter \<Rightarrow> chan_addr option" where
  "dispatch_lookup msgType laneKey tp = by_lane_key msgType tp laneKey"

text \<open>The send of a dispatcher: on a closed channel it panics, which counts as not dispatched; on a full one it blocks
  (\<open>None\<close>).\<close>

definition dispatch_send :: "chan_addr \<Rightarrow> 'm \<Rightarrow> 'm transporter \<Rightarrow> (bool \<times> 'm transporter) option" where
  "dispatch_send ch m tp =
     (let c = tpChans tp ! ch
      in if chClosed c then Some (False, tp)
         else if chBuf c = [] then Some (True, tp\<lparr>tpChans := (tpChans tp)[ch := c\<lparr>chBuf := [m]\<rparr>]\<rparr>)
         else None)"

definition DispatchWithType :: "'m \<Rightarrow> string \<Rightarrow> string \<Rightarrow> 'm transporter \<Rightarrow> (bool \<times> 'm transporter) option" where
  "DispatchWithType m msgType laneKey tp =
     (case dispatch_lookup msgType laneKey tp of None \<Rightarrow> Some (False, tp) | Some ch \<Rightarrow> dispatch_send ch m tp)"

section \<open>Requests and responses\<close>

text \<open>A run of the transporter: the requests that wait with their channels, the dispatchers between lookup and
  send, and the lane each channel was made for. \<open>lane\<close> is the type and the key of a message. A request has a lane
  no other request waits for, since its key is a new random number.\<close>

record 'm lanes =
  lnT :: "'m transporter"
  lnWaiting :: "chan_addr list"
  lnSending :: "(chan_addr \<times> 'm) list"
  lnOwner :: "(string \<times> string) list"

inductive lane_step :: "('m \<Rightarrow> string \<times> string) \<Rightarrow> 'm lanes \<Rightarrow> 'm lanes \<Rightarrow> bool" for lane where
  ask: "lane_step lane s (s\<lparr>lnT := tp, lnWaiting := ch # lnWaiting s, lnOwner := lnOwner s @ [(ty, key)]\<rparr>)"
  if "\<forall>c \<in> set (lnWaiting s). lnOwner s ! c \<noteq> (ty, key)" "Do_begin req key ty (lnT s) = (Inr ch, tp)"
| refused: "lane_step lane s (s\<lparr>lnT := tp, lnOwner := lnOwner s @ [(ty, key)]\<rparr>)"
  if "\<forall>c \<in> set (lnWaiting s). lnOwner s ! c \<noteq> (ty, key)" "Do_begin req key ty (lnT s) = (Inl e, tp)"
| answer: "lane_step lane s (s\<lparr>lnT := tp, lnWaiting := remove1 ch (lnWaiting s)\<rparr>)"
  if "ch \<in> set (lnWaiting s)" "lnOwner s ! ch = (ty, key)" "Do_finish ev ch key ty (lnT s) = Some (r, tp)"
| lookup: "lane_step lane s (s\<lparr>lnSending := (ch, m) # lnSending s\<rparr>)"
  if "lane m = (ty, key)" "dispatch_lookup ty key (lnT s) = Some ch"
| deliver: "lane_step lane s (s\<lparr>lnT := tp, lnSending := remove1 (ch, m) (lnSending s)\<rparr>)"
  if "(ch, m) \<in> set (lnSending s)" "dispatch_send ch m (lnT s) = Some (ok, tp)"
| shut: "lane_step lane s (s\<lparr>lnT := (lnT s)\<lparr>tpSendClosed := True\<rparr>\<rparr>)"

inductive lane_reach :: "('m \<Rightarrow> string \<times> string) \<Rightarrow> 'm lanes \<Rightarrow> bool" for lane where
  start: "lane_reach lane \<lparr>lnT = NewMessageTransporter, lnWaiting = [], lnSending = [], lnOwner = []\<rparr>"
| step: "lane_reach lane s \<Longrightarrow> lane_step lane s s' \<Longrightarrow> lane_reach lane s'"

definition lane_inv :: "('m \<Rightarrow> string \<times> string) \<Rightarrow> 'm lanes \<Rightarrow> bool" where
  "lane_inv lane s \<longleftrightarrow>
     length (lnOwner s) = length (tpChans (lnT s)) \<and> distinct (lnWaiting s) \<and>
     (\<forall>ty key ch. by_lane_key ty (lnT s) key = Some ch \<longleftrightarrow> ch \<in> set (lnWaiting s) \<and> lnOwner s ! ch = (ty, key)) \<and>
     (\<forall>ch \<in> set (lnWaiting s). ch < length (tpChans (lnT s))) \<and>
     (\<forall>ch < length (tpChans (lnT s)). chClosed (tpChans (lnT s) ! ch) \<longleftrightarrow> ch \<notin> set (lnWaiting s)) \<and>
     (\<forall>ch < length (tpChans (lnT s)). length (chBuf (tpChans (lnT s) ! ch)) \<le> 1 \<and>
        (\<forall>m \<in> set (chBuf (tpChans (lnT s) ! ch)). lane m = lnOwner s ! ch)) \<and>
     (\<forall>(ch, m) \<in> set (lnSending s). ch < length (tpChans (lnT s)) \<and> lane m = lnOwner s ! ch)"

lemma lane_invD:
  assumes "lane_inv lane s"
  shows "length (lnOwner s) = length (tpChans (lnT s))" "distinct (lnWaiting s)"
    "by_lane_key ty (lnT s) key = Some ch \<longleftrightarrow> ch \<in> set (lnWaiting s) \<and> lnOwner s ! ch = (ty, key)"
    "ch \<in> set (lnWaiting s) \<Longrightarrow> ch < length (tpChans (lnT s))"
    "ch < length (tpChans (lnT s)) \<Longrightarrow> chClosed (tpChans (lnT s) ! ch) \<longleftrightarrow> ch \<notin> set (lnWaiting s)"
    "ch < length (tpChans (lnT s)) \<Longrightarrow> length (chBuf (tpChans (lnT s) ! ch)) \<le> 1"
    "ch < length (tpChans (lnT s)) \<Longrightarrow> m \<in> set (chBuf (tpChans (lnT s) ! ch)) \<Longrightarrow> lane m = lnOwner s ! ch"
    "(ch, m) \<in> set (lnSending s) \<Longrightarrow> ch < length (tpChans (lnT s))" "(ch, m) \<in> set (lnSending s) \<Longrightarrow> lane m = lnOwner s ! ch"
  using assms by (auto simp: lane_inv_def)

lemma lane_invI:
  assumes "length (lnOwner s) = length (tpChans (lnT s))" "distinct (lnWaiting s)"
    "\<And>ty key ch. by_lane_key ty (lnT s) key = Some ch \<longleftrightarrow> ch \<in> set (lnWaiting s) \<and> lnOwner s ! ch = (ty, key)"
    "\<And>ch. ch \<in> set (lnWaiting s) \<Longrightarrow> ch < length (tpChans (lnT s))"
    "\<And>ch. ch < length (tpChans (lnT s)) \<Longrightarrow> chClosed (tpChans (lnT s) ! ch) \<longleftrightarrow> ch \<notin> set (lnWaiting s)"
    "\<And>ch. ch < length (tpChans (lnT s)) \<Longrightarrow> length (chBuf (tpChans (lnT s) ! ch)) \<le> 1"
    "\<And>ch m. ch < length (tpChans (lnT s)) \<Longrightarrow> m \<in> set (chBuf (tpChans (lnT s) ! ch)) \<Longrightarrow> lane m = lnOwner s ! ch"
    "\<And>ch m. (ch, m) \<in> set (lnSending s) \<Longrightarrow> ch < length (tpChans (lnT s)) \<and> lane m = lnOwner s ! ch"
  shows "lane_inv lane s"
  unfolding lane_inv_def using assms by blast

lemma by_lane_key_simps [simp]:
  "by_lane_key ty (registerMsgChan ch key ty' tp) = (if ty = ty' then (by_lane_key ty tp)(key \<mapsto> ch) else by_lane_key ty tp)"
  "by_lane_key ty (unregister key ty' tp) = (if ty = ty' then (by_lane_key ty tp)(key := None) else by_lane_key ty tp)"
  "by_lane_key ty (tp\<lparr>tpChans := cs\<rparr>) = by_lane_key ty tp" "by_lane_key ty (tp\<lparr>tpSent := ms\<rparr>) = by_lane_key ty tp"
  "by_lane_key ty (tp\<lparr>tpSendClosed := b\<rparr>) = by_lane_key ty tp"
  "tpChans (registerMsgChan ch key ty' tp) = tpChans tp" "tpChans (unregister key ty' tp) = tpChans tp"
  "tpSendClosed (registerMsgChan ch key ty' tp) = tpSendClosed tp"
  by (auto simp: by_lane_key_def registerMsgChan_def unregister_def)

lemma Do_return_simps:
  "tpChans (Do_return ch key ty tp) = (tpChans tp)[ch := (tpChans tp ! ch)\<lparr>chClosed := True\<rparr>]"
  "by_lane_key ty' (Do_return ch key ty tp) = (if ty' = ty then (by_lane_key ty' tp)(key := None) else by_lane_key ty' tp)"
  by (simp_all add: Do_return_def Let_def)

text \<open>A new channel is registered and waits, or is closed at once when the request cannot be sent.\<close>

lemma lane_inv_ask:
  assumes inv: "lane_inv lane s" and fresh: "\<forall>c \<in> set (lnWaiting s). lnOwner s ! c \<noteq> (ty, key)"
    and ch: "ch = length (tpChans (lnT s))"
    and tp: "tpChans tp = tpChans (lnT s) @ [\<lparr>chBuf = [], chClosed = False\<rparr>]"
      "\<And>ty'. by_lane_key ty' tp = (if ty' = ty then (by_lane_key ty' (lnT s))(key \<mapsto> ch) else by_lane_key ty' (lnT s))"
  shows "lane_inv lane (s\<lparr>lnT := tp, lnWaiting := ch # lnWaiting s, lnOwner := lnOwner s @ [(ty, key)]\<rparr>)"
proof -
  note D = lane_invD [OF inv]
  have old: "c \<noteq> ch" "(lnOwner s @ [(ty, key)]) ! c = lnOwner s ! c" if "c < length (tpChans (lnT s))" for c
    using that ch D(1) by (simp_all add: nth_append)
  have new: "(lnOwner s @ [(ty, key)]) ! ch = (ty, key)" using ch D(1) nth_append_length [of "lnOwner s"] by simp
  have notin: "ch \<notin> set (lnWaiting s)" using D(4) ch by blast
  show ?thesis
  proof (rule lane_invI, goal_cases)
    case (3 ty' key' c)
    have waiting: "c \<in> set (lnWaiting s) \<Longrightarrow> (lnOwner s @ [(ty, key)]) ! c = lnOwner s ! c" using old(2) D(4) by blast
    show ?case using D(3) [of ty' key' c] fresh notin new waiting by (auto simp: tp(2))
  next
    case (4 c)
    then have "c = ch \<or> c < length (tpChans (lnT s))" using D(4) by auto
    with ch tp(1) show ?case by auto
  next
    case (5 c)
    with D(5) [of c] ch tp(1) notin show ?case by (cases "c = ch") (auto simp: nth_append)
  next
    case (6 c)
    with D(6) [of c] ch tp(1) show ?case by (cases "c = ch") (auto simp: nth_append)
  next
    case (7 c m)
    with D(7) [of c m] D(1) ch tp(1) show ?case by (cases "c = ch") (auto simp: nth_append)
  next
    case (8 c m)
    with D(8,9) [of c m] D(1) tp(1) show ?case by (auto simp: nth_append)
  qed (use D(1,2) notin tp(1) in simp_all)
qed

text \<open>A request that returns unregisters its lane and closes its channel.\<close>

lemma lane_inv_return:
  assumes inv: "lane_inv lane s" and ch: "ch \<in> set (lnWaiting s)" "lnOwner s ! ch = (ty, key)"
    and tp: "tpChans tp = (tpChans (lnT s))[ch := \<lparr>chBuf = buf, chClosed = True\<rparr>]" "set buf \<subseteq> set (chBuf (tpChans (lnT s) ! ch))"
      "length buf \<le> 1"
      "\<And>ty'. by_lane_key ty' tp = (if ty' = ty then (by_lane_key ty' (lnT s))(key := None) else by_lane_key ty' (lnT s))"
  shows "lane_inv lane (s\<lparr>lnT := tp, lnWaiting := remove1 ch (lnWaiting s)\<rparr>)"
proof -
  note D = lane_invD [OF inv]
  have uniq: "c = ch" if "c \<in> set (lnWaiting s)" "lnOwner s ! c = (ty, key)" for c
    using D(3) [of ty key c] D(3) [of ty key ch] ch that by simp
  have len: "ch < length (tpChans (lnT s))" using D(4) ch(1) .
  have rem: "set (remove1 ch (lnWaiting s)) = set (lnWaiting s) - {ch}" using D(2) by simp
  have wait: "c \<in> set (remove1 ch (lnWaiting s)) \<longleftrightarrow> c \<in> set (lnWaiting s) \<and> c \<noteq> ch" for c unfolding rem by blast
  have key: "by_lane_key ty' tp key' = Some c \<longleftrightarrow> (ty', key') \<noteq> (ty, key) \<and> by_lane_key ty' (lnT s) key' = Some c" for ty' key' c
    by (simp add: tp(4))
  show ?thesis
  proof (rule lane_invI, goal_cases)
    case (3 ty' key' c)
    have "by_lane_key ty' tp key' = Some c \<longleftrightarrow> c \<in> set (remove1 ch (lnWaiting s)) \<and> lnOwner s ! c = (ty', key')"
      unfolding key wait D(3) using uniq [of c] ch by metis
    then show ?case by simp
  next
    case (5 c)
    with D(5) [of c] len tp(1) wait show ?case by (cases "c = ch") auto
  next
    case (6 c)
    with D(6) [of c] len tp(1,3) show ?case by (cases "c = ch") auto
  next
    case (7 c m)
    with D(7) [of c m] len tp(1,2) show ?case by (cases "c = ch") auto
  next
    case (8 c m)
    with D(8,9) [of c m] tp(1) show ?case by auto
  qed (use D(1,2,4) tp(1) in \<open>auto dest: notin_set_remove1 simp: wait\<close>)
qed

lemma Do_begin_cases:
  assumes "Do_begin req key ty tp = (r, tp')"
  obtains ch where "ch = length (tpChans tp)" "r = Inr ch" "tpChans tp' = tpChans tp @ [\<lparr>chBuf = [], chClosed = False\<rparr>]"
      "\<And>ty'. by_lane_key ty' tp' = (if ty' = ty then (by_lane_key ty' tp)(key \<mapsto> ch) else by_lane_key ty' tp)"
  | e where "r = Inl e" "tpSendClosed tp" "tpChans tp' = tpChans tp @ [\<lparr>chBuf = [], chClosed = True\<rparr>]"
      "\<And>ty'. by_lane_key ty' tp' = (if ty' = ty then (by_lane_key ty' tp)(key := None) else by_lane_key ty' tp)"
  using assms by (auto simp: Do_begin_def Transporter_Send_def Let_def Do_return_simps split: if_splits)

lemma lane_inv_refused:
  assumes inv: "lane_inv lane s" and fresh: "\<forall>c \<in> set (lnWaiting s). lnOwner s ! c \<noteq> (ty, key)"
    and tp: "tpChans tp = tpChans (lnT s) @ [\<lparr>chBuf = [], chClosed = True\<rparr>]"
      "\<And>ty'. by_lane_key ty' tp = (if ty' = ty then (by_lane_key ty' (lnT s))(key := None) else by_lane_key ty' (lnT s))"
  shows "lane_inv lane (s\<lparr>lnT := tp, lnOwner := lnOwner s @ [(ty, key)]\<rparr>)"
proof -
  note D = lane_invD [OF inv]
  have old: "(lnOwner s @ [(ty, key)]) ! c = lnOwner s ! c" if "c < length (tpChans (lnT s))" for c
    using that D(1) by (simp add: nth_append)
  have waiting: "c \<in> set (lnWaiting s) \<Longrightarrow> (lnOwner s @ [(ty, key)]) ! c = lnOwner s ! c" for c using old D(4) by blast
  show ?thesis
  proof (rule lane_invI, goal_cases)
    case (3 ty' key' c)
    show ?case using D(3) [of ty' key' c] fresh waiting [of c] by (auto simp: tp(2))
  next
    case (4 c)
    then have "c < length (tpChans (lnT s))" using D(4) by auto
    with tp(1) show ?case by simp
  next
    case (5 c)
    with D(4,5) [of c] tp(1) show ?case by (cases "c < length (tpChans (lnT s))") (auto simp: nth_append)
  next
    case (6 c)
    with D(6) [of c] tp(1) show ?case by (cases "c < length (tpChans (lnT s))") (auto simp: nth_append)
  next
    case (7 c m)
    with D(7) [of c m] old tp(1) show ?case by (cases "c < length (tpChans (lnT s))") (auto simp: nth_append)
  next
    case (8 c m)
    with D(8,9) [of c m] old tp(1) show ?case by auto
  qed (use D(1,2) tp(1) in simp_all)
qed

lemma Do_finish_cases:
  assumes "Do_finish ev ch key ty tp = Some (r, tp')"
  obtains e where "ev = CtxDone e" "r = Inl e" "tp' = Do_return ch key ty tp"
  | m buf where "ev = Recv" "chBuf (tpChans tp ! ch) = m # buf" "r = Inr m"
      "tp' = Do_return ch key ty (tp\<lparr>tpChans := (tpChans tp)[ch := (tpChans tp ! ch)\<lparr>chBuf := buf\<rparr>]\<rparr>)"
  using assms by (auto simp: Do_finish_def split: do_event.splits list.splits)

lemma lane_inv_answer:
  assumes inv: "lane_inv lane s" and ch: "ch \<in> set (lnWaiting s)" "lnOwner s ! ch = (ty, key)"
    and fin: "Do_finish ev ch key ty (lnT s) = Some (r, tp)"
  shows "lane_inv lane (s\<lparr>lnT := tp, lnWaiting := remove1 ch (lnWaiting s)\<rparr>)"
proof -
  note D = lane_invD [OF inv]
  let ?c = "tpChans (lnT s) ! ch"
  have len: "ch < length (tpChans (lnT s))" using D(4) ch(1) .
  from fin show ?thesis
  proof (cases rule: Do_finish_cases)
    case (1 e)
    have "tpChans tp = (tpChans (lnT s))[ch := \<lparr>chBuf = chBuf ?c, chClosed = True\<rparr>]"
      by (cases ?c) (simp add: 1 Do_return_simps)
    with inv ch show ?thesis by (rule lane_inv_return) (use D(6) [OF len] in \<open>auto simp: 1 Do_return_simps\<close>)
  next
    case (2 m buf)
    have "tpChans tp = (tpChans (lnT s))[ch := \<lparr>chBuf = buf, chClosed = True\<rparr>]"
      using len by (cases ?c) (simp add: 2 Do_return_simps)
    with inv ch show ?thesis by (rule lane_inv_return) (use D(6) [OF len] 2(2) in \<open>auto simp: 2(4) Do_return_simps\<close>)
  qed
qed

lemma lane_inv_deliver:
  assumes inv: "lane_inv lane s" and m: "(ch, m) \<in> set (lnSending s)" and send: "dispatch_send ch m (lnT s) = Some (ok, tp)"
  shows "lane_inv lane (s\<lparr>lnT := tp, lnSending := remove1 (ch, m) (lnSending s)\<rparr>)"
proof -
  note D = lane_invD [OF inv]
  have rem: "x \<in> set (lnSending s)" if "x \<in> set (remove1 (ch, m) (lnSending s))" for x
    using that set_remove1_subset [of "(ch, m)" "lnSending s"] by blast
  from send consider "tp = lnT s" | "tp = (lnT s)\<lparr>tpChans := (tpChans (lnT s))[ch := (tpChans (lnT s) ! ch)\<lparr>chBuf := [m]\<rparr>]\<rparr>"
    by (auto simp: dispatch_send_def Let_def split: if_splits)
  then show ?thesis
  proof cases
    case 1
    show ?thesis using inv rem by (auto simp: 1 lane_inv_def)
  next
    case 2
    show ?thesis
    proof (rule lane_invI, goal_cases)
      case (7 c x)
      with D(7) [of c x] D(9) [OF m] show ?case by (cases "c = ch") (auto simp: 2)
    next
      case (5 c)
      with D(5) [of c] show ?case by (cases "c = ch") (auto simp: 2)
    next
      case (6 c)
      with D(6) [of c] show ?case by (cases "c = ch") (auto simp: 2)
    next
      case (8 c x)
      with D(8,9) [of c x] rem show ?case by (auto simp: 2)
    qed (use D(1,2,3,4) in \<open>auto simp: 2\<close>)
  qed
qed

lemma lane_step_inv: "lane_step lane s s' \<Longrightarrow> lane_inv lane s \<Longrightarrow> lane_inv lane s'"
proof (induction rule: lane_step.induct)
  case (ask s ty key req ch tp)
  from ask(2) show ?case by (cases rule: Do_begin_cases) (use ask(1,3) in \<open>auto intro!: lane_inv_ask\<close>)
next
  case (refused s ty key req e tp)
  from refused(2) show ?case by (cases rule: Do_begin_cases) (use refused(1,3) in \<open>auto intro!: lane_inv_refused\<close>)
next
  case (answer ch s ty key ev r tp)
  show ?case by (rule lane_inv_answer [OF answer(4,1,2,3)])
next
  case (lookup m ty key s ch)
  from lane_invD(3) [OF lookup(3), of ty key ch] lookup(2) have "ch \<in> set (lnWaiting s)" "lnOwner s ! ch = (ty, key)"
    by (simp_all add: dispatch_lookup_def)
  with lookup(1,3) show ?case by (auto simp: lane_inv_def)
next
  case (deliver ch m s ok tp)
  show ?case by (rule lane_inv_deliver [OF deliver(3,1,2)])
next
  case (shut s)
  then show ?case by (simp add: lane_inv_def)
qed

lemma lane_reach_inv: "lane_reach lane s \<Longrightarrow> lane_inv lane s"
proof (induction rule: lane_reach.induct)
  case start
  show ?case by (simp add: lane_inv_def NewMessageTransporter_def by_lane_key_def)
next
  case (step s s')
  from lane_step_inv [OF step(2,3)] show ?case .
qed

lemma Do_finish_closes:
  assumes "ch < length (tpChans tp)" "Do_finish ev ch key ty tp = Some (r, tp')"
  shows "dispatch_send ch m tp' = Some (False, tp')"
  using assms(2) by (cases rule: Do_finish_cases) (use assms(1) in \<open>simp_all add: dispatch_send_def Do_return_simps\<close>)

text \<open>C22: under every interleaving of requests, dispatchers and timeouts, a request that returns a response returns one of the
  type and the key it asked for; a response that is dispatched while a request waits for it in vain reaches that
  request and no other; a response nobody waits for is dropped without a trace; and a dispatcher that finds its
  channel full is released, without delivering, as soon as the request returns, be it with a response or by its timeout.\<close>

theorem request_gets_its_response:
  assumes "lane_reach lane s"
  shows "(\<forall>ch ty key m tp. ch \<in> set (lnWaiting s) \<and> lnOwner s ! ch = (ty, key) \<and>
        Do_finish Recv ch key ty (lnT s) = Some (Inr m, tp) \<longrightarrow> lane m = (ty, key)) \<and>
    (\<forall>ch ty key m. ch \<in> set (lnWaiting s) \<and> lnOwner s ! ch = (ty, key) \<and> chBuf (tpChans (lnT s) ! ch) = [] \<longrightarrow>
        (\<exists>tp tp'. DispatchWithType m ty key (lnT s) = Some (True, tp) \<and> Do_finish Recv ch key ty tp = Some (Inr m, tp') \<and>
          (\<forall>c. c \<noteq> ch \<longrightarrow> tpChans tp ! c = tpChans (lnT s) ! c))) \<and>
    (\<forall>ty key m. (\<forall>ch \<in> set (lnWaiting s). lnOwner s ! ch \<noteq> (ty, key)) \<longrightarrow> DispatchWithType m ty key (lnT s) = Some (False, lnT s)) \<and>
    (\<forall>ch m ty key. (ch, m) \<in> set (lnSending s) \<and> dispatch_send ch m (lnT s) = None \<and> lnOwner s ! ch = (ty, key) \<longrightarrow>
        ch \<in> set (lnWaiting s) \<and> Do_finish Recv ch key ty (lnT s) \<noteq> None \<and>
        (\<forall>ev r tp. Do_finish ev ch key ty (lnT s) = Some (r, tp) \<longrightarrow> dispatch_send ch m tp = Some (False, tp)))"
proof (intro conjI allI impI)
  note D = lane_invD [OF lane_reach_inv [OF assms]]
  fix ch :: chan_addr and ty key :: string and m :: 'a
  {
    fix tp
    assume *: "ch \<in> set (lnWaiting s) \<and> lnOwner s ! ch = (ty, key) \<and> Do_finish Recv ch key ty (lnT s) = Some (Inr m, tp)"
    then have "m \<in> set (chBuf (tpChans (lnT s) ! ch))" by (auto simp: Do_finish_def split: list.splits)
    with D(7) [OF D(4)] * show "lane m = (ty, key)" by fastforce
  next
    assume *: "ch \<in> set (lnWaiting s) \<and> lnOwner s ! ch = (ty, key) \<and> chBuf (tpChans (lnT s) ! ch) = []"
    then have "by_lane_key ty (lnT s) key = Some ch" "ch < length (tpChans (lnT s))" "\<not> chClosed (tpChans (lnT s) ! ch)"
      using D(3) [of ty key ch] D(4) [of ch] D(5) [of ch] by auto
    with * show "\<exists>tp tp'. DispatchWithType m ty key (lnT s) = Some (True, tp) \<and> Do_finish Recv ch key ty tp = Some (Inr m, tp') \<and>
        (\<forall>c. c \<noteq> ch \<longrightarrow> tpChans tp ! c = tpChans (lnT s) ! c)"
      by (simp add: DispatchWithType_def dispatch_lookup_def dispatch_send_def Do_finish_def)
  next
    assume "\<forall>c \<in> set (lnWaiting s). lnOwner s ! c \<noteq> (ty, key)"
    then have "by_lane_key ty (lnT s) key = None" using D(3) [of ty key] by (cases "by_lane_key ty (lnT s) key") auto
    then show "DispatchWithType m ty key (lnT s) = Some (False, lnT s)" by (simp add: DispatchWithType_def dispatch_lookup_def)
  next
    assume *: "(ch, m) \<in> set (lnSending s) \<and> dispatch_send ch m (lnT s) = None \<and> lnOwner s ! ch = (ty, key)"
    then have len: "ch < length (tpChans (lnT s))" using D(8) by blast
    from * have full: "\<not> chClosed (tpChans (lnT s) ! ch)" "chBuf (tpChans (lnT s) ! ch) \<noteq> []"
      by (auto simp: dispatch_send_def Let_def split: if_splits)
    then show "ch \<in> set (lnWaiting s)" "Do_finish Recv ch key ty (lnT s) \<noteq> None"
      using D(5) [OF len] by (auto simp: Do_finish_def split: list.split)
    fix ev r tp
    assume "Do_finish ev ch key ty (lnT s) = Some (r, tp)"
    with len show "dispatch_send ch m tp = Some (False, tp)" by (rule Do_finish_closes)
  }
qed

theorem request_gets_its_response_witness:
  "\<exists>s. lane_reach (\<lambda>m. (''NatHoleResp'', m)) s \<and> lnWaiting s = [0] \<and>
     (\<exists>tp tp'. DispatchWithType ''t1'' ''NatHoleResp'' ''t1'' (lnT s) = Some (True, tp) \<and>
        Do_finish Recv 0 ''t1'' ''NatHoleResp'' tp = Some (Inr ''t1'', tp'))"
proof -
  let ?init = "\<lparr>lnT = NewMessageTransporter, lnWaiting = [], lnSending = [], lnOwner = []\<rparr> :: string lanes"
  obtain tp where tp: "Do_begin ''visitor'' ''t1'' ''NatHoleResp'' (lnT ?init) = (Inr 0, tp)" "chBuf (tpChans tp ! 0) = []"
    by (simp add: Do_begin_def Transporter_Send_def NewMessageTransporter_def registerMsgChan_def by_lane_key_def)
  let ?s = "?init\<lparr>lnT := tp, lnWaiting := 0 # lnWaiting ?init, lnOwner := lnOwner ?init @ [(''NatHoleResp'', ''t1'')]\<rparr>"
  have step: "lane_step (\<lambda>m. (''NatHoleResp'', m)) ?init ?s" by (rule lane_step.ask [OF _ tp(1)]) simp
  have r: "lane_reach (\<lambda>m. (''NatHoleResp'', m)) ?s" by (rule lane_reach.step [OF lane_reach.start step])
  from request_gets_its_response [OF r] tp(2) have
    "\<exists>tp tp'. DispatchWithType ''t1'' ''NatHoleResp'' ''t1'' (lnT ?s) = Some (True, tp) \<and>
        Do_finish Recv 0 ''t1'' ''NatHoleResp'' tp = Some (Inr ''t1'', tp')" by fastforce
  with r show ?thesis by (intro exI [of _ ?s]) simp
qed

end
