(* ===== verification/Client_Control.thy ===== *)
theory Client_Control
  imports Client_Visitor Client_Proxy Msg_Transport
begin

text \<open>
  Model of \<^verbatim>\<open>client/control.go\<close>: the control connection of a client. The reader puts messages into a channel of
  capacity 100, the message handler takes them out, and the worker waits for the reader and the handler to end
  and then releases everything. The configuration, proxies and visitors are those of \<open>Proxy_Config\<close>, \<open>Client_Proxy\<close> and
  \<open>Client_Visitor\<close>; messages go out through the transporter of \<open>Msg_Transport\<close>. A panic of the handler is recovered and
  ends it. Closing the connection of the control and that of its connection manager are flags. The answer to
  \<^verbatim>\<open>GetProxyBandwidthLimit\<close> has no entry in the table of message types, so it is never read and its handler is left out.
\<close>

section \<open>State\<close>

datatype client_msg = CReqWorkConn | CNewProxyResp string string string | CNatHoleResp NatHoleResp | CPong string
  | CPing Ping | CNewProxy NewProxy | CCloseProxy string

record 'c client_control =
  ktRunID :: string
  ktPxyCfgs :: "(string \<times> ProxyConf) list"
  ktPM :: "(ProxyConf, NewProxy) proxies"
  ktVM :: "'c visitor_manager"
  ktTransport :: "client_msg transporter"
  ktConnClosed :: bool
  ktCMClosed :: bool
  ktLastPong :: int
  ktHand :: "client_msg option"
  ktReadCh :: "client_msg list"
  ktClosed :: bool
  ktHandler :: bool
  ktDone :: bool

text \<open>What a wrapper needs of a configuration.\<close>

definition proxy_base_info :: "ProxyConf \<Rightarrow> base_info" where
  "proxy_base_info cfg =
     (let b = GetBaseConfig cfg; h = bHealthCheckConf b
      in \<lparr>bProxyName = BaseProxyConf.bProxyName b, bProxyType = BaseProxyConf.bProxyType b,
          bHealthCheckType = HealthCheckType h, bHealthCheckIntervalS = HealthCheckIntervalS h,
          bHealthCheckTimeoutS = HealthCheckTimeoutS h, bHealthCheckMaxFailed = HealthCheckMaxFailed h,
          bHealthCheckAddr = HealthCheckAddr h, bHealthCheckURL = HealthCheckURL h\<rparr>)"

definition proxy_start_msg :: "ProxyConf \<Rightarrow> NewProxy" where
  "proxy_start_msg cfg = MarshalToMsg cfg empty_NewProxy"

text \<open>\<^verbatim>\<open>Manager.HandleEvent\<close>: a payload of a wrapper becomes a message; a failure to send is ignored by the wrappers.\<close>

primrec payload_msg :: "NewProxy payload \<Rightarrow> client_msg" where
  "payload_msg (StartProxyPayload m) = CNewProxy m"
| "payload_msg (CloseProxyPayload name) = CCloseProxy name"

definition HandleEvents :: "NewProxy payload list \<Rightarrow> client_msg transporter \<Rightarrow> client_msg transporter" where
  "HandleEvents ps tp = fold (\<lambda>p. snd \<circ> Transporter_Send (payload_msg p)) ps tp"

text \<open>The messages a wrapper sent between two states.\<close>

definition sent_since :: "('c, 'm) Wrapper \<Rightarrow> ('c, 'm) Wrapper \<Rightarrow> 'm payload list" where
  "sent_since pw pw' = drop (length (sent pw)) (sent pw')"

definition NewControl_client :: "(string \<Rightarrow> string \<Rightarrow> string option) \<Rightarrow> string \<Rightarrow> (string \<times> ProxyConf) list \<Rightarrow> string list \<Rightarrow> VisitorConf smap \<Rightarrow>
    'c client_control option" where
  "NewControl_client bind runID pxyCfgs names visitorCfgs =
     map_option (\<lambda>vm. \<lparr>ktRunID = runID, ktPxyCfgs = pxyCfgs, ktPM = [], ktVM = vm, ktTransport = NewMessageTransporter,
          ktConnClosed = False, ktCMClosed = False, ktLastPong = 0, ktHand = None, ktReadCh = [], ktClosed = False,
          ktHandler = False, ktDone = False\<rparr>)
       (VisitorMgr_Reload bind [] names visitorCfgs NewVisitorMgr)"

text \<open>The handler starts with the time of the last answer set to now; the proxies of the configuration are created.\<close>

definition Control_Run :: "int \<Rightarrow> 'c client_control \<Rightarrow> 'c client_control option" where
  "Control_Run now ctl =
     map_option (\<lambda>(out, pm). ctl\<lparr>ktPM := pm, ktTransport := HandleEvents out (ktTransport ctl), ktHandler := True, ktLastPong := now\<rparr>)
       (ProxyManager_Reload proxy_base_info (ktPxyCfgs ctl) (ktPM ctl))"

section \<open>Handlers of messages\<close>

datatype work_fate = WorkNoConn | WorkLeaked | WorkClosed | WorkGiven string bool

text \<open>A work connection: \<open>connect\<close> and \<open>write\<close> are the errors of connecting and writing, \<open>start\<close> is what the server answers.
  When signing fails the connection is neither used nor closed.\<close>

definition HandleReqWorkConn :: "string option \<Rightarrow> auth_env \<Rightarrow> Setter \<Rightarrow> (NewWorkConn \<Rightarrow> string option) \<Rightarrow> (string, StartWorkConn) result \<Rightarrow>
    'c client_control \<Rightarrow> work_fate" where
  "HandleReqWorkConn connect env setter write start ctl =
     (case connect of
        Some _ \<Rightarrow> WorkNoConn
      | None \<Rightarrow>
          (case SetNewWorkConn env setter \<lparr>wRunID = ktRunID ctl, wPrivilegeKey = [], wTimestamp = 0\<rparr> of
             (Some _, _) \<Rightarrow> WorkLeaked
           | (None, m) \<Rightarrow>
               (case write m of
                  Some _ \<Rightarrow> WorkClosed
                | None \<Rightarrow>
                    (case start of
                       Inl _ \<Rightarrow> WorkClosed
                     | Inr startMsg \<Rightarrow>
                         if swError startMsg \<noteq> [] then WorkClosed
                         else WorkGiven (swProxyName startMsg) (HandleWorkConn (swProxyName startMsg) (ktPM ctl))))))"

text \<open>The address that is announced to the user.\<close>

definition announced_addr :: "string \<Rightarrow> string \<Rightarrow> ProxyConf \<Rightarrow> string" where
  "announced_addr serverAddr remoteAddr cfg =
     (let ty = BaseProxyConf.bProxyType (GetBaseConfig cfg)
      in if ty \<noteq> ''http'' \<and> ty \<noteq> ''https'' then serverAddr @ remoteAddr
         else (let domains = (case cfg of
                  HTTPConf c \<Rightarrow> if ty = ''http'' then dCustomDomains (hcDomainConf c) else []
                | HTTPSConf c \<Rightarrow> if ty = ''https'' then dCustomDomains (scDomainConf c) else []
                | _ \<Rightarrow> [])
               in if domains \<noteq> [] then Join (map (\<lambda>d. ty @ ''://'' @ d) domains) '' or '' else remoteAddr))"

text \<open>The proxy manager takes the answer to a registration. Afterwards the configuration is looked up among those the control was
  created with; when it is missing, the nil interface is dereferenced (\<open>NilConf\<close>).\<close>

datatype start_outcome = StartRefused start_error | Announced string | NilConf

definition HandleNewProxyResp :: "int \<Rightarrow> string option \<Rightarrow> string \<Rightarrow> string \<Rightarrow> string \<Rightarrow> string \<Rightarrow> 'c client_control \<Rightarrow>
    start_outcome \<times> 'c client_control" where
  "HandleNewProxyResp now runErr serverAddr name remoteAddr respErr ctl =
     (case StartProxy now runErr name remoteAddr respErr (ktPM ctl) of
        (err, pm) \<Rightarrow>
          (let out = (case (map_of (ktPM ctl) name, map_of pm name) of (Some pw, Some pw') \<Rightarrow> sent_since pw pw' | _ \<Rightarrow> []);
               ctl1 = ctl\<lparr>ktPM := pm, ktTransport := HandleEvents out (ktTransport ctl)\<rparr>
           in case err of
                Some e \<Rightarrow> (StartRefused e, ctl1)
              | None \<Rightarrow>
                  (case map_of (ktPxyCfgs ctl) name of
                     None \<Rightarrow> (NilConf, ctl1)
                   | Some cfg \<Rightarrow> (Announced (announced_addr serverAddr remoteAddr cfg), ctl1))))"

text \<open>Dispatching to a full channel blocks until the request that waits there has returned, which at the latest its
  timeout makes it do; then the dispatcher is released.\<close>

definition HandleNatHoleResp :: "NatHoleResp \<Rightarrow> client_msg transporter \<Rightarrow> client_msg transporter" where
  "HandleNatHoleResp m tp =
     (case DispatchWithType (CNatHoleResp m) ''NatHoleResp'' (rTransactionID m) tp of
        Some (_, tp1) \<Rightarrow> tp1
      | None \<Rightarrow>
          (case dispatch_lookup ''NatHoleResp'' (rTransactionID m) tp of
             None \<Rightarrow> tp
           | Some ch \<Rightarrow>
               (case Do_finish Recv ch (rTransactionID m) ''NatHoleResp'' tp of None \<Rightarrow> tp | Some (_, tp1) \<Rightarrow> tp1)))"

section \<open>The goroutines\<close>

record handler_env =
  heNow :: int
  heRunErr :: "string option"
  heServerAddr :: string

text \<open>One message at the handler. Work connections are made by a goroutine of their own.\<close>

definition msgHandler_message :: "handler_env \<Rightarrow> client_msg \<Rightarrow> 'c client_control \<Rightarrow> 'c client_control" where
  "msgHandler_message env m ctl =
     (case m of
        CNewProxyResp name remoteAddr respErr \<Rightarrow>
          (case HandleNewProxyResp (heNow env) (heRunErr env) (heServerAddr env) name remoteAddr respErr ctl of
             (NilConf, ctl1) \<Rightarrow> ctl1\<lparr>ktHandler := False\<rparr>
           | (_, ctl1) \<Rightarrow> ctl1)
      | CNatHoleResp r \<Rightarrow> ctl\<lparr>ktTransport := HandleNatHoleResp r (ktTransport ctl)\<rparr>
      | CPong e \<Rightarrow>
          if e \<noteq> [] then ctl\<lparr>ktConnClosed := True, ktHandler := False\<rparr> else ctl\<lparr>ktLastPong := heNow env\<rparr>
      | _ \<Rightarrow> ctl)"

text \<open>The ticker for heartbeats: when signing fails, the handler returns and leaves the connection as it is.\<close>

definition msgHandler_ping :: "auth_env \<Rightarrow> Setter \<Rightarrow> 'c client_control \<Rightarrow> 'c client_control" where
  "msgHandler_ping env setter ctl =
     (case SetPing env setter \<lparr>pPrivilegeKey = [], pTimestamp = 0\<rparr> of
        (Some _, _) \<Rightarrow> ctl\<lparr>ktHandler := False\<rparr>
      | (None, p) \<Rightarrow> ctl\<lparr>ktTransport := (ktTransport ctl)\<lparr>tpSent := tpSent (ktTransport ctl) @ [CPing p]\<rparr>\<rparr>)"

definition msgHandler_check :: "ClientCommonConf \<Rightarrow> int \<Rightarrow> 'c client_control \<Rightarrow> 'c client_control" where
  "msgHandler_check cfg now ctl =
     (if clHeartbeatInterval cfg > 0 \<and> clHeartbeatTimeout cfg > 0 \<and> \<not> clTCPMux cfg \<and> now - ktLastPong ctl > clHeartbeatTimeout cfg
      then ctl\<lparr>ktConnClosed := True, ktHandler := False\<rparr> else ctl)"

text \<open>The reader: it reads a message, puts it into the channel, or ends with an error, upon which it closes the
  connection unless the stream has ended.\<close>

definition readCh_cap :: nat where "readCh_cap = 100"

definition client_reader_exit :: "bool \<Rightarrow> 'c client_control \<Rightarrow> 'c client_control" where
  "client_reader_exit eof ctl = ctl\<lparr>ktClosed := True, ktConnClosed := (ktConnClosed ctl \<or> \<not> eof)\<rparr>"

definition Control_GracefulClose :: "'c client_control \<Rightarrow> 'c client_control option" where
  "Control_GracefulClose ctl =
     map_option (\<lambda>(out, pm). ctl\<lparr>ktPM := pm, ktTransport := HandleEvents out (ktTransport ctl), ktVM := VisitorMgr_Close (ktVM ctl),
          ktConnClosed := True, ktCMClosed := True\<rparr>)
       (ProxyManager_Close (ktPM ctl))"

text \<open>The end of the worker, once the reader and the handler have ended: the channel of messages to send is closed first.\<close>

definition worker_finish :: "'c client_control \<Rightarrow> 'c client_control option" where
  "worker_finish ctl =
     (let tp = (ktTransport ctl)\<lparr>tpSendClosed := True\<rparr>
      in map_option (\<lambda>(out, pm). ctl\<lparr>ktPM := pm, ktTransport := HandleEvents out tp, ktVM := VisitorMgr_Close (ktVM ctl),
              ktDone := True, ktCMClosed := True\<rparr>)
           (ProxyManager_Close (ktPM ctl)))"

text \<open>The whole end of a control whose reader has ended: the handler takes the remaining messages and finds the channel closed,
  unless one of them ends it, and the worker finishes.\<close>

fun msgHandler_drain :: "handler_env \<Rightarrow> client_msg list \<Rightarrow> 'c client_control \<Rightarrow> 'c client_control" where
  "msgHandler_drain env [] ctl = ctl\<lparr>ktHandler := False\<rparr>"
| "msgHandler_drain env (m # ms) ctl =
     (if ktHandler ctl then msgHandler_drain env ms (msgHandler_message env m (ctl\<lparr>ktReadCh := ms\<rparr>)) else ctl)"

definition Control_worker :: "handler_env \<Rightarrow> 'c client_control \<Rightarrow> 'c client_control option" where
  "Control_worker env ctl = (if ktClosed ctl then worker_finish (msgHandler_drain env (ktReadCh ctl) ctl) else None)"

definition Control_ReloadConf :: "(string \<Rightarrow> string \<Rightarrow> string option) \<Rightarrow> string list \<Rightarrow> string list \<Rightarrow> (string \<times> ProxyConf) list \<Rightarrow>
    VisitorConf smap \<Rightarrow> 'c client_control \<Rightarrow> 'c client_control option" where
  "Control_ReloadConf bind old new pxyCfgs visitorCfgs ctl =
     (case VisitorMgr_Reload bind old new visitorCfgs (ktVM ctl) of
        None \<Rightarrow> None
      | Some vm \<Rightarrow>
          map_option (\<lambda>(out, pm). ctl\<lparr>ktVM := vm, ktPM := pm, ktTransport := HandleEvents out (ktTransport ctl)\<rparr>)
            (ProxyManager_Reload proxy_base_info pxyCfgs (ktPM ctl)))"

text \<open>A tick of the wrapper of a proxy and a round of its health check.\<close>

definition proxy_tick :: "int \<Rightarrow> string \<Rightarrow> 'c client_control \<Rightarrow> 'c client_control" where
  "proxy_tick now name ctl =
     (case map_of (ktPM ctl) name of
        None \<Rightarrow> ctl
      | Some pw \<Rightarrow>
          (let pw' = checkWorker_tick proxy_start_msg now pw
           in ctl\<lparr>ktPM := AList.update name pw' (ktPM ctl), ktTransport := HandleEvents (sent_since pw pw') (ktTransport ctl)\<rparr>))"

definition proxy_check :: "bool \<Rightarrow> string \<Rightarrow> 'c client_control \<Rightarrow> 'c client_control" where
  "proxy_check ok name ctl =
     (case map_of (ktPM ctl) name of
        None \<Rightarrow> ctl
      | Some pw \<Rightarrow> ctl\<lparr>ktPM := AList.update name (monitor_round ok pw) (ktPM ctl)\<rparr>)"

section \<open>Interleavings\<close>

text \<open>Configurations by their own names, as a loaded file gives them.\<close>

definition confs_named :: "(string \<times> ProxyConf) list \<Rightarrow> VisitorConf smap \<Rightarrow> bool" where
  "confs_named pxyCfgs visitorCfgs \<longleftrightarrow> distinct (map fst pxyCfgs) \<and>
     (\<forall>(name, cfg) \<in> set pxyCfgs. BaseProxyConf.bProxyName (GetBaseConfig cfg) = name) \<and>
     (\<forall>n c. visitorCfgs n = Some c \<longrightarrow> visitor_conf_ok n c)"

inductive ctl_step :: "ClientCommonConf \<Rightarrow> 'c client_control \<Rightarrow> 'c client_control \<Rightarrow> bool" for cfg where
  read: "ctl_step cfg ctl (ctl\<lparr>ktHand := Some m\<rparr>)" if "\<not> ktClosed ctl" "ktHand ctl = None"
| put: "ctl_step cfg ctl (ctl\<lparr>ktHand := None, ktReadCh := ktReadCh ctl @ [m]\<rparr>)"
  if "ktHand ctl = Some m" "length (ktReadCh ctl) < readCh_cap"
| exit: "ctl_step cfg ctl (client_reader_exit eof ctl)" if "\<not> ktClosed ctl" "ktHand ctl = None"
| handle: "ctl_step cfg ctl (msgHandler_message env m (ctl\<lparr>ktReadCh := ms\<rparr>))" if "ktHandler ctl" "ktReadCh ctl = m # ms"
| handled: "ctl_step cfg ctl (ctl\<lparr>ktHandler := False\<rparr>)" if "ktHandler ctl" "ktReadCh ctl = []" "ktClosed ctl"
| ping: "ctl_step cfg ctl (msgHandler_ping aenv setter ctl)" if "ktHandler ctl"
| check: "ctl_step cfg ctl (msgHandler_check cfg now ctl)" if "ktHandler ctl"
| finish: "ctl_step cfg ctl ctl'" if "ktClosed ctl" "\<not> ktHandler ctl" "\<not> ktDone ctl" "worker_finish ctl = Some ctl'"
| close: "ctl_step cfg ctl ctl'" if "Control_GracefulClose ctl = Some ctl'"
| reload: "ctl_step cfg ctl ctl'"
  if "confs_named pxyCfgs visitorCfgs" "set old = dom (vmCfgs (ktVM ctl))" "set new = dom visitorCfgs"
    "Control_ReloadConf bind old new pxyCfgs visitorCfgs ctl = Some ctl'"
| tick: "ctl_step cfg ctl (proxy_tick now name ctl)"
| health: "ctl_step cfg ctl (proxy_check ok name ctl)"
| visitors: "ctl_step cfg ctl (ctl\<lparr>ktVM := vm\<rparr>)" if "VisitorMgr_tick bind names (ktVM ctl) = Some vm"
| request: "ctl_step cfg ctl (ctl\<lparr>ktTransport := tp\<rparr>)" if "Do_begin req key ty (ktTransport ctl) = (r, tp)"
| response: "ctl_step cfg ctl (ctl\<lparr>ktTransport := tp\<rparr>)" if "Do_finish ev ch key ty (ktTransport ctl) = Some (x, tp)"

inductive ctl_reach :: "ClientCommonConf \<Rightarrow> 'c client_control \<Rightarrow> bool" for cfg where
  start: "ctl_reach cfg ctl"
  if "confs_named pxyCfgs visitorCfgs" "set names = dom visitorCfgs"
    "NewControl_client bind runID pxyCfgs names visitorCfgs = Some ctl0" "Control_Run now ctl0 = Some ctl"
| step: "ctl_reach cfg ctl \<Longrightarrow> ctl_step cfg ctl ctl' \<Longrightarrow> ctl_reach cfg ctl'"

definition ctl_inv :: "'c client_control \<Rightarrow> bool" where
  "ctl_inv ctl \<longleftrightarrow> pm_open (ktPM ctl) \<and> vmgr_inv (ktVM ctl)"

lemma Wrapper_keeps:
  "SetRunningStatus now runErr addr e pw = (err, pw') \<Longrightarrow> wName pw' = wName pw \<and> closeCh_closed pw' = closeCh_closed pw"
  "wName (checkWorker_tick marshal now pw) = wName pw" "closeCh_closed (checkWorker_tick marshal now pw) = closeCh_closed pw"
  by (auto simp: SetRunningStatus_def checkWorker_tick_def Wrapper_close_def Let_def split: if_splits option.splits)

lemma StartProxy_open: "pm_open ps \<Longrightarrow> StartProxy now runErr name addr e ps = (err, ps') \<Longrightarrow> pm_open ps'"
  by (auto simp: StartProxy_def split: option.splits prod.splits intro!: pm_open_update dest!: Wrapper_keeps(1))

lemma HandleNewProxyResp_keeps:
  assumes "HandleNewProxyResp now runErr srv name addr e ctl = (out, ctl')"
  shows "ktVM ctl' = ktVM ctl" "ktClosed ctl' = ktClosed ctl" "ktReadCh ctl' = ktReadCh ctl" "ktHand ctl' = ktHand ctl"
    "ktDone ctl' = ktDone ctl" "ktHandler ctl' = ktHandler ctl" "pm_open (ktPM ctl) \<Longrightarrow> pm_open (ktPM ctl')"
  using assms by (auto simp: HandleNewProxyResp_def Let_def split: prod.splits option.splits dest: StartProxy_open)

lemma msgHandler_message_keeps:
  "ktVM (msgHandler_message env m ctl) = ktVM ctl" "ktClosed (msgHandler_message env m ctl) = ktClosed ctl"
  "ktReadCh (msgHandler_message env m ctl) = ktReadCh ctl" "ktHand (msgHandler_message env m ctl) = ktHand ctl"
  "ktDone (msgHandler_message env m ctl) = ktDone ctl" "pm_open (ktPM ctl) \<Longrightarrow> pm_open (ktPM (msgHandler_message env m ctl))"
  "\<not> ktHandler ctl \<Longrightarrow> \<not> ktHandler (msgHandler_message env m ctl)"
  by (cases m; auto simp: msgHandler_message_def split: prod.split start_outcome.split dest: HandleNewProxyResp_keeps)+

lemma msgHandler_timer_keeps:
  "ktVM (msgHandler_ping a setter ctl) = ktVM ctl" "ktPM (msgHandler_ping a setter ctl) = ktPM ctl"
  "ktVM (msgHandler_check cfg now ctl) = ktVM ctl" "ktPM (msgHandler_check cfg now ctl) = ktPM ctl"
  by (auto simp: msgHandler_ping_def msgHandler_check_def split: prod.split option.split)

lemma vmgr_inv_Close: "vmgr_inv m \<Longrightarrow> vmgr_inv (VisitorMgr_Close m)"
  by (auto simp: vmgr_inv_def VisitorMgr_Close_def Visitor_Close_def)

lemma confs_namedD:
  assumes "confs_named pxyCfgs visitorCfgs"
  shows "distinct (map fst pxyCfgs)" "(name, cfg) \<in> set pxyCfgs \<Longrightarrow> bProxyName (proxy_base_info cfg) = name"
    "visitorCfgs n = Some c \<Longrightarrow> visitor_conf_ok n c"
  using assms by (auto simp: confs_named_def proxy_base_info_def Let_def)

lemma Control_ReloadConf_inv:
  assumes "ctl_inv ctl" "confs_named pxyCfgs visitorCfgs" "set old = dom (vmCfgs (ktVM ctl))" "set new = dom visitorCfgs"
    and "Control_ReloadConf bind old new pxyCfgs visitorCfgs ctl = Some ctl'"
  shows "ctl_inv ctl'"
proof -
  note C = confs_namedD [OF assms(2)]
  from assms(1) have inv: "pm_open (ktPM ctl)" "vmgr_inv (ktVM ctl)" by (simp_all add: ctl_inv_def)
  from assms(5) obtain vm out pm where r: "VisitorMgr_Reload bind old new visitorCfgs (ktVM ctl) = Some vm"
    "ProxyManager_Reload proxy_base_info pxyCfgs (ktPM ctl) = Some (out, pm)" "ktVM ctl' = vm" "ktPM ctl' = pm"
    by (auto simp: Control_ReloadConf_def split: option.splits)
  from VisitorMgr_Reload_ok [OF inv(2) C(3) assms(3,4), of bind] r(1) have "vmgr_inv vm" by auto
  with ProxyManager_Reload_open [OF inv(1) C(1) C(2) r(2)] r show ?thesis by (simp add: ctl_inv_def)
qed

lemma ctl_step_inv: "ctl_step cfg ctl ctl' \<Longrightarrow> ctl_inv ctl \<Longrightarrow> ctl_inv ctl'"
proof (induction rule: ctl_step.induct)
  case (reload pxyCfgs visitorCfgs old ctl new bind ctl')
  from Control_ReloadConf_inv [OF reload(5,1,2,3,4)] show ?case .
next
  case (close ctl ctl')
  then show ?case by (auto simp: ctl_inv_def Control_GracefulClose_def ProxyManager_Close_def pm_open_def vmgr_inv_Close split: option.splits)
next
  case (finish ctl ctl')
  then show ?case
    by (auto simp: ctl_inv_def worker_finish_def Let_def ProxyManager_Close_def pm_open_def vmgr_inv_Close split: option.splits)
next
  case (visitors bind names ctl vm)
  from visitors(2) have "vmgr_inv (ktVM ctl)" by (simp add: ctl_inv_def)
  from VisitorMgr_tick_ok [OF this, of bind names] visitors show ?case by (auto simp: ctl_inv_def)
next
  case (tick ctl now name)
  then show ?case by (auto simp: ctl_inv_def proxy_tick_def Let_def Wrapper_keeps intro!: pm_open_update split: option.split)
next
  case (health ctl ok name)
  then show ?case by (auto simp: ctl_inv_def proxy_check_def monitor_round_keeps intro!: pm_open_update split: option.split)
qed (simp_all add: ctl_inv_def client_reader_exit_def msgHandler_message_keeps msgHandler_timer_keeps)

lemma ctl_reach_inv:
  fixes ctl :: "'c client_control"
  shows "ctl_reach cfg ctl \<Longrightarrow> ctl_inv ctl"
proof (induction rule: ctl_reach.induct)
  case (start pxyCfgs visitorCfgs names bind runID ctl0 now ctl)
  note C = confs_namedD [OF start(1)]
  have new: "vmgr_inv (NewVisitorMgr :: 'c visitor_manager)" "set [] = dom (vmCfgs (NewVisitorMgr :: 'c visitor_manager))"
    by (simp_all add: vmgr_inv_def NewVisitorMgr_def)
  from start(3) obtain vm where vm: "VisitorMgr_Reload bind [] names visitorCfgs NewVisitorMgr = Some vm" "ktVM ctl0 = vm" "ktPM ctl0 = []"
    "ktPxyCfgs ctl0 = pxyCfgs" by (auto simp: NewControl_client_def)
  from VisitorMgr_Reload_ok [OF new(1) C(3) new(2) start(2), of bind] vm(1) have "vmgr_inv vm" by auto
  moreover from start(4) vm obtain out pm where "ProxyManager_Reload proxy_base_info pxyCfgs [] = Some (out, pm)" "ktPM ctl = pm" "ktVM ctl = vm"
    by (auto simp: Control_Run_def)
  moreover have "pm_open []" by (simp add: pm_open_def)
  ultimately show ?case using ProxyManager_Reload_open [OF _ C(1) C(2)] by (auto simp: ctl_inv_def)
next
  case (step ctl ctl')
  from ctl_step_inv [OF step(2,3)] show ?case .
qed

section \<open>The end of a control\<close>

lemma msgHandler_drain_steps:
  "ktClosed ctl \<Longrightarrow> ktReadCh ctl = ms \<Longrightarrow> (ctl_step cfg)\<^sup>*\<^sup>* ctl (msgHandler_drain env ms ctl)"
proof (induction ms arbitrary: ctl)
  case Nil
  show ?case
  proof (cases "ktHandler ctl")
    case True
    from ctl_step.handled [OF this Nil(2,1)] show ?thesis by (auto intro: r_into_rtranclp)
  next
    case False
    then have "ctl\<lparr>ktHandler := False\<rparr> = ctl" by (cases ctl) simp
    then show ?thesis by simp
  qed
next
  case (Cons m ms)
  show ?case
  proof (cases "ktHandler ctl")
    case True
    let ?ctl = "msgHandler_message env m (ctl\<lparr>ktReadCh := ms\<rparr>)"
    have "ctl_step cfg ctl ?ctl" using True Cons.prems(2) by (rule ctl_step.handle)
    moreover have "(ctl_step cfg)\<^sup>*\<^sup>* ?ctl (msgHandler_drain env ms ?ctl)"
      using Cons.prems(1) by (intro Cons.IH) (simp_all add: msgHandler_message_keeps)
    ultimately show ?thesis using True by (simp add: converse_rtranclp_into_rtranclp)
  qed simp
qed

lemma msgHandler_drain_ends:
  "\<not> ktHandler (msgHandler_drain env ms ctl) \<and> ktClosed (msgHandler_drain env ms ctl) = ktClosed ctl \<and>
   ktDone (msgHandler_drain env ms ctl) = ktDone ctl"
  by (induction ms arbitrary: ctl) (simp_all add: msgHandler_message_keeps)

lemma ctl_steps_reach: "(ctl_step cfg)\<^sup>*\<^sup>* ctl ctl' \<Longrightarrow> ctl_reach cfg ctl \<Longrightarrow> ctl_reach cfg ctl'"
  by (induction rule: rtranclp_induct) (auto intro: ctl_reach.step)

lemma Control_worker_ends:
  assumes "ctl_reach cfg ctl" "ktClosed ctl" "\<not> ktDone ctl"
  shows "\<exists>ctl'. Control_worker env ctl = Some ctl' \<and> (ctl_step cfg)\<^sup>*\<^sup>* ctl ctl' \<and> ktDone ctl' \<and> ktCMClosed ctl' \<and> ktPM ctl' = [] \<and>
    tpSendClosed (ktTransport ctl') \<and>
    (\<forall>n v. vmVisitors (ktVM ctl') n = Some v \<longrightarrow> \<not> cvListening v \<and> iclosed (cvInternal v)) \<and> vmStopped (ktVM ctl')"
proof -
  let ?d = "msgHandler_drain env (ktReadCh ctl) ctl"
  have steps: "(ctl_step cfg)\<^sup>*\<^sup>* ctl ?d" using assms(2) by (intro msgHandler_drain_steps) simp_all
  have d: "ktClosed ?d" "\<not> ktHandler ?d" "\<not> ktDone ?d" using msgHandler_drain_ends [of env "ktReadCh ctl" ctl] assms by auto
  have "pm_open (ktPM ?d)" using ctl_reach_inv [OF ctl_steps_reach [OF steps assms(1)]] by (simp add: ctl_inv_def)
  from ProxyManager_Close_open [OF this] obtain out where out: "ProxyManager_Close (ktPM ?d) = Some (out, [])" by blast
  have closed: "tpSendClosed (HandleEvents ps tp) = tpSendClosed tp" for ps and tp :: "client_msg transporter"
    by (induction ps arbitrary: tp) (simp_all add: HandleEvents_def Transporter_Send_def)
  obtain ctl' where fin: "worker_finish ?d = Some ctl'" "ktDone ctl'" "ktCMClosed ctl'" "ktPM ctl' = []"
    "tpSendClosed (ktTransport ctl')" "ktVM ctl' = VisitorMgr_Close (ktVM ?d)"
    using out closed by (auto simp: worker_finish_def Let_def)
  from ctl_step.finish [OF d fin(1)] steps have "(ctl_step cfg)\<^sup>*\<^sup>* ctl ctl'" by (rule rtranclp.rtrancl_into_rtrancl [rotated])
  moreover have "Control_worker env ctl = Some ctl'" using assms(2) fin(1) by (simp add: Control_worker_def)
  moreover have "\<not> cvListening v \<and> iclosed (cvInternal v)" if "vmVisitors (ktVM ctl') n = Some v" for n v
    using that by (auto simp: fin(6) VisitorMgr_Close_def Visitor_Close_def InternalListener_Close_def)
  ultimately show ?thesis using fin(2-6) by (auto simp: VisitorMgr_Close_def)
qed


lemma idle_control_reach:
  "\<exists>ctl. ctl_reach cfg (ctl :: nat client_control) \<and> ktHandler ctl \<and> \<not> ktClosed ctl \<and> \<not> ktDone ctl \<and> ktHand ctl = None \<and>
     ktReadCh ctl = [] \<and> ktPM ctl = [] \<and> ktPxyCfgs ctl = [] \<and> vmCfgs (ktVM ctl) = Map.empty \<and> \<not> ktConnClosed ctl"
proof -
  let ?new = "\<lparr>ktRunID = ''r'', ktPxyCfgs = [], ktPM = [], ktVM = NewVisitorMgr, ktTransport = NewMessageTransporter, ktConnClosed = False,
     ktCMClosed = False, ktLastPong = 0, ktHand = None, ktReadCh = [], ktClosed = False, ktHandler = False, ktDone = False\<rparr> :: nat client_control"
  have new: "NewControl_client (\<lambda>_ _. None) ''r'' [] [] Map.empty = Some ?new"
    by (simp add: NewControl_client_def VisitorMgr_Reload_def)
  have run: "Control_Run 0 ?new = Some (?new\<lparr>ktHandler := True\<rparr>)"
    by (simp add: Control_Run_def ProxyManager_Reload_def HandleEvents_def)
  have named: "confs_named [] Map.empty" "set ([] :: string list) = dom Map.empty" by (simp_all add: confs_named_def)
  show ?thesis
    by (intro exI [of _ "?new\<lparr>ktHandler := True\<rparr>"] conjI ctl_reach.start [OF named new run]) (simp_all add: NewVisitorMgr_def)
qed


text \<open>A reader that is not blocked for ever lets the control end, once the connection is closed.\<close>

lemma ctl_reader_frees:
  assumes "ktHand ctl = None \<or> length (ktReadCh ctl) < readCh_cap \<or> ktHandler ctl \<and> length (ktReadCh ctl) = readCh_cap" "\<not> ktDone ctl"
  shows "\<exists>ctl'. (ctl_step cfg)\<^sup>*\<^sup>* ctl ctl' \<and> ktHand ctl' = None \<and> \<not> ktDone ctl'"
proof (cases "ktHand ctl")
  case (Some m)
  show ?thesis
  proof (cases "length (ktReadCh ctl) < readCh_cap")
    case True
    from ctl_step.put [OF Some True] assms(2) show ?thesis by (intro exI [of _ "ctl\<lparr>ktHand := None, ktReadCh := ktReadCh ctl @ [m]\<rparr>"]) auto
  next
    case False
    with Some assms(1) obtain x xs where x: "ktReadCh ctl = x # xs" "ktHandler ctl" "length (x # xs) = readCh_cap"
      by (cases "ktReadCh ctl") (auto simp: readCh_cap_def)
    let ?a = "msgHandler_message \<lparr>heNow = 0, heRunErr = None, heServerAddr = []\<rparr> x (ctl\<lparr>ktReadCh := xs\<rparr>)"
    have "ctl_step cfg ctl ?a" using x(2,1) by (rule ctl_step.handle)
    moreover have "ctl_step cfg ?a (?a\<lparr>ktHand := None, ktReadCh := ktReadCh ?a @ [m]\<rparr>)"
      by (rule ctl_step.put) (use x Some in \<open>simp_all add: msgHandler_message_keeps\<close>)
    ultimately have "(ctl_step cfg)\<^sup>*\<^sup>* ctl (?a\<lparr>ktHand := None, ktReadCh := ktReadCh ?a @ [m]\<rparr>)"
      by (simp add: converse_rtranclp_into_rtranclp r_into_rtranclp)
    with assms(2) show ?thesis
      by (intro exI [of _ "?a\<lparr>ktHand := None, ktReadCh := ktReadCh ?a @ [m]\<rparr>"]) (simp add: msgHandler_message_keeps)
  qed
qed (use assms(2) in auto)

lemma ctl_can_end:
  assumes "ctl_reach cfg ctl" "\<not> ktDone ctl"
    and "ktHand ctl = None \<or> length (ktReadCh ctl) < readCh_cap \<or> ktHandler ctl \<and> length (ktReadCh ctl) = readCh_cap"
  shows "\<exists>ctl'. (ctl_step cfg)\<^sup>*\<^sup>* ctl ctl' \<and> ktDone ctl'"
proof -
  obtain a where a: "(ctl_step cfg)\<^sup>*\<^sup>* ctl a" "ktHand a = None" "\<not> ktDone a" using ctl_reader_frees [OF assms(3,2)] by blast
  obtain b where b: "(ctl_step cfg)\<^sup>*\<^sup>* a b" "ktClosed b" "\<not> ktDone b"
  proof (cases "ktClosed a")
    case False
    from ctl_step.exit [OF False a(2), of cfg True] show ?thesis
      by (intro that [of "client_reader_exit True a"]) (use a(3) in \<open>auto simp: client_reader_exit_def\<close>)
  qed (use a(3) that in blast)
  have ab: "(ctl_step cfg)\<^sup>*\<^sup>* ctl b" using a(1) b(1) by (rule rtranclp_trans)
  from Control_worker_ends [OF ctl_steps_reach [OF ab assms(1)] b(2,3)] obtain c where "(ctl_step cfg)\<^sup>*\<^sup>* b c" "ktDone c" by blast
  with ab show ?thesis by (meson rtranclp_trans)
qed

section \<open>A handler that ends alone\<close>

text \<open>Without a handler the channel fills; the reader then holds a message it cannot pass on.\<close>

definition stalled :: "'c client_control \<Rightarrow> bool" where
  "stalled ctl \<longleftrightarrow> \<not> ktHandler ctl \<and> \<not> ktClosed ctl \<and> \<not> ktDone ctl \<and> ktHand ctl \<noteq> None \<and> length (ktReadCh ctl) = readCh_cap"

lemma stalled_step: "ctl_step cfg ctl ctl' \<Longrightarrow> stalled ctl \<Longrightarrow> stalled ctl' \<and> ktReadCh ctl' = ktReadCh ctl"
  by (induction rule: ctl_step.induct)
    (auto simp: stalled_def Control_GracefulClose_def Control_ReloadConf_def proxy_tick_def proxy_check_def Let_def split: option.splits)

lemma stalled_steps: "(ctl_step cfg)\<^sup>*\<^sup>* ctl ctl' \<Longrightarrow> stalled ctl \<Longrightarrow> stalled ctl' \<and> ktReadCh ctl' = ktReadCh ctl"
proof (induction rule: rtranclp_induct)
  case (step ctl1 ctl2)
  with stalled_step [OF step(2)] show ?case by simp
qed simp

lemma read_many:
  assumes "\<not> ktClosed ctl" "ktHand ctl = None" "length (ktReadCh ctl) + length ms \<le> readCh_cap"
  shows "(ctl_step cfg)\<^sup>*\<^sup>* ctl (ctl\<lparr>ktReadCh := ktReadCh ctl @ ms\<rparr>)"
  using assms
proof (induction ms arbitrary: ctl)
  case (Cons m ms)
  let ?a = "ctl\<lparr>ktHand := Some m\<rparr>" and ?b = "ctl\<lparr>ktReadCh := ktReadCh ctl @ [m]\<rparr>"
  have "ctl_step cfg ctl ?a" using Cons.prems(1,2) by (rule ctl_step.read)
  moreover have "ctl_step cfg ?a ?b"
    using ctl_step.put [of ?a m cfg] Cons.prems(2,3) by (cases ctl) simp
  moreover have "(ctl_step cfg)\<^sup>*\<^sup>* ?b (?b\<lparr>ktReadCh := ktReadCh ?b @ ms\<rparr>)" using Cons.prems by (intro Cons.IH) simp_all
  ultimately show ?case by (simp add: converse_rtranclp_into_rtranclp)
qed simp

lemma dead_handler_stalls:
  assumes "\<not> ktHandler ctl" "\<not> ktClosed ctl" "\<not> ktDone ctl" "ktHand ctl = None" "ktReadCh ctl = []" "length ms = Suc readCh_cap"
  shows "\<exists>ctl'. (ctl_step cfg)\<^sup>*\<^sup>* ctl ctl' \<and>
    (\<forall>ctl''. (ctl_step cfg)\<^sup>*\<^sup>* ctl' ctl'' \<longrightarrow> \<not> ktDone ctl'' \<and> \<not> ktClosed ctl'' \<and> ktReadCh ctl'' = butlast ms)"
proof -
  let ?a = "ctl\<lparr>ktReadCh := ktReadCh ctl @ butlast ms\<rparr>" and ?b = "ctl\<lparr>ktReadCh := butlast ms, ktHand := Some (last ms)\<rparr>"
  have "(ctl_step cfg)\<^sup>*\<^sup>* ctl ?a" using assms by (intro read_many) simp_all
  moreover have "ctl_step cfg ?a ?b" using ctl_step.read [of ?a cfg "last ms"] assms(2,4,5) by simp
  ultimately have "(ctl_step cfg)\<^sup>*\<^sup>* ctl ?b" by (rule rtranclp.rtrancl_into_rtrancl)
  moreover have "stalled ?b" using assms by (simp add: stalled_def)
  ultimately show ?thesis using stalled_steps [of cfg ?b] by (intro exI [of _ ?b]) (auto simp: stalled_def)
qed

lemma HandleEvents_Nil [simp]: "HandleEvents [] tp = tp"
  by (simp add: HandleEvents_def)

text \<open>The answer to the registration of a proxy that waits for one, when the control was created without its configuration.\<close>

lemma unknown_proxy_ends_handler:
  assumes "map_of (ktPM ctl) n = Some pw" "Phase pw = ProxyPhaseWaitStart" "map_of (ktPxyCfgs ctl) n = None" "heRunErr env = None"
  shows "\<not> ktHandler (msgHandler_message env (CNewProxyResp n addr []) ctl)"
    "\<exists>pw'. map_of (ktPM (msgHandler_message env (CNewProxyResp n addr []) ctl)) n = Some pw' \<and> Phase pw' = ProxyPhaseRunning"
  using assms by (auto simp: msgHandler_message_def HandleNewProxyResp_def StartProxy_def SetRunningStatus_def Let_def update_conv')

lemma reload_adds_wrapper:
  assumes inv: "ctl_inv ctl" and named: "confs_named pxyCfgs visitorCfgs"
    and vis: "set old = dom (vmCfgs (ktVM ctl))" "set new = dom visitorCfgs"
    and n: "map_of pxyCfgs n = Some c" "map_of (ktPM ctl) n = None"
  obtains ctl' where "Control_ReloadConf bind old new pxyCfgs visitorCfgs ctl = Some ctl'"
    "map_of (ktPM ctl') n = Some (NewWrapper proxy_base_info c)" "ktPxyCfgs ctl' = ktPxyCfgs ctl" "ktHandler ctl' = ktHandler ctl"
    "ktClosed ctl' = ktClosed ctl" "ktDone ctl' = ktDone ctl" "ktHand ctl' = ktHand ctl" "ktReadCh ctl' = ktReadCh ctl"
proof -
  note C = confs_namedD [OF named]
  from inv have i: "pm_open (ktPM ctl)" "vmgr_inv (ktVM ctl)" by (simp_all add: ctl_inv_def)
  then have "distinct (map fst (ktPM ctl))" "\<forall>(name, pw) \<in> set (ktPM ctl). \<not> closeCh_closed pw" by (auto simp: pm_open_def)
  from ProxyManager_Reload_ok [OF this(1) C(1) this(2), of proxy_base_info] n obtain out pm where
    pm: "ProxyManager_Reload proxy_base_info pxyCfgs (ktPM ctl) = Some (out, pm)" "map_of pm n = Some (NewWrapper proxy_base_info c)" by force
  from VisitorMgr_Reload_ok [OF i(2) C(3) vis, of bind] obtain vm where "VisitorMgr_Reload bind old new visitorCfgs (ktVM ctl) = Some vm" by blast
  with pm show ?thesis
    by (intro that [of "ctl\<lparr>ktVM := vm, ktPM := pm, ktTransport := HandleEvents out (ktTransport ctl)\<rparr>"])
      (simp_all add: Control_ReloadConf_def)
qed

text \<open>A reload that adds a proxy ends in a client that handles no message any more: the new proxy registers, and the
  server's answer that it runs makes the message handler dereference a configuration that is missing in the
  control's own table. The proxy counts as running, but the handler has ended and the connection stays
  open: no request for a work connection is answered, and after 101 further messages the reader blocks for ever, so that
  the control never ends, not even when the server closes the connection or the client is told to close.\<close>

lemma reload_ends_handler:
  fixes ctl :: "'c client_control"
  assumes reach: "ctl_reach cfg ctl" and idle: "ktHandler ctl" "\<not> ktClosed ctl" "\<not> ktDone ctl" "ktHand ctl = None" "ktReadCh ctl = []"
    and named: "confs_named pxyCfgs visitorCfgs" "set old = dom (vmCfgs (ktVM ctl))" "set new = dom visitorCfgs"
    and n: "map_of pxyCfgs n = Some c" "map_of (ktPM ctl) n = None" "map_of (ktPxyCfgs ctl) n = None"
    and healthy: "HealthCheckType (bHealthCheckConf (GetBaseConfig c)) = []" and env: "heRunErr env = None"
  shows "\<exists>ctl1 ctl2. Control_ReloadConf bind old new pxyCfgs visitorCfgs ctl = Some ctl1 \<and>
    ctl2 = msgHandler_message env (CNewProxyResp n addr []) (proxy_tick now n ctl1) \<and> (ctl_step cfg)\<^sup>*\<^sup>* ctl ctl2 \<and>
    \<not> ktHandler ctl2 \<and> (\<exists>pw. map_of (ktPM ctl2) n = Some pw \<and> Phase pw = ProxyPhaseRunning) \<and>
    (\<forall>ms. length ms = Suc readCh_cap \<longrightarrow> (\<exists>ctl3. (ctl_step cfg)\<^sup>*\<^sup>* ctl2 ctl3 \<and>
       (\<forall>ctl4. (ctl_step cfg)\<^sup>*\<^sup>* ctl3 ctl4 \<longrightarrow> \<not> ktDone ctl4 \<and> \<not> ktClosed ctl4 \<and> ktReadCh ctl4 = butlast ms)))"
proof -
  obtain ctl1 where r: "Control_ReloadConf bind old new pxyCfgs visitorCfgs ctl = Some ctl1"
    "map_of (ktPM ctl1) n = Some (NewWrapper proxy_base_info c)" "ktPxyCfgs ctl1 = ktPxyCfgs ctl" "ktHandler ctl1 = ktHandler ctl"
    "ktClosed ctl1 = ktClosed ctl" "ktDone ctl1 = ktDone ctl" "ktHand ctl1 = ktHand ctl" "ktReadCh ctl1 = ktReadCh ctl"
    by (rule reload_adds_wrapper [OF ctl_reach_inv [OF reach] named n(1,2)])
  let ?t = "proxy_tick now n ctl1" and ?m = "CNewProxyResp n addr []"
  let ?w = "checkWorker_tick proxy_start_msg now (NewWrapper proxy_base_info c)"
  have w: "map_of (ktPM ?t) n = Some ?w" by (simp add: proxy_tick_def r(2) Let_def update_conv')
  have "Phase ?w = ProxyPhaseWaitStart" using healthy by (simp add: checkWorker_tick_def NewWrapper_def proxy_base_info_def Let_def)
  moreover have t: "ktPxyCfgs ?t = ktPxyCfgs ctl" "ktHandler ?t" "\<not> ktClosed ?t" "\<not> ktDone ?t" "ktHand ?t = None" "ktReadCh ?t = []"
    using r idle by (simp_all add: proxy_tick_def Let_def)
  ultimately have dead: "\<not> ktHandler (msgHandler_message env ?m ?t)"
    "\<exists>pw. map_of (ktPM (msgHandler_message env ?m ?t)) n = Some pw \<and> Phase pw = ProxyPhaseRunning"
    using unknown_proxy_ends_handler [OF w _ _ env] n(3) by simp_all
  have same: "?t\<lparr>ktReadCh := []\<rparr> = ?t" using t(6) by (cases ?t) simp
  have s1: "ctl_step cfg ctl ctl1" using named r(1) by (rule ctl_step.reload)
  have s2: "ctl_step cfg ctl1 ?t" by (rule ctl_step.tick)
  have s3: "(ctl_step cfg)\<^sup>*\<^sup>* ?t (?t\<lparr>ktReadCh := ktReadCh ?t @ [?m]\<rparr>)"
    by (rule read_many) (use t in \<open>simp_all add: readCh_cap_def\<close>)
  have s4: "ctl_step cfg (?t\<lparr>ktReadCh := ktReadCh ?t @ [?m]\<rparr>) (msgHandler_message env ?m ?t)"
    using ctl_step.handle [of "?t\<lparr>ktReadCh := [?m]\<rparr>" ?m "[]" cfg env] t same by simp
  have "(ctl_step cfg)\<^sup>*\<^sup>* ctl ?t" by (rule rtranclp.rtrancl_into_rtrancl [where r = "ctl_step cfg", OF _ s2]) (rule r_into_rtranclp, rule s1)
  then have "(ctl_step cfg)\<^sup>*\<^sup>* ctl (?t\<lparr>ktReadCh := ktReadCh ?t @ [?m]\<rparr>)" using s3 by (rule rtranclp_trans)
  then have "(ctl_step cfg)\<^sup>*\<^sup>* ctl (msgHandler_message env ?m ?t)" using s4 by (rule rtranclp.rtrancl_into_rtrancl)
  with r(1) dead dead_handler_stalls [of "msgHandler_message env ?m ?t" _ cfg] t show ?thesis
    by (simp add: msgHandler_message_keeps)
qed

definition added_conf :: ProxyConf where
  "added_conf = TCPConf ((zero_base (TCPProxyConf.fields 6000))\<lparr>BaseProxyConf.bProxyName := ''p'', BaseProxyConf.bProxyType := ''tcp''\<rparr>)"

end
