(* ===== verification/TLS_Config.thy ===== *)
theory TLS_Config
  imports Client_Config
begin

text \<open>
  Model of \<^verbatim>\<open>pkg/transport/tls.go\<close>, of the dial hooks of \<^verbatim>\<open>pkg/util/net/dial.go\<close> and of the first step of a connection on the
  server (\<^verbatim>\<open>pkg/util/net/tls.go\<close> and \<^verbatim>\<open>HandleListener\<close> of \<^verbatim>\<open>server/service.go\<close>). Loading a key pair, generating one, reading a file
  and finding the certificates in it are the standard library and the file system: \<open>tls_env\<close>.
\<close>

record tls_env =
  teLoadX509KeyPair :: "string \<Rightarrow> string \<Rightarrow> (string, string) result"
  teGenerate :: "string option"
  teReadFile :: "string \<Rightarrow> (string, string) result"
  teCertsFromPEM :: "string \<Rightarrow> string list"

record tls_config =
  tlsCertificates :: "string list"
  tlsServerName :: string
  tlsRootCAs :: "string list option"
  tlsInsecureSkipVerify :: bool
  tlsRequireClientCert :: bool
  tlsClientCAs :: "string list option"
  tlsNextProtos :: "string list"

definition empty_tls :: tls_config where
  "empty_tls = \<lparr>tlsCertificates = [], tlsServerName = [], tlsRootCAs = None, tlsInsecureSkipVerify = False,
     tlsRequireClientCert = False, tlsClientCAs = None, tlsNextProtos = []\<rparr>"

definition newCustomTLSKeyPair :: "tls_env \<Rightarrow> string \<Rightarrow> string \<Rightarrow> (string, string) result" where
  "newCustomTLSKeyPair env certfile keyfile = teLoadX509KeyPair env certfile keyfile"

text \<open>\<open>None\<close>: the generation of a key or certificate failed, which panics.\<close>

definition newRandomTLSKeyPair :: "tls_env \<Rightarrow> string option" where
  "newRandomTLSKeyPair env = teGenerate env"

definition newCertPool :: "tls_env \<Rightarrow> string \<Rightarrow> (string, string list) result" where
  "newCertPool env caPath = (case teReadFile env caPath of Inl e \<Rightarrow> Inl e | Inr caCrt \<Rightarrow> Inr (teCertsFromPEM env caCrt))"

definition NewServerTLSConfig :: "tls_env \<Rightarrow> string \<Rightarrow> string \<Rightarrow> string \<Rightarrow> (string, tls_config) result option" where
  "NewServerTLSConfig env certPath keyPath caPath =
     map_option
       (\<lambda>cert. case cert of
          Inl e \<Rightarrow> Inl e
        | Inr c \<Rightarrow>
            (let base = empty_tls\<lparr>tlsCertificates := [c]\<rparr>
             in if caPath \<noteq> []
                then (case newCertPool env caPath of
                        Inl e \<Rightarrow> Inl e
                      | Inr pool \<Rightarrow> Inr (base\<lparr>tlsRequireClientCert := True, tlsClientCAs := Some pool\<rparr>))
                else Inr base))
       (if certPath = [] \<or> keyPath = [] then map_option Inr (newRandomTLSKeyPair env)
        else Some (newCustomTLSKeyPair env certPath keyPath))"

definition NewClientTLSConfig :: "tls_env \<Rightarrow> string \<Rightarrow> string \<Rightarrow> string \<Rightarrow> string \<Rightarrow> (string, tls_config) result" where
  "NewClientTLSConfig env certPath keyPath caPath serverName =
     (case (if certPath \<noteq> [] \<and> keyPath \<noteq> [] then map_sum id (\<lambda>c. [c]) (newCustomTLSKeyPair env certPath keyPath) else Inr []) of
        Inl e \<Rightarrow> Inl e
      | Inr certs \<Rightarrow>
          (let base = empty_tls\<lparr>tlsCertificates := certs, tlsServerName := serverName\<rparr>
           in if caPath \<noteq> []
              then (case newCertPool env caPath of
                      Inl e \<Rightarrow> Inl e
                    | Inr pool \<Rightarrow> Inr (base\<lparr>tlsRootCAs := Some pool, tlsInsecureSkipVerify := False\<rparr>))
              else Inr (base\<lparr>tlsInsecureSkipVerify := True\<rparr>)))"

section \<open>Hooks of a dial\<close>

definition FRPTLSHeadByte :: int where "FRPTLSHeadByte = 23"

text \<open>The bytes the hook writes before the handshake.\<close>

definition DialHookCustomTLSHeadByte :: "bool \<Rightarrow> bool \<Rightarrow> int list" where
  "DialHookCustomTLSHeadByte enableTLS disableCustomTLSHeadByte = (if enableTLS \<and> \<not> disableCustomTLSHeadByte then [FRPTLSHeadByte] else [])"

definition FrpWebsocketPath :: string where "FrpWebsocketPath = ''/~!frp''"

text \<open>The address of the websocket.\<close>

definition DialHookWebsocket :: "string \<Rightarrow> string \<Rightarrow> string \<Rightarrow> string" where
  "DialHookWebsocket protocol host addr =
     (if protocol \<noteq> ''wss'' then ''ws'' else protocol) @ ''://'' @ (if host = [] then addr else host) @ FrpWebsocketPath"

section \<open>What the configurations verify\<close>

lemma NewClientTLSConfig_verifies:
  assumes "NewClientTLSConfig env certPath keyPath caPath serverName = Inr c"
  shows "tlsInsecureSkipVerify c \<longleftrightarrow> caPath = []" "tlsServerName c = serverName" "tlsRootCAs c = None \<longleftrightarrow> caPath = []"
  using assms by (auto simp: NewClientTLSConfig_def Let_def empty_tls_def split: sum.splits if_splits)

lemma NewServerTLSConfig_verifies:
  assumes "NewServerTLSConfig env certPath keyPath caPath = Some (Inr c)"
  shows "tlsRequireClientCert c \<longleftrightarrow> caPath \<noteq> []" "\<exists>cert. tlsCertificates c = [cert]"
proof -
  from assms obtain z where z: "(case z of
          Inl e \<Rightarrow> Inl e
        | Inr k \<Rightarrow>
            (let base = empty_tls\<lparr>tlsCertificates := [k]\<rparr>
             in if caPath \<noteq> []
                then (case newCertPool env caPath of
                        Inl e \<Rightarrow> Inl e
                      | Inr pool \<Rightarrow> Inr (base\<lparr>tlsRequireClientCert := True, tlsClientCAs := Some pool\<rparr>))
                else Inr base)) = (Inr c :: (string, tls_config) result)"
    unfolding NewServerTLSConfig_def by (auto simp only: map_option_eq_Some)
  then show "tlsRequireClientCert c \<longleftrightarrow> caPath \<noteq> []" "\<exists>cert. tlsCertificates c = [cert]"
    by (cases z; auto simp: Let_def empty_tls_def split: sum.splits if_splits)+
qed

text \<open>Only a server without its own key pair can panic here.\<close>

lemma NewServerTLSConfig_panics:
  "NewServerTLSConfig env certPath keyPath caPath = None \<longleftrightarrow> (certPath = [] \<or> keyPath = []) \<and> teGenerate env = None"
  by (simp add: NewServerTLSConfig_def newRandomTLSKeyPair_def)

section \<open>The listeners of the server\<close>

text \<open>The first byte of a connection decides whether it is TLS, with or without the custom byte in front. \<open>Inl\<close> is a read error. The
  result is \<open>isTLS\<close> and \<open>custom\<close>.\<close>

definition CheckAndEnableTLSServerConnWithTimeout :: "bool \<Rightarrow> (string, int) result \<Rightarrow> (string, bool \<times> bool) result" where
  "CheckAndEnableTLSServerConnWithTimeout tlsOnly readByte =
     (case readByte of
        Inl e \<Rightarrow> Inl e
      | Inr b \<Rightarrow>
          if b = FRPTLSHeadByte then Inr (True, True)
          else if b = 22 then Inr (True, False)
          else if tlsOnly then Inl ''non-TLS connection received on a TlsOnly server''
          else Inr (False, False))"

text \<open>A connection as the listener accepts it: what reading its first byte gives, the error of closing it, and the streams the
  multiplexer accepts on it or its error.\<close>

record 'c accepted =
  acConn :: 'c
  acFirst :: "(string, int) result"
  acCloseErr :: "string option"
  acStreams :: "(string, 'c list) result"

definition listener_streams :: "bool \<Rightarrow> 'c accepted \<Rightarrow> 'c list" where
  "listener_streams tcpMux c =
     (if tcpMux then (case acStreams c of Inl e \<Rightarrow> [] | Inr ss \<Rightarrow> ss) else [acConn c])"

text \<open>The accept loop, over the connections that arrive: what is handed to \<^verbatim>\<open>handleConnection\<close> with its outcome of the check, and
  whether the loop still accepts.\<close>

fun HandleListener :: "bool \<Rightarrow> bool \<Rightarrow> 'c accepted list \<Rightarrow> ('c \<times> bool \<times> bool) list \<times> bool" where
  "HandleListener tlsOnly tcpMux [] = ([], True)"
| "HandleListener tlsOnly tcpMux (c # cs) =
     (case CheckAndEnableTLSServerConnWithTimeout tlsOnly (acFirst c) of
        Inl e \<Rightarrow> (case acCloseErr c of Some e' \<Rightarrow> ([], False) | None \<Rightarrow> HandleListener tlsOnly tcpMux cs)
      | Inr t \<Rightarrow>
          (case HandleListener tlsOnly tcpMux cs of
             (handled, open) \<Rightarrow> (map (\<lambda>conn. (conn, t)) (listener_streams tcpMux c) @ handled, open)))"

definition conn_refused :: "bool \<Rightarrow> 'c accepted \<Rightarrow> bool" where
  "conn_refused tlsOnly c \<longleftrightarrow> (case CheckAndEnableTLSServerConnWithTimeout tlsOnly (acFirst c) of Inl e \<Rightarrow> True | Inr t \<Rightarrow> False)"

lemma HandleListener_refused:
  "conn_refused tlsOnly c \<Longrightarrow> HandleListener tlsOnly tcpMux (c # cs) = (if acCloseErr c = None then HandleListener tlsOnly tcpMux cs else ([], False))"
  by (auto simp: conn_refused_def split: sum.splits option.splits)

lemma HandleListener_append:
  "\<forall>c \<in> set cs. conn_refused tlsOnly c \<longrightarrow> acCloseErr c = None \<Longrightarrow>
   HandleListener tlsOnly tcpMux (cs @ ds) =
     (fst (HandleListener tlsOnly tcpMux cs) @ fst (HandleListener tlsOnly tcpMux ds), snd (HandleListener tlsOnly tcpMux ds))"
  by (induction cs) (auto simp: conn_refused_def split: sum.splits option.splits prod.splits)

lemma HandleListener_tls: "(conn, t) \<in> set (fst (HandleListener tlsOnly tcpMux cs)) \<Longrightarrow> tlsOnly \<Longrightarrow> fst t"
  by (induction cs) (auto simp: CheckAndEnableTLSServerConnWithTimeout_def split: sum.splits option.splits prod.splits if_splits)

lemma HandleListener_accepts:
  assumes "\<forall>c \<in> set cs. conn_refused tlsOnly c \<longrightarrow> acCloseErr c = None"
  shows "snd (HandleListener tlsOnly tcpMux cs)" "c \<in> set cs \<Longrightarrow> \<not> conn_refused tlsOnly c \<Longrightarrow> conn \<in> set (listener_streams tcpMux c) \<Longrightarrow>
    \<exists>t. (conn, t) \<in> set (fst (HandleListener tlsOnly tcpMux cs))"
  using assms by (induction cs) (auto 4 4 simp: conn_refused_def split: sum.splits option.splits prod.splits)

text \<open>With \<^verbatim>\<open>tls_only\<close> the server handles TLS connections only, and as long as closing refused connections succeeds it goes on
  accepting and handles every connection that passes the check. But the close of one refused connection that
  reports an error ends the accept loop: no connection that arrives later on this listener is handled, whatever it is.\<close>

lemma listener_admission:
  "(tlsOnly \<and> (conn, t) \<in> set (fst (HandleListener tlsOnly tcpMux cs)) \<longrightarrow> fst t) \<and>
   ((\<forall>c \<in> set cs. conn_refused tlsOnly c \<longrightarrow> acCloseErr c = None) \<longrightarrow>
      snd (HandleListener tlsOnly tcpMux cs) \<and>
      (\<forall>c \<in> set cs. \<not> conn_refused tlsOnly c \<longrightarrow> (\<forall>s \<in> set (listener_streams tcpMux c). \<exists>t. (s, t) \<in> set (fst (HandleListener tlsOnly tcpMux cs)))) \<and>
      (conn_refused tlsOnly bad \<and> acCloseErr bad \<noteq> None \<longrightarrow>
         HandleListener tlsOnly tcpMux (cs @ bad # later) = (fst (HandleListener tlsOnly tcpMux cs), False)))"
proof (intro conjI impI ballI)
  assume "tlsOnly \<and> (conn, t) \<in> set (fst (HandleListener tlsOnly tcpMux cs))"
  then show "fst t" by (elim conjE) (rule HandleListener_tls)
next
  assume ok: "\<forall>c \<in> set cs. conn_refused tlsOnly c \<longrightarrow> acCloseErr c = None"
  then show "snd (HandleListener tlsOnly tcpMux cs)" by (rule HandleListener_accepts(1))
  show "\<exists>t. (s, t) \<in> set (fst (HandleListener tlsOnly tcpMux cs))"
    if "c \<in> set cs" "\<not> conn_refused tlsOnly c" "s \<in> set (listener_streams tcpMux c)" for c s
    using HandleListener_accepts(2) [OF ok that] .
  show "HandleListener tlsOnly tcpMux (cs @ bad # later) = (fst (HandleListener tlsOnly tcpMux cs), False)"
    if "conn_refused tlsOnly bad \<and> acCloseErr bad \<noteq> None"
    using that by (auto simp add: HandleListener_append [OF ok] HandleListener_refused simp del: HandleListener.simps)
qed

end
