(* ===== verification/Client_Service.thy ===== *)
theory Client_Service
  imports Client_Control TLS_Config
begin

text \<open>
  Model of \<^verbatim>\<open>client/service.go\<close>: the connection to the server, the login, the loop that keeps the client logged in and the end
  of the client. Dialling, TLS configurations and the answers of the server are inputs. Durations and times are integers in
  nanoseconds; products that the code computes on 64 bits wrap around in the model too. The controls of the client are
  a heap, since the loop, the service and the goroutines of a control share them by pointer.
\<close>

section \<open>Connecting\<close>

text \<open>A connection manager with its QUIC connection and its multiplexed session: none, or open or not.\<close>

record conn_manager =
  cmQuicConn :: "bool option"
  cmMuxSession :: "bool option"

definition NewConnectionManager :: conn_manager where
  "NewConnectionManager = \<lparr>cmQuicConn = None, cmMuxSession = None\<rparr>"

definition ConnectionManager_Close :: "conn_manager \<Rightarrow> conn_manager" where
  "ConnectionManager_Close cm =
     \<lparr>cmQuicConn = map_option (\<lambda>_. False) (cmQuicConn cm), cmMuxSession = map_option (\<lambda>_. False) (cmMuxSession cm)\<rparr>"

text \<open>What a dial asks for: TLS and the priority of its hook, the other hooks with their priorities, the network, the local
  address and the address of the server.\<close>

datatype dial_hook = HookWebsocket string string | HookTLSHeadByte bool bool

record dial_request =
  drTLS :: "(tls_config \<times> int) option"
  drHooks :: "(dial_hook \<times> int) list"
  drProtocol :: string
  drLocalAddr :: "string option"
  drTimeout :: int
  drKeepAlive :: int
  drProxy :: string
  drAddr :: string

definition server_name :: "ClientCommonConf \<Rightarrow> string" where
  "server_name cfg = (if clTLSServerName cfg = [] then clServerAddr cfg else clTLSServerName cfg)"

definition server_address :: "ClientCommonConf \<Rightarrow> string" where
  "server_address cfg = JoinHostPort (clServerAddr cfg) (Itoa (clServerPort cfg))"

text \<open>The network: files and certificates, the error of parsing the URL of the proxy, dialling, the QUIC session, the
  multiplexer of a connection and its streams.\<close>

record 'c net_env =
  neTLS :: tls_env
  neParse :: "string \<Rightarrow> string option"
  neDial :: "dial_request \<Rightarrow> (string, 'c) result"
  neDialQuic :: "string \<Rightarrow> tls_config \<Rightarrow> int \<Rightarrow> int \<Rightarrow> int \<Rightarrow> string option"
  neMuxClient :: "'c \<Rightarrow> int \<Rightarrow> string option"
  neStream :: "(string, 'c) result"

definition client_tls :: "tls_env \<Rightarrow> ClientCommonConf \<Rightarrow> (string, tls_config) result" where
  "client_tls env cfg = NewClientTLSConfig env (clTLSCertFile cfg) (clTLSKeyFile cfg) (clTLSTrustedCaFile cfg) (server_name cfg)"

definition dial_options :: "ClientCommonConf \<Rightarrow> tls_config option \<Rightarrow> dial_request" where
  "dial_options cfg tlsConfig =
     (let tls = (\<lambda>prio. map_option (\<lambda>c. (c, prio)) tlsConfig);
          (protocol, hooks, conf) =
            (if clProtocol cfg = ''websocket'' then
               (''tcp'', [(HookWebsocket ''tcp'' [], 0), (HookTLSHeadByte (tlsConfig \<noteq> None) (clDisableCustomTLSFirstByte cfg), 0)], tls 0)
             else if clProtocol cfg = ''wss'' then
               (''tcp'', [(HookWebsocket ''tcp'' (case tlsConfig of None \<Rightarrow> [] | Some c \<Rightarrow> tlsServerName c), 110)], tls 100)
             else (clProtocol cfg, [], tls 0))
      in \<lparr>drTLS = conf, drHooks = hooks, drProtocol = protocol,
          drLocalAddr = (if clConnectServerLocalIP cfg \<noteq> [] then Some (clConnectServerLocalIP cfg) else None),
          drTimeout = clDialServerTimeout cfg, drKeepAlive = clDialServerKeepAlive cfg, drProxy = clHTTPProxy cfg,
          drAddr = server_address cfg\<rparr>)"

definition realConnect :: "'c net_env \<Rightarrow> ClientCommonConf \<Rightarrow> (string, 'c) result" where
  "realConnect env cfg =
     (let tlsEnable = (if clProtocol cfg = ''wss'' then True else clTLSEnable cfg)
      in case (if tlsEnable then map_sum id Some (client_tls (neTLS env) cfg) else Inr None) of
           Inl e \<Rightarrow> Inl e
         | Inr tlsConfig \<Rightarrow>
             (case neParse env (clHTTPProxy cfg) of
                Some e \<Rightarrow> Inl e
              | None \<Rightarrow> neDial env (dial_options cfg tlsConfig)))"

definition ConnectionManager_OpenConnection :: "'c net_env \<Rightarrow> ClientCommonConf \<Rightarrow> conn_manager \<Rightarrow> (string, conn_manager) result" where
  "ConnectionManager_OpenConnection env cfg cm =
     (if ToLower (clProtocol cfg) = ''quic'' then
        (case (if clTLSEnable cfg then client_tls (neTLS env) cfg else NewClientTLSConfig (neTLS env) [] [] [] (server_name cfg)) of
           Inl e \<Rightarrow> Inl e
         | Inr tlsConfig \<Rightarrow>
             (case neDialQuic env (server_address cfg) (tlsConfig\<lparr>tlsNextProtos := [''frp'']\<rparr>) (clQUICMaxIdleTimeout cfg)
                     (clQUICMaxIncomingStreams cfg) (clQUICKeepalivePeriod cfg) of
                Some e \<Rightarrow> Inl e
              | None \<Rightarrow> Inr (cm\<lparr>cmQuicConn := Some True\<rparr>)))
      else if \<not> clTCPMux cfg then Inr cm
      else (case realConnect env cfg of
              Inl e \<Rightarrow> Inl e
            | Inr conn \<Rightarrow>
                (case neMuxClient env conn (clTCPMuxKeepaliveInterval cfg) of
                   Some e \<Rightarrow> Inl e
                 | None \<Rightarrow> Inr (cm\<lparr>cmMuxSession := Some True\<rparr>))))"

definition ConnectionManager_Connect :: "'c net_env \<Rightarrow> ClientCommonConf \<Rightarrow> conn_manager \<Rightarrow> (string, 'c) result" where
  "ConnectionManager_Connect env cfg cm =
     (if cmQuicConn cm \<noteq> None then neStream env else if cmMuxSession cm \<noteq> None then neStream env else realConnect env cfg)"

subsection \<open>The first byte on the wire\<close>

text \<open>The byte the server's check of TLS reads first on a connection that was dialled so: the custom byte of the hook, else the
  first byte of a TLS handshake (22), else the first byte of the data.\<close>

definition first_byte :: "dial_request \<Rightarrow> int \<Rightarrow> int" where
  "first_byte req data =
     (case concat (map (\<lambda>(h, _). case h of HookTLSHeadByte enable disable \<Rightarrow> DialHookCustomTLSHeadByte enable disable | HookWebsocket _ _ \<Rightarrow> []) (drHooks req)) of
        b # _ \<Rightarrow> b
      | [] \<Rightarrow> if drTLS req \<noteq> None then 22 else data)"

lemma first_byte_dial:
  assumes "clProtocol cfg \<noteq> ''wss''"
  shows "first_byte (dial_options cfg tlsConfig) data =
    (if tlsConfig = None then data
     else if clProtocol cfg = ''websocket'' \<and> \<not> clDisableCustomTLSFirstByte cfg then FRPTLSHeadByte else 22)"
  using assms by (auto simp: dial_options_def first_byte_def DialHookCustomTLSHeadByte_def Let_def)

text \<open>Client and server agree on TLS: a connection that the client dials with TLS is taken for TLS by the server's check of the first
  byte whatever the options of both sides, one without TLS whose data does not begin with one of the two marks is
  taken as plain, or refused by a server that demands TLS. But the custom first byte, which the documentation says is sent
  when \<^verbatim>\<open>disable_custom_tls_first_byte\<close> is false, is sent over websocket only: over TCP and KCP the option is without effect.\<close>

lemma tls_agreed:
  assumes "clProtocol cfg \<noteq> ''wss''" "data \<noteq> 22" "data \<noteq> FRPTLSHeadByte"
  shows "CheckAndEnableTLSServerConnWithTimeout tlsOnly (Inr (first_byte (dial_options cfg tlsConfig) data)) =
    (if tlsConfig \<noteq> None then Inr (True, clProtocol cfg = ''websocket'' \<and> \<not> clDisableCustomTLSFirstByte cfg)
     else if tlsOnly then Inl ''non-TLS connection received on a TlsOnly server'' else Inr (False, False))"
  using assms by (auto simp: first_byte_dial CheckAndEnableTLSServerConnWithTimeout_def FRPTLSHeadByte_def)

section \<open>Login\<close>

definition login_msg :: "ClientCommonConf \<Rightarrow> int \<Rightarrow> string \<Rightarrow> Login" where
  "login_msg cfg now runID =
     \<lparr>lVersion = Full, lUser = clUser cfg, lPrivilegeKey = [], lTimestamp = now, lRunID = runID, lMetas = clMetas cfg,
      lPoolCount = clPoolCount cfg\<rparr>"

text \<open>\<open>server\<close> is what the server does with the message on the new connection: an error of writing or reading, or the run id and
  the error text of its answer. The result is the run id with the connection, and the connection manager, which an
  error after its opening closes.\<close>

definition login :: "'c net_env \<Rightarrow> auth_env \<Rightarrow> ('c \<Rightarrow> Login \<Rightarrow> (string, string \<times> string) result) \<Rightarrow> ClientCommonConf \<Rightarrow> Setter \<Rightarrow> int \<Rightarrow>
    string \<Rightarrow> (string, string \<times> 'c) result \<times> conn_manager option" where
  "login net env server cfg setter now runID =
     (case ConnectionManager_OpenConnection net cfg NewConnectionManager of
        Inl e \<Rightarrow> (Inl e, None)
      | Inr cm \<Rightarrow>
          (let fails = (\<lambda>e. (Inl e, Some (ConnectionManager_Close cm)))
           in case ConnectionManager_Connect net cfg cm of
                Inl e \<Rightarrow> fails e
              | Inr conn \<Rightarrow>
                  (case SetLogin env setter (login_msg cfg now runID) of
                     (Some e, _) \<Rightarrow> fails e
                   | (None, m) \<Rightarrow>
                       (case server conn m of
                          Inl e \<Rightarrow> fails e
                        | Inr (newRunID, e) \<Rightarrow> if e \<noteq> [] then fails e else (Inr (newRunID, conn), Some cm)))))"

lemma failed_login_closes:
  assumes "login net env server cfg setter now runID = (Inl e, Some cm)"
  shows "cmQuicConn cm \<noteq> Some True" "cmMuxSession cm \<noteq> Some True"
  using assms by (auto simp: login_def Let_def ConnectionManager_Close_def split: sum.splits option.splits prod.splits if_splits)

text \<open>The first login of \<^verbatim>\<open>Run\<close>, over the outcomes of the attempts (\<open>None\<close> while the loop goes on).\<close>

fun Service_Run :: "ClientCommonConf \<Rightarrow> (string, 'a) result list \<Rightarrow> (string, 'a) result option" where
  "Service_Run cfg [] = None"
| "Service_Run cfg (Inl e # attempts) = (if clLoginFailExit cfg then Some (Inl (''login failed: '' @ e)) else Service_Run cfg attempts)"
| "Service_Run cfg (Inr r # attempts) = Some (Inr r)"

section \<open>Waiting before a reconnection\<close>

definition second :: int where "second = 1000000000"

text \<open>\<^verbatim>\<open>util.RandomSleep\<close>, with the ratios in thousandths and the random number as a parameter: the time slept.\<close>

definition RandomSleep :: "int \<Rightarrow> int \<Rightarrow> int \<Rightarrow> int \<Rightarrow> int" where
  "RandomSleep duration min_ratio max_ratio rand =
     (let n = (if max_ratio \<le> min_ratio then min_ratio else rand mod (max_ratio - min_ratio) + min_ratio)
      in quot (wrap64 (duration * n)) 1000)"

record reconnect =
  rkDelayTime :: int
  rkCutoffTime :: int
  rkReconnectDelay :: int
  rkReconnectCounts :: int

definition new_reconnect :: "int \<Rightarrow> reconnect" where
  "new_reconnect now = \<lparr>rkDelayTime = second, rkCutoffTime = now + 60 * second, rkReconnectDelay = second, rkReconnectCounts = 1\<rparr>"

definition reconnect_wait :: "int \<Rightarrow> reconnect \<Rightarrow> int \<times> reconnect" where
  "reconnect_wait rand rk =
     (if rkReconnectCounts rk > 3
      then (RandomSleep (rkReconnectDelay rk) 900 1100 rand,
            rk\<lparr>rkReconnectDelay := wrap64 (rkReconnectDelay rk * 2), rkReconnectCounts := rkReconnectCounts rk + 1\<rparr>)
      else (RandomSleep second 0 500 rand, rk\<lparr>rkReconnectCounts := rkReconnectCounts rk + 1\<rparr>))"

definition reconnect_reset :: "int \<Rightarrow> reconnect \<Rightarrow> reconnect" where
  "reconnect_reset now rk =
     (if now > rkCutoffTime rk
      then rk\<lparr>rkCutoffTime := now + 60 * second, rkReconnectDelay := second, rkReconnectCounts := 1\<rparr> else rk)"

definition login_failed :: "int \<Rightarrow> reconnect \<Rightarrow> int \<times> reconnect" where
  "login_failed rand rk =
     (RandomSleep (rkDelayTime rk) 900 1100 rand,
      rk\<lparr>rkDelayTime := (let d = wrap64 (rkDelayTime rk * 2) in if d > 20 * second then 20 * second else d)\<rparr>)"

definition login_succeeded :: "reconnect \<Rightarrow> reconnect" where
  "login_succeeded rk = rk\<lparr>rkDelayTime := second\<rparr>"

text \<open>The loop with the time: \<open>lost\<close> is the wait after the loss of a control, \<open>failed\<close> that after a login that failed. Any
  time may pass in between, and a sleep takes at least its duration.\<close>

inductive rk_reach :: "int \<Rightarrow> reconnect \<Rightarrow> int \<Rightarrow> bool" for t0 where
  start: "rk_reach t0 (new_reconnect t0) t0"
| lost: "rk_reach t0 (reconnect_reset t' rk') t'" if "rk_reach t0 rk t" "reconnect_wait rand rk = (d, rk')" "t + d \<le> t'"
| failed: "rk_reach t0 rk' t'" if "rk_reach t0 rk t" "login_failed rand rk = (d, rk')" "t + d \<le> t'"
| succeeded: "rk_reach t0 (login_succeeded rk) t'" if "rk_reach t0 rk t" "t \<le> t'"

lemma div_1000: "1000 * (x div 1000) \<le> x \<and> x \<le> 1000 * (x div 1000) + 999" for x :: int
  by presburger

lemma small_multiple: "1000 * y \<le> 999 \<Longrightarrow> y \<le> 0" for y :: int
  by (rule ccontr) simp

lemma RandomSleep_bounds:
  assumes "0 \<le> lo" "lo < hi" "hi \<le> 1100" "0 \<le> d" "d \<le> 64 * second"
  shows "lo * d \<le> 1000 * RandomSleep d lo hi rand + 999" "1000 * RandomSleep d lo hi rand \<le> (hi - 1) * d" "0 \<le> RandomSleep d lo hi rand"
proof -
  define n where "n = rand mod (hi - lo) + lo"
  have "0 < hi - lo" using assms(2) by simp
  from pos_mod_bound [OF this, of rand] pos_mod_sign [OF this, of rand] have n: "lo \<le> n" "n \<le> hi - 1" unfolding n_def by linarith+
  have p: "0 \<le> d * n" using assms(1,4) n(1) by simp
  have "d * n \<le> (64 * second) * 1100" using assms n by (intro mult_mono) auto
  then have "wrap64 (d * n) = d * n" using p by (intro wrap64_id) (auto simp: min_int64_def max_int64_def second_def)
  with p assms(2) have r: "RandomSleep d lo hi rand = d * n div 1000" by (simp add: RandomSleep_def Let_def n_def quot_nonneg)
  have "lo * d \<le> d * n" using mult_left_mono [OF n(1) assms(4)] by (simp add: mult.commute)
  moreover have "d * n \<le> (hi - 1) * d" using mult_left_mono [OF n(2) assms(4)] by (simp add: mult.commute)
  ultimately show "lo * d \<le> 1000 * RandomSleep d lo hi rand + 999" "1000 * RandomSleep d lo hi rand \<le> (hi - 1) * d"
    "0 \<le> RandomSleep d lo hi rand"
    using p div_1000 [of "d * n"] by (simp_all add: r)
qed

text \<open>After \<open>k\<close> doublings the time that has passed since the last reset is at least nine tenths of what was doubled.\<close>

definition rk_inv :: "reconnect \<Rightarrow> int \<Rightarrow> bool" where
  "rk_inv rk t \<longleftrightarrow> second \<le> rkDelayTime rk \<and> rkDelayTime rk \<le> 20 * second \<and> 1 \<le> rkReconnectCounts rk \<and>
     (\<exists>k \<le> 6. rkReconnectDelay rk = 2 ^ k * second \<and> 10 * (rkCutoffTime rk - 60 * second) + 9 * (2 ^ k - 1) * second \<le> 10 * t)"

lemma rk_inv_delay: "rk_inv rk t \<Longrightarrow> second \<le> rkReconnectDelay rk \<and> rkReconnectDelay rk \<le> 64 * second"
proof -
  assume "rk_inv rk t"
  then obtain k :: nat where k: "k \<le> 6" "rkReconnectDelay rk = 2 ^ k * second" by (auto simp: rk_inv_def)
  have "(1::int) \<le> 2 ^ k" by simp
  moreover have "(2::int) ^ k \<le> 2 ^ 6" using k(1) by (rule power_increasing) simp
  ultimately have "(1::int) \<le> 2 ^ k" "(2::int) ^ k \<le> 64" by simp_all
  with k(2) show ?thesis by (simp add: second_def)
qed

lemma rk_inv_later: "rk_inv rk t \<Longrightarrow> t \<le> t' \<Longrightarrow> rk_inv rk t'"
  by (auto simp: rk_inv_def)

lemma rk_inv_reset: "rk_inv rk t \<Longrightarrow> rk_inv (reconnect_reset t rk) t"
  by (auto simp: rk_inv_def reconnect_reset_def second_def intro: exI [of _ 0])

lemma reconnect_wait_step:
  assumes "rk_inv rk t" "reconnect_wait rand rk = (d, rk')" "t + d \<le> t'"
  shows "rk_inv (reconnect_reset t' rk') t'"
proof (cases "rkReconnectCounts rk > 3")
  case False
  then have rk': "rk' = rk\<lparr>rkReconnectCounts := rkReconnectCounts rk + 1\<rparr>" and d: "d = RandomSleep second 0 500 rand"
    using assms(2) by (auto simp: reconnect_wait_def)
  have "0 \<le> d" unfolding d by (rule RandomSleep_bounds(3)) (simp_all add: second_def)
  then have "rk_inv rk t'" using rk_inv_later [OF assms(1)] assms(3) by simp
  then have "rk_inv rk' t'" unfolding rk_inv_def rk' by simp
  then show ?thesis by (rule rk_inv_reset)
next
  case True
  note delay = rk_inv_delay [OF assms(1)]
  from assms(1) obtain k :: nat where k: "k \<le> 6" "rkReconnectDelay rk = 2 ^ k * second"
    "10 * (rkCutoffTime rk - 60 * second) + 9 * (2 ^ k - 1) * second \<le> 10 * t" by (auto simp: rk_inv_def)
  have "wrap64 (rkReconnectDelay rk * 2) = rkReconnectDelay rk * 2"
    using delay by (intro wrap64_id) (simp_all add: min_int64_def max_int64_def second_def)
  then have "wrap64 (rkReconnectDelay rk * 2) = 2 ^ Suc k * second" by (simp add: k(2))
  with True assms(2) have rk': "rk' = rk\<lparr>rkReconnectDelay := 2 ^ Suc k * second, rkReconnectCounts := rkReconnectCounts rk + 1\<rparr>"
    and d: "d = RandomSleep (rkReconnectDelay rk) 900 1100 rand" by (auto simp: reconnect_wait_def)
  have "900 * rkReconnectDelay rk \<le> 1000 * d + 999" unfolding d by (rule RandomSleep_bounds(1)) (use delay in \<open>auto simp: second_def\<close>)
  then have "1000 * (900000000 * 2 ^ k - d) \<le> 999" unfolding k(2) second_def by simp
  then have "900000000 * 2 ^ k - d \<le> 0" by (rule small_multiple)
  then have "9 * 2 ^ k * second \<le> 10 * d" by (simp add: second_def)
  with k(3) assms(3) have t': "10 * (rkCutoffTime rk - 60 * second) + 9 * (2 ^ Suc k - 1) * second \<le> 10 * t'"
    by (simp add: algebra_simps)
  show ?thesis
  proof (cases "t' > rkCutoffTime rk")
    case True
    with assms(1) show ?thesis by (auto simp: rk_inv_def reconnect_reset_def rk' second_def intro: exI [of _ 0])
  next
    case False
    with t' have "9 * (2 ^ Suc k - 1) * second \<le> 600 * second" by simp
    then have "(2::int) ^ Suc k < 2 ^ 7" by (simp add: second_def)
    then have "Suc k < 7" by (rule power_less_imp_less_exp [rotated]) simp
    then have "Suc k \<le> 6" by simp
    with False t' assms(1) show ?thesis by (auto simp: rk_inv_def reconnect_reset_def rk' intro!: exI [of _ "Suc k"])
  qed
qed

lemma login_failed_delay:
  assumes "second \<le> rkDelayTime rk" "rkDelayTime rk \<le> 20 * second"
  shows "rkDelayTime (snd (login_failed rand rk)) = min (2 * rkDelayTime rk) (20 * second)" "0 \<le> fst (login_failed rand rk)"
    "1000 * fst (login_failed rand rk) \<le> 1099 * rkDelayTime rk" "900 * rkDelayTime rk \<le> 1000 * fst (login_failed rand rk) + 999"
proof -
  have "wrap64 (rkDelayTime rk * 2) = rkDelayTime rk * 2"
    using assms by (intro wrap64_id) (auto simp: min_int64_def max_int64_def second_def)
  then show "rkDelayTime (snd (login_failed rand rk)) = min (2 * rkDelayTime rk) (20 * second)" by (simp add: login_failed_def Let_def)
  have b: "0 \<le> (900 :: int)" "(900 :: int) < 1100" "(1100 :: int) \<le> 1100" "0 \<le> rkDelayTime rk" "rkDelayTime rk \<le> 64 * second"
    using assms by (simp_all add: second_def)
  from RandomSleep_bounds [OF b, of rand] show "0 \<le> fst (login_failed rand rk)"
    "1000 * fst (login_failed rand rk) \<le> 1099 * rkDelayTime rk" "900 * rkDelayTime rk \<le> 1000 * fst (login_failed rand rk) + 999"
    by (simp_all add: login_failed_def)
qed

lemma rk_reach_inv: "rk_reach t0 rk t \<Longrightarrow> rk_inv rk t"
proof (induction rule: rk_reach.induct)
  case start
  show ?case by (simp add: rk_inv_def new_reconnect_def second_def) (rule exI [of _ 0], simp)
next
  case (lost rk t rand d rk' t')
  from reconnect_wait_step [OF lost(4,2,3)] show ?case .
next
  case (failed rk t rand d rk' t')
  have b: "second \<le> rkDelayTime rk" "rkDelayTime rk \<le> 20 * second" using failed(4) by (simp_all add: rk_inv_def)
  from login_failed_delay [OF b, of rand] failed(2) have "0 \<le> d" "rkDelayTime rk' = min (2 * rkDelayTime rk) (20 * second)" by simp_all
  moreover have "rkCutoffTime rk' = rkCutoffTime rk" "rkReconnectDelay rk' = rkReconnectDelay rk" "rkReconnectCounts rk' = rkReconnectCounts rk"
    using failed(2) by (auto simp: login_failed_def)
  ultimately show ?case using rk_inv_later [OF failed(4), of t'] failed(3) b by (auto simp: rk_inv_def second_def)
next
  case (succeeded rk t t')
  from rk_inv_later [OF succeeded(3,2)] show ?case by (auto simp: rk_inv_def login_succeeded_def second_def)
qed

text \<open>C21: the client never waits long before it tries again, however often its connection is lost and its logins fail: the wait
  after a lost connection is less than half a second for the first three losses and never more than 70.4 seconds,
  since the doubling delay is reset once a minute has passed; the wait after a failed login doubles from one
  to at most 20 seconds, give or take a tenth. The products on 64 bits never overflow.\<close>

theorem reconnect_delays_bounded:
  assumes "rk_reach t0 rk t"
  shows "(\<forall>rand d rk'. reconnect_wait rand rk = (d, rk') \<longrightarrow> 0 \<le> d \<and> 10 * d \<le> 704 * second \<and>
        (rkReconnectCounts rk \<le> 3 \<longrightarrow> 2 * d < second) \<and>
        (rkReconnectCounts rk > 3 \<longrightarrow> rkReconnectDelay rk' = 2 * rkReconnectDelay rk)) \<and>
    (\<forall>rand d rk'. login_failed rand rk = (d, rk') \<longrightarrow> 0 \<le> d \<and> d < 22 * second \<and>
        1000 * d \<le> 1099 * rkDelayTime rk \<and> 900 * rkDelayTime rk \<le> 1000 * d + 999 \<and>
        rkDelayTime rk' = min (2 * rkDelayTime rk) (20 * second)) \<and>
    second \<le> rkDelayTime rk \<and> rkDelayTime rk \<le> 20 * second"
proof -
  note inv = rk_reach_inv [OF assms]
  have b: "second \<le> rkDelayTime rk" "rkDelayTime rk \<le> 20 * second" using inv by (simp_all add: rk_inv_def)
  note delay = rk_inv_delay [OF inv]
  have "0 \<le> d \<and> 10 * d \<le> 704 * second \<and> (rkReconnectCounts rk \<le> 3 \<longrightarrow> 2 * d < second) \<and>
      (rkReconnectCounts rk > 3 \<longrightarrow> rkReconnectDelay rk' = 2 * rkReconnectDelay rk)" if "reconnect_wait rand rk = (d, rk')" for rand d rk'
  proof (cases "rkReconnectCounts rk > 3")
    case True
    have w: "wrap64 (rkReconnectDelay rk * 2) = 2 * rkReconnectDelay rk"
      using delay by (subst wrap64_id) (auto simp: min_int64_def max_int64_def second_def)
    have a: "0 \<le> (900 :: int)" "(900 :: int) < 1100" "(1100 :: int) \<le> 1100" "0 \<le> rkReconnectDelay rk" "rkReconnectDelay rk \<le> 64 * second"
      using delay by (simp_all add: second_def)
    from RandomSleep_bounds [OF a, of rand] that True w delay show ?thesis by (auto simp: reconnect_wait_def second_def)
  next
    case False
    have a: "0 \<le> (0 :: int)" "(0 :: int) < 500" "(500 :: int) \<le> 1100" "0 \<le> second" "second \<le> 64 * second"
      by (simp_all add: second_def)
    from RandomSleep_bounds [OF a, of rand] that False show ?thesis by (auto simp: reconnect_wait_def second_def)
  qed
  moreover have "0 \<le> d \<and> d < 22 * second \<and> 1000 * d \<le> 1099 * rkDelayTime rk \<and> 900 * rkDelayTime rk \<le> 1000 * d + 999 \<and>
      rkDelayTime rk' = min (2 * rkDelayTime rk) (20 * second)" if "login_failed rand rk = (d, rk')" for rand d rk'
    using login_failed_delay [OF b, of rand] that b by (auto simp: second_def)
  ultimately show ?thesis using b by blast
qed

theorem reconnect_delays_bounded_witness:
  "\<exists>d rk'. login_failed 7 (new_reconnect 0) = (d, rk') \<and> d < 22 * second \<and> rkDelayTime rk' = 2 * second"
  using reconnect_delays_bounded [OF rk_reach.start [of 0]]
  by (cases "login_failed 7 (new_reconnect 0)") (auto simp: new_reconnect_def second_def)

section \<open>A client and a server of the same build\<close>

text \<open>The answer of a server to a login, as the client reads it.\<close>

definition server_answer :: "service_conf \<Rightarrow> 'c service_env \<Rightarrow> string \<Rightarrow> 'c Service \<Rightarrow> 'c \<Rightarrow> Login \<Rightarrow> (string, string \<times> string) result" where
  "server_answer scfg env clientAddr s conn m =
     (case handleConnection scfg env clientAddr conn (FLogin m) s of
        Some ([LoginRespError e], _, _, _) \<Rightarrow> Inr ([], e)
      | Some (_, _, Some (a, _), s1) \<Rightarrow> Inr (lRunID (svLogins s1 ! a), [])
      | _ \<Rightarrow> Inl ''EOF'')"

lemma SetLogin_version: "lVersion (snd (SetLogin env setter m)) = lVersion m" "lRunID (snd (SetLogin env setter m)) = lRunID m"
  by (cases setter; simp add: Token_SetLogin_def Oidc_SetLogin_def split: sum.split)+

lemma own_version_refused:
  assumes "lVersion m = Full" "\<forall>c. PluginManager_Login (svPlugins s) c = PluginOk c" "xRandID env = Inr rand"
  shows "\<exists>e. e \<noteq> [] \<and> handleConnection scfg env clientAddr conn (FLogin m) s = Some ([LoginRespError e], True, None, s)"
proof -
  have v: "Compat Full = (False, ''Please upgrade your frpc version to at least 0.18.0'')"
    using Compat_own_version by (auto simp: Compat_def split: if_splits)
  have "RegisterControl scfg env m s = Some (Inl ''Please upgrade your frpc version to at least 0.18.0'', s)"
    using assms(1,3) v by (cases "lRunID m = []") (simp_all add: RegisterControl_def)
  with assms(2) show ?thesis by (simp add: handleConnection_def Let_def GenerateResponseErrorString_def)
qed

text \<open>A client of this build cannot log in to a server of this build, whatever the configurations, tokens and network: the
  version it announces is not of the form the server's check of versions understands, so the server answers every
  login with an error and changes nothing, and the loop of first logins ends with an error or never.\<close>

lemma own_client_refused:
  assumes "\<forall>c. PluginManager_Login (svPlugins s) c = PluginOk c" "xRandID env = Inr rand"
  shows "(\<exists>e. e \<noteq> [] \<and> handleConnection scfg env clientAddr conn (FLogin (snd (SetLogin aenv setter (login_msg cfg now runID)))) s =
      Some ([LoginRespError e], True, None, s)) \<and>
    (\<exists>e. fst (login net aenv (server_answer scfg env clientAddr s) cfg setter now runID) = Inl e) \<and>
    (case Service_Run cfg (map (\<lambda>(net, aenv, now). fst (login net aenv (server_answer scfg env clientAddr s) cfg setter now runID)) attempts) of
       None \<Rightarrow> attempts = [] \<or> \<not> clLoginFailExit cfg
     | Some r \<Rightarrow> clLoginFailExit cfg \<and> (\<exists>e. r = Inl e))"
proof (intro conjI)
  show "\<exists>e. e \<noteq> [] \<and> handleConnection scfg env clientAddr conn (FLogin (snd (SetLogin aenv setter (login_msg cfg now runID)))) s =
      Some ([LoginRespError e], True, None, s)"
    using own_version_refused [OF _ assms] by (simp add: SetLogin_version login_msg_def)
  have refused: "\<exists>e. fst (login net aenv (server_answer scfg env clientAddr s) cfg setter now runID) = Inl e" for net aenv now
  proof -
    have "\<exists>e. e \<noteq> [] \<and> server_answer scfg env clientAddr s conn m = Inr ([], e)" if "lVersion m = Full" for conn m
      using own_version_refused [OF that assms, of scfg clientAddr conn] by (auto simp: server_answer_def)
    moreover obtain r m where m: "SetLogin aenv setter (login_msg cfg now runID) = (r, m)" by fastforce
    moreover have "lVersion m = Full" using SetLogin_version(1) [of aenv setter "login_msg cfg now runID"] m by (simp add: login_msg_def)
    ultimately have "\<exists>e. e \<noteq> [] \<and> server_answer scfg env clientAddr s conn m = Inr ([], e)" for conn by blast
    then obtain f where "\<And>conn. f conn \<noteq> [] \<and> server_answer scfg env clientAddr s conn m = Inr ([], f conn)" by metis
    with m show ?thesis by (simp add: login_def Let_def split: sum.split option.split)
  qed
  then show "\<exists>e. fst (login net aenv (server_answer scfg env clientAddr s) cfg setter now runID) = Inl e" .
  show "case Service_Run cfg (map (\<lambda>(net, aenv, now). fst (login net aenv (server_answer scfg env clientAddr s) cfg setter now runID)) attempts) of
       None \<Rightarrow> attempts = [] \<or> \<not> clLoginFailExit cfg
     | Some r \<Rightarrow> clLoginFailExit cfg \<and> (\<exists>e. r = Inl e)"
  proof (induction attempts)
    case (Cons a attempts)
    obtain n ae t where a: "a = (n, ae, t)" by (cases a)
    from refused [of n ae t] obtain e where "fst (login n ae (server_answer scfg env clientAddr s) cfg setter t runID) = Inl e" by blast
    with Cons a show ?case by (auto split: option.splits)
  qed simp
qed

section \<open>Keeping the client logged in, and its end\<close>

text \<open>Where the loop \<^verbatim>\<open>keepControllerWorking\<close> is: it waits for the end of a control, has passed the check of the exit flag and logs
  in, is about to read the field of the current control, or has ended. A panic of this goroutine ends the process.\<close>

datatype loop_state = LoopWaits nat | LoopRetries | LoopLogsIn | LoopReads | LoopEnded | LoopPanics

record 'c client_service =
  csRunID :: string
  csCtl :: "nat option"
  csCtls :: "'c client_control list"
  csPxyCfgs :: "(string \<times> ProxyConf) list"
  csVisitorCfgs :: "VisitorConf smap"
  csExit :: bool
  csLoop :: loop_state

definition keep_wake :: "'c client_service \<Rightarrow> 'c client_service" where
  "keep_wake s = s\<lparr>csLoop := (if csExit s then LoopEnded else LoopRetries)\<rparr>"

definition keep_retry :: "'c client_service \<Rightarrow> 'c client_service" where
  "keep_retry s = s\<lparr>csLoop := (if csExit s then LoopEnded else LoopLogsIn)\<rparr>"

text \<open>After a login the new control runs, the one in the field, if any, is closed, and the new one takes its
  place.\<close>

definition keep_install :: "(string \<Rightarrow> string \<Rightarrow> string option) \<Rightarrow> string list \<Rightarrow> int \<Rightarrow> string \<Rightarrow> 'c client_service \<Rightarrow> 'c client_service option" where
  "keep_install bind names now runID s =
     (case NewControl_client bind runID (csPxyCfgs s) names (csVisitorCfgs s) of
        None \<Rightarrow> None
      | Some ctl0 \<Rightarrow>
          (case Control_Run now ctl0 of
             None \<Rightarrow> None
           | Some ctl \<Rightarrow>
               map_option (\<lambda>ctls. s\<lparr>csRunID := runID, csCtls := ctls @ [ctl], csCtl := Some (length ctls), csLoop := LoopReads\<rparr>)
                 (case csCtl s of
                    None \<Rightarrow> Some (csCtls s)
                  | Some a \<Rightarrow> map_option (\<lambda>old. (csCtls s)[a := old]) (Control_GracefulClose (csCtls s ! a)))))"

definition keep_read :: "'c client_service \<Rightarrow> 'c client_service" where
  "keep_read s = s\<lparr>csLoop := (case csCtl s of None \<Rightarrow> LoopPanics | Some a \<Rightarrow> LoopWaits a)\<rparr>"

definition Service_GracefulClose :: "'c client_service \<Rightarrow> 'c client_service option" where
  "Service_GracefulClose s =
     (case csCtl s of
        None \<Rightarrow> Some (s\<lparr>csExit := True\<rparr>)
      | Some a \<Rightarrow>
          map_option (\<lambda>ctl. s\<lparr>csExit := True, csCtls := (csCtls s)[a := ctl], csCtl := None\<rparr>)
            (Control_GracefulClose (csCtls s ! a)))"

definition Service_ReloadConf :: "(string \<Rightarrow> string \<Rightarrow> string option) \<Rightarrow> string list \<Rightarrow> string list \<Rightarrow> (string \<times> ProxyConf) list \<Rightarrow>
    VisitorConf smap \<Rightarrow> 'c client_service \<Rightarrow> 'c client_service option" where
  "Service_ReloadConf bind old new pxyCfgs visitorCfgs s =
     (let s1 = s\<lparr>csPxyCfgs := pxyCfgs, csVisitorCfgs := visitorCfgs\<rparr>
      in case csCtl s of
           None \<Rightarrow> Some s1
         | Some a \<Rightarrow>
             map_option (\<lambda>ctl. s1\<lparr>csCtls := (csCtls s)[a := ctl]\<rparr>)
               (Control_ReloadConf bind old new pxyCfgs visitorCfgs (csCtls s ! a)))"

inductive client_step :: "ClientCommonConf \<Rightarrow> 'c client_service \<Rightarrow> 'c client_service \<Rightarrow> bool" for cfg where
  control: "client_step cfg s (s\<lparr>csCtls := (csCtls s)[a := ctl]\<rparr>)" if "a < length (csCtls s)" "ctl_step cfg (csCtls s ! a) ctl"
| wake: "client_step cfg s (keep_wake s)" if "csLoop s = LoopWaits a" "ktDone (csCtls s ! a)"
| retry: "client_step cfg s (keep_retry s)" if "csLoop s = LoopRetries"
| refused: "client_step cfg s (s\<lparr>csLoop := LoopRetries\<rparr>)" if "csLoop s = LoopLogsIn"
| install: "client_step cfg s s'"
  if "csLoop s = LoopLogsIn" "set names = dom (csVisitorCfgs s)" "keep_install bind names now runID s = Some s'"
| read: "client_step cfg s (keep_read s)" if "csLoop s = LoopReads"
| close: "client_step cfg s s'" if "Service_GracefulClose s = Some s'"
| reload: "client_step cfg s s'"
  if "confs_named pxyCfgs visitorCfgs" "set new = dom visitorCfgs" "\<forall>a. csCtl s = Some a \<longrightarrow> set old = dom (vmCfgs (ktVM (csCtls s ! a)))"
    "Service_ReloadConf bind old new pxyCfgs visitorCfgs s = Some s'"

text \<open>The service begins with the control of its first login and the loop about to wait for it.\<close>

inductive client_reach :: "ClientCommonConf \<Rightarrow> 'c client_service \<Rightarrow> bool" for cfg where
  start: "client_reach cfg \<lparr>csRunID = runID, csCtl = Some 0, csCtls = [ctl], csPxyCfgs = pxyCfgs, csVisitorCfgs = visitorCfgs,
      csExit = False, csLoop = LoopReads\<rparr>"
  if "confs_named pxyCfgs visitorCfgs" "set names = dom visitorCfgs" "NewControl_client bind runID pxyCfgs names visitorCfgs = Some ctl0"
    "Control_Run now ctl0 = Some ctl"
| step: "client_reach cfg s \<Longrightarrow> client_step cfg s s' \<Longrightarrow> client_reach cfg s'"

definition client_inv :: "ClientCommonConf \<Rightarrow> 'c client_service \<Rightarrow> bool" where
  "client_inv cfg s \<longleftrightarrow> (\<forall>ctl \<in> set (csCtls s). ctl_reach cfg ctl) \<and> (\<forall>a. csCtl s = Some a \<longrightarrow> a < length (csCtls s)) \<and>
     (\<forall>a. csLoop s = LoopWaits a \<longrightarrow> a < length (csCtls s)) \<and> confs_named (csPxyCfgs s) (csVisitorCfgs s)"

lemma client_inv_upd:
  assumes "client_inv cfg s" "ctl_reach cfg ctl"
  shows "client_inv cfg (s\<lparr>csCtls := (csCtls s)[a := ctl]\<rparr>)"
proof -
  have "set ((csCtls s)[a := ctl]) \<subseteq> insert ctl (set (csCtls s))" by (rule set_update_subset_insert)
  with assms show ?thesis unfolding client_inv_def by auto
qed

lemma Control_GracefulClose_reach:
  assumes "ctl_reach cfg ctl"
  shows "\<exists>ctl'. Control_GracefulClose ctl = Some ctl' \<and> ctl_reach cfg ctl' \<and> ktConnClosed ctl' \<and> ktCMClosed ctl' \<and> ktPM ctl' = [] \<and>
    ktVM ctl' = VisitorMgr_Close (ktVM ctl) \<and> ktDone ctl' = ktDone ctl \<and> ktHand ctl' = ktHand ctl \<and> ktReadCh ctl' = ktReadCh ctl \<and>
    ktHandler ctl' = ktHandler ctl"
proof -
  have "pm_open (ktPM ctl)" using ctl_reach_inv [OF assms] by (simp add: ctl_inv_def)
  from ProxyManager_Close_open [OF this] obtain ctl' where c: "Control_GracefulClose ctl = Some ctl'" "ktConnClosed ctl'" "ktCMClosed ctl'"
    "ktPM ctl' = []" "ktVM ctl' = VisitorMgr_Close (ktVM ctl)" "ktDone ctl' = ktDone ctl" "ktHand ctl' = ktHand ctl"
    "ktReadCh ctl' = ktReadCh ctl" "ktHandler ctl' = ktHandler ctl"
    by (auto simp: Control_GracefulClose_def)
  moreover have "ctl_reach cfg ctl'" using assms ctl_step.close [OF c(1)] by (rule ctl_reach.step)
  ultimately show ?thesis by blast
qed

lemma new_control_runs:
  assumes "confs_named pxyCfgs visitorCfgs" "set names = dom visitorCfgs"
  shows "\<exists>ctl0 ctl. NewControl_client bind runID pxyCfgs names visitorCfgs = Some ctl0 \<and> Control_Run now ctl0 = Some ctl \<and>
    ctl_reach cfg (ctl :: 'c client_control) \<and> ktHandler ctl \<and> \<not> ktConnClosed ctl \<and> \<not> ktClosed ctl \<and> \<not> ktDone ctl \<and> ktRunID ctl = runID \<and>
    ktHand ctl = None"
proof -
  note C = confs_namedD [OF assms(1)]
  have new: "vmgr_inv (NewVisitorMgr :: 'c visitor_manager)" "set [] = dom (vmCfgs (NewVisitorMgr :: 'c visitor_manager))"
    by (simp_all add: vmgr_inv_def NewVisitorMgr_def)
  from VisitorMgr_Reload_ok [OF new(1) C(3) new(2) assms(2), of bind] obtain vm :: "'c visitor_manager" where
    "VisitorMgr_Reload bind [] names visitorCfgs NewVisitorMgr = Some vm" by blast
  then obtain ctl0 :: "'c client_control" where c0: "NewControl_client bind runID pxyCfgs names visitorCfgs = Some ctl0" "ktPM ctl0 = []"
    "ktPxyCfgs ctl0 = pxyCfgs" "\<not> ktConnClosed ctl0" "\<not> ktClosed ctl0" "\<not> ktDone ctl0" "ktRunID ctl0 = runID"
    "ktHand ctl0 = None" by (auto simp: NewControl_client_def)
  have "distinct (map fst ([] :: (ProxyConf, NewProxy) proxies))" "\<forall>(name, pw) \<in> set ([] :: (ProxyConf, NewProxy) proxies). \<not> closeCh_closed pw" by simp_all
  from ProxyManager_Reload_ok [OF this(1) C(1) this(2), of proxy_base_info] c0 obtain ctl where
    c: "Control_Run now ctl0 = Some ctl" "ktHandler ctl" "\<not> ktConnClosed ctl" "\<not> ktClosed ctl" "\<not> ktDone ctl" "ktRunID ctl = runID"
    "ktHand ctl = None" by (auto simp: Control_Run_def)
  with ctl_reach.start [OF assms c0(1) c(1)] c0(1) show ?thesis by blast
qed

lemma client_step_inv:
  fixes s :: "'c client_service"
  shows "client_step cfg s s' \<Longrightarrow> client_inv cfg s \<Longrightarrow> client_inv cfg s'"
proof (induction rule: client_step.induct)
  case (control a s ctl)
  from control have "ctl_reach cfg (csCtls s ! a)" by (simp add: client_inv_def)
  then have "ctl_reach cfg ctl" using control(2) by (rule ctl_reach.step)
  with control(3) show ?case by (rule client_inv_upd)
next
  case (install s names bind now runID s')
  from install(4) have "confs_named (csPxyCfgs s) (csVisitorCfgs s)" by (simp add: client_inv_def)
  from new_control_runs [OF this install(2), of bind runID now cfg] obtain ctl0 ctl :: "'c client_control" where
    c: "NewControl_client bind runID (csPxyCfgs s) names (csVisitorCfgs s) = Some ctl0" "Control_Run now ctl0 = Some ctl" "ctl_reach cfg ctl" by blast
  with install(3) obtain ctls where
    i: "s' = s\<lparr>csRunID := runID, csCtls := ctls @ [ctl], csCtl := Some (length ctls), csLoop := LoopReads\<rparr>" "ctl_reach cfg ctl"
    "(case csCtl s of None \<Rightarrow> Some (csCtls s) | Some a \<Rightarrow> map_option (\<lambda>old. (csCtls s)[a := old]) (Control_GracefulClose (csCtls s ! a))) = Some ctls"
    by (auto simp: keep_install_def)
  have "\<forall>c \<in> set ctls. ctl_reach cfg c"
  proof (cases "csCtl s")
    case None
    with i(3) install(4) show ?thesis by (simp add: client_inv_def)
  next
    case (Some a)
    then have "ctl_reach cfg (csCtls s ! a)" using install(4) by (simp add: client_inv_def)
    from Control_GracefulClose_reach [OF this] Some i(3) obtain c where "ctls = (csCtls s)[a := c]" "ctl_reach cfg c" by auto
    with client_inv_upd [OF install(4)] show ?thesis by (simp add: client_inv_def)
  qed
  with i(1,2) install(4) show ?case by (simp add: client_inv_def)
next
  case (close s s')
  show ?case
  proof (cases "csCtl s")
    case (Some a)
    then have "ctl_reach cfg (csCtls s ! a)" using close(2) by (simp add: client_inv_def)
    from Control_GracefulClose_reach [OF this] Some close(1) obtain c where
      s': "s' = s\<lparr>csExit := True, csCtls := (csCtls s)[a := c], csCtl := None\<rparr>" "ctl_reach cfg c"
      by (auto simp: Service_GracefulClose_def)
    from client_inv_upd [OF close(2) s'(2), of a] show ?thesis by (simp add: s'(1) client_inv_def)
  qed (use close in \<open>auto simp: Service_GracefulClose_def client_inv_def\<close>)
next
  case (reload pxyCfgs visitorCfgs new s old bind s')
  show ?case
  proof (cases "csCtl s")
    case (Some a)
    then have r: "ctl_reach cfg (csCtls s ! a)" using reload(5) by (simp add: client_inv_def)
    from Some reload(4) obtain c where c: "Control_ReloadConf bind old new pxyCfgs visitorCfgs (csCtls s ! a) = Some c"
      "s' = s\<lparr>csPxyCfgs := pxyCfgs, csVisitorCfgs := visitorCfgs, csCtls := (csCtls s)[a := c]\<rparr>"
      by (auto simp: Service_ReloadConf_def Let_def)
    have "ctl_step cfg (csCtls s ! a) c" by (rule ctl_step.reload [OF reload(1) _ reload(2) c(1)]) (use reload(3) Some in simp)
    with r have "ctl_reach cfg c" by (rule ctl_reach.step)
    from client_inv_upd [OF reload(5) this, of a] reload(1) show ?thesis by (simp add: c(2) client_inv_def)
  qed (use reload in \<open>auto simp: Service_ReloadConf_def client_inv_def\<close>)
qed (auto simp: client_inv_def keep_wake_def keep_retry_def keep_read_def split: option.splits)

lemma client_reach_inv: "client_reach cfg s \<Longrightarrow> client_inv cfg s"
proof (induction rule: client_reach.induct)
  case (start pxyCfgs visitorCfgs names bind runID ctl0 now ctl)
  from ctl_reach.start [OF start] start(1) show ?case by (simp add: client_inv_def)
next
  case (step s s')
  from client_step_inv [OF step(2,3)] show ?case .
qed

lemma idle_client_reach:
  "\<exists>s. client_reach cfg (s :: nat client_service) \<and> csLoop s = LoopReads \<and> csCtl s = Some 0 \<and> csVisitorCfgs s = Map.empty \<and>
     ktHand (csCtls s ! 0) = None"
proof -
  have named: "confs_named [] Map.empty" "set ([] :: string list) = dom Map.empty" by (simp_all add: confs_named_def)
  from new_control_runs [OF named, of "\<lambda>_ _. None" "''r''" 0 cfg] obtain ctl0 ctl :: "nat client_control" where
    c: "NewControl_client (\<lambda>_ _. None) ''r'' [] [] Map.empty = Some ctl0" "Control_Run 0 ctl0 = Some ctl" "ktHand ctl = None" by blast
  from client_reach.start [OF named c(1,2), of cfg] c(3) show ?thesis by fastforce
qed

subsection \<open>Closing a client that is connected\<close>

definition closing :: "nat \<Rightarrow> nat \<Rightarrow> 'c client_service \<Rightarrow> bool" where
  "closing a n s \<longleftrightarrow> csExit s \<and> csCtl s = None \<and> length (csCtls s) = n \<and> (csLoop s = LoopWaits a \<or> csLoop s = LoopEnded)"

lemma closing_step: "client_step cfg s s' \<Longrightarrow> closing a n s \<Longrightarrow> closing a n s'"
  by (induction rule: client_step.induct)
    (auto simp: closing_def keep_wake_def Service_GracefulClose_def Service_ReloadConf_def Let_def)

lemma closing_steps: "(client_step cfg)\<^sup>*\<^sup>* s s' \<Longrightarrow> closing a n s \<Longrightarrow> closing a n s'"
proof (induction rule: rtranclp_induct)
  case (step s1 s2)
  from closing_step [OF step(2) step(3) [OF step(4)]] show ?case .
qed simp

lemma control_steps:
  assumes "(ctl_step cfg)\<^sup>*\<^sup>* (csCtls s ! a) ctl" "a < length (csCtls s)"
  shows "(client_step cfg)\<^sup>*\<^sup>* s (s\<lparr>csCtls := (csCtls s)[a := ctl]\<rparr>)"
  using assms
proof (induction rule: rtranclp_induct)
  case (step c1 c2)
  let ?s = "s\<lparr>csCtls := (csCtls s)[a := c1]\<rparr>"
  have "client_step cfg ?s (?s\<lparr>csCtls := (csCtls ?s)[a := c2]\<rparr>)" using step(2,4) by (intro client_step.control) simp_all
  with step(3) [OF step(4)] show ?case by (auto intro: rtranclp.rtrancl_into_rtrancl)
qed simp



subsection \<open>Closing a client that reconnects\<close>

text \<open>Closing a client while its loop logs in does not end it: the check of the exit flag is behind the loop, so a login
  that succeeds installs a new control that runs and is connected, and the loop goes on to wait for it. Closing a
  client between the installation of a control and the next turn of the loop makes the loop dereference the
  field it has just been cleared of, which ends the process.\<close>

lemma close_during_login:
  fixes s :: "'c client_service"
  assumes reach: "client_reach cfg s" and names: "set names = dom (csVisitorCfgs s)"
  shows "(csLoop s = LoopLogsIn \<longrightarrow> (\<exists>s1 s2. Service_GracefulClose s = Some s1 \<and> keep_install bind names now runID s1 = Some s2 \<and>
       (client_step cfg)\<^sup>*\<^sup>* s (keep_read s2) \<and> csExit (keep_read s2) \<and> csCtl s2 = Some (length (csCtls s)) \<and>
       csLoop (keep_read s2) = LoopWaits (length (csCtls s)) \<and>
       ktHandler (csCtls s2 ! length (csCtls s)) \<and> \<not> ktConnClosed (csCtls s2 ! length (csCtls s)))) \<and>
    (csLoop s = LoopReads \<longrightarrow> (\<exists>s1. Service_GracefulClose s = Some s1 \<and> (client_step cfg)\<^sup>*\<^sup>* s (keep_read s1) \<and> csLoop (keep_read s1) = LoopPanics))"
proof -
  note inv = client_reach_inv [OF reach]
  have "\<exists>ctls. Service_GracefulClose s = Some (s\<lparr>csExit := True, csCtls := ctls, csCtl := None\<rparr>) \<and> length ctls = length (csCtls s)"
  proof (cases "csCtl s")
    case None
    then have "s\<lparr>csExit := True, csCtls := csCtls s, csCtl := None\<rparr> = s\<lparr>csExit := True\<rparr>" by (cases s) simp
    with None show ?thesis by (intro exI [of _ "csCtls s"]) (simp add: Service_GracefulClose_def)
  next
    case (Some a)
    then have "ctl_reach cfg (csCtls s ! a)" using inv by (simp add: client_inv_def)
    from Control_GracefulClose_reach [OF this] Some show ?thesis by (auto simp: Service_GracefulClose_def)
  qed
  then obtain ctls where g: "Service_GracefulClose s = Some (s\<lparr>csExit := True, csCtls := ctls, csCtl := None\<rparr>)" "length ctls = length (csCtls s)" by blast
  let ?s = "s\<lparr>csExit := True, csCtls := ctls, csCtl := None\<rparr>"
  have cl: "client_step cfg s ?s" using g(1) by (rule client_step.close)
  have "confs_named (csPxyCfgs s) (csVisitorCfgs s)" using inv by (simp add: client_inv_def)
  from new_control_runs [OF this names, of bind runID now cfg] obtain ctl0 ctl :: "'c client_control" where
    c: "NewControl_client bind runID (csPxyCfgs s) names (csVisitorCfgs s) = Some ctl0" "Control_Run now ctl0 = Some ctl"
    "ktHandler ctl" "\<not> ktConnClosed ctl" by blast
  let ?t = "?s\<lparr>csRunID := runID, csCtls := ctls @ [ctl], csCtl := Some (length ctls), csLoop := LoopReads\<rparr>"
  have ins: "keep_install bind names now runID ?s = Some ?t" using c by (simp add: keep_install_def)
  show ?thesis
  proof (intro conjI impI)
    assume l: "csLoop s = LoopLogsIn"
    have i: "client_step cfg ?s ?t" by (rule client_step.install [OF _ _ ins]) (use l names in simp_all)
    have r: "client_step cfg ?t (keep_read ?t)" by (rule client_step.read) simp
    have "(client_step cfg)\<^sup>*\<^sup>* ?s (keep_read ?t)" using r by (rule converse_rtranclp_into_rtranclp [where r = "client_step cfg", OF i r_into_rtranclp])
    with cl have steps: "(client_step cfg)\<^sup>*\<^sup>* s (keep_read ?t)" by (rule converse_rtranclp_into_rtranclp)
    have at: "(ctls @ [ctl]) ! length (csCtls s) = ctl" unfolding g(2) [symmetric] by (rule nth_append_length)
    have rest: "csExit (keep_read ?t)" "csCtl ?t = Some (length (csCtls s))" "csLoop (keep_read ?t) = LoopWaits (length (csCtls s))"
      "csCtls ?t ! length (csCtls s) = ctl" using g(2) at by (simp_all add: keep_read_def)
    show "\<exists>s1 s2. Service_GracefulClose s = Some s1 \<and> keep_install bind names now runID s1 = Some s2 \<and>
       (client_step cfg)\<^sup>*\<^sup>* s (keep_read s2) \<and> csExit (keep_read s2) \<and> csCtl s2 = Some (length (csCtls s)) \<and>
       csLoop (keep_read s2) = LoopWaits (length (csCtls s)) \<and>
       ktHandler (csCtls s2 ! length (csCtls s)) \<and> \<not> ktConnClosed (csCtls s2 ! length (csCtls s))"
      by (intro exI [of _ ?s] exI [of _ ?t] conjI g(1) ins steps rest(1-3)) (unfold rest(4), rule c(3), rule c(4))
  next
    assume l: "csLoop s = LoopReads"
    have r: "client_step cfg ?s (keep_read ?s)" by (rule client_step.read) (use l in simp)
    have "(client_step cfg)\<^sup>*\<^sup>* s (keep_read ?s)" using r by (rule converse_rtranclp_into_rtranclp [where r = "client_step cfg", OF cl r_into_rtranclp])
    with g(1) show "\<exists>s1. Service_GracefulClose s = Some s1 \<and> (client_step cfg)\<^sup>*\<^sup>* s (keep_read s1) \<and> csLoop (keep_read s1) = LoopPanics"
      by (intro exI [of _ ?s]) (simp add: keep_read_def)
  qed
qed

end
