(* ===== verification/Client_Command.thy ===== *)
theory Client_Command
  imports Client_Service Proxy_Factory
begin

text \<open>
  Model of \<^verbatim>\<open>cmd/frpc/sub\<close>: what the commands of the client start, from the flags of the command line and from the answers of
  the easy start service. The globals the flags are parsed into are a record; the transport, the JSON decoders
  and the file system are parameters. Every command ends with a list of clients to start: a configuration, proxies and visitors.
\<close>

record cmd_flags =
  cfServerAddr :: string
  cfUser :: string
  cfProtocol :: string
  cfToken :: string
  cfLogLevel :: string
  cfLogFile :: string
  cfLogMaxDays :: int
  cfDisableLogColor :: bool
  cfDNSServer :: string
  cfTLSEnable :: bool
  cfTLSServerName :: string
  cfProxyName :: string
  cfLocalIP :: string
  cfLocalPort :: int
  cfRemotePort :: int
  cfUseEncryption :: bool
  cfUseCompression :: bool
  cfBandwidthLimit :: string
  cfBandwidthLimitMode :: string
  cfCustomDomains :: string
  cfSubDomain :: string
  cfLocations :: string
  cfHTTPUser :: string
  cfHTTPPwd :: string
  cfHostHeaderRewrite :: string
  cfMultiplexer :: string
  cfRole :: string
  cfSk :: string
  cfServerName :: string
  cfBindAddr :: string
  cfBindPort :: int

datatype cmd_error = CmdServerAddr | CmdConfig string | CmdBandwidth config_error | CmdProxy config_error | CmdVisitor string
  | CmdRole | CmdEasyStart

type_synonym client_start = "ClientCommonConf \<times> (string \<times> ProxyConf) list \<times> VisitorConf smap"

definition parseClientCommonCfgFromCmd :: "file_system \<Rightarrow> string \<Rightarrow> cmd_flags \<Rightarrow> (cmd_error, ClientCommonConf) result" where
  "parseClientCommonCfgFromCmd fs http_proxy f =
     (case SplitHostPort (cfServerAddr f) of
        Inl _ \<Rightarrow> Inl CmdServerAddr
      | Inr (ipStr, portStr) \<Rightarrow>
          (case Atoi portStr of
             (_, Some _) \<Rightarrow> Inl CmdServerAddr
           | (port, None) \<Rightarrow>
               (let cfg = Client_Complete ((GetDefaultClientCommonConf http_proxy)
                      \<lparr>clServerAddr := ipStr, clServerPort := port, clUser := cfUser f, clProtocol := cfProtocol f, clLogLevel := cfLogLevel f,
                       clLogFile := cfLogFile f, clLogMaxDays := cfLogMaxDays f, clDisableLogColor := cfDisableLogColor f,
                       clDNSServer := cfDNSServer f, clAuth := GetDefaultClientConf\<lparr>ccToken := cfToken f\<rparr>,
                       clTLSEnable := cfTLSEnable f, clTLSServerName := cfTLSServerName f\<rparr>)
                in case Client_Validate fs cfg of Some e \<Rightarrow> Inl (CmdConfig e) | None \<Rightarrow> Inr cfg)))"

section \<open>The commands of the proxy types\<close>

definition cmd_name :: "cmd_flags \<Rightarrow> string" where
  "cmd_name f = (if cfUser f \<noteq> [] then cfUser f @ ''.'' else []) @ cfProxyName f"

definition cmd_base :: "cmd_flags \<Rightarrow> string \<Rightarrow> BandwidthQuantity \<Rightarrow> 'a BaseProxyConf_scheme \<Rightarrow> 'a BaseProxyConf_scheme" where
  "cmd_base f proxyType limit cfg =
     cfg\<lparr>BaseProxyConf.bProxyName := cmd_name f, BaseProxyConf.bProxyType := proxyType, bUseEncryption := cfUseEncryption f, bUseCompression := cfUseCompression f,
         bBandwidthLimit := limit, bBandwidthLimitMode := cfBandwidthLimitMode f,
         bLocalSvrConf := zero_LocalSvrConf\<lparr>LocalIP := cfLocalIP f, LocalPort := cfLocalPort f\<rparr>\<rparr>"

definition cmd_domains :: "cmd_flags \<Rightarrow> DomainConf" where
  "cmd_domains f = \<lparr>dCustomDomains = Split (CHR '','') (cfCustomDomains f), dSubDomain = cfSubDomain f\<rparr>"

definition tcpCmd_conf :: "cmd_flags \<Rightarrow> BandwidthQuantity \<Rightarrow> ProxyConf" where
  "tcpCmd_conf f limit = TCPConf (cmd_base f ''tcp'' limit (zero_base (TCPProxyConf.fields (cfRemotePort f))))"

definition udpCmd_conf :: "cmd_flags \<Rightarrow> BandwidthQuantity \<Rightarrow> ProxyConf" where
  "udpCmd_conf f limit = UDPConf (cmd_base f ''udp'' limit (zero_base (UDPProxyConf.fields (cfRemotePort f))))"

definition httpCmd_conf :: "cmd_flags \<Rightarrow> BandwidthQuantity \<Rightarrow> ProxyConf" where
  "httpCmd_conf f limit =
     HTTPConf (cmd_base f ''http'' limit (zero_base (HTTPProxyConf.fields (cmd_domains f) (Split (CHR '','') (cfLocations f)) (cfHTTPUser f)
       (cfHTTPPwd f) (cfHostHeaderRewrite f) [] [])))"

definition httpsCmd_conf :: "cmd_flags \<Rightarrow> BandwidthQuantity \<Rightarrow> ProxyConf" where
  "httpsCmd_conf f limit = HTTPSConf (cmd_base f ''https'' limit (zero_base (HTTPSProxyConf.fields (cmd_domains f))))"

definition tcpMuxCmd_conf :: "cmd_flags \<Rightarrow> BandwidthQuantity \<Rightarrow> ProxyConf" where
  "tcpMuxCmd_conf f limit =
     TCPMuxConf (cmd_base f ''tcpmux'' limit (zero_base (TCPMuxProxyConf.fields (cmd_domains f) [] [] [] (cfMultiplexer f))))"

definition secretCmd_conf :: "cmd_flags \<Rightarrow> string \<Rightarrow> BandwidthQuantity \<Rightarrow> RoleProxyConf" where
  "secretCmd_conf f proxyType limit =
     cmd_base f proxyType limit (zero_base (RoleProxyConf.fields \<lparr>rRole = cfRole f, rSk = cfSk f, rAllowUsers = []\<rparr>))"

definition secretCmd_visitor :: "cmd_flags \<Rightarrow> string \<Rightarrow> BaseVisitorConf" where
  "secretCmd_visitor f proxyType =
     \<lparr>vbProxyName = cmd_name f, vbProxyType = proxyType, vbUseEncryption = cfUseEncryption f, vbUseCompression = cfUseCompression f,
      vbRole = cfRole f, vbSk = cfSk f, vbServerUser = [], vbServerName = cfServerName f, vbBindAddr = cfBindAddr f,
      vbBindPort = cfBindPort f\<rparr>"

text \<open>The bandwidth limit is parsed and the configuration validated before the client is started.\<close>

definition cmd_proxy :: "(string \<Rightarrow> int \<Rightarrow> int option) \<Rightarrow> cmd_flags \<Rightarrow> (BandwidthQuantity \<Rightarrow> ProxyConf) \<Rightarrow>
    (cmd_error, (string \<times> ProxyConf) list) result" where
  "cmd_proxy flt f conf =
     (case NewBandwidthQuantity flt (cfBandwidthLimit f) of
        (_, Some e) \<Rightarrow> Inl (CmdBandwidth e)
      | (limit, None) \<Rightarrow>
          (case ValidateForClient (conf limit) of Some e \<Rightarrow> Inl (CmdProxy e) | None \<Rightarrow> Inr [(cmd_name f, conf limit)]))"

definition cmd_visitor :: "cmd_flags \<Rightarrow> VisitorConf \<Rightarrow> (cmd_error, VisitorConf smap) result" where
  "cmd_visitor f conf = (case Visitor_Validate conf of Some e \<Rightarrow> Inl (CmdVisitor e) | None \<Rightarrow> Inr [cmd_name f \<mapsto> conf])"

datatype frpc_command = TcpCmd | UdpCmd | HttpCmd | HttpsCmd | TcpMuxCmd | StcpCmd | SudpCmd | XtcpCmd

definition secretCmd :: "(string \<Rightarrow> int \<Rightarrow> int option) \<Rightarrow> cmd_flags \<Rightarrow> (BandwidthQuantity \<Rightarrow> ProxyConf) \<Rightarrow> VisitorConf \<Rightarrow>
    (cmd_error, (string \<times> ProxyConf) list \<times> VisitorConf smap) result" where
  "secretCmd flt f conf visitor =
     (if cfRole f = ''server'' then map_sum id (\<lambda>ps. (ps, Map.empty)) (cmd_proxy flt f conf)
      else if cfRole f = ''visitor'' then map_sum id (\<lambda>vs. ([], vs)) (cmd_visitor f visitor)
      else Inl CmdRole)"

primrec cmd_confs :: "(string \<Rightarrow> int \<Rightarrow> int option) \<Rightarrow> cmd_flags \<Rightarrow> frpc_command \<Rightarrow>
    (cmd_error, (string \<times> ProxyConf) list \<times> VisitorConf smap) result" where
  "cmd_confs flt f TcpCmd = map_sum id (\<lambda>ps. (ps, Map.empty)) (cmd_proxy flt f (tcpCmd_conf f))"
| "cmd_confs flt f UdpCmd = map_sum id (\<lambda>ps. (ps, Map.empty)) (cmd_proxy flt f (udpCmd_conf f))"
| "cmd_confs flt f HttpCmd = map_sum id (\<lambda>ps. (ps, Map.empty)) (cmd_proxy flt f (httpCmd_conf f))"
| "cmd_confs flt f HttpsCmd = map_sum id (\<lambda>ps. (ps, Map.empty)) (cmd_proxy flt f (httpsCmd_conf f))"
| "cmd_confs flt f TcpMuxCmd = map_sum id (\<lambda>ps. (ps, Map.empty)) (cmd_proxy flt f (tcpMuxCmd_conf f))"
| "cmd_confs flt f StcpCmd =
     secretCmd flt f (\<lambda>l. STCPConf (secretCmd_conf f ''stcp'' l)) (STCPVisitorConf (secretCmd_visitor f ''stcp''))"
| "cmd_confs flt f SudpCmd =
     secretCmd flt f (\<lambda>l. SUDPConf (secretCmd_conf f ''sudp'' l)) (SUDPVisitorConf (secretCmd_visitor f ''sudp''))"
| "cmd_confs flt f XtcpCmd =
     secretCmd flt f (\<lambda>l. XTCPConf (secretCmd_conf f ''xtcp'' l))
       (XTCPVisitor (BaseVisitorConf.extend (secretCmd_visitor f ''xtcp'') (BaseVisitorConf.more zero_XTCPVisitorConf)))"

definition run_command :: "(string \<Rightarrow> int \<Rightarrow> int option) \<Rightarrow> file_system \<Rightarrow> string \<Rightarrow> cmd_flags \<Rightarrow> frpc_command \<Rightarrow>
    (cmd_error, client_start list) result" where
  "run_command flt fs http_proxy f c =
     (case parseClientCommonCfgFromCmd fs http_proxy f of
        Inl e \<Rightarrow> Inl e
      | Inr cfg \<Rightarrow> map_sum id (\<lambda>(ps, vs). [(cfg, ps, vs)]) (cmd_confs flt f c))"

section \<open>Easy start\<close>

record ProxyConfigResp =
  prProxyName :: string
  prProxyType :: string
  prIsBanned :: bool
  prIsDisabled :: bool
  prLocalIp :: string
  prLocalPort :: int
  prRemotePort :: int
  prDomain :: string
  prUseEncryption :: bool
  prUseCompression :: bool
  prHostHeaderRewrite :: string
  prHeaderXFromWhere :: string
  prNodeAddr :: string
  prNodePort :: int
  prNodeToken :: string

record APIResponse =
  arCode :: int
  arMessage :: string
  arData :: ProxyConfigResp

datatype fetch_error = FetchRequest string | FetchDecode string | FetchAPI string | FetchBanned | FetchDisabled | FetchNoType
  | FetchNoNode | FetchNoPort

text \<open>\<open>send\<close> posts a body with a token and returns the body of the answer, \<open>decode\<close> is the JSON decoder.\<close>

definition fetchProxyConfig :: "(string \<Rightarrow> string \<Rightarrow> (string, string) result) \<Rightarrow> (string \<Rightarrow> (string, APIResponse) result) \<Rightarrow> string \<Rightarrow>
    string \<Rightarrow> (fetch_error, ProxyConfigResp) result" where
  "fetchProxyConfig send decode proxyId userToken =
     (case send (CHR 0x7B # CHR 0x22 # ''proxyId'' @ CHR 0x22 # '': '' @ proxyId @ [CHR 0x7D]) (''Bearer '' @ userToken) of
        Inl e \<Rightarrow> Inl (FetchRequest e)
      | Inr body \<Rightarrow>
          (case decode body of
             Inl e \<Rightarrow> Inl (FetchDecode e)
           | Inr resp \<Rightarrow>
               if arCode resp \<noteq> 200 then Inl (FetchAPI (arMessage resp))
               else if prIsBanned (arData resp) then Inl FetchBanned
               else if prIsDisabled (arData resp) then Inl FetchDisabled
               else if prProxyType (arData resp) = [] then Inl FetchNoType
               else if prNodeAddr (arData resp) = [] then Inl FetchNoNode
               else if prNodePort (arData resp) = 0 then Inl FetchNoPort
               else Inr (arData resp)))"

text \<open>A domain that is not a JSON list of strings is taken as one domain.\<close>

definition easy_domains :: "(string \<Rightarrow> string list option) \<Rightarrow> ProxyConfigResp \<Rightarrow> string list" where
  "easy_domains unmarshal p =
     (if prDomain p \<noteq> [] then (case unmarshal (prDomain p) of Some ds \<Rightarrow> ds | None \<Rightarrow> [prDomain p]) else [])"

definition easy_base :: "string \<Rightarrow> ProxyConfigResp \<Rightarrow> string \<Rightarrow> 'a BaseProxyConf_scheme \<Rightarrow> 'a BaseProxyConf_scheme" where
  "easy_base userToken p proxyType cfg =
     cfg\<lparr>BaseProxyConf.bProxyName := userToken @ ''.'' @ prProxyName p, BaseProxyConf.bProxyType := proxyType,
         bLocalSvrConf := zero_LocalSvrConf\<lparr>LocalIP := prLocalIp p, LocalPort := prLocalPort p\<rparr>\<rparr>"

definition easy_flags :: "ProxyConfigResp \<Rightarrow> 'a BaseProxyConf_scheme \<Rightarrow> 'a BaseProxyConf_scheme" where
  "easy_flags p cfg = cfg\<lparr>bUseEncryption := prUseEncryption p, bUseCompression := prUseCompression p\<rparr>"

definition createProxyConfig :: "(string \<Rightarrow> string list option) \<Rightarrow> string \<Rightarrow> ProxyConfigResp \<Rightarrow> ProxyConf option" where
  "createProxyConfig unmarshal userToken p =
     (let domains = \<lparr>dCustomDomains = easy_domains unmarshal p, dSubDomain = []\<rparr>
      in if prProxyType p = ''tcp''
         then Some (TCPConf (easy_flags p (easy_base userToken p ''tcp'' (zero_base (TCPProxyConf.fields (prRemotePort p))))))
         else if prProxyType p = ''udp''
         then Some (UDPConf (easy_base userToken p ''udp'' (zero_base (UDPProxyConf.fields (prRemotePort p)))))
         else if prProxyType p = ''http''
         then Some (HTTPConf (easy_flags p (easy_base userToken p ''http''
                (zero_base (HTTPProxyConf.fields domains [] [] [] (prHostHeaderRewrite p) [(''X-From-Where'', prHeaderXFromWhere p)] [])))))
         else if prProxyType p = ''https''
         then Some (HTTPSConf (easy_flags p (easy_base userToken p ''https'' (zero_base (HTTPSProxyConf.fields domains)))))
         else None)"

definition easy_client :: "string \<Rightarrow> string \<Rightarrow> ProxyConfigResp \<Rightarrow> ClientCommonConf" where
  "easy_client http_proxy userToken p =
     (GetDefaultClientCommonConf http_proxy)
       \<lparr>clServerAddr := prNodeAddr p, clServerPort := prNodePort p, clUser := userToken,
        clAuth := (clAuth (GetDefaultClientCommonConf http_proxy))\<lparr>ccToken := prNodeToken p\<rparr>,
        clLogLevel := ''info'', clLogFile := ''console'', clLogMaxDays := 3\<rparr>"

text \<open>One client per proxy that could be fetched and has a supported type.\<close>

definition easy_start :: "(string \<Rightarrow> string list option) \<Rightarrow> string \<Rightarrow> string \<Rightarrow> ProxyConfigResp \<Rightarrow> client_start list" where
  "easy_start unmarshal http_proxy userToken p =
     (case createProxyConfig unmarshal userToken p of
        None \<Rightarrow> []
      | Some c \<Rightarrow> [(easy_client http_proxy userToken p, [(userToken @ ''.'' @ prProxyName p, c)], Map.empty)])"

definition runEasyStartup :: "(string \<Rightarrow> string \<Rightarrow> (string, string) result) \<Rightarrow> (string \<Rightarrow> (string, APIResponse) result) \<Rightarrow>
    (string \<Rightarrow> string list option) \<Rightarrow> string \<Rightarrow> string \<Rightarrow> string \<Rightarrow> (cmd_error, client_start list) result" where
  "runEasyStartup send decode unmarshal http_proxy userToken proxyId =
     (if userToken = [] \<or> proxyId = [] then Inl CmdEasyStart
      else let proxies = concat (map (\<lambda>pid. case fetchProxyConfig send decode pid userToken of Inl _ \<Rightarrow> [] | Inr p \<Rightarrow> [p])
                           (Split (CHR '','') proxyId))
           in if proxies = [] then Inl CmdEasyStart else Inr (concat (map (easy_start unmarshal http_proxy userToken) proxies)))"

section \<open>What reaches the server\<close>

text \<open>A configuration as the server reads it when the client left the mode of the bandwidth limit empty.\<close>

definition mode_set :: "'a BaseProxyConf_scheme \<Rightarrow> 'a BaseProxyConf_scheme" where
  "mode_set c = (if bBandwidthLimitMode c = [] then c\<lparr>bBandwidthLimitMode := ''client''\<rparr> else c)"

primrec with_mode :: "ProxyConf \<Rightarrow> ProxyConf" where
  "with_mode (TCPConf c) = TCPConf (mode_set c)"
| "with_mode (TCPMuxConf c) = TCPMuxConf (mode_set c)"
| "with_mode (UDPConf c) = UDPConf (mode_set c)"
| "with_mode (HTTPConf c) = HTTPConf (mode_set c)"
| "with_mode (HTTPSConf c) = HTTPSConf (mode_set c)"
| "with_mode (STCPConf c) = STCPConf (mode_set c)"
| "with_mode (XTCPConf c) = XTCPConf (mode_set c)"
| "with_mode (SUDPConf c) = SUDPConf (mode_set c)"

lemma mode_set_fields [simp]:
  fixes c :: "'a BaseProxyConf_scheme"
  shows "BaseProxyConf.bProxyName (mode_set c) = BaseProxyConf.bProxyName c" "bGroup (mode_set c) = bGroup c" "bGroupKey (mode_set c) = bGroupKey c"
    "BaseProxyConf.more (mode_set c) = BaseProxyConf.more c" "Base_marshalToMsg (mode_set c) empty_NewProxy = Base_marshalToMsg c empty_NewProxy"
  by (simp_all add: mode_set_def Base_marshalToMsg_def empty_NewProxy_def Let_def)

lemma mode_set_parts [simp]:
  "tcRemotePort (mode_set c1) = tcRemotePort c1" "ucRemotePort (mode_set c2) = ucRemotePort c2"
  "mcDomainConf (mode_set c3) = mcDomainConf c3" "mcHTTPUser (mode_set c3) = mcHTTPUser c3" "mcHTTPPwd (mode_set c3) = mcHTTPPwd c3"
  "mcRouteByHTTPUser (mode_set c3) = mcRouteByHTTPUser c3" "mcMultiplexer (mode_set c3) = mcMultiplexer c3"
  "hcDomainConf (mode_set c4) = hcDomainConf c4" "hcLocations (mode_set c4) = hcLocations c4" "hcHTTPUser (mode_set c4) = hcHTTPUser c4"
  "hcHTTPPwd (mode_set c4) = hcHTTPPwd c4" "hcHostHeaderRewrite (mode_set c4) = hcHostHeaderRewrite c4" "hcHeaders (mode_set c4) = hcHeaders c4"
  "hcRouteByHTTPUser (mode_set c4) = hcRouteByHTTPUser c4" "scDomainConf (mode_set c5) = scDomainConf c5" "rcRole (mode_set c6) = rcRole c6"
  by (simp_all add: mode_set_def)

lemma with_mode_marshal: "MarshalToMsg (with_mode c) empty_NewProxy = MarshalToMsg c empty_NewProxy"
  by (cases c) (simp_all add: TCPConf_MarshalToMsg_def UDPConf_MarshalToMsg_def TCPMuxConf_MarshalToMsg_def HTTPConf_MarshalToMsg_def
      HTTPSConf_MarshalToMsg_def RoleConf_MarshalToMsg_def)

lemma with_mode_proxy [simp]: "NewProxy_server user (with_mode c) = NewProxy_server user c"
  by (cases c) (simp_all add: NewHTTPProxy_def NewHTTPSProxy_def NewTCPMuxProxy_def)

lemma marshal_with_mode:
  assumes "conf_ok flt (with_mode c)"
  shows "pxy_from_msg flt srv user (MarshalToMsg c empty_NewProxy) =
    (case ValidateForServer srv (server_view (with_mode c)) of Some e \<Rightarrow> Inl (config_error_text e) | None \<Rightarrow> Inr (NewProxy_server user c))"
  using NewProxyConfFromMsg_marshal [OF assms, of srv] by (simp add: with_mode_marshal pxy_from_msg_def split: option.split)

lemma cmd_base_fields:
  "GetBaseConfig (tcpCmd_conf f q) = cmd_base f ''tcp'' q (zero_base ())" "GetBaseConfig (udpCmd_conf f q) = cmd_base f ''udp'' q (zero_base ())"
  "GetBaseConfig (httpCmd_conf f q) = cmd_base f ''http'' q (zero_base ())" "GetBaseConfig (httpsCmd_conf f q) = cmd_base f ''https'' q (zero_base ())"
  "GetBaseConfig (tcpMuxCmd_conf f q) = cmd_base f ''tcpmux'' q (zero_base ())"
  "GetBaseConfig (STCPConf (secretCmd_conf f t q)) = cmd_base f t q (zero_base ())"
  "GetBaseConfig (SUDPConf (secretCmd_conf f t q)) = cmd_base f t q (zero_base ())"
  "GetBaseConfig (XTCPConf (secretCmd_conf f t q)) = cmd_base f t q (zero_base ())"
  by (simp_all add: tcpCmd_conf_def udpCmd_conf_def httpCmd_conf_def httpsCmd_conf_def tcpMuxCmd_conf_def secretCmd_conf_def cmd_base_def
      zero_base_def BaseProxyConf.defs)

lemma cmd_conf_type:
  "conf_type (tcpCmd_conf f q) = ''tcp''" "conf_type (udpCmd_conf f q) = ''udp''" "conf_type (httpCmd_conf f q) = ''http''"
  "conf_type (httpsCmd_conf f q) = ''https''" "conf_type (tcpMuxCmd_conf f q) = ''tcpmux''"
  by (simp_all add: tcpCmd_conf_def udpCmd_conf_def httpCmd_conf_def httpsCmd_conf_def tcpMuxCmd_conf_def)

lemma with_mode_id: "bBandwidthLimitMode (GetBaseConfig c) \<noteq> [] \<Longrightarrow> with_mode c = c"
  by (cases c) (simp_all add: mode_set_def BaseProxyConf.defs)

lemma cmd_proxy_ok:
  assumes "cmd_proxy flt f conf = Inr ps"
    and base: "\<And>q. GetBaseConfig (conf q) = cmd_base f (conf_type (conf q)) q (zero_base ())"
  shows "\<exists>c. ps = [(cmd_name f, c)] \<and> BaseProxyConf.bProxyName (GetBaseConfig c) = cmd_name f \<and> conf_ok flt (with_mode c)"
proof -
  from assms(1) obtain q where q: "NewBandwidthQuantity flt (cfBandwidthLimit f) = (q, None)" "ValidateForClient (conf q) = None"
    "ps = [(cmd_name f, conf q)]" by (auto simp: cmd_proxy_def split: prod.splits option.splits)
  from ValidateForClient_mode [OF q(2)] have m: "bBandwidthLimitMode (GetBaseConfig (conf q)) \<in> {''client'', ''server''}" .
  then have "with_mode (conf q) = conf q" by (intro with_mode_id) auto
  moreover have "conf_ok flt (conf q)" using m quantity_ok_New [OF q(1)] by (simp add: conf_ok_def base Let_def cmd_base_def)
  ultimately show ?thesis using q(3) by (simp add: base cmd_base_def)
qed

lemma secretCmd_ok:
  assumes "secretCmd flt f conf visitor = Inr (ps, vs)"
    and base: "\<And>q. GetBaseConfig (conf q) = cmd_base f (conf_type (conf q)) q (zero_base ())"
    and visitor: "visitor_conf_ok (cmd_name f) visitor"
  shows "(\<exists>c. ps = [(cmd_name f, c)] \<and> BaseProxyConf.bProxyName (GetBaseConfig c) = cmd_name f \<and> conf_ok flt (with_mode c) \<and> vs = Map.empty) \<or>
    ps = [] \<and> vs = [cmd_name f \<mapsto> visitor]"
proof (cases "cfRole f = ''server''")
  case True
  then obtain ps' where "cmd_proxy flt f conf = Inr ps'" "ps = ps'" "vs = Map.empty"
    using assms(1) by (cases "cmd_proxy flt f conf") (simp_all add: secretCmd_def)
  with cmd_proxy_ok [OF _ base] show ?thesis by blast
next
  case False
  with assms(1) show ?thesis by (cases "cmd_visitor f visitor") (auto simp: secretCmd_def cmd_visitor_def split: if_splits option.splits)
qed

lemma secretCmd_visitor_ok:
  "visitor_conf_ok (cmd_name f) (STCPVisitorConf (secretCmd_visitor f t))" "visitor_conf_ok (cmd_name f) (SUDPVisitorConf (secretCmd_visitor f t))"
  "visitor_conf_ok (cmd_name f) (XTCPVisitor (BaseVisitorConf.extend (secretCmd_visitor f t) (BaseVisitorConf.more zero_XTCPVisitorConf)))"
  by (simp_all add: visitor_conf_ok_def secretCmd_visitor_def zero_XTCPVisitorConf_def zero_BaseVisitorConf_def BaseVisitorConf.defs)

lemma cmd_confs_ok:
  assumes "cmd_confs flt f cmd = Inr (ps, vs)"
  shows "(\<exists>c. ps = [(cmd_name f, c)] \<and> BaseProxyConf.bProxyName (GetBaseConfig c) = cmd_name f \<and> conf_ok flt (with_mode c) \<and> vs = Map.empty) \<or>
    ps = [] \<and> (\<exists>v. vs = [cmd_name f \<mapsto> v] \<and> visitor_conf_ok (cmd_name f) v)"
proof -
  have proxy: ?thesis if "map_sum id (\<lambda>ps. (ps, Map.empty)) (cmd_proxy flt f conf) = Inr (ps, vs)"
    "\<And>q. GetBaseConfig (conf q) = cmd_base f (conf_type (conf q)) q (zero_base ())" for conf
    using that cmd_proxy_ok [of flt f conf] by (cases "cmd_proxy flt f conf") auto
  have secret: ?thesis if "secretCmd flt f conf visitor = Inr (ps, vs)" "visitor_conf_ok (cmd_name f) visitor"
    "\<And>q. GetBaseConfig (conf q) = cmd_base f (conf_type (conf q)) q (zero_base ())" for conf visitor
    using secretCmd_ok [OF that(1,3,2)] that(2) by blast
  show ?thesis
  proof (cases cmd)
    case StcpCmd
    show ?thesis by (rule secret [OF assms [unfolded StcpCmd cmd_confs.simps] secretCmd_visitor_ok(1)]) (simp only: cmd_base_fields conf_type.simps)
  next
    case SudpCmd
    show ?thesis by (rule secret [OF assms [unfolded SudpCmd cmd_confs.simps] secretCmd_visitor_ok(2)]) (simp only: cmd_base_fields conf_type.simps)
  next
    case XtcpCmd
    show ?thesis by (rule secret [OF assms [unfolded XtcpCmd cmd_confs.simps] secretCmd_visitor_ok(3)]) (simp only: cmd_base_fields conf_type.simps)
  next
    case TcpCmd
    show ?thesis by (rule proxy [OF assms [unfolded TcpCmd cmd_confs.simps]]) (simp only: cmd_base_fields cmd_conf_type)
  next
    case UdpCmd
    show ?thesis by (rule proxy [OF assms [unfolded UdpCmd cmd_confs.simps]]) (simp only: cmd_base_fields cmd_conf_type)
  next
    case HttpCmd
    show ?thesis by (rule proxy [OF assms [unfolded HttpCmd cmd_confs.simps]]) (simp only: cmd_base_fields cmd_conf_type)
  next
    case HttpsCmd
    show ?thesis by (rule proxy [OF assms [unfolded HttpsCmd cmd_confs.simps]]) (simp only: cmd_base_fields cmd_conf_type)
  next
    case TcpMuxCmd
    show ?thesis by (rule proxy [OF assms [unfolded TcpMuxCmd cmd_confs.simps]]) (simp only: cmd_base_fields cmd_conf_type)
  qed
qed

lemma createProxyConfig_ok:
  assumes "createProxyConfig unmarshal token p = Some c"
  shows "BaseProxyConf.bProxyName (GetBaseConfig c) = token @ ''.'' @ prProxyName p" "conf_ok flt (with_mode c)"
    "conf_type c = prProxyType p"
  using assms
  by (auto simp: createProxyConfig_def easy_flags_def easy_base_def zero_base_def conf_ok_def mode_set_def BaseProxyConf.defs
      TCPProxyConf.defs UDPProxyConf.defs HTTPProxyConf.defs HTTPSProxyConf.defs Let_def split: if_splits)

text \<open>What a command starts: the name of its proxy, which begins with the prefix of the client's user, and its
  configuration.\<close>

lemma started_proxy_ok:
  assumes "run_command flt fs http_proxy f cmd = Inr starts \<or> runEasyStartup send decode unmarshal http_proxy token ids = Inr starts"
    and "(cfg, ps, vs) \<in> set starts"
  shows "confs_named ps vs" "(n, c) \<in> set ps \<Longrightarrow> BaseProxyConf.bProxyName (GetBaseConfig c) = n \<and> conf_ok flt (with_mode c) \<and>
    (\<exists>rest. n = (if clUser cfg = [] then [] else clUser cfg @ ''.'') @ rest)"
proof -
  have "(\<exists>name c. ps = [(name, c)] \<and> BaseProxyConf.bProxyName (GetBaseConfig c) = name \<and> conf_ok flt (with_mode c) \<and> vs = Map.empty \<and>
      (\<exists>rest. name = (if clUser cfg = [] then [] else clUser cfg @ ''.'') @ rest)) \<or>
    ps = [] \<and> (\<exists>name v. vs = [name \<mapsto> v] \<and> visitor_conf_ok name v)"
    using assms(1)
  proof
    assume run: "run_command flt fs http_proxy f cmd = Inr starts"
    then obtain cfg' r where p': "parseClientCommonCfgFromCmd fs http_proxy f = Inr cfg'" and c': "cmd_confs flt f cmd = Inr r" "starts = [(cfg', r)]"
      by (cases "cmd_confs flt f cmd") (auto simp: run_command_def split: sum.splits)
    then have p: "parseClientCommonCfgFromCmd fs http_proxy f = Inr cfg" and c: "cmd_confs flt f cmd = Inr (ps, vs)" using assms(2) by simp_all
    have "clUser cfg = cfUser f" using p by (auto simp: parseClientCommonCfgFromCmd_def Client_Complete_def Let_def split: sum.splits prod.splits option.splits)
    with cmd_confs_ok [OF c] show ?thesis by (auto simp: cmd_name_def)
  next
    assume "runEasyStartup send decode unmarshal http_proxy token ids = Inr starts"
    then obtain p where p: "(cfg, ps, vs) \<in> set (easy_start unmarshal http_proxy token p)" "token \<noteq> []"
      using assms(2) by (auto simp: runEasyStartup_def Let_def split: if_splits)
    then obtain c where c: "createProxyConfig unmarshal token p = Some c" "ps = [(token @ ''.'' @ prProxyName p, c)]" "vs = Map.empty"
      "cfg = easy_client http_proxy token p" by (cases "createProxyConfig unmarshal token p") (simp_all add: easy_start_def)
    have "clUser cfg = token" by (simp add: c(4) easy_client_def)
    with createProxyConfig_ok(1,2) [OF c(1)] p(2) c(2,3) show ?thesis by simp
  qed
  then show "confs_named ps vs" "(n, c) \<in> set ps \<Longrightarrow> BaseProxyConf.bProxyName (GetBaseConfig c) = n \<and> conf_ok flt (with_mode c) \<and>
    (\<exists>rest. n = (if clUser cfg = [] then [] else clUser cfg @ ''.'') @ rest)"
    by (auto simp: confs_named_def split: if_splits)
qed


definition example_resp :: ProxyConfigResp where
  "example_resp = \<lparr>prProxyName = ''web'', prProxyType = ''tcp'', prIsBanned = False, prIsDisabled = False, prLocalIp = ''127.0.0.1'',
     prLocalPort = 80, prRemotePort = 6000, prDomain = [], prUseEncryption = True, prUseCompression = False, prHostHeaderRewrite = [],
     prHeaderXFromWhere = [], prNodeAddr = ''node.example'', prNodePort = 7000, prNodeToken = ''t''\<rparr>"


section \<open>Differences between command line and file\<close>

text \<open>A visitor of the command line asks for the name it is given, one of a file for the name with the user's prefix: the proxy that the
  same user publishes from the command line has the prefix, so the visitor of the command line does not ask for it.\<close>

lemma command_line_visitor_name:
  assumes "cmd_confs flt f StcpCmd = Inr (ps, [n \<mapsto> STCPVisitorConf c])" "cfRole f = ''visitor''"
  shows "vcProxyName (visitor_msg md5 now runID c) = cfServerName f"
proof -
  from assms have "[n \<mapsto> STCPVisitorConf c] = [cmd_name f \<mapsto> STCPVisitorConf (secretCmd_visitor f ''stcp'')]"
    by (auto simp: secretCmd_def cmd_visitor_def split: option.splits)
  then have "[n \<mapsto> STCPVisitorConf c] n = [cmd_name f \<mapsto> STCPVisitorConf (secretCmd_visitor f ''stcp'')] n" by (rule fun_cong)
  then have "c = secretCmd_visitor f ''stcp''" by (auto split: if_splits)
  then show ?thesis by (simp add: visitor_msg_def secretCmd_visitor_def)
qed

lemma file_visitor_name:
  "vbServerUser c = [] \<Longrightarrow> vcProxyName (visitor_msg md5 now runID (BaseVisitor_unmarshalFromIni pre name c)) = pre @ vbServerName c"
  by (simp add: visitor_msg_def BaseVisitor_unmarshalFromIni_def)

lemma command_line_proxy_name:
  assumes "cmd_confs flt f StcpCmd = Inr ([(n, c)], vs)" "cfUser f \<noteq> []"
  shows "n = cfUser f @ ''.'' @ cfProxyName f" "n \<noteq> cfProxyName f"
  using cmd_confs_ok [OF assms(1)] assms(2) by (auto simp: cmd_name_def)

text \<open>Splitting an empty list of domains gives one empty domain, so the commands never miss a domain.\<close>

lemma command_line_needs_no_domain: "DomainConf_check (cmd_domains f) = None"
  by (simp add: DomainConf_check_def cmd_domains_def)

section \<open>Commands on files\<close>

text \<open>What the root command does: the first of its options that is set decides.\<close>

datatype frpc_action = ShowVersion string | RunFile string | EasyStart string string | RunDirectory string | MissingOptions

definition frpc_root :: "bool \<Rightarrow> string \<Rightarrow> string \<Rightarrow> string \<Rightarrow> string \<Rightarrow> frpc_action" where
  "frpc_root showVersion cfgFile userToken proxyId cfgDir =
     (if showVersion then ShowVersion Full
      else if cfgFile \<noteq> [] then RunFile cfgFile
      else if userToken \<noteq> [] \<and> proxyId \<noteq> [] then EasyStart userToken proxyId
      else if cfgDir \<noteq> [] then RunDirectory cfgDir
      else MissingOptions)"

datatype run_error = RunNoPath | RunRender string | RunParse parse_conf_error

text \<open>The client that is started for a file; \<open>render\<close> reads and renders it.\<close>

definition runClient :: "(string \<Rightarrow> int \<Rightarrow> int option) \<Rightarrow> 'f ini_lib \<Rightarrow> file_system \<Rightarrow> string \<Rightarrow> (string \<Rightarrow> (string, string) result) \<Rightarrow> string \<Rightarrow>
    (run_error, ClientCommonConf \<times> client_confs) result option" where
  "runClient flt lib fs http_proxy render cfgFilePath =
     (if cfgFilePath = [] then Some (Inl RunNoPath)
      else case render cfgFilePath of
             Inl e \<Rightarrow> Some (Inl (RunRender e))
           | Inr content \<Rightarrow> map_option (map_sum RunParse id) (ParseClientConfig flt lib fs http_proxy content))"

text \<open>One client for every path of the walk that is a file and could be visited; they run independently.\<close>

definition runMultipleClients :: "(string \<Rightarrow> 'r) \<Rightarrow> (string \<times> bool \<times> bool) list \<Rightarrow> 'r list" where
  "runMultipleClients run walk = map (\<lambda>(path, _, _). run path) (filter (\<lambda>(_, failed, isDir). \<not> (failed \<or> isDir)) walk)"

text \<open>The verify command hands the path of the file, not its content, to the parser.\<close>

definition frpc_verify :: "(string \<Rightarrow> int \<Rightarrow> int option) \<Rightarrow> 'f ini_lib \<Rightarrow> file_system \<Rightarrow> string \<Rightarrow> string \<Rightarrow> bool option" where
  "frpc_verify flt lib fs http_proxy cfgFile =
     (if cfgFile = [] then Some True else map_option (\<lambda>r. \<not> isl r) (ParseClientConfig flt lib fs http_proxy cfgFile))"

text \<open>A path that the ini library does not take for a file with a common section is never verified, whatever the file
  holds and however well a client would start from it.\<close>

lemma verify_reads_path:
  assumes "\<And>f. iLoad lib cfgFile = Inr f \<Longrightarrow> ''common'' \<notin> set (iSections lib f)" "cfgFile \<noteq> []"
  shows "frpc_verify flt lib fs http_proxy cfgFile = Some False"
  using assms by (auto simp: frpc_verify_def ParseClientConfig_def UnmarshalClientConfFromIni_def split: sum.split option.split)

end
