(* ===== verification/Hole_Punch.thy ===== *)
theory Hole_Punch
  imports Nathole_Controller
begin

text \<open>
  Model of the client's side of hole punching: \<^verbatim>\<open>pkg/nathole/nathole.go\<close>, \<^verbatim>\<open>discovery.go\<close> and \<^verbatim>\<open>utils.go\<close>, and the flows of
  \<^verbatim>\<open>client/proxy/xtcp.go\<close> and \<^verbatim>\<open>client/visitor/xtcp.go\<close> that use it. Datagrams that arrive, random numbers and the answers of
  the STUN servers are inputs; the framing and encryption of messages are \<open>sid_codec\<close>, with \<open>codec_ok\<close>: what is encoded with a key
  decodes with it.
\<close>

section \<open>Messages of a session\<close>

record NatHoleSid =
  nsTransactionID :: string
  nsSid :: string
  nsResponse :: bool
  nsNonce :: string

record 'b sid_codec =
  scWriteMsg :: "NatHoleSid \<Rightarrow> (string, 'b) result"
  scReadMsg :: "'b \<Rightarrow> (string, NatHoleSid) result"
  scEncode :: "'b \<Rightarrow> string \<Rightarrow> (string, 'b) result"
  scDecode :: "'b \<Rightarrow> string \<Rightarrow> (string, 'b) result"

definition EncodeMessage :: "'b sid_codec \<Rightarrow> NatHoleSid \<Rightarrow> string \<Rightarrow> (string, 'b) result" where
  "EncodeMessage codec m key = (case scWriteMsg codec m of Inl e \<Rightarrow> Inl e | Inr buffer \<Rightarrow> scEncode codec buffer key)"

definition DecodeMessageInto :: "'b sid_codec \<Rightarrow> 'b \<Rightarrow> string \<Rightarrow> (string, NatHoleSid) result" where
  "DecodeMessageInto codec data key = (case scDecode codec data key of Inl e \<Rightarrow> Inl e | Inr buf \<Rightarrow> scReadMsg codec buf)"

definition codec_ok :: "'b sid_codec \<Rightarrow> bool" where
  "codec_ok codec \<longleftrightarrow> (\<forall>m key. \<exists>b c. scWriteMsg codec m = Inr b \<and> scEncode codec b key = Inr c \<and> scDecode codec c key = Inr b \<and> scReadMsg codec b = Inr m)"

lemma codec_round_trip: "codec_ok codec \<Longrightarrow> \<exists>b. EncodeMessage codec m key = Inr b \<and> DecodeMessageInto codec b key = Inr m"
  unfolding codec_ok_def EncodeMessage_def DecodeMessageInto_def by (metis (no_types, lifting) old.sum.simps(6))

section \<open>Discovery\<close>

record stunResponse =
  externalAddr :: string
  otherAddr :: string

text \<open>The addresses a binding response carries: the later attributes win.\<close>

definition doSTUNRequest :: "(string, string option \<times> string option \<times> string option \<times> string option) result \<Rightarrow> (string, stunResponse) result" where
  "doSTUNRequest reply =
     map_sum id (\<lambda>(mapped, xorMapped, changed, other).
        \<lparr>externalAddr = (case xorMapped of Some a \<Rightarrow> a | None \<Rightarrow> (case mapped of Some a \<Rightarrow> a | None \<Rightarrow> [])),
         otherAddr = (case other of Some a \<Rightarrow> a | None \<Rightarrow> (case changed of Some a \<Rightarrow> a | None \<Rightarrow> []))\<rparr>) reply"

definition discoverFromStunServer :: "(string \<Rightarrow> (string, stunResponse) result) \<Rightarrow> string \<Rightarrow> (string, string list) result" where
  "discoverFromStunServer request addr =
     (case request addr of
        Inl e \<Rightarrow> Inl e
      | Inr resp \<Rightarrow>
          if externalAddr resp = [] then Inl ''no external address found''
          else if otherAddr resp = [] then Inr [externalAddr resp]
          else (case request (otherAddr resp) of
                  Inl e \<Rightarrow> Inl e
                | Inr resp2 \<Rightarrow> Inr (externalAddr resp # (if externalAddr resp2 \<noteq> [] then [externalAddr resp2] else []))))"

fun Discover :: "(string \<Rightarrow> (string, stunResponse) result) \<Rightarrow> string list \<Rightarrow> (string, string list) result" where
  "Discover request [] = Inr []"
| "Discover request (addr # stunServers) =
     (case discoverFromStunServer request addr of
        Inl e \<Rightarrow> Inl e
      | Inr externalAddrs \<Rightarrow> map_sum id (\<lambda>addrs. externalAddrs @ addrs) (Discover request stunServers))"

text \<open>The local addresses: an IPv4 address or not, a loopback or link local address or not.\<close>

definition ListLocalIPsForNatHole :: "nat \<Rightarrow> (string \<times> bool \<times> bool) list \<Rightarrow> (string, string list) result" where
  "ListLocalIPsForNatHole mx ips =
     (if mx = 0 then Inl ''max must be greater than 0''
      else Inr (take mx (map fst (filter (\<lambda>(ip, is4, isLocal). is4 \<and> \<not> isLocal) ips))))"

record PrepareResult =
  ppAddrs :: "string list"
  ppAssistedAddrs :: "string list"
  ppNatType :: string
  ppBehavior :: string

text \<open>\<open>port\<close> is the port of the local address, or the error of resolving it or of listening on it again.\<close>

definition Prepare :: "lo_lib \<Rightarrow> (string \<Rightarrow> (string, stunResponse) result) \<Rightarrow> (string \<times> bool \<times> bool) list \<Rightarrow> (string, int) result \<Rightarrow>
    string list \<Rightarrow> (string, PrepareResult) result" where
  "Prepare lib request ips port stunServers =
     (case Discover request stunServers of
        Inl e \<Rightarrow> Inl (''discover error: '' @ e)
      | Inr addrs \<Rightarrow>
          if length addrs < 2 then Inl ''discover error: not enough addresses''
          else (let localIPs = (case ListLocalIPsForNatHole 10 ips of Inl _ \<Rightarrow> [] | Inr l \<Rightarrow> l)
                in case ClassifyNATFeature lib addrs localIPs of
                     Inl e \<Rightarrow> Inl ''classify nat feature error''
                   | Inr natFeature \<Rightarrow>
                       (case port of
                          Inl e \<Rightarrow> Inl e
                        | Inr p \<Rightarrow>
                            Inr \<lparr>ppAddrs = addrs, ppAssistedAddrs = map (\<lambda>ip. JoinHostPort ip (Itoa p)) localIPs,
                                 ppNatType = NatType natFeature, ppBehavior = Behavior natFeature\<rparr>)))"

section \<open>Asking the server\<close>

text \<open>What the transporter's \<^verbatim>\<open>Do\<close> yields: an error, a response, or a message of another type.\<close>

datatype lane_msg = RespMsg NatHoleResp | OtherMsg

definition pre_check_msg :: "string \<Rightarrow> string \<Rightarrow> NatHoleVisitor" where
  "pre_check_msg transactionID proxyName =
     \<lparr>nvTransactionID = transactionID, nvProxyName = proxyName, nvPreCheck = True, nvProtocol = [], nvSignKey = [], nvTimestamp = 0,
      nvMappedAddrs = [], nvAssistedAddrs = []\<rparr>"

definition PreCheck :: "(NatHoleVisitor \<Rightarrow> (string, lane_msg) result) \<Rightarrow> string \<Rightarrow> string \<Rightarrow> string option" where
  "PreCheck do_req transactionID proxyName =
     (case do_req (pre_check_msg transactionID proxyName) of
        Inl e \<Rightarrow> Some (''get natHoleRespMsg error: '' @ e)
      | Inr OtherMsg \<Rightarrow> Some ''get natHoleRespMsg error: invalid message type''
      | Inr (RespMsg r) \<Rightarrow> if rError r \<noteq> [] then Some (rError r) else None)"

definition ExchangeInfo :: "('m \<Rightarrow> (string, lane_msg) result) \<Rightarrow> 'm \<Rightarrow> (string, NatHoleResp) result" where
  "ExchangeInfo do_req m =
     (case do_req m of
        Inl e \<Rightarrow> Inl (''get natHoleRespMsg error: '' @ e)
      | Inr OtherMsg \<Rightarrow> Inl ''get natHoleRespMsg error: invalid message type''
      | Inr (RespMsg r) \<Rightarrow>
          if rError r \<noteq> [] then Inl (''natHoleRespMsg get error info: '' @ rError r)
          else if rCandidateAddrs r = [] then Inl ''natHoleRespMsg get empty candidate addresses''
          else Inr r)"

section \<open>Detect messages\<close>

definition sidMessage :: "string \<Rightarrow> string \<Rightarrow> string \<Rightarrow> NatHoleSid" where
  "sidMessage s transactionID nonce = \<lparr>nsTransactionID = transactionID, nsSid = s, nsResponse = False, nsNonce = nonce\<rparr>"

definition detect_addrs :: "lo_lib \<Rightarrow> NatHoleResp \<Rightarrow> string list" where
  "detect_addrs lib m =
     lo_Uniq lib
       (if dRole (rDetectBehavior m) = DetectRoleSender then rAssistedAddrs m @ rCandidateAddrs m
        else if dCandidatePorts (rDetectBehavior m) = [] then rCandidateAddrs m else [])"

text \<open>The sockets: the given one and, on a receiver, the random ones that could be opened.\<close>

definition listen_conns :: "bool list \<Rightarrow> NatHoleResp \<Rightarrow> nat list" where
  "listen_conns opened m =
     (if dRole (rDetectBehavior m) = DetectRoleSender then [0]
      else [0..<Suc (length (filter id (take (nat (dListenRandomPorts (rDetectBehavior m))) opened)))])"

definition sendSidMessageToRangePorts :: "lo_lib \<Rightarrow> nat \<Rightarrow> string list \<Rightarrow> PortsRange list \<Rightarrow> (nat \<times> string) list" where
  "sendSidMessageToRangePorts lib conn addrs ports =
     concat (map (\<lambda>ip. concat (map (\<lambda>r. map (\<lambda>i. (conn, JoinHostPort ip (Itoa i))) [From r..To r]) ports)) (lo_Uniq lib (parseIPs addrs)))"

text \<open>Up to ten draws for a port that was not used before; 0 when there was none.\<close>

fun getUnusedPort :: "int list \<Rightarrow> int set \<Rightarrow> int \<times> int set" where
  "getUnusedPort [] used = (0, used)"
| "getUnusedPort (port # draws) used = (if port \<notin> used then (port, insert port used) else getUnusedPort draws used)"

fun sendSidMessageToRandomPorts :: "lo_lib \<Rightarrow> nat \<Rightarrow> string list \<Rightarrow> int list list \<Rightarrow> int set \<Rightarrow> (nat \<times> string) list" where
  "sendSidMessageToRandomPorts lib conn addrs [] used = []"
| "sendSidMessageToRandomPorts lib conn addrs (draws # rounds) used =
     (case getUnusedPort (take 10 draws) used of
        (port, used') \<Rightarrow>
          (if port = 0 then [] else map (\<lambda>ip. (conn, JoinHostPort ip (Itoa port))) (lo_Uniq lib (parseIPs addrs))) @
          sendSidMessageToRandomPorts lib conn addrs rounds used')"

text \<open>The sends of \<^verbatim>\<open>MakeHole\<close> before it waits, without those to random ports, which goroutines make at the same time.\<close>

definition MakeHole_sends :: "lo_lib \<Rightarrow> bool list \<Rightarrow> NatHoleResp \<Rightarrow> (nat \<times> string) list" where
  "MakeHole_sends lib opened m =
     concat (map (\<lambda>a. map (\<lambda>conn. (conn, a)) (listen_conns opened m)) (detect_addrs lib m)) @
     (if dCandidatePorts (rDetectBehavior m) \<noteq> []
      then concat (map (\<lambda>conn. sendSidMessageToRangePorts lib conn (rCandidateAddrs m) (dCandidatePorts (rDetectBehavior m))) (listen_conns opened m))
      else [])"

definition MakeHole_random_sends :: "lo_lib \<Rightarrow> bool list \<Rightarrow> (nat \<Rightarrow> int list list) \<Rightarrow> NatHoleResp \<Rightarrow> (nat \<times> string) list list" where
  "MakeHole_random_sends lib opened draws m =
     (if dSendRandomPorts (rDetectBehavior m) > 0
      then map (\<lambda>conn. sendSidMessageToRandomPorts lib conn (rCandidateAddrs m) (take (nat (dSendRandomPorts (rDetectBehavior m))) (draws conn)) {})
             (listen_conns opened m)
      else [])"

section \<open>Waiting\<close>

text \<open>What a read yields: an error (its deadline, a closed socket) or a datagram with its source.\<close>

datatype 'b udp_event = UDPError string | Datagram 'b string

text \<open>The result, \<open>None\<close> while the loop waits, and the answers that were sent.\<close>

fun waitDetectMessage :: "'b sid_codec \<Rightarrow> string \<Rightarrow> string \<Rightarrow> string \<Rightarrow> 'b udp_event list \<Rightarrow> (string, string) result option \<times> (string \<times> 'b) list" where
  "waitDetectMessage codec s key role [] = (None, [])"
| "waitDetectMessage codec s key role (UDPError e # es) = (Some (Inl e), [])"
| "waitDetectMessage codec s key role (Datagram b raddr # es) =
     (case DecodeMessageInto codec b key of
        Inl _ \<Rightarrow> waitDetectMessage codec s key role es
      | Inr m \<Rightarrow>
          if nsSid m \<noteq> s then waitDetectMessage codec s key role es
          else if nsResponse m then (Some (Inr raddr), [])
          else if role = DetectRoleSender then waitDetectMessage codec s key role es
          else (case EncodeMessage codec (m\<lparr>nsResponse := True\<rparr>) key of
                  Inl _ \<Rightarrow> waitDetectMessage codec s key role es
                | Inr b2 \<Rightarrow> (Some (Inr raddr), [(raddr, b2)])))"

text \<open>With more than one socket the waits run in goroutines, and a result is handed over only while \<^verbatim>\<open>MakeHole\<close> waits for one
  (\<open>MainWaits\<close>); otherwise the socket is closed.\<close>

datatype punch_event = MainWaits | WaitDone nat string | WaitFails nat | PunchTimeout | PunchCanceled

fun punch_select :: "bool \<Rightarrow> punch_event list \<Rightarrow> (string, nat \<times> string) result option \<times> nat list" where
  "punch_select waits [] = (None, [])"
| "punch_select waits (MainWaits # es) = punch_select True es"
| "punch_select waits (WaitFails c # es) = (case punch_select waits es of (r, closed) \<Rightarrow> (r, c # closed))"
| "punch_select waits (WaitDone c a # es) =
     (if waits then (Some (Inr (c, a)), []) else (case punch_select waits es of (r, closed) \<Rightarrow> (r, c # closed)))"
| "punch_select waits (PunchTimeout # es) = (if waits then (Some (Inl ''wait detect message timeout''), []) else punch_select waits es)"
| "punch_select waits (PunchCanceled # es) = (if waits then (Some (Inl ''wait detect message canceled''), []) else punch_select waits es)"

definition MakeHole_wait :: "'b sid_codec \<Rightarrow> string \<Rightarrow> bool list \<Rightarrow> NatHoleResp \<Rightarrow> 'b udp_event list \<Rightarrow> punch_event list \<Rightarrow>
    (string, nat \<times> string) result option" where
  "MakeHole_wait codec key opened m events punches =
     (if length (listen_conns opened m) = 1
      then map_option (map_sum (\<lambda>e. ''wait detect message error: '' @ e) (\<lambda>a. (0, a)))
             (fst (waitDetectMessage codec (rSid m) key (dRole (rDetectBehavior m)) events))
      else fst (punch_select False punches))"

section \<open>The two ends\<close>

definition nat_hole_client_msg :: "string \<Rightarrow> string \<Rightarrow> string \<Rightarrow> PrepareResult \<Rightarrow> NatHoleClient" where
  "nat_hole_client_msg transactionID proxyName s p =
     \<lparr>ncTransactionID = transactionID, ncProxyName = proxyName, ncSid = s, ncMappedAddrs = ppAddrs p, ncAssistedAddrs = ppAssistedAddrs p\<rparr>"

text \<open>The proxy, on a work connection: the reports it sends to the server, and the socket with the peer's address and the
  protocol of the tunnel that it listens with.\<close>

definition XTCPProxy_InWorkConn :: "(string, string) result \<Rightarrow> (string, PrepareResult) result \<Rightarrow> (NatHoleClient \<Rightarrow> (string, lane_msg) result) \<Rightarrow>
    (NatHoleResp \<Rightarrow> (string, nat \<times> string) result) \<Rightarrow> string \<Rightarrow> string \<Rightarrow> NatHoleReport list \<times> (nat \<times> string \<times> bool) option" where
  "XTCPProxy_InWorkConn readSid prepare do_req makeHole transactionID proxyName =
     (case readSid of
        Inl _ \<Rightarrow> ([], None)
      | Inr s \<Rightarrow>
          (case prepare of
             Inl _ \<Rightarrow> ([], None)
           | Inr p \<Rightarrow>
               (case ExchangeInfo do_req (nat_hole_client_msg transactionID proxyName s p) of
                  Inl _ \<Rightarrow> ([], None)
                | Inr resp \<Rightarrow>
                    (case makeHole resp of
                       Inl _ \<Rightarrow> ([\<lparr>nrSid = rSid resp, nrSuccess = False\<rparr>], None)
                     | Inr (conn, raddr) \<Rightarrow>
                         ([\<lparr>nrSid = rSid resp, nrSuccess = True\<rparr>], Some (conn, raddr, rProtocol resp = ''kcp''))))))"

definition nat_hole_visitor_msg :: "(string \<Rightarrow> string) \<Rightarrow> int \<Rightarrow> string \<Rightarrow> string \<Rightarrow> string \<Rightarrow> string \<Rightarrow> PrepareResult \<Rightarrow> NatHoleVisitor" where
  "nat_hole_visitor_msg md5_hex now transactionID serverName protocol sk p =
     \<lparr>nvTransactionID = transactionID, nvProxyName = serverName, nvPreCheck = False, nvProtocol = protocol,
      nvSignKey = GetAuthKey md5_hex sk now, nvTimestamp = now, nvMappedAddrs = ppAddrs p, nvAssistedAddrs = ppAssistedAddrs p\<rparr>"

text \<open>The visitor: the socket and the peer's address it sets up its tunnel session with.\<close>

definition XTCPVisitor_makeNatHole :: "(NatHoleVisitor \<Rightarrow> (string, lane_msg) result) \<Rightarrow> (string, PrepareResult) result \<Rightarrow>
    (NatHoleResp \<Rightarrow> (string, nat \<times> string) result) \<Rightarrow> (string \<Rightarrow> string) \<Rightarrow> int \<Rightarrow> string \<Rightarrow> string \<Rightarrow> string \<Rightarrow> string \<Rightarrow> string \<Rightarrow>
    (nat \<times> string) option" where
  "XTCPVisitor_makeNatHole do_req prepare makeHole md5_hex now preID transactionID serverName protocol sk =
     (case PreCheck do_req preID serverName of
        Some _ \<Rightarrow> None
      | None \<Rightarrow>
          (case prepare of
             Inl _ \<Rightarrow> None
           | Inr p \<Rightarrow>
               (case ExchangeInfo do_req (nat_hole_visitor_msg md5_hex now transactionID serverName protocol sk p) of
                  Inl _ \<Rightarrow> None
                | Inr resp \<Rightarrow> (case makeHole resp of Inl _ \<Rightarrow> None | Inr r \<Rightarrow> Some r))))"

section \<open>A hole that both ends agree on\<close>

text \<open>A datagram the wait goes on after: it does not decode with the key, is of another session, or is a request that arrives
  at a sender.\<close>

definition ignored :: "'b sid_codec \<Rightarrow> string \<Rightarrow> string \<Rightarrow> string \<Rightarrow> 'b udp_event \<Rightarrow> bool" where
  "ignored codec s key role e =
     (case e of UDPError _ \<Rightarrow> False
      | Datagram b _ \<Rightarrow>
          (case DecodeMessageInto codec b key of
             Inl _ \<Rightarrow> True | Inr m \<Rightarrow> nsSid m \<noteq> s \<or> role = DetectRoleSender \<and> \<not> nsResponse m))"

lemma wait_ignored:
  "\<forall>e \<in> set junk. ignored codec s key role e \<Longrightarrow>
   waitDetectMessage codec s key role (junk @ es) = waitDetectMessage codec s key role es"
  by (induction junk) (auto simp: ignored_def split: udp_event.splits sum.splits)

lemma wait_waits: "\<forall>e \<in> set junk. ignored codec s key role e \<Longrightarrow> waitDetectMessage codec s key role junk = (None, [])"
  using wait_ignored [of junk codec s key role "[]"] by simp

text \<open>An address is returned only for a datagram from it that decodes with the key to a message of the session, which is a
  response when the wait is that of a sender.\<close>

lemma wait_integrity:
  "fst (waitDetectMessage codec s key role es) = Some (Inr a) \<Longrightarrow>
   \<exists>b m. Datagram b a \<in> set es \<and> DecodeMessageInto codec b key = Inr m \<and> nsSid m = s \<and> (role = DetectRoleSender \<longrightarrow> nsResponse m)"
proof (induction codec s key role es rule: waitDetectMessage.induct)
  case (3 codec s key role b raddr es)
  show ?case
  proof (cases "DecodeMessageInto codec b key")
    case (Inl e)
    with 3 show ?thesis by fastforce
  next
    case (Inr m)
    show ?thesis
    proof (cases "nsSid m \<noteq> s \<or> \<not> nsResponse m \<and> role = DetectRoleSender")
      case True
      with 3 Inr show ?thesis by (fastforce split: if_splits)
    next
      case False
      show ?thesis
      proof (cases "a = raddr")
        case True
        with False Inr show ?thesis by auto
      next
        case ne: False
        with 3(3-) False Inr 3(4) show ?thesis by (fastforce split: if_splits sum.splits)
      qed
    qed
  qed
qed simp_all

lemma handshake:
  assumes "codec_ok codec" "EncodeMessage codec (sidMessage s tid nonce) key = Inr req" "DecodeMessageInto codec req key = Inr (sidMessage s tid nonce)"
    and "\<forall>e \<in> set junk1. ignored codec s key DetectRoleReceiver e" "\<forall>e \<in> set junk2. ignored codec s key DetectRoleSender e"
  shows "\<exists>ans. waitDetectMessage codec s key DetectRoleReceiver (junk1 @ Datagram req a # rest1) = (Some (Inr a), [(a, ans)]) \<and>
    waitDetectMessage codec s key DetectRoleSender (junk2 @ Datagram ans b # rest2) = (Some (Inr b), [])"
proof -
  from codec_round_trip [OF assms(1)] obtain ans where
    "EncodeMessage codec ((sidMessage s tid nonce)\<lparr>nsResponse := True\<rparr>) key = Inr ans"
    "DecodeMessageInto codec ans key = Inr ((sidMessage s tid nonce)\<lparr>nsResponse := True\<rparr>)" by blast
  with assms(3) show ?thesis
    by (intro exI [of _ ans]) (simp add: wait_ignored [OF assms(4)] wait_ignored [OF assms(5)] sidMessage_def)
qed

lemma sender_sends:
  assumes "lo_ok lib" "dRole (rDetectBehavior m) = DetectRoleSender" "a \<in> set (rCandidateAddrs m)"
  shows "(0, a) \<in> set (MakeHole_sends lib opened m)"
  using assms(2,3) lo_ok_Uniq [OF assms(1)] by (simp add: MakeHole_sends_def detect_addrs_def listen_conns_def)


definition plain_codec :: "(NatHoleSid \<times> string) sid_codec" where
  "plain_codec = \<lparr>scWriteMsg = (\<lambda>m. Inr (m, [])), scReadMsg = (\<lambda>b. Inr (fst b)), scEncode = (\<lambda>b key. Inr (fst b, key)),
     scDecode = (\<lambda>b key. if snd b = key then Inr (fst b, []) else Inl ''wrong key'')\<rparr>"

lemma plain_codec_ok: "codec_ok plain_codec"
  by (simp add: codec_ok_def plain_codec_def)

definition b_client :: NatHoleClient where
  "b_client = a_client\<lparr>ncMappedAddrs := [''5.6.7.8:6000'', ''5.6.7.8:6000'']\<rparr>"

lemma two_addresses_classified:
  "\<exists>f. ClassifyNATFeature lo_ref [''1.2.3.4:5000'', ''1.2.3.4:5000''] [] = Inr f"
  "\<exists>f. ClassifyNATFeature lo_ref [''5.6.7.8:6000'', ''5.6.7.8:6000''] [] = Inr f"
proof -
  have "\<not> isl (ClassifyNATFeature lo_ref [''1.2.3.4:5000'', ''1.2.3.4:5000''] [])" "\<not> isl (ClassifyNATFeature lo_ref [''5.6.7.8:6000'', ''5.6.7.8:6000''] [])"
    by code_simp+
  then show "\<exists>f. ClassifyNATFeature lo_ref [''1.2.3.4:5000'', ''1.2.3.4:5000''] [] = Inr f"
    "\<exists>f. ClassifyNATFeature lo_ref [''5.6.7.8:6000'', ''5.6.7.8:6000''] [] = Inr f" by (metis isl_def old.sum.exhaust)+
qed


text \<open>Junk keeps a wait going: every datagram restarts the deadline of the read, so the wait has no bound of its own.\<close>

lemma wait_without_bound:
  "DecodeMessageInto codec b key = Inl e \<Longrightarrow> waitDetectMessage codec s key role (replicate n (Datagram b a)) = (None, [])"
  by (rule wait_waits) (auto simp: ignored_def)

text \<open>A result that is there before \<^verbatim>\<open>MakeHole\<close> waits for it is lost with its socket.\<close>

lemma early_result_lost: "punch_select False [WaitDone c a, MainWaits, PunchTimeout] = (Some (Inl ''wait detect message timeout''), [c])"
  by simp

section \<open>The flows of the two ends\<close>

text \<open>A proxy that made a hole reports success and listens with the protocol the server decided; one that failed to reports
  failure; before the answer of the server nothing is reported.\<close>

lemma InWorkConn_reports:
  "XTCPProxy_InWorkConn readSid prepare do_req makeHole tid name = (reports, tunnel) \<Longrightarrow>
   (tunnel \<noteq> None \<longleftrightarrow> (\<exists>s. reports = [\<lparr>nrSid = s, nrSuccess = True\<rparr>])) \<and> length reports \<le> 1"
  by (auto simp: XTCPProxy_InWorkConn_def split: sum.splits prod.splits)

end
