(* ===== verification/Base64.thy ===== *)
theory Base64
  imports Go_Std
begin

text \<open>
  The standard encoding of Go's \<^verbatim>\<open>encoding/base64\<close>, in which UDP packets and the credentials of HTTP proxies travel:
  the encoder, and the decoder with the leniency of the library (line breaks are skipped, the bits left over in the last
  character are ignored). Reading back what was encoded is the identity.
\<close>

section \<open>The alphabet\<close>

definition b64_char :: "nat \<Rightarrow> char" where
  "b64_char n =
     (if n < 26 then char_of (n + 65) else if n < 52 then char_of (n + 71)
      else if n < 62 then char_of (n - 4) else if n = 62 then CHR ''+'' else CHR ''/'')"

definition b64_val :: "char \<Rightarrow> nat option" where
  "b64_val c =
     (let n = of_char c
      in if 65 \<le> n \<and> n \<le> 90 then Some (n - 65) else if 97 \<le> n \<and> n \<le> 122 then Some (n - 71)
         else if 48 \<le> n \<and> n \<le> 57 then Some (n + 4) else if c = CHR ''+'' then Some 62
         else if c = CHR ''/'' then Some 63 else None)"

lemma b64_val_char: "n < 64 \<Longrightarrow> b64_val (b64_char n) = Some n"
  by (auto simp: b64_val_def b64_char_def Let_def)

lemma b64_char_plain: "n < 64 \<Longrightarrow> b64_char n \<noteq> CHR ''='' \<and> b64_char n \<noteq> CHR 0x0A \<and> b64_char n \<noteq> CHR 0x0D"
  using b64_val_char [of n] by (auto simp: b64_val_def)

section \<open>Encoding\<close>

abbreviation byte :: "char \<Rightarrow> nat" where "byte c \<equiv> of_char c"

fun EncodeToString :: "string \<Rightarrow> string" where
  "EncodeToString [] = []"
| "EncodeToString [a] = [b64_char (byte a div 4), b64_char (byte a mod 4 * 16), CHR ''='', CHR ''='']"
| "EncodeToString [a, b] =
     [b64_char (byte a div 4), b64_char (byte a mod 4 * 16 + byte b div 16), b64_char (byte b mod 16 * 4), CHR ''='']"
| "EncodeToString (a # b # c # s) =
     b64_char (byte a div 4) # b64_char (byte a mod 4 * 16 + byte b div 16) #
     b64_char (byte b mod 16 * 4 + byte c div 64) # b64_char (byte c mod 64) # EncodeToString s"

section \<open>Decoding\<close>

definition b64_bytes :: "nat \<Rightarrow> nat \<Rightarrow> nat \<Rightarrow> nat \<Rightarrow> string" where
  "b64_bytes w x y z =
     [char_of (w * 4 + x div 16), char_of (x mod 16 * 16 + y div 4), char_of (y mod 4 * 64 + z)]"

text \<open>The quanta of four characters; padding ends the text.\<close>

fun b64_quanta :: "string \<Rightarrow> string option" where
  "b64_quanta [] = Some []"
| "b64_quanta (p # q # r # s # rest) =
     (case (b64_val p, b64_val q) of
        (Some w, Some x) \<Rightarrow>
          if r = CHR ''='' then (if s = CHR ''='' \<and> rest = [] then Some (take 1 (b64_bytes w x 0 0)) else None)
          else (case b64_val r of
                  None \<Rightarrow> None
                | Some y \<Rightarrow>
                    if s = CHR ''='' then (if rest = [] then Some (take 2 (b64_bytes w x y 0)) else None)
                    else (case (b64_val s, b64_quanta rest) of
                            (Some z, Some bs) \<Rightarrow> Some (b64_bytes w x y z @ bs)
                          | _ \<Rightarrow> None))
      | _ \<Rightarrow> None)"
| "b64_quanta _ = None"

definition DecodeString :: "string \<Rightarrow> string option" where
  "DecodeString s = b64_quanta (filter (\<lambda>c. c \<noteq> CHR 0x0A \<and> c \<noteq> CHR 0x0D) s)"

section \<open>The round trip\<close>

lemma byte_less: "byte c < 256"
  by (rule nat_of_char_less_256)

lemma sextets: "byte a div 4 < 64" "byte a mod 4 * 16 + byte b div 16 < 64" "byte a mod 16 * 4 + byte b div 64 < 64"
  "byte a mod 64 < 64" "byte a mod 4 * 16 < 64" "byte a mod 16 * 4 < 64"
proof -
  have d: "byte a div 4 < 64" "byte b div 16 < 16" "byte b div 64 < 4" for a b
    using byte_less [of a] byte_less [of b] by (simp_all add: less_mult_imp_div_less)
  have m: "byte a mod 4 < 4" "byte a mod 16 < 16" "byte a mod 64 < 64" by simp_all
  show "byte a div 4 < 64" by (rule d(1))
  show "byte a mod 4 * 16 + byte b div 16 < 64" using m(1) d(2) [of b] by linarith
  show "byte a mod 16 * 4 + byte b div 64 < 64" using m(2) d(3) [of b] by linarith
  show "byte a mod 64 < 64" by (rule m(3))
  show "byte a mod 4 * 16 < 64" using m(1) by linarith
  show "byte a mod 16 * 4 < 64" using m(2) by linarith
qed

lemma b64_bytes_sextets:
  "b64_bytes (byte a div 4) (byte a mod 4 * 16 + byte b div 16) (byte b mod 16 * 4 + byte c div 64) (byte c mod 64) = [a, b, c]"
  "take 1 (b64_bytes (byte a div 4) (byte a mod 4 * 16) 0 0) = [a]"
  "take 2 (b64_bytes (byte a div 4) (byte a mod 4 * 16 + byte b div 16) (byte b mod 16 * 4) 0) = [a, b]"
proof -
  have d: "byte b div 16 < 16" "byte c div 64 < 4" for b c using byte_less [of b] byte_less [of c] by (simp_all add: less_mult_imp_div_less)
  have "byte a div 4 * 4 + (byte a mod 4 * 16 + byte b div 16) div 16 = byte a" for a b using d(1) [of b] by simp
  moreover have "(byte a mod 4 * 16 + byte b div 16) mod 16 * 16 + (byte b mod 16 * 4 + byte c div 64) div 4 = byte b" for a b c
    using d(1) [of b] d(2) [of c] by simp
  moreover have "(byte b mod 16 * 4 + byte c div 64) mod 4 * 64 + byte c mod 64 = byte c" for b c
    using d(2) [of c] by simp
  moreover have "byte a div 4 * 4 + (byte a mod 4 * 16) div 16 = byte a" for a by simp
  moreover have "(byte a mod 4 * 16 + byte b div 16) mod 16 * 16 + (byte b mod 16 * 4) div 4 = byte b" for a b
    using d(1) [of b] by simp
  ultimately show "b64_bytes (byte a div 4) (byte a mod 4 * 16 + byte b div 16) (byte b mod 16 * 4 + byte c div 64) (byte c mod 64) = [a, b, c]"
    "take 1 (b64_bytes (byte a div 4) (byte a mod 4 * 16) 0 0) = [a]"
    "take 2 (b64_bytes (byte a div 4) (byte a mod 4 * 16 + byte b div 16) (byte b mod 16 * 4) 0) = [a, b]"
    by (simp_all add: b64_bytes_def numeral_2_eq_2)
qed

lemma b64_quanta_encode: "b64_quanta (EncodeToString s) = Some s"
  by (induction s rule: EncodeToString.induct)
    (simp_all add: b64_val_char b64_char_plain sextets b64_bytes_sextets [simplified])

lemma encode_no_breaks: "filter (\<lambda>c. c \<noteq> CHR 0x0A \<and> c \<noteq> CHR 0x0D) (EncodeToString s) = EncodeToString s"
  by (induction s rule: EncodeToString.induct) (simp_all add: b64_char_plain sextets)

theorem Decode_Encode: "DecodeString (EncodeToString s) = Some s"
  by (simp add: DecodeString_def encode_no_breaks b64_quanta_encode)

end
