(* ===== verification/UDP_Forward.thy ===== *)
theory UDP_Forward
  imports Base64
begin

text \<open>
  Model of \<^verbatim>\<open>pkg/proto/udp/udp.go\<close>: datagrams as messages, the forwarder of the client, which keeps one socket to the
  local service per user, and the two loops on the socket that users send to. The goroutines are steps that may come in any
  order; what the operating system answers (dialling, writing, a datagram or an error while reading) is part of the step.
  Addresses are pointers that may be nil. A panic that nobody recovers is \<open>None\<close>.
\<close>

section \<open>Packets\<close>

text \<open>\<^verbatim>\<open>net.UDPAddr\<close> with the text of its IP.\<close>

record UDPAddr =
  uaIP :: string
  uaPort :: int
  uaZone :: string

definition UDPAddr_String :: "UDPAddr option \<Rightarrow> string" where
  "UDPAddr_String a =
     (case a of
        None \<Rightarrow> ''<nil>''
      | Some u \<Rightarrow> JoinHostPort (if uaZone u \<noteq> [] then uaIP u @ ''%'' @ uaZone u else uaIP u) (Itoa (uaPort u)))"

record UDPPacket =
  pkContent :: string
  pkLocalAddr :: "UDPAddr option"
  pkRemoteAddr :: "UDPAddr option"

definition NewUDPPacket :: "string \<Rightarrow> UDPAddr option \<Rightarrow> UDPAddr option \<Rightarrow> UDPPacket" where
  "NewUDPPacket buf laddr raddr = \<lparr>pkContent = EncodeToString buf, pkLocalAddr = laddr, pkRemoteAddr = raddr\<rparr>"

definition GetContent :: "UDPPacket \<Rightarrow> string option" where
  "GetContent m = DecodeString (pkContent m)"

lemma GetContent_New [simp]: "GetContent (NewUDPPacket buf la ra) = Some buf"
  by (simp add: GetContent_def NewUDPPacket_def Decode_Encode)

lemma New_sel [simp]: "pkRemoteAddr (NewUDPPacket buf la ra) = ra" "pkContent (NewUDPPacket buf la ra) = EncodeToString buf"
  by (simp_all add: NewUDPPacket_def)

section \<open>Channels\<close>

record 'a udp_chan =
  cqItems :: "'a list"
  cqCap :: nat
  cqClosed :: bool

definition make_chan :: "nat \<Rightarrow> 'a udp_chan" where
  "make_chan n = \<lparr>cqItems = [], cqCap = n, cqClosed = False\<rparr>"

text \<open>\<^verbatim>\<open>select\<close> with a send and an empty default: a full channel drops the value, a closed one panics.\<close>

definition try_send :: "'a \<Rightarrow> 'a udp_chan \<Rightarrow> 'a udp_chan option" where
  "try_send x ch =
     (if cqClosed ch then None
      else Some (if length (cqItems ch) < cqCap ch then ch\<lparr>cqItems := cqItems ch @ [x]\<rparr> else ch))"

text \<open>Closing panics when the channel is closed already.\<close>

definition close_chan :: "'a udp_chan \<Rightarrow> 'a udp_chan option" where
  "close_chan ch = (if cqClosed ch then None else Some (ch\<lparr>cqClosed := True\<rparr>))"

lemma try_send_items: "try_send x ch = Some ch' \<Longrightarrow> set (cqItems ch) \<subseteq> set (cqItems ch') \<and> set (cqItems ch') \<subseteq> insert x (set (cqItems ch)) \<and>
    cqClosed ch' = cqClosed ch"
  by (auto simp: try_send_def split: if_splits)

section \<open>The users' socket\<close>

text \<open>\<^verbatim>\<open>ForwardUserConn\<close>: a datagram of a user goes to \<open>sendCh\<close>, a packet from \<open>readCh\<close> to the user it names. The buffer
  cuts longer datagrams.\<close>

definition user_receive :: "nat \<Rightarrow> string \<Rightarrow> UDPAddr \<Rightarrow> UDPPacket" where
  "user_receive bufSize data remoteAddr = NewUDPPacket (take bufSize data) None (Some remoteAddr)"

definition user_deliver :: "UDPPacket \<Rightarrow> (string \<times> UDPAddr option) option" where
  "user_deliver m = (case GetContent m of None \<Rightarrow> None | Some buf \<Rightarrow> Some (buf, pkRemoteAddr m))"

section \<open>The forwarder\<close>

text \<open>What goes to the server: packets and heartbeats.\<close>

datatype udp_msg = PacketMsg UDPPacket | PingMsg

text \<open>The goroutine that reads \<open>readCh\<close> waits for a packet, or has a socket to write to; a new socket gets a reading
  goroutine after that. A reading goroutine that has met an error first takes its socket out of the map, then closes it.\<close>

datatype fw_reader = RWait | RWrite nat string "UDPAddr option" bool

datatype writer_phase = WReading | WLeaving | WClosing

record forwarder =
  fwConns :: "nat smap"
  fwDialled :: nat
  fwClosed :: "nat list"
  fwWriters :: "nat \<rightharpoonup> UDPAddr option \<times> writer_phase"
  fwReader :: fw_reader
  fwSend :: "udp_msg udp_chan"

definition Forwarder :: "udp_msg udp_chan \<Rightarrow> forwarder" where
  "Forwarder sendCh =
     \<lparr>fwConns = Map.empty, fwDialled = 0, fwClosed = [], fwWriters = Map.empty, fwReader = RWait, fwSend = sendCh\<rparr>"

text \<open>What a run shows to the outside: a socket dialled for an address, a datagram to the local service through a socket,
  an answer of the service that was read from a socket and queued (or dropped when the channel is full).\<close>

datatype fw_out = OutDial nat "UDPAddr option" | OutWrite nat string "UDPAddr option" | OutReply nat UDPPacket

datatype fw_event =
    EvMessage UDPPacket bool
  | EvWrite bool
  | EvRead nat "string option"
  | EvDelete nat
  | EvCloseConn nat
  | EvTake
  | EvSendClose
  | EvPing

definition fw_lookup :: "UDPPacket \<Rightarrow> bool \<Rightarrow> forwarder \<Rightarrow> forwarder \<times> fw_out list" where
  "fw_lookup m dial s =
     (case GetContent m of
        None \<Rightarrow> (s, [])
      | Some buf \<Rightarrow>
          (case fwConns s (UDPAddr_String (pkRemoteAddr m)) of
             Some c \<Rightarrow> (s\<lparr>fwReader := RWrite c buf (pkRemoteAddr m) False\<rparr>, [])
           | None \<Rightarrow>
               if \<not> dial then (s, [])
               else (s\<lparr>fwConns := (fwConns s)(UDPAddr_String (pkRemoteAddr m) \<mapsto> fwDialled s), fwDialled := fwDialled s + 1,
                       fwReader := RWrite (fwDialled s) buf (pkRemoteAddr m) True\<rparr>,
                     [OutDial (fwDialled s) (pkRemoteAddr m)])))"

definition fw_write :: "nat \<Rightarrow> string \<Rightarrow> UDPAddr option \<Rightarrow> bool \<Rightarrow> bool \<Rightarrow> forwarder \<Rightarrow> forwarder \<times> fw_out list" where
  "fw_write c buf raddr new wrote s =
     (let s1 = (if wrote then s else s\<lparr>fwClosed := c # fwClosed s\<rparr>);
          s2 = (if new then s1\<lparr>fwWriters := (fwWriters s1)(c \<mapsto> (raddr, WReading))\<rparr> else s1)
      in (s2\<lparr>fwReader := RWait\<rparr>, if wrote then [OutWrite c buf raddr] else []))"

text \<open>A closed \<open>sendCh\<close> panics, which the goroutine turns into its end.\<close>

definition fw_read :: "nat \<Rightarrow> nat \<Rightarrow> UDPAddr option \<Rightarrow> string option \<Rightarrow> forwarder \<Rightarrow> forwarder \<times> fw_out list" where
  "fw_read bufSize c raddr data s =
     (case data of
        None \<Rightarrow> (s\<lparr>fwWriters := (fwWriters s)(c \<mapsto> (raddr, WLeaving))\<rparr>, [])
      | Some d \<Rightarrow>
          (let p = NewUDPPacket (take bufSize d) None raddr
           in case try_send (PacketMsg p) (fwSend s) of
                None \<Rightarrow> (s\<lparr>fwWriters := (fwWriters s)(c \<mapsto> (raddr, WLeaving))\<rparr>, [])
              | Some ch \<Rightarrow> (s\<lparr>fwSend := ch\<rparr>, [OutReply c p])))"

text \<open>One step; \<open>None\<close> is a step that is not possible in the state. Nothing is written to or read from a closed socket.\<close>

fun fw_step :: "nat \<Rightarrow> fw_event \<Rightarrow> forwarder \<Rightarrow> (forwarder \<times> fw_out list) option" where
  "fw_step bufSize (EvMessage m dial) s = (if fwReader s = RWait then Some (fw_lookup m dial s) else None)"
| "fw_step bufSize (EvWrite wrote) s =
     (case fwReader s of
        RWait \<Rightarrow> None
      | RWrite c buf raddr new \<Rightarrow>
          if wrote \<and> c \<in> set (fwClosed s) then None else Some (fw_write c buf raddr new wrote s))"
| "fw_step bufSize (EvRead c data) s =
     (case fwWriters s c of
        Some (raddr, WReading) \<Rightarrow> if data \<noteq> None \<and> c \<in> set (fwClosed s) then None else Some (fw_read bufSize c raddr data s)
      | _ \<Rightarrow> None)"
| "fw_step bufSize (EvDelete c) s =
     (case fwWriters s c of
        Some (raddr, WLeaving) \<Rightarrow>
          Some (s\<lparr>fwConns := (fwConns s)(UDPAddr_String raddr := None), fwWriters := (fwWriters s)(c \<mapsto> (raddr, WClosing))\<rparr>, [])
      | _ \<Rightarrow> None)"
| "fw_step bufSize (EvCloseConn c) s =
     (case fwWriters s c of
        Some (raddr, WClosing) \<Rightarrow> Some (s\<lparr>fwClosed := c # fwClosed s, fwWriters := (fwWriters s)(c := None)\<rparr>, [])
      | _ \<Rightarrow> None)"
| "fw_step bufSize EvTake s =
     (case cqItems (fwSend s) of [] \<Rightarrow> None | x # xs \<Rightarrow> Some (s\<lparr>fwSend := (fwSend s)\<lparr>cqItems := xs\<rparr>\<rparr>, []))"
| "fw_step bufSize EvSendClose s = map_option (\<lambda>ch. (s\<lparr>fwSend := ch\<rparr>, [])) (close_chan (fwSend s))"
| "fw_step bufSize EvPing s =
     (if cqClosed (fwSend s) \<or> length (cqItems (fwSend s)) \<ge> cqCap (fwSend s) then None
      else Some (s\<lparr>fwSend := (fwSend s)\<lparr>cqItems := cqItems (fwSend s) @ [PingMsg]\<rparr>\<rparr>, []))"

fun fw_run :: "nat \<Rightarrow> fw_event list \<Rightarrow> forwarder \<times> fw_out list \<Rightarrow> (forwarder \<times> fw_out list) option" where
  "fw_run bufSize [] so = Some so"
| "fw_run bufSize (e # es) (s, outs) =
     (case fw_step bufSize e s of None \<Rightarrow> None | Some (s1, o1) \<Rightarrow> fw_run bufSize es (s1, outs @ o1))"

section \<open>Sessions\<close>

text \<open>The socket in the map under a key belongs to the goroutine that reads it for an address of that text, or to the new
  session that is being set up.\<close>

definition fw_owner :: "forwarder \<Rightarrow> nat \<Rightarrow> UDPAddr option \<Rightarrow> bool" where
  "fw_owner s c r \<longleftrightarrow> (\<exists>ph. fwWriters s c = Some (r, ph) \<and> ph \<noteq> WClosing) \<or> (\<exists>buf. fwReader s = RWrite c buf r True)"

definition fw_live :: "forwarder \<Rightarrow> nat \<Rightarrow> bool" where
  "fw_live s c \<longleftrightarrow> fwWriters s c \<noteq> None \<or> (\<exists>buf r. fwReader s = RWrite c buf r True)"

definition fw_inv :: "forwarder \<Rightarrow> bool" where
  "fw_inv s \<longleftrightarrow>
     (\<forall>k c. fwConns s k = Some c \<longrightarrow> (\<exists>r. fw_owner s c r \<and> UDPAddr_String r = k)) \<and>
     (\<forall>c r. fw_owner s c r \<longrightarrow> fwConns s (UDPAddr_String r) = Some c) \<and>
     (\<forall>c. fw_live s c \<longrightarrow> c < fwDialled s) \<and>
     (\<forall>c buf r. fwReader s = RWrite c buf r True \<longrightarrow> fwWriters s c = None) \<and>
     (\<forall>c. c < fwDialled s \<longrightarrow> c \<notin> set (fwClosed s) \<longrightarrow> fw_live s c)"

text \<open>What the run has shown agrees with the state: sockets are dialled once, for one address, and used for it alone.\<close>

definition fw_log :: "forwarder \<Rightarrow> fw_out list \<Rightarrow> bool" where
  "fw_log s outs \<longleftrightarrow>
     (\<forall>c r. OutDial c r \<in> set outs \<longrightarrow> c < fwDialled s) \<and>
     (\<forall>c r r'. OutDial c r \<in> set outs \<longrightarrow> OutDial c r' \<in> set outs \<longrightarrow> r = r') \<and>
     (\<forall>c buf r. OutWrite c buf r \<in> set outs \<longrightarrow> (\<exists>r0. OutDial c r0 \<in> set outs \<and> UDPAddr_String r0 = UDPAddr_String r)) \<and>
     (\<forall>c p. OutReply c p \<in> set outs \<longrightarrow> OutDial c (pkRemoteAddr p) \<in> set outs) \<and>
     (\<forall>c r ph. fwWriters s c = Some (r, ph) \<longrightarrow> OutDial c r \<in> set outs) \<and>
     (\<forall>c buf r new. fwReader s = RWrite c buf r new \<longrightarrow>
        (\<exists>r0. OutDial c r0 \<in> set outs \<and> UDPAddr_String r0 = UDPAddr_String r \<and> (new \<longrightarrow> r0 = r)))"


lemma fw_owner_live: "fw_owner s c r \<Longrightarrow> fw_live s c"
  by (auto simp: fw_owner_def fw_live_def)

lemma fw_inv_owner_unique: "fw_inv s \<Longrightarrow> fw_owner s c r \<Longrightarrow> fw_owner s d r' \<Longrightarrow> UDPAddr_String r = UDPAddr_String r' \<Longrightarrow> c = d"
  unfolding fw_inv_def by (metis option.inject)

lemma fw_init: "fw_inv (Forwarder ch)" "fw_log (Forwarder ch) []"
  by (simp_all add: fw_inv_def fw_log_def Forwarder_def fw_owner_def fw_live_def)

lemma fw_invD:
  assumes "fw_inv s"
  shows "fwConns s k = Some c \<Longrightarrow> \<exists>r. fw_owner s c r \<and> UDPAddr_String r = k"
    "fw_owner s c r \<Longrightarrow> fwConns s (UDPAddr_String r) = Some c"
    "fw_live s c \<Longrightarrow> c < fwDialled s"
    "fwReader s = RWrite c buf r True \<Longrightarrow> fwWriters s c = None"
    "c < fwDialled s \<Longrightarrow> c \<notin> set (fwClosed s) \<Longrightarrow> fw_live s c"
  using assms unfolding fw_inv_def by blast+

lemma fw_logD:
  assumes "fw_log s outs"
  shows "OutDial c r \<in> set outs \<Longrightarrow> c < fwDialled s"
    "OutDial c r \<in> set outs \<Longrightarrow> OutDial c r' \<in> set outs \<Longrightarrow> r = r'"
    "OutWrite c buf r \<in> set outs \<Longrightarrow> \<exists>r0. OutDial c r0 \<in> set outs \<and> UDPAddr_String r0 = UDPAddr_String r"
    "OutReply c p \<in> set outs \<Longrightarrow> OutDial c (pkRemoteAddr p) \<in> set outs"
    "fwWriters s c = Some (r, ph) \<Longrightarrow> OutDial c r \<in> set outs"
    "fwReader s = RWrite c buf r new \<Longrightarrow> \<exists>r0. OutDial c r0 \<in> set outs \<and> UDPAddr_String r0 = UDPAddr_String r \<and> (new \<longrightarrow> r0 = r)"
  using assms unfolding fw_log_def by blast+

text \<open>Steps that touch neither map, goroutines nor sockets keep the invariant.\<close>

lemma fw_inv_send [simp]: "fw_inv (s\<lparr>fwSend := ch\<rparr>) = fw_inv s" "fw_log (s\<lparr>fwSend := ch\<rparr>) outs = fw_log s outs"
  by (simp_all add: fw_inv_def fw_log_def fw_owner_def fw_live_def)

lemma fw_log_reader:
  "fw_log s outs \<Longrightarrow> OutDial c r0 \<in> set outs \<Longrightarrow> UDPAddr_String r0 = UDPAddr_String r \<Longrightarrow>
    fw_log (s\<lparr>fwReader := RWrite c buf r False\<rparr>) outs"
  by (simp add: fw_log_def) blast

lemma fw_lookup_inv:
  assumes "fw_inv s" "fw_log s outs" "fwReader s = RWait" "fw_lookup m dial s = (s', o1)"
  shows "fw_inv s' \<and> fw_log s' (outs @ o1)"
proof (cases "GetContent m")
  case None
  with assms show ?thesis by (simp add: fw_lookup_def)
next
  case (Some buf)
  let ?r = "pkRemoteAddr m"
  show ?thesis
  proof (cases "fwConns s (UDPAddr_String ?r)")
    case conn: (Some c)
    with Some assms(4) have s': "s' = s\<lparr>fwReader := RWrite c buf ?r False\<rparr>" "o1 = []" by (simp_all add: fw_lookup_def)
    obtain r0 where own: "fw_owner s c r0" "UDPAddr_String r0 = UDPAddr_String ?r" using assms(1) conn unfolding fw_inv_def by blast
    then have "OutDial c r0 \<in> set outs" using fw_logD(5) [OF assms(2)] assms(3) by (auto simp: fw_owner_def)
    with own(2) assms(2) have "fw_log s' (outs @ o1)" unfolding s' by (simp add: fw_log_reader)
    moreover have "fw_inv s'" using assms(1,3) unfolding s' by (simp add: fw_inv_def fw_owner_def fw_live_def)
    ultimately show ?thesis by simp
  next
    case new: None
    show ?thesis
    proof (cases dial)
      case False
      with Some new assms show ?thesis by (simp add: fw_lookup_def)
    next
      case True
      let ?c = "fwDialled s"
      have s': "s' = s\<lparr>fwConns := (fwConns s)(UDPAddr_String ?r \<mapsto> ?c), fwDialled := ?c + 1, fwReader := RWrite ?c buf ?r True\<rparr>"
        "o1 = [OutDial ?c ?r]" using Some new True assms(4) by (simp_all add: fw_lookup_def)
      have fresh: "fwWriters s ?c = None" using assms(1) unfolding fw_inv_def fw_live_def by blast
      have own: "fw_owner s' c r \<longleftrightarrow> fw_owner s c r \<or> c = ?c \<and> r = ?r" for c r
        using assms(3) by (auto simp: s' fw_owner_def)
      have live: "fw_live s' c \<longleftrightarrow> fw_live s c \<or> c = ?c" for c using assms(3) by (auto simp: s' fw_live_def)
      have key: "UDPAddr_String r \<noteq> UDPAddr_String ?r" if "fw_owner s c r" for c r
        using fw_invD(2) [OF assms(1) that] new by auto
      note i = fw_invD [OF assms(1)]
      have "fw_inv s'"
        unfolding fw_inv_def own live
      proof (intro conjI allI impI)
        fix k c
        assume "fwConns s' k = Some c"
        then show "\<exists>r. (fw_owner s c r \<or> c = ?c \<and> r = ?r) \<and> UDPAddr_String r = k"
          using i(1) [of k c] by (auto simp: s' split: if_splits)
      next
        fix c r
        assume "fw_owner s c r \<or> c = ?c \<and> r = ?r"
        then show "fwConns s' (UDPAddr_String r) = Some c" using i(2) [of c r] key [of c r] by (auto simp: s')
      next
        fix c
        assume "fw_live s c \<or> c = ?c"
        then show "c < fwDialled s'" using i(3) [of c] by (auto simp: s')
      next
        fix c b r
        assume "fwReader s' = RWrite c b r True"
        then show "fwWriters s' c = None" using fresh by (simp add: s')
      next
        fix c
        assume "c < fwDialled s'" "c \<notin> set (fwClosed s')"
        then show "fw_live s c \<or> c = ?c" using i(5) [of c] by (auto simp: s' less_Suc_eq)
      qed
      moreover have "fw_log s' (outs @ o1)"
      proof -
        note l = fw_logD [OF assms(2)]
        have "c < fwDialled s'" if "OutDial c r \<in> set (outs @ o1)" for c r using that l(1) [of c r] by (auto simp: s')
        moreover have "r = r'" if "OutDial c r \<in> set (outs @ o1)" "OutDial c r' \<in> set (outs @ o1)" for c r r'
          using that l(1) [of c r] l(1) [of c r'] l(2) [of c r r'] by (auto simp: s')
        moreover have "\<exists>r0. OutDial c r0 \<in> set (outs @ o1) \<and> UDPAddr_String r0 = UDPAddr_String r" if "OutWrite c b r \<in> set (outs @ o1)" for c b r
          using that l(3) [of c b r] by (auto simp: s')
        moreover have "OutDial c (pkRemoteAddr p) \<in> set (outs @ o1)" if "OutReply c p \<in> set (outs @ o1)" for c p
          using that l(4) [of c p] by (auto simp: s')
        moreover have "OutDial c r \<in> set (outs @ o1)" if "fwWriters s' c = Some (r, ph)" for c r ph
          using that l(5) [of c r ph] by (auto simp: s')
        ultimately show ?thesis unfolding fw_log_def by (simp add: s')
      qed
      ultimately show ?thesis by simp
    qed
  qed
qed

lemma fw_write_inv:
  assumes "fw_inv s" "fw_log s outs" "fwReader s = RWrite c buf r new" "fw_write c buf r new wrote s = (s', o1)"
  shows "fw_inv s' \<and> fw_log s' (outs @ o1)"
proof -
  have own: "fw_owner s' d q \<longleftrightarrow> fw_owner s d q" for d q
    using assms(1,3,4) by (auto simp: fw_write_def fw_owner_def fw_inv_def Let_def split: if_splits)
  have live: "fw_live s' d \<longleftrightarrow> fw_live s d" for d
    using assms(3,4) by (auto simp: fw_write_def fw_live_def Let_def split: if_splits)
  have s': "fwConns s' = fwConns s" "fwDialled s' = fwDialled s" "fwReader s' = RWait" "set (fwClosed s) \<subseteq> set (fwClosed s')"
    "o1 = (if wrote then [OutWrite c buf r] else [])" "fwWriters s' = (if new then (fwWriters s)(c \<mapsto> (r, WReading)) else fwWriters s)"
    using assms(4) by (auto simp: fw_write_def Let_def)
  have "fw_inv s'" unfolding fw_inv_def own live using assms(1) s' by (auto simp: fw_inv_def)
  moreover have "fw_log s' (outs @ o1)"
  proof -
    note l = fw_logD [OF assms(2)]
    obtain r0 where r0: "OutDial c r0 \<in> set outs" "UDPAddr_String r0 = UDPAddr_String r" "new \<longrightarrow> r0 = r"
      using l(6) [OF assms(3)] by blast
    have dial: "OutDial d q \<in> set (outs @ o1) \<longleftrightarrow> OutDial d q \<in> set outs" for d q by (simp add: s')
    have "\<exists>r0. OutDial d r0 \<in> set outs \<and> UDPAddr_String r0 = UDPAddr_String q" if "OutWrite d b q \<in> set (outs @ o1)" for d b q
      using that l(3) [of d b q] r0 by (auto simp: s' split: if_splits)
    moreover have "OutDial d (pkRemoteAddr p) \<in> set outs" if "OutReply d p \<in> set (outs @ o1)" for d p
      using that l(4) [of d p] by (auto simp: s' split: if_splits)
    moreover have "OutDial d q \<in> set outs" if "fwWriters s' d = Some (q, ph)" for d q ph
      using that l(5) [of d q ph] r0 by (auto simp: s' split: if_splits)
    ultimately show ?thesis unfolding fw_log_def dial s'(2,3) using l(1,2) by simp
  qed
  ultimately show ?thesis by simp
qed


text \<open>The steps of the goroutines that read the sockets. Only the phase of one of them changes, or it ends.\<close>

lemma fw_phase_inv:
  assumes "fw_inv s" "fwReader s' = fwReader s" "fwDialled s' = fwDialled s" "fwConns s' = fwConns s"
    "fwWriters s c = Some (r, WReading)" "fwWriters s' = (fwWriters s)(c \<mapsto> (r, WLeaving))" "fwClosed s' = fwClosed s"
  shows "fw_inv s'"
proof -
  have "fw_owner s' d q \<longleftrightarrow> fw_owner s d q" for d q using assms(2,5,6) by (auto simp: fw_owner_def)
  moreover have "fw_live s' d \<longleftrightarrow> fw_live s d" for d using assms(2,5,6) by (auto simp: fw_live_def)
  moreover have "fwWriters s' d = None \<longleftrightarrow> fwWriters s d = None" for d using assms(5,6) by simp
  ultimately show ?thesis using assms(1-4,7) by (simp add: fw_inv_def)
qed

lemma fw_log_writers:
  assumes "fw_log s outs" "fwReader s' = fwReader s" "fwDialled s' = fwDialled s"
    "\<And>d q ph. fwWriters s' d = Some (q, ph) \<Longrightarrow> \<exists>ph'. fwWriters s d = Some (q, ph')"
  shows "fw_log s' outs"
proof -
  have "OutDial d q \<in> set outs" if "fwWriters s' d = Some (q, ph)" for d q ph
    using assms(4) [OF that] fw_logD(5) [OF assms(1)] by blast
  then show ?thesis using assms(1-3) by (simp add: fw_log_def)
qed

lemma fw_log_reply: "fw_log s outs \<Longrightarrow> OutDial c (pkRemoteAddr p) \<in> set outs \<Longrightarrow> fw_log s (outs @ [OutReply c p])"
  by (simp add: fw_log_def)

lemma fw_read_inv:
  assumes "fw_inv s" "fw_log s outs" "fwWriters s c = Some (r, WReading)" "fw_read n c r data s = (s', o1)"
  shows "fw_inv s' \<and> fw_log s' (outs @ o1)"
proof (cases "\<exists>ch. s' = s\<lparr>fwSend := ch\<rparr> \<and> (\<exists>p. o1 = [OutReply c p] \<and> pkRemoteAddr p = r)")
  case True
  then show ?thesis using assms(1,2) fw_logD(5) [OF assms(2,3)] by (auto intro: fw_log_reply)
next
  case False
  with assms(4) have s': "s' = s\<lparr>fwWriters := (fwWriters s)(c \<mapsto> (r, WLeaving))\<rparr>" "o1 = []"
    by (auto simp: fw_read_def Let_def split: option.splits)
  have "fw_inv s'" by (rule fw_phase_inv [OF assms(1) _ _ _ assms(3)]) (simp_all add: s')
  moreover have "fw_log s' outs" by (rule fw_log_writers [OF assms(2)]) (use assms(3) in \<open>auto simp: s' split: if_splits\<close>)
  ultimately show ?thesis by (simp add: s')
qed

lemma fw_delete_inv:
  assumes "fw_inv s" "fw_log s outs" "fwWriters s c = Some (r, WLeaving)"
    "s' = s\<lparr>fwConns := (fwConns s)(UDPAddr_String r := None), fwWriters := (fwWriters s)(c \<mapsto> (r, WClosing))\<rparr>"
  shows "fw_inv s' \<and> fw_log s' outs"
proof
  note i = fw_invD [OF assms(1)]
  have nread: "fwReader s \<noteq> RWrite c buf q True" for buf q using i(4) [of c buf q] assms(3) by auto
  have mine: "fw_owner s c r" using assms(3) by (simp add: fw_owner_def)
  have own: "fw_owner s' d q \<longleftrightarrow> fw_owner s d q \<and> d \<noteq> c" for d q using nread by (auto simp: assms(4) fw_owner_def)
  have live: "fw_live s' d \<longleftrightarrow> fw_live s d" for d using assms(3) by (auto simp: assms(4) fw_live_def)
  show "fw_inv s'"
    unfolding fw_inv_def own live
  proof (intro conjI allI impI)
    fix k d
    assume "fwConns s' k = Some d"
    then have k: "k \<noteq> UDPAddr_String r" "fwConns s k = Some d" by (auto simp: assms(4) split: if_splits)
    from i(1) [OF k(2)] obtain q where q: "fw_owner s d q" "UDPAddr_String q = k" by blast
    have "d \<noteq> c"
    proof
      assume "d = c"
      with q(1) nread assms(3) have "q = r" by (auto simp: fw_owner_def)
      with q(2) k(1) show False by simp
    qed
    with q show "\<exists>q. (fw_owner s d q \<and> d \<noteq> c) \<and> UDPAddr_String q = k" by blast
  next
    fix d q
    assume h: "fw_owner s d q \<and> d \<noteq> c"
    then have "UDPAddr_String q \<noteq> UDPAddr_String r" using fw_inv_owner_unique [OF assms(1) mine, of d q] by auto
    with h i(2) [of d q] show "fwConns s' (UDPAddr_String q) = Some d" by (simp add: assms(4))
  next
    fix d
    assume "fw_live s d"
    then show "d < fwDialled s'" using i(3) [of d] by (simp add: assms(4))
  next
    fix d b q
    assume "fwReader s' = RWrite d b q True"
    then show "fwWriters s' d = None" using i(4) [of d b q] nread by (auto simp: assms(4))
  next
    fix d
    assume "d < fwDialled s'" "d \<notin> set (fwClosed s')"
    then show "fw_live s d" using i(5) [of d] by (simp add: assms(4))
  qed
  show "fw_log s' outs" by (rule fw_log_writers [OF assms(2)]) (use assms(3) in \<open>auto simp: assms(4) split: if_splits\<close>)
qed

lemma fw_close_inv:
  assumes "fw_inv s" "fw_log s outs" "fwWriters s c = Some (r, WClosing)"
    "s' = s\<lparr>fwClosed := c # fwClosed s, fwWriters := (fwWriters s)(c := None)\<rparr>"
  shows "fw_inv s' \<and> fw_log s' outs"
proof
  note i = fw_invD [OF assms(1)]
  have nread: "fwReader s \<noteq> RWrite c buf q True" for buf q using i(4) [of c buf q] assms(3) by auto
  have own: "fw_owner s' d q \<longleftrightarrow> fw_owner s d q" for d q using assms(3) by (auto simp: assms(4) fw_owner_def)
  have live: "fw_live s' d \<longleftrightarrow> fw_live s d \<and> d \<noteq> c" for d using nread by (auto simp: assms(4) fw_live_def)
  show "fw_inv s'"
    unfolding fw_inv_def own live using i by (auto simp: assms(4))
  show "fw_log s' outs" by (rule fw_log_writers [OF assms(2)]) (auto simp: assms(4) split: if_splits)
qed

theorem fw_step_inv:
  assumes "fw_inv s" "fw_log s outs" "fw_step n e s = Some (s', o1)"
  shows "fw_inv s' \<and> fw_log s' (outs @ o1)"
proof (cases e)
  case (EvMessage m dial)
  with assms show ?thesis using fw_lookup_inv [OF assms(1,2), of m dial s' o1] by (auto split: if_splits)
next
  case (EvWrite wrote)
  with assms show ?thesis using fw_write_inv [OF assms(1,2)] by (auto split: fw_reader.splits if_splits)
next
  case (EvRead c data)
  with assms show ?thesis using fw_read_inv [OF assms(1,2)]
    by (auto split: option.splits writer_phase.splits if_splits prod.splits)
next
  case (EvDelete c)
  with assms show ?thesis using fw_delete_inv [OF assms(1,2)] by (auto split: option.splits writer_phase.splits prod.splits)
next
  case (EvCloseConn c)
  with assms show ?thesis using fw_close_inv [OF assms(1,2)] by (auto split: option.splits writer_phase.splits prod.splits)
qed (use assms in \<open>auto split: list.splits if_splits\<close>)

theorem fw_run_inv:
  assumes "fw_inv s" "fw_log s outs" "fw_run n es (s, outs) = Some (s', outs')"
  shows "fw_inv s' \<and> fw_log s' outs'"
  using assms
proof (induction es arbitrary: s outs)
  case (Cons e es)
  then obtain s1 o1 where "fw_step n e s = Some (s1, o1)" "fw_run n es (s1, outs @ o1) = Some (s', outs')"
    by (auto split: option.splits)
  with Cons.IH fw_step_inv Cons.prems(1,2) show ?case by blast
qed simp


section \<open>Addresses are told apart by their text\<close>

definition udp_addr_ok :: "UDPAddr \<Rightarrow> bool" where
  "udp_addr_ok u \<longleftrightarrow> plain_addr_part (uaIP u) \<and> plain_addr_part (uaZone u) \<and> CHR ''%'' \<notin> set (uaIP u) \<and>
     0 \<le> uaPort u \<and> uaPort u \<le> 65535"

lemma UDPAddr_String_inject:
  assumes "udp_addr_ok u" "udp_addr_ok v" "UDPAddr_String (Some u) = UDPAddr_String (Some v)"
  shows "u = v"
proof -
  let ?host = "\<lambda>u. if uaZone u \<noteq> [] then uaIP u @ ''%'' @ uaZone u else uaIP u"
  have port: "ParseInt (Itoa (uaPort w)) = (uaPort w, None)" "plain_addr_part (Itoa (uaPort w))" "CHR '':'' \<notin> set (Itoa (uaPort w))"
    if "udp_addr_ok w" for w
    using that ParseInt_Itoa [of "uaPort w"]
    by (simp_all add: udp_addr_ok_def max_int64_def) (simp_all add: plain_addr_part_def Itoa_def nat_digits_no_char)
  have split: "SplitHostPort (UDPAddr_String (Some w)) = Inr (?host w, Itoa (uaPort w))" if "udp_addr_ok w" for w
  proof -
    have "plain_addr_part (?host w)" using that by (simp add: udp_addr_ok_def plain_addr_part_def)
    from SplitHostPort_JoinHostPort [OF this port(2) [OF that] port(3) [OF that]] show ?thesis by (simp only: UDPAddr_String_def option.case)
  qed
  have "(Inr (?host u, Itoa (uaPort u)) :: addr_error + _) = Inr (?host v, Itoa (uaPort v))"
    by (simp only: split [OF assms(1), symmetric] split [OF assms(2), symmetric] assms(3))
  then have eq: "?host u = ?host v" "Itoa (uaPort u) = Itoa (uaPort v)" unfolding sum.inject prod.inject by blast+
  have pt: "uaPort u = uaPort v" by (metis port(1) [OF assms(1)] port(1) [OF assms(2)] eq(2) prod.inject)
  have host: "takeWhile (\<lambda>c. c \<noteq> CHR ''%'') (?host w) = uaIP w" "drop (length (uaIP w) + 1) (?host w) = uaZone w"
    if "udp_addr_ok w" for w
  proof -
    have "\<forall>c \<in> set (uaIP w). c \<noteq> CHR ''%''" using that by (auto simp: udp_addr_ok_def)
    then have "takeWhile (\<lambda>c. c \<noteq> CHR ''%'') (uaIP w @ t) = uaIP w @ takeWhile (\<lambda>c. c \<noteq> CHR ''%'') t" for t
      by (simp add: takeWhile_append2)
    from this [of "[]"] this [of "''%'' @ uaZone w"] show "takeWhile (\<lambda>c. c \<noteq> CHR ''%'') (?host w) = uaIP w" by simp
    show "drop (length (uaIP w) + 1) (?host w) = uaZone w" by simp
  qed
  have ip: "uaIP u = uaIP v"
    using arg_cong [OF eq(1), of "takeWhile (\<lambda>c. c \<noteq> CHR ''%'')"] unfolding host(1) [OF assms(1)] host(1) [OF assms(2)] .
  moreover have "uaZone u = uaZone v"
    using arg_cong [OF eq(1), of "drop (length (uaIP u) + 1)"] unfolding host(2) [OF assms(1)] unfolding ip host(2) [OF assms(2)] .
  ultimately show ?thesis using pt by simp
qed

section \<open>Where packets come from\<close>

definition fw_from :: "UDPPacket set \<Rightarrow> forwarder \<Rightarrow> fw_out list \<Rightarrow> bool" where
  "fw_from M s outs \<longleftrightarrow>
     (\<forall>c r. OutDial c r \<in> set outs \<longrightarrow> r \<in> pkRemoteAddr ` M) \<and>
     (\<forall>c buf r. OutWrite c buf r \<in> set outs \<longrightarrow> (\<exists>m\<in>M. GetContent m = Some buf \<and> pkRemoteAddr m = r)) \<and>
     (\<forall>c buf r new. fwReader s = RWrite c buf r new \<longrightarrow> (\<exists>m\<in>M. GetContent m = Some buf \<and> pkRemoteAddr m = r))"

lemma fw_step_from:
  assumes "fw_from M s outs" "fw_step n e s = Some (s', o1)" "\<And>m d. e = EvMessage m d \<Longrightarrow> m \<in> M"
  shows "fw_from M s' (outs @ o1)"
  using assms
proof (cases e)
  case (EvMessage m d)
  with assms show ?thesis
    by (auto simp: fw_from_def fw_lookup_def split: option.splits if_splits)
next
  case (EvWrite wrote)
  with assms show ?thesis by (auto simp: fw_from_def fw_write_def Let_def split: fw_reader.splits if_splits)
next
  case (EvRead c d)
  with assms show ?thesis by (auto simp: fw_from_def fw_read_def Let_def split: option.splits prod.splits writer_phase.splits if_splits)
qed (auto simp: fw_from_def split: option.splits prod.splits writer_phase.splits if_splits list.splits)

lemma fw_run_from:
  "fw_run n es (s, outs) = Some (s', outs') \<Longrightarrow> fw_from M s outs \<Longrightarrow> (\<And>m d. EvMessage m d \<in> set es \<Longrightarrow> m \<in> M) \<Longrightarrow>
    fw_from M s' outs'"
proof (induction es arbitrary: s outs)
  case (Cons e es)
  then obtain s1 o1 where "fw_step n e s = Some (s1, o1)" "fw_run n es (s1, outs @ o1) = Some (s', outs')"
    by (auto split: option.splits)
  note st = this
  have "fw_from M s1 (outs @ o1)" by (rule fw_step_from [OF Cons.prems(2) st(1)]) (use Cons.prems(3) in auto)
  then show ?case by (rule Cons.IH [OF st(2)]) (use Cons.prems(3) in auto)
qed simp

lemma fw_step_reply:
  "fw_step n e s = Some (s', o1) \<Longrightarrow> OutReply c p \<in> set o1 \<Longrightarrow>
    \<exists>d r. e = EvRead c (Some d) \<and> p = NewUDPPacket (take n d) None r"
  by (cases e) (auto simp: fw_lookup_def fw_write_def fw_read_def Let_def split: option.splits if_splits prod.splits
      fw_reader.splits writer_phase.splits list.splits)

lemma fw_run_reply:
  "fw_run n es (s, outs) = Some (s', outs') \<Longrightarrow> OutReply c p \<in> set outs' \<Longrightarrow>
    OutReply c p \<in> set outs \<or> (\<exists>d r. EvRead c (Some d) \<in> set es \<and> p = NewUDPPacket (take n d) None r)"
proof (induction es arbitrary: s outs)
  case (Cons e es)
  then obtain s1 o1 where st: "fw_step n e s = Some (s1, o1)" "fw_run n es (s1, outs @ o1) = Some (s', outs')"
    by (auto split: option.splits)
  from Cons.IH [OF st(2) Cons.prems(2)] fw_step_reply [OF st(1), of c p] show ?case by fastforce
qed simp


text \<open>C27: the users of a UDP proxy are kept apart. In every run of the client's forwarder, whatever the order of its
  goroutines and the errors they meet, a socket to the local service carries the datagrams of one user only, with the bytes
  that user sent, and what the service answers on it is delivered to that user; no user has two sessions at once, and every
  socket that was opened is closed or still served.\<close>

theorem udp_sessions_isolated:
  assumes "fw_run n es (Forwarder ch, []) = Some (s, outs)"
    "\<And>m d. EvMessage m d \<in> set es \<Longrightarrow> \<exists>u. pkRemoteAddr m = Some u \<and> udp_addr_ok u"
  shows "(\<forall>c buf r. OutWrite c buf r \<in> set outs \<longrightarrow>
       (\<exists>m d. EvMessage m d \<in> set es \<and> GetContent m = Some buf \<and> pkRemoteAddr m = r)) \<and>
     (\<forall>c buf r buf' r'. OutWrite c buf r \<in> set outs \<longrightarrow> OutWrite c buf' r' \<in> set outs \<longrightarrow> r = r') \<and>
     (\<forall>c buf r p. OutWrite c buf r \<in> set outs \<longrightarrow> OutReply c p \<in> set outs \<longrightarrow>
       (\<exists>d. EvRead c (Some d) \<in> set es \<and> user_deliver p = Some (take n d, r))) \<and>
     (\<forall>c c' r r'. fw_owner s c r \<longrightarrow> fw_owner s c' r' \<longrightarrow> UDPAddr_String r = UDPAddr_String r' \<longrightarrow> c = c') \<and>
     (\<forall>c < fwDialled s. c \<in> set (fwClosed s) \<or> fw_live s c)"
proof -
  let ?M = "{m. \<exists>d. EvMessage m d \<in> set es}"
  from fw_run_inv [OF fw_init assms(1)] have inv: "fw_inv s" and log: "fw_log s outs" by simp_all
  have "fw_from ?M (Forwarder ch) []" by (simp add: fw_from_def Forwarder_def)
  from fw_run_from [OF assms(1) this] have src: "fw_from ?M s outs" by blast
  have written: "\<exists>m d. EvMessage m d \<in> set es \<and> GetContent m = Some buf \<and> pkRemoteAddr m = r"
    if "OutWrite c buf r \<in> set outs" for c buf r using src that unfolding fw_from_def by blast
  have dialled: "OutDial c r \<in> set outs" if w: "OutWrite c buf r \<in> set outs" for c buf r
  proof -
    obtain r0 where r0: "OutDial c r0 \<in> set outs" "UDPAddr_String r0 = UDPAddr_String r" using fw_logD(3) [OF log w] by blast
    have "r0 \<in> pkRemoteAddr ` ?M" using src r0(1) unfolding fw_from_def by blast
    then obtain u where "r0 = Some u" "udp_addr_ok u" using assms(2) by force
    moreover obtain v where "r = Some v" "udp_addr_ok v" using written [OF w] assms(2) by force
    ultimately have "r0 = r" using UDPAddr_String_inject r0(2) by blast
    with r0(1) show ?thesis by simp
  qed
  have reply: "\<exists>d. EvRead c (Some d) \<in> set es \<and> user_deliver p = Some (take n d, r)"
    if "OutWrite c buf r \<in> set outs" "OutReply c p \<in> set outs" for c buf r p
  proof -
    have "pkRemoteAddr p = r" using fw_logD(2) [OF log fw_logD(4) [OF log that(2)] dialled [OF that(1)]] .
    with fw_run_reply [OF assms(1) that(2)] show ?thesis by (auto simp: user_deliver_def)
  qed
  show ?thesis
    using written fw_logD(2) [OF log dialled dialled] reply fw_inv_owner_unique [OF inv] fw_invD(5) [OF inv] by blast
qed

definition example_user :: "int \<Rightarrow> UDPAddr" where
  "example_user port = \<lparr>uaIP = ''192.0.2.7'', uaPort = port, uaZone = []\<rparr>"

definition example_datagram :: "int \<Rightarrow> string \<Rightarrow> UDPPacket" where
  "example_datagram port data = user_receive 1500 data (example_user port)"

text \<open>Two users send, and the service answers the first one.\<close>

definition example_events :: "fw_event list" where
  "example_events =
     [EvMessage (example_datagram 4000 ''ab'') True, EvWrite True, EvMessage (example_datagram 4001 ''c'') True, EvWrite True,
      EvRead 0 (Some ''xyz''), EvTake, EvRead 1 None, EvDelete 1, EvCloseConn 1]"

theorem udp_sessions_isolated_witness:
  "\<exists>s outs. fw_run 1500 example_events (Forwarder (make_chan 1024), []) = Some (s, outs) \<and>
     OutWrite 0 ''ab'' (Some (example_user 4000)) \<in> set outs \<and>
     (\<exists>p. OutReply 0 p \<in> set outs \<and> user_deliver p = Some (''xyz'', Some (example_user 4000)))"
proof -
  have neq: "UDPAddr_String (Some (example_user 4000)) \<noteq> UDPAddr_String (Some (example_user 4001))"
    using UDPAddr_String_inject [of "example_user 4000" "example_user 4001"]
    by (auto simp: udp_addr_ok_def plain_addr_part_def example_user_def)
  let ?p = "NewUDPPacket ''xyz'' None (Some (example_user 4000))"
  obtain s where run: "fw_run 1500 example_events (Forwarder (make_chan 1024), []) =
      Some (s, [OutDial 0 (Some (example_user 4000)), OutWrite 0 ''ab'' (Some (example_user 4000)),
        OutDial 1 (Some (example_user 4001)), OutWrite 1 ''c'' (Some (example_user 4001)), OutReply 0 ?p])"
    using neq by (simp add: example_events_def example_datagram_def user_receive_def Forwarder_def fw_lookup_def fw_write_def
        fw_read_def try_send_def make_chan_def Let_def)
  have "\<exists>u. pkRemoteAddr m = Some u \<and> udp_addr_ok u" if "EvMessage m d \<in> set example_events" for m d
    using that by (auto simp: example_events_def example_datagram_def user_receive_def example_user_def udp_addr_ok_def plain_addr_part_def)
  from udp_sessions_isolated [OF run this] have "\<exists>d. user_deliver ?p = Some (d, Some (example_user 4000))" by fastforce
  then have "user_deliver ?p = Some (''xyz'', Some (example_user 4000))" by (auto simp: user_deliver_def)
  with run show ?thesis by (intro exI [of _ s] exI) (auto intro!: exI [of _ ?p])
qed

end
