(* ===== verification/Work_Stream.thy ===== *)
theory Work_Stream
  imports Go_Std
begin

text \<open>
  The streams between the two ends of a work connection, as \<^verbatim>\<open>client/proxy/proxy.go\<close>, \<^verbatim>\<open>client/proxy/udp.go\<close>,
  \<^verbatim>\<open>client/proxy/sudp.go\<close>, \<^verbatim>\<open>server/proxy/proxy.go\<close> and \<^verbatim>\<open>server/proxy/udp.go\<close> build them: encryption, compression and the
  bandwidth limiter of \<^verbatim>\<open>pkg/util/limit\<close> around a connection. The two ends read what the other has written; what closing
  a stream closes depends on the variable that the limiter's close function captures. Encryption and compression are
  golib's and parameters.
\<close>

section \<open>Layers\<close>

text \<open>\<^verbatim>\<open>libio.WrapReadWriteCloser\<close> gets a function that closes: it closes a connection, or the stream that the variable
  holds when it is called, which by then is the wrapper itself (\<open>CloseVar\<close>).\<close>

datatype 'c closer = CloseConn 'c | CloseVar

datatype 'c stream = Raw 'c | Encrypted string "'c stream" | Compressed "'c stream" | Limited nat "'c stream" "'c closer"

record stream_flags =
  sfEncryption :: bool
  sfCompression :: bool

text \<open>\<open>encrypt\<close> is the error of \<^verbatim>\<open>libio.WithEncryption\<close>, a limit is the number of bytes per second. Client: limiter,
  encryption, compression. Server: encryption, compression, limiter.\<close>

definition crypt_layers :: "(string \<Rightarrow> 'e option) \<Rightarrow> stream_flags \<Rightarrow> string \<Rightarrow> 'c stream \<Rightarrow> ('e, 'c stream) result" where
  "crypt_layers encrypt fl key s =
     (case (if sfEncryption fl then encrypt key else None) of
        Some e \<Rightarrow> Inl e
      | None \<Rightarrow>
          (let s1 = (if sfEncryption fl then Encrypted key s else s)
           in Inr (if sfCompression fl then Compressed s1 else s1)))"

definition client_stream :: "(string \<Rightarrow> 'e option) \<Rightarrow> nat option \<Rightarrow> stream_flags \<Rightarrow> string \<Rightarrow> 'c \<Rightarrow> ('e, 'c stream) result" where
  "client_stream encrypt limiter fl key conn =
     crypt_layers encrypt fl key (case limiter of None \<Rightarrow> Raw conn | Some b \<Rightarrow> Limited b (Raw conn) (CloseConn conn))"

definition server_stream :: "(string \<Rightarrow> 'e option) \<Rightarrow> nat option \<Rightarrow> stream_flags \<Rightarrow> string \<Rightarrow> 'c \<Rightarrow> ('e, 'c stream) result" where
  "server_stream encrypt limiter fl key conn =
     map_sum id (\<lambda>s. case limiter of None \<Rightarrow> s | Some b \<Rightarrow> Limited b s CloseVar) (crypt_layers encrypt fl key (Raw conn))"

section \<open>Bytes\<close>

record stream_lib =
  slEncrypt :: "string \<Rightarrow> string \<Rightarrow> string"
  slDecrypt :: "string \<Rightarrow> string \<Rightarrow> string"
  slCompress :: "string \<Rightarrow> string"
  slDecompress :: "string \<Rightarrow> string"

definition stream_lib_ok :: "stream_lib \<Rightarrow> bool" where
  "stream_lib_ok lib \<longleftrightarrow> (\<forall>k d. slDecrypt lib k (slEncrypt lib k d) = d) \<and> (\<forall>d. slDecompress lib (slCompress lib d) = d)"

text \<open>What reaches the connection when \<open>d\<close> is written to a stream, and what reading gives when \<open>w\<close> arrives.\<close>

fun stream_write :: "stream_lib \<Rightarrow> 'c stream \<Rightarrow> string \<Rightarrow> string" where
  "stream_write lib (Raw c) d = d"
| "stream_write lib (Encrypted k s) d = stream_write lib s (slEncrypt lib k d)"
| "stream_write lib (Compressed s) d = stream_write lib s (slCompress lib d)"
| "stream_write lib (Limited b s f) d = stream_write lib s d"

fun stream_read :: "stream_lib \<Rightarrow> 'c stream \<Rightarrow> string \<Rightarrow> string" where
  "stream_read lib (Raw c) w = w"
| "stream_read lib (Encrypted k s) w = slDecrypt lib k (stream_read lib s w)"
| "stream_read lib (Compressed s) w = slDecompress lib (stream_read lib s w)"
| "stream_read lib (Limited b s f) w = stream_read lib s w"

section \<open>The limiter\<close>

text \<open>\<^verbatim>\<open>Writer.Write\<close>: pieces of at most the burst. \<open>wait n\<close> is the error of \<^verbatim>\<open>WaitN\<close>, \<open>w\<close> what the stream below answers to a
  piece. The last component are the pieces written. A burst of zero would loop for ever.\<close>

partial_function (option) limit_write ::
    "(nat \<Rightarrow> 'e option) \<Rightarrow> (string \<Rightarrow> nat \<times> 'e option) \<Rightarrow> nat \<Rightarrow> string \<Rightarrow> nat \<Rightarrow> string list \<Rightarrow> (nat \<times> 'e option \<times> string list) option" where
  "limit_write wait w b p n pieces =
     (if p = [] then Some (n, None, pieces)
      else (let piece = (if b < length p then b else length p)
            in case wait piece of
                 Some e \<Rightarrow> Some (n, Some e, pieces)
               | None \<Rightarrow>
                   (case w (take piece p) of
                      (nn, Some e) \<Rightarrow> Some (n + nn, Some e, pieces @ [take piece p])
                    | (nn, None) \<Rightarrow> limit_write wait w b (drop piece p) (n + nn) (pieces @ [take piece p]))))"

text \<open>\<^verbatim>\<open>Reader.Read\<close>: at most the burst at once, so that \<^verbatim>\<open>WaitN\<close> gets no more than it allows.\<close>

definition limit_read :: "(nat \<Rightarrow> 'e option) \<Rightarrow> (nat \<Rightarrow> nat \<times> 'e option) \<Rightarrow> nat \<Rightarrow> nat \<Rightarrow> nat \<times> 'e option" where
  "limit_read wait r b len =
     (case r (if b < len then b else len) of
        (n, Some e) \<Rightarrow> (n, Some e)
      | (n, None) \<Rightarrow> (n, wait n))"

section \<open>Closing\<close>

text \<open>The connections that closing a stream closes, with \<open>var\<close> the final value of the captured variable. \<open>again\<close> says
  whether a wrapper that is closed already runs its function again; \<open>done\<close>, whether that of \<open>var\<close> has been entered.\<close>

partial_function (option) stream_close :: "bool \<Rightarrow> 'c stream \<Rightarrow> bool \<Rightarrow> 'c stream \<Rightarrow> 'c list option" where
  "stream_close again var entered s =
     (case s of
        Raw c \<Rightarrow> Some [c]
      | Encrypted k t \<Rightarrow> stream_close again var entered t
      | Compressed t \<Rightarrow> stream_close again var entered t
      | Limited b t (CloseConn c) \<Rightarrow> Some [c]
      | Limited b t CloseVar \<Rightarrow> (if entered \<and> \<not> again then Some [] else stream_close again var True var))"

section \<open>Both ends agree\<close>

lemma client_stream_bytes:
  "client_stream encrypt limiter fl key conn = Inr s \<Longrightarrow>
    stream_write lib s d = (let c = (if sfCompression fl then slCompress lib d else d) in if sfEncryption fl then slEncrypt lib key c else c) \<and>
    stream_read lib s d = (let c = (if sfEncryption fl then slDecrypt lib key d else d) in if sfCompression fl then slDecompress lib c else c)"
  by (auto simp: client_stream_def crypt_layers_def Let_def split: option.splits if_splits)

lemma server_stream_bytes:
  "server_stream encrypt limiter fl key conn = Inr s \<Longrightarrow>
    stream_write lib s d = (let c = (if sfCompression fl then slCompress lib d else d) in if sfEncryption fl then slEncrypt lib key c else c) \<and>
    stream_read lib s d = (let c = (if sfEncryption fl then slDecrypt lib key d else d) in if sfCompression fl then slDecompress lib c else c)"
  by (auto simp: server_stream_def crypt_layers_def Let_def split: option.splits if_splits)

lemma limit_write_complete:
  assumes "b > 0" "\<And>k. k \<le> b \<Longrightarrow> wait k = None" "\<And>q. w q = (length q, None)"
  shows "\<exists>qs. limit_write wait w b p n pieces = Some (n + length p, None, pieces @ qs) \<and> concat qs = p \<and> (\<forall>q \<in> set qs. length q \<le> b)"
proof (induction p arbitrary: n pieces rule: length_induct)
  case (1 p)
  show ?case
  proof (cases "p = []")
    case True
    then show ?thesis by (simp add: limit_write.simps)
  next
    case False
    let ?m = "if b < length p then b else length p"
    have e: "?m \<le> b" "?m > 0" "?m \<le> length p" using assms(1) False by auto
    have "length (drop ?m p) < length p" using e False by auto
    with "1" obtain qs where qs: "limit_write wait w b (drop ?m p) (n + ?m) (pieces @ [take ?m p]) =
        Some (n + ?m + length (drop ?m p), None, (pieces @ [take ?m p]) @ qs)"
      "concat qs = drop ?m p" "\<forall>q \<in> set qs. length q \<le> b" by blast
    have "limit_write wait w b p n pieces = Some (n + length p, None, pieces @ (take ?m p # qs))"
      using False e(3) assms(2) [OF e(1)] assms(3) [of "take ?m p"] qs(1)
      by (subst limit_write.simps) (simp only: Let_def option.case prod.case if_False length_take length_drop min_absorb2 append_assoc append_Cons append_Nil; simp)
    moreover have "concat (take ?m p # qs) = p" using qs(2) by simp
    moreover have "\<forall>q \<in> set (take ?m p # qs). length q \<le> b" using qs(3) e by simp
    ultimately show ?thesis by blast
  qed
qed


lemma stream_close_simps:
  "stream_close again var e (Raw c) = Some [c]"
  "stream_close again var e (Encrypted k t) = stream_close again var e t"
  "stream_close again var e (Compressed t) = stream_close again var e t"
  "stream_close again var e (Limited b t (CloseConn c)) = Some [c]"
  "stream_close again var e (Limited b t CloseVar) = (if e \<and> \<not> again then Some [] else stream_close again var True var)"
  by (subst stream_close.simps; simp)+

text \<open>The layers of encryption and compression close what they are built on.\<close>

lemma crypt_layers_close: "crypt_layers encrypt fl key s = Inr t \<Longrightarrow> stream_close again var entered t = stream_close again var entered s"
  by (auto simp: crypt_layers_def stream_close_simps Let_def split: option.splits if_splits)

lemma client_stream_close: "client_stream encrypt limiter fl key conn = Inr s \<Longrightarrow> stream_close again s False s = Some [conn]"
  unfolding client_stream_def
  by (auto dest!: crypt_layers_close [of _ _ _ _ _ again s False] simp: stream_close_simps split: option.splits)

lemma stream_close_loops:
  assumes "stream_close again var entered s = Some cs"
  shows "again \<longrightarrow> s = var \<longrightarrow> (\<forall>b t. var \<noteq> Limited b t CloseVar)"
proof (rule stream_close.raw_induct [where P = "\<lambda>again var entered s cs. again \<longrightarrow> s = var \<longrightarrow> (\<forall>b t. var \<noteq> Limited b t CloseVar)",
      OF _ assms])
  fix f :: "bool \<Rightarrow> 'a stream \<Rightarrow> bool \<Rightarrow> 'a stream \<Rightarrow> 'a list option" and again var entered s cs
  assume IH: "\<And>again var entered s cs. f again var entered s = Some cs \<Longrightarrow>
      again \<longrightarrow> s = var \<longrightarrow> (\<forall>b t. var \<noteq> Limited b t CloseVar)"
    and eq: "(case s of Raw c \<Rightarrow> Some [c] | Encrypted k t \<Rightarrow> f again var entered t | Compressed t \<Rightarrow> f again var entered t
      | Limited b t (CloseConn c) \<Rightarrow> Some [c]
      | Limited b t CloseVar \<Rightarrow> (if entered \<and> \<not> again then Some [] else f again var True var)) = Some cs"
  show "again \<longrightarrow> s = var \<longrightarrow> (\<forall>b t. var \<noteq> Limited b t CloseVar)"
  proof (intro impI allI notI)
    fix b t
    assume h: "again" "s = var" "var = Limited b t CloseVar"
    with eq have "f again var True var = Some cs" by simp
    with IH [of again var True var cs] h show False by blast
  qed
qed

lemma server_stream_close:
  assumes "server_stream encrypt limiter fl key conn = Inr t"
  shows "stream_close again t False t = (if limiter = None then Some [conn] else if again then None else Some [])"
proof (cases limiter)
  case None
  with assms have "crypt_layers encrypt fl key (Raw conn) = Inr t"
    by (cases "crypt_layers encrypt fl key (Raw conn)") (simp_all add: server_stream_def)
  with None crypt_layers_close [OF this] show ?thesis by (simp add: stream_close_simps)
next
  case (Some b)
  with assms obtain s where t: "t = Limited b s CloseVar"
    by (cases "crypt_layers encrypt fl key (Raw conn)") (auto simp: server_stream_def)
  show ?thesis
  proof (cases again)
    case True
    then have "stream_close again t False t = None" using stream_close_loops [of again t False t] t by (cases "stream_close again t False t") auto
    with True Some show ?thesis by simp
  next
    case False
    then show ?thesis using Some
      by (simp add: t stream_close_simps)
  qed
qed

text \<open>The two ends of a work connection understand each other. With the same flags and the same key
  the server reads what the client has written and the client what the server has written, whatever limits they have, and
  closing the client's stream closes the connection.\<close>

lemma streams_agree:
  assumes "stream_lib_ok lib" "client_stream encrypt limiter fl key c = Inr s" "server_stream encrypt' limiter' fl key c' = Inr t"
  shows "stream_read lib t (stream_write lib s d) = d \<and> stream_read lib s (stream_write lib t d) = d \<and>
    stream_close again s False s = Some [c]"
  using assms(1) client_stream_bytes [OF assms(2)] server_stream_bytes [OF assms(3)] client_stream_close [OF assms(2)]
  by (simp add: stream_lib_ok_def Let_def)

text \<open>A cipher that puts the key in front.\<close>

definition example_stream_lib :: stream_lib where
  "example_stream_lib = \<lparr>slEncrypt = (\<lambda>k d. k @ d), slDecrypt = (\<lambda>k w. drop (length k) w), slCompress = rev, slDecompress = rev\<rparr>"

definition both_flags :: stream_flags where
  "both_flags = \<lparr>sfEncryption = True, sfCompression = True\<rparr>"

text \<open>C40: closing the server's stream of a proxy whose bandwidth is limited on the server does not close the
  work connection: its close function closes the variable that holds the stream itself, so that the call ends without
  closing anything or does not end, depending on whether a closed wrapper runs its function again. Without a limit it
  closes the connection.\<close>

theorem limited_stream_stays_open:
  assumes "server_stream encrypt limiter fl key conn = Inr t"
  shows "(limiter \<noteq> None \<longrightarrow> stream_close False t False t = Some [] \<and> stream_close True t False t = None) \<and>
    (limiter = None \<longrightarrow> stream_close again t False t = Some [conn])"
  using server_stream_close [OF assms] by simp

theorem limited_stream_stays_open_witness:
  "\<exists>t. server_stream (\<lambda>_. None :: string option) (Some 100) both_flags ''key'' (2::nat) = Inr t \<and>
     stream_close False t False t = Some [] \<and> stream_close True t False t = None"
proof -
  obtain t where t: "server_stream (\<lambda>_. None :: string option) (Some 100) both_flags ''key'' (2::nat) = Inr t"
    by (simp add: server_stream_def crypt_layers_def both_flags_def)
  with limited_stream_stays_open [OF t] show ?thesis by simp
qed

text \<open>A limited writer comes to its end, writes everything, and no piece exceeds the burst.\<close>

theorem limited_write:
  assumes "b > 0" "\<And>k. k \<le> b \<Longrightarrow> wait k = None" "\<And>q. w q = (length q, None)"
  shows "\<exists>qs. limit_write wait w b p 0 [] = Some (length p, None, qs) \<and> concat qs = p \<and> (\<forall>q \<in> set qs. length q \<le> b)"
  using limit_write_complete [where p = p and n = 0 and pieces = "[]", OF assms] by simp

end
