(* ===== verification/UDP_Tunnel.thy ===== *)
theory UDP_Tunnel
  imports UDP_Forward Work_Stream
begin

text \<open>
  Model of the goroutines of UDP tunnels: the server's UDP proxy (\<^verbatim>\<open>server/proxy/udp.go\<close> after its start, whose ports are
  in \<open>UDP_Proxy\<close>) and the client's UDP and SUDP proxies (\<^verbatim>\<open>client/proxy/udp.go\<close>, \<^verbatim>\<open>client/proxy/sudp.go\<close>). Goroutines
  are steps in any order; a send that would block is a step that is not possible yet. A panic is an outcome of its own:
  \<^verbatim>\<open>PanicToError\<close> turns it into the end of a goroutine, elsewhere it ends the process.
\<close>

section \<open>The server's UDP proxy\<close>

text \<open>The goroutine that keeps a work connection asks for one, waits until the one it has is lost, or is done.\<close>

datatype udp_main = MAsk | MWait nat | MDone

text \<open>\<open>usHeld\<close> is a datagram that \<^verbatim>\<open>ForwardUserConn\<close> has read and not yet sent on; \<open>usLoop\<close> says whether it is running.
  \<open>usOpen\<close> are the work connections whose underlying connection is open, \<open>usReaders\<close> and \<open>usSenders\<close> those that have a
  goroutine reading from or writing to them, and \<open>usNotify\<close> the readers that wait to report the loss of theirs.\<close>

record udp_server =
  usSocket :: bool
  usHeld :: "UDPPacket option"
  usLoop :: bool
  usSend :: "UDPPacket udp_chan"
  usRead :: "UDPPacket udp_chan"
  usCheckClosed :: bool
  usClosed :: bool
  usConn :: "nat option"
  usOpen :: "nat list"
  usReaders :: "nat list"
  usSenders :: "nat list"
  usNotify :: nat
  usMain :: udp_main

definition UDPProxy_start :: udp_server where
  "UDPProxy_start =
     \<lparr>usSocket = True, usHeld = None, usLoop = True, usSend = make_chan 1024, usRead = make_chan 1024, usCheckClosed = False,
      usClosed = False, usConn = None, usOpen = [], usReaders = [], usSenders = [], usNotify = 0, usMain = MAsk\<rparr>"

text \<open>Closing the work connection closes what the close function of its stream closes.\<close>

definition close_work :: "bool \<Rightarrow> nat option \<Rightarrow> udp_server \<Rightarrow> udp_server" where
  "close_work limited c s = (case c of None \<Rightarrow> s | Some k \<Rightarrow> if limited then s else s\<lparr>usOpen := removeAll k (usOpen s)\<rparr>)"

text \<open>\<^verbatim>\<open>Close\<close>: everything once; \<open>None\<close> is closing a closed channel.\<close>

definition udp_server_Close :: "bool \<Rightarrow> udp_server \<Rightarrow> udp_server option" where
  "udp_server_Close limited s =
     (if usClosed s then Some s
      else (let s1 = (close_work limited (usConn s) (s\<lparr>usClosed := True\<rparr>))\<lparr>usSocket := False\<rparr>
            in if usCheckClosed s1 then None
               else case (close_chan (usRead s1), close_chan (usSend s1)) of
                      (Some r, Some q) \<Rightarrow> Some (s1\<lparr>usCheckClosed := True, usRead := r, usSend := q\<rparr>)
                    | _ \<Rightarrow> None))"

datatype work_msg = WPacket UDPPacket | WPing | WError

datatype us_event =
    UsDatagram string UDPAddr
  | UsForward
  | UsReadError
  | UsClose
  | UsDeliver
  | UsNoConn
  | UsGotConn nat bool
  | UsLost
  | UsWorkMsg nat work_msg
  | UsTake nat bool
  | UsCancelled nat

datatype us_out = UsToUser string "UDPAddr option" | UsToClient nat UDPPacket | UsTrafficIn nat | UsTrafficOut nat

datatype us_result = UsBlocked | UsPanic | UsGoes udp_server "us_out list"

text \<open>A packet of the client: the goroutine ends when \<open>readCh\<close> is closed, and counts the traffic by the length of the text.\<close>

definition us_packet :: "bool \<Rightarrow> nat \<Rightarrow> UDPPacket \<Rightarrow> udp_server \<Rightarrow> us_result" where
  "us_packet limited c p s =
     (if cqClosed (usRead s) then UsGoes ((close_work limited (Some c) s)\<lparr>usReaders := remove1 c (usReaders s)\<rparr>) []
      else if length (cqItems (usRead s)) \<ge> cqCap (usRead s) then UsBlocked
      else UsGoes (s\<lparr>usRead := (usRead s)\<lparr>cqItems := cqItems (usRead s) @ [p]\<rparr>\<rparr>) [UsTrafficOut (length (pkContent p))])"

text \<open>The sender: a closed and empty channel ends it, so does an error, which closes the connection. A packet that could not
  be written is lost.\<close>

definition us_take :: "bool \<Rightarrow> nat \<Rightarrow> bool \<Rightarrow> udp_server \<Rightarrow> us_result" where
  "us_take limited c written s =
     (case cqItems (usSend s) of
        [] \<Rightarrow> if cqClosed (usSend s) then UsGoes (s\<lparr>usSenders := remove1 c (usSenders s)\<rparr>) [] else UsBlocked
      | p # ps \<Rightarrow>
          (let s1 = s\<lparr>usSend := (usSend s)\<lparr>cqItems := ps\<rparr>\<rparr>
           in if written then UsGoes s1 [UsToClient c p, UsTrafficIn (length (pkContent p))]
              else UsGoes ((close_work limited (Some c) s1)\<lparr>usSenders := remove1 c (usSenders s)\<rparr>) []))"

text \<open>A work connection from the pool replaces the old one, which is closed; \<open>ok\<close> is false when encryption fails.\<close>

definition us_got_conn :: "bool \<Rightarrow> nat \<Rightarrow> bool \<Rightarrow> udp_server \<Rightarrow> udp_server" where
  "us_got_conn limited c ok s =
     (let s1 = close_work limited (usConn s) s
      in if \<not> ok then s1
         else s1\<lparr>usConn := Some c, usOpen := c # usOpen s1, usReaders := c # usReaders s1, usSenders := c # usSenders s1,
                 usMain := MWait c\<rparr>)"

fun us_step :: "nat \<Rightarrow> bool \<Rightarrow> us_event \<Rightarrow> udp_server \<Rightarrow> us_result" where
  "us_step bufSize limited (UsDatagram data remoteAddr) s =
     (if usLoop s \<and> usHeld s = None \<and> usSocket s then UsGoes (s\<lparr>usHeld := Some (user_receive bufSize data remoteAddr)\<rparr>) []
      else UsBlocked)"
| "us_step bufSize limited UsForward s =
     (case usHeld s of
        None \<Rightarrow> UsBlocked
      | Some p \<Rightarrow> (case try_send p (usSend s) of None \<Rightarrow> UsPanic | Some q \<Rightarrow> UsGoes (s\<lparr>usSend := q, usHeld := None\<rparr>) []))"
| "us_step bufSize limited UsReadError s =
     (if usLoop s \<and> usHeld s = None then
        (case udp_server_Close limited s of None \<Rightarrow> UsPanic | Some s1 \<Rightarrow> UsGoes (s1\<lparr>usLoop := False\<rparr>) [])
      else UsBlocked)"
| "us_step bufSize limited UsClose s = (case udp_server_Close limited s of None \<Rightarrow> UsPanic | Some s1 \<Rightarrow> UsGoes s1 [])"
| "us_step bufSize limited UsDeliver s =
     (case cqItems (usRead s) of
        [] \<Rightarrow> UsBlocked
      | p # ps \<Rightarrow>
          UsGoes (s\<lparr>usRead := (usRead s)\<lparr>cqItems := ps\<rparr>\<rparr>)
            (case user_deliver p of None \<Rightarrow> [] | Some (buf, a) \<Rightarrow> if usSocket s then [UsToUser buf a] else []))"
| "us_step bufSize limited UsNoConn s =
     (if usMain s \<noteq> MAsk then UsBlocked
      else if usNotify s > 0 \<and> \<not> usCheckClosed s then UsGoes (s\<lparr>usNotify := usNotify s - 1\<rparr>) []
      else UsGoes (if usCheckClosed s then s\<lparr>usMain := MDone\<rparr> else s) [])"
| "us_step bufSize limited (UsGotConn c ok) s =
     (if usMain s \<noteq> MAsk \<or> c \<in> set (usOpen s) \<or> c \<in> set (usReaders s) \<or> c \<in> set (usSenders s) then UsBlocked
      else UsGoes (us_got_conn limited c ok s) [])"
| "us_step bufSize limited UsLost s =
     (case usMain s of
        MWait c \<Rightarrow>
          if usCheckClosed s then UsGoes (s\<lparr>usMain := MDone\<rparr>) []
          else if usNotify s > 0 then UsGoes (s\<lparr>usMain := MAsk, usNotify := usNotify s - 1\<rparr>) []
          else UsBlocked
      | _ \<Rightarrow> UsBlocked)"
| "us_step bufSize limited (UsWorkMsg c m) s =
     (if c \<notin> set (usReaders s) then UsBlocked
      else case m of
          WPing \<Rightarrow> UsGoes s []
        | WPacket p \<Rightarrow> us_packet limited c p s
        | WError \<Rightarrow>
            UsGoes ((close_work limited (Some c) s)\<lparr>usReaders := remove1 c (usReaders s),
                usNotify := (if usCheckClosed s then usNotify s else usNotify s + 1)\<rparr>) [])"
| "us_step bufSize limited (UsTake c written) s = (if c \<notin> set (usSenders s) then UsBlocked else us_take limited c written s)"
| "us_step bufSize limited (UsCancelled c) s =
     (if c \<in> set (usSenders s) \<and> usMain s \<noteq> MWait c then UsGoes (s\<lparr>usSenders := remove1 c (usSenders s)\<rparr>) [] else UsBlocked)"

inductive us_reach :: "nat \<Rightarrow> bool \<Rightarrow> udp_server \<Rightarrow> us_out list \<Rightarrow> bool" for bufSize limited where
  start: "us_reach bufSize limited UDPProxy_start []"
| step: "us_reach bufSize limited s outs \<Longrightarrow> us_step bufSize limited e s = UsGoes s' o1 \<Longrightarrow> us_reach bufSize limited s' (outs @ o1)"

text \<open>The channels are closed exactly when the proxy is.\<close>

definition us_inv :: "udp_server \<Rightarrow> bool" where
  "us_inv s \<longleftrightarrow> usCheckClosed s = usClosed s \<and> cqClosed (usSend s) = usClosed s \<and> cqClosed (usRead s) = usClosed s \<and>
     usSocket s = (\<not> usClosed s)"

lemma close_work_sel [simp]:
  "usCheckClosed (close_work l c s) = usCheckClosed s" "usClosed (close_work l c s) = usClosed s" "usSend (close_work l c s) = usSend s"
  "usRead (close_work l c s) = usRead s" "usSocket (close_work l c s) = usSocket s" "usHeld (close_work l c s) = usHeld s"
  "usLoop (close_work l c s) = usLoop s"
  by (auto simp: close_work_def split: option.splits)

lemma udp_server_Close_ok:
  assumes "us_inv s"
  shows "\<exists>s'. udp_server_Close limited s = Some s' \<and> us_inv s' \<and> usClosed s' \<and> usHeld s' = usHeld s \<and> usLoop s' = usLoop s"
  using assms by (auto simp: udp_server_Close_def us_inv_def close_chan_def Let_def)


lemma us_inv_packet: "us_inv s \<Longrightarrow> us_packet limited c p s = UsGoes s' o1 \<Longrightarrow> us_inv s'"
  by (auto simp: us_packet_def us_inv_def split: if_splits)

lemma us_inv_take: "us_inv s \<Longrightarrow> us_take limited c w s = UsGoes s' o1 \<Longrightarrow> us_inv s'"
  by (auto simp: us_take_def us_inv_def Let_def split: if_splits list.splits)

lemma us_step_inv: "us_inv s \<Longrightarrow> us_step n limited e s = UsGoes s' o1 \<Longrightarrow> us_inv s'"
proof (cases e)
  case UsForward
  moreover assume "us_inv s" "us_step n limited e s = UsGoes s' o1"
  ultimately show ?thesis by (auto simp: us_inv_def dest: try_send_items split: option.splits)
next
  case UsReadError
  moreover assume i: "us_inv s" "us_step n limited e s = UsGoes s' o1"
  ultimately show ?thesis using udp_server_Close_ok [OF i(1), of limited] by (auto simp: us_inv_def split: if_splits)
next
  case UsClose
  moreover assume i: "us_inv s" "us_step n limited e s = UsGoes s' o1"
  ultimately show ?thesis using udp_server_Close_ok [OF i(1), of limited] by auto
next
  case (UsWorkMsg c m)
  moreover assume "us_inv s" "us_step n limited e s = UsGoes s' o1"
  ultimately show ?thesis by (auto simp: us_inv_packet split: if_splits work_msg.splits) (auto simp: us_inv_def)
next
  case (UsTake c w)
  moreover assume "us_inv s" "us_step n limited e s = UsGoes s' o1"
  ultimately show ?thesis by (auto simp: us_inv_take split: if_splits)
qed (auto simp: us_inv_def us_got_conn_def Let_def split: if_splits list.splits udp_main.splits)

lemma us_reach_inv: "us_reach n limited s outs \<Longrightarrow> us_inv s"
proof (induction rule: us_reach.induct)
  case start
  show ?case by (simp add: us_inv_def UDPProxy_start_def make_chan_def)
next
  case (step s outs e s' o1)
  then show ?case using us_step_inv by blast
qed

lemma us_got_conn_props: "usHeld (us_got_conn l c ok s) = usHeld s" "usClosed (us_got_conn l c ok s) = usClosed s"
  by (simp_all add: us_got_conn_def Let_def)



text \<open>What closing a work connection does follows from the stream around it.\<close>

lemma close_work_stream:
  assumes "server_stream encrypt limiter fl key c = Inr t" "stream_close False t False t = Some cs"
  shows "usOpen (close_work (limiter \<noteq> None) (Some c) s) = filter (\<lambda>k. k \<notin> set cs) (usOpen s)"
  using server_stream_close [OF assms(1), of False] assms(2)
  by (auto simp: close_work_def removeAll_filter_not_eq intro: filter_cong)

text \<open>With a limit on the server the connections of the proxy stay open for ever.\<close>

lemma limited_conns_stay_open:
  assumes "us_step n True e s = UsGoes s' o1" "c \<in> set (usOpen s)"
  shows "c \<in> set (usOpen s')"
  using assms
  by (cases e) (auto simp: us_packet_def us_take_def us_got_conn_def udp_server_Close_def close_work_def Let_def
      split: if_splits option.splits list.splits udp_main.splits work_msg.splits)

section \<open>The client's UDP proxy\<close>

text \<open>The proxy has one work connection at a time, with two channels. Its goroutines keep the connection and the channels
  they were started with, so what was installed is kept in a list.\<close>

record udp_work =
  uwConn :: nat
  uwConnOpen :: bool
  uwRead :: "UDPPacket udp_chan"
  uwSend :: "udp_msg udp_chan"

record client_udp =
  cuWorks :: "udp_work list"
  cuCur :: "nat option"
  cuClosed :: bool

definition NewClientUDP :: client_udp where
  "NewClientUDP = \<lparr>cuWorks = [], cuCur = None, cuClosed = False\<rparr>"

definition work_close :: "udp_work \<Rightarrow> udp_work option" where
  "work_close w =
     (case (close_chan (uwRead w), close_chan (uwSend w)) of
        (Some r, Some q) \<Rightarrow> Some (w\<lparr>uwConnOpen := False, uwRead := r, uwSend := q\<rparr>)
      | _ \<Rightarrow> None)"

definition ClientUDP_Close :: "client_udp \<Rightarrow> client_udp option" where
  "ClientUDP_Close s =
     (if cuClosed s then Some s
      else (case cuCur s of
              None \<Rightarrow> Some (s\<lparr>cuClosed := True\<rparr>)
            | Some i \<Rightarrow> map_option (\<lambda>w. s\<lparr>cuClosed := True, cuWorks := (cuWorks s)[i := w]\<rparr>) (work_close (cuWorks s ! i))))"

text \<open>\<^verbatim>\<open>InWorkConn\<close> closes what it has, wraps the connection and installs it, in two critical sections. A connection whose
  stream cannot be built is closed.\<close>

definition ClientUDP_install :: "(string \<Rightarrow> 'e option) \<Rightarrow> nat option \<Rightarrow> stream_flags \<Rightarrow> string \<Rightarrow> nat \<Rightarrow> client_udp \<Rightarrow> client_udp" where
  "ClientUDP_install encrypt limiter fl token conn s =
     (case client_stream encrypt limiter fl token conn of
        Inl e \<Rightarrow> s
      | Inr st \<Rightarrow>
          s\<lparr>cuWorks := cuWorks s @ [\<lparr>uwConn = conn, uwConnOpen = True, uwRead = make_chan 1024, uwSend = make_chan 1024\<rparr>],
            cuCur := Some (length (cuWorks s)), cuClosed := False\<rparr>)"

definition ClientUDP_InWorkConn :: "(string \<Rightarrow> 'e option) \<Rightarrow> nat option \<Rightarrow> stream_flags \<Rightarrow> string \<Rightarrow> nat \<Rightarrow> client_udp \<Rightarrow> client_udp option" where
  "ClientUDP_InWorkConn encrypt limiter fl token conn s =
     map_option (ClientUDP_install encrypt limiter fl token conn) (ClientUDP_Close s)"

text \<open>The goroutine that reads the work connection: \<open>None\<close> is a send that blocks, the flag says whether it goes on. It ends
  without closing anything.\<close>

definition work_reader :: "UDPPacket option \<Rightarrow> udp_work \<Rightarrow> (udp_work \<times> bool) option" where
  "work_reader m w =
     (case m of
        None \<Rightarrow> Some (w, False)
      | Some p \<Rightarrow>
          if cqClosed (uwRead w) then Some (w, False)
          else if length (cqItems (uwRead w)) \<ge> cqCap (uwRead w) then None
          else Some (w\<lparr>uwRead := (uwRead w)\<lparr>cqItems := cqItems (uwRead w) @ [p]\<rparr>\<rparr>, True))"

text \<open>The goroutine that writes to it, with the message it wrote; and the heartbeat, every 30 seconds.\<close>

definition work_sender :: "bool \<Rightarrow> udp_work \<Rightarrow> (udp_work \<times> bool \<times> udp_msg option) option" where
  "work_sender written w =
     (case cqItems (uwSend w) of
        [] \<Rightarrow> if cqClosed (uwSend w) then Some (w, False, None) else None
      | m # ms \<Rightarrow> Some (w\<lparr>uwSend := (uwSend w)\<lparr>cqItems := ms\<rparr>\<rparr>, written, if written then Some m else None))"

definition work_heartbeat :: "udp_work \<Rightarrow> (udp_work \<times> bool) option" where
  "work_heartbeat w =
     (if cqClosed (uwSend w) then Some (w, False)
      else if length (cqItems (uwSend w)) \<ge> cqCap (uwSend w) then None
      else Some (w\<lparr>uwSend := (uwSend w)\<lparr>cqItems := cqItems (uwSend w) @ [PingMsg]\<rparr>\<rparr>, True))"


definition cu_inv :: "client_udp \<Rightarrow> bool" where
  "cu_inv s \<longleftrightarrow> (\<forall>i. cuCur s = Some i \<longrightarrow> i < length (cuWorks s)) \<and>
     (\<forall>i < length (cuWorks s). let w = cuWorks s ! i; live = (cuCur s = Some i \<and> \<not> cuClosed s)
        in uwConnOpen w = live \<and> cqClosed (uwRead w) = (\<not> live) \<and> cqClosed (uwSend w) = (\<not> live))"

lemma ClientUDP_Close_inv:
  assumes "cu_inv s"
  shows "\<exists>s'. ClientUDP_Close s = Some s' \<and> cu_inv s' \<and> cuClosed s' \<and> length (cuWorks s') = length (cuWorks s)"
proof (cases "cuClosed s \<or> cuCur s = None")
  case True
  with assms show ?thesis by (auto simp: ClientUDP_Close_def cu_inv_def)
next
  case False
  then obtain i where i: "cuCur s = Some i" "\<not> cuClosed s" by auto
  with assms have w: "i < length (cuWorks s)" "\<not> cqClosed (uwRead (cuWorks s ! i))" "\<not> cqClosed (uwSend (cuWorks s ! i))"
    by (auto simp: cu_inv_def Let_def)
  then obtain w' where "work_close (cuWorks s ! i) = Some w'" "\<not> uwConnOpen w'" "cqClosed (uwRead w')" "cqClosed (uwSend w')"
    by (simp add: work_close_def close_chan_def)
  with i w assms show ?thesis by (auto simp: ClientUDP_Close_def cu_inv_def nth_list_update Let_def)
qed

lemma ClientUDP_install_inv:
  assumes "cu_inv s" "cuClosed s"
  shows "cu_inv (ClientUDP_install encrypt limiter fl token conn s)"
  using assms by (auto simp: ClientUDP_install_def cu_inv_def Let_def make_chan_def nth_append less_Suc_eq split: sum.split)

text \<open>Work connections that are handled one after the other, with closes in between. Each replaces and closes the one before,
  nothing panics, and after a close nothing is open.\<close>

datatype cu_event = CuWork nat | CuClose

fun cu_run :: "(string \<Rightarrow> 'e option) \<Rightarrow> nat option \<Rightarrow> stream_flags \<Rightarrow> string \<Rightarrow> cu_event list \<Rightarrow> client_udp \<Rightarrow> client_udp option" where
  "cu_run encrypt limiter fl token [] s = Some s"
| "cu_run encrypt limiter fl token (CuWork c # es) s =
     (case ClientUDP_InWorkConn encrypt limiter fl token c s of None \<Rightarrow> None | Some s1 \<Rightarrow> cu_run encrypt limiter fl token es s1)"
| "cu_run encrypt limiter fl token (CuClose # es) s =
     (case ClientUDP_Close s of None \<Rightarrow> None | Some s1 \<Rightarrow> cu_run encrypt limiter fl token es s1)"

lemma cu_run_inv: "cu_inv s \<Longrightarrow> \<exists>s'. cu_run encrypt limiter fl token es s = Some s' \<and> cu_inv s'"
proof (induction es arbitrary: s)
  case (Cons e es)
  from ClientUDP_Close_inv [OF Cons.prems] obtain s1 where s1: "ClientUDP_Close s = Some s1" "cu_inv s1" "cuClosed s1" by blast
  show ?case
  proof (cases e)
    case (CuWork c)
    with s1 Cons.IH [OF ClientUDP_install_inv [OF s1(2,3)]] show ?thesis by (simp add: ClientUDP_InWorkConn_def)
  next
    case CuClose
    with s1 Cons.IH [OF s1(2)] show ?thesis by simp
  qed
qed simp

lemma NewClientUDP_inv: "cu_inv NewClientUDP"
  by (simp add: cu_inv_def NewClientUDP_def)

lemma client_udp_one_connection:
  "\<exists>s. cu_run encrypt limiter fl token es NewClientUDP = Some s \<and>
     (\<forall>i < length (cuWorks s). uwConnOpen (cuWorks s ! i) \<longrightarrow> \<not> cuClosed s \<and> cuCur s = Some i)"
proof -
  obtain s where "cu_run encrypt limiter fl token es NewClientUDP = Some s" "cu_inv s" using cu_run_inv [OF NewClientUDP_inv] by blast
  then show ?thesis unfolding cu_inv_def Let_def by blast
qed

text \<open>Two work connections handled at once may both close before either is installed. The first one installed is then
  forgotten: closing the proxy closes the second one only.\<close>

lemma overlapping_work_conns:
  assumes "\<And>c :: nat. client_stream encrypt limiter fl token c = Inr (st c)"
  shows "\<exists>s. Option.bind (ClientUDP_Close NewClientUDP) (\<lambda>s1. Option.bind (ClientUDP_Close s1) (\<lambda>s2.
      ClientUDP_Close (ClientUDP_install encrypt limiter fl token b (ClientUDP_install encrypt limiter fl token a s2)))) = Some s \<and>
    uwConnOpen (cuWorks s ! 0) \<and> \<not> cqClosed (uwSend (cuWorks s ! 0)) \<and> \<not> uwConnOpen (cuWorks s ! 1) \<and> cuClosed s"
  by (simp add: NewClientUDP_def ClientUDP_Close_def ClientUDP_install_def assms work_close_def close_chan_def make_chan_def)

section \<open>The client's SUDP proxy\<close>

text \<open>Every work connection has its own channels and a close function that acts once; closing the proxy closes a channel that
  the goroutines of all connections watch.\<close>

record sudp_work = udp_work + swIsClose :: bool

definition sudp_install :: "(string \<Rightarrow> 'e option) \<Rightarrow> nat option \<Rightarrow> stream_flags \<Rightarrow> string \<Rightarrow> nat \<Rightarrow> ('e, sudp_work) result" where
  "sudp_install encrypt limiter fl token conn =
     map_sum id (\<lambda>st. \<lparr>uwConn = conn, uwConnOpen = True, uwRead = make_chan 1024, uwSend = make_chan 1024, swIsClose = False\<rparr>)
       (client_stream encrypt limiter fl token conn)"

definition sudp_closeFn :: "sudp_work \<Rightarrow> sudp_work option" where
  "sudp_closeFn w =
     (if swIsClose w then Some w
      else (case (close_chan (uwRead w), close_chan (uwSend w)) of
              (Some r, Some q) \<Rightarrow> Some (w\<lparr>swIsClose := True, uwConnOpen := False, uwRead := r, uwSend := q\<rparr>)
            | _ \<Rightarrow> None))"

definition ClientSUDP_Close :: "bool \<Rightarrow> bool" where
  "ClientSUDP_Close closed = (if closed then closed else True)"

text \<open>One round of the goroutines. \<open>None\<close> in the first place is a panic (there is none), in the second a round that waits.\<close>

definition sudp_end :: "sudp_work \<Rightarrow> (sudp_work \<times> bool) option option" where
  "sudp_end w = map_option (\<lambda>w1. Some (w1, False)) (sudp_closeFn w)"

definition sudp_reader :: "bool \<Rightarrow> UDPPacket option \<Rightarrow> sudp_work \<Rightarrow> (sudp_work \<times> bool) option option" where
  "sudp_reader closed m w =
     (if closed then sudp_end w
      else case m of
          None \<Rightarrow> sudp_end w
        | Some p \<Rightarrow>
            if cqClosed (uwRead w) then sudp_end w
            else if length (cqItems (uwRead w)) \<ge> cqCap (uwRead w) then Some None
            else Some (Some (w\<lparr>uwRead := (uwRead w)\<lparr>cqItems := cqItems (uwRead w) @ [p]\<rparr>\<rparr>, True)))"

definition sudp_sender :: "bool \<Rightarrow> sudp_work \<Rightarrow> (sudp_work \<times> bool) option option" where
  "sudp_sender written w =
     (case cqItems (uwSend w) of
        [] \<Rightarrow> if cqClosed (uwSend w) then sudp_end w else Some None
      | m # ms \<Rightarrow>
          (let w1 = w\<lparr>uwSend := (uwSend w)\<lparr>cqItems := ms\<rparr>\<rparr> in if written then Some (Some (w1, True)) else sudp_end w1))"

definition sudp_heartbeat :: "bool \<Rightarrow> sudp_work \<Rightarrow> (sudp_work \<times> bool) option option" where
  "sudp_heartbeat closed w =
     (if closed then sudp_end w
      else if cqClosed (uwSend w) then sudp_end w
      else if length (cqItems (uwSend w)) \<ge> cqCap (uwSend w) then Some None
      else Some (Some (w\<lparr>uwSend := (uwSend w)\<lparr>cqItems := cqItems (uwSend w) @ [PingMsg]\<rparr>\<rparr>, True)))"

definition sudp_inv :: "sudp_work \<Rightarrow> bool" where
  "sudp_inv w \<longleftrightarrow> cqClosed (uwRead w) = swIsClose w \<and> cqClosed (uwSend w) = swIsClose w \<and> uwConnOpen w = (\<not> swIsClose w)"

lemma sudp_closeFn_ok: "sudp_inv w \<Longrightarrow> \<exists>w'. sudp_closeFn w = Some w' \<and> sudp_inv w' \<and> swIsClose w'"
  by (simp add: sudp_inv_def sudp_closeFn_def close_chan_def)

lemma sudp_end_ok: "sudp_inv w \<Longrightarrow> \<exists>w'. sudp_end w = Some (Some (w', False)) \<and> sudp_inv w' \<and> swIsClose w'"
  using sudp_closeFn_ok [of w] by (auto simp: sudp_end_def)

text \<open>No round panics, and a goroutine that ends leaves its connection and both channels closed, whichever ends first.\<close>

lemma sudp_rounds:
  assumes "sudp_inv w" "r \<in> {sudp_reader closed m w, sudp_sender written w, sudp_heartbeat closed w}"
  shows "r \<noteq> None \<and> (\<forall>w' on. r = Some (Some (w', on)) \<longrightarrow> sudp_inv w' \<and> (\<not> on \<longrightarrow> swIsClose w' \<and> \<not> uwConnOpen w'))"
proof -
  let ?Q = "\<lambda>r. r \<noteq> None \<and> (\<forall>w' on. r = Some (Some (w', on)) \<longrightarrow> sudp_inv w' \<and> (\<not> on \<longrightarrow> swIsClose w' \<and> \<not> uwConnOpen w'))"
  have e: "?Q (sudp_end v)" if "sudp_inv v" for v using sudp_end_ok [OF that] by (auto simp: sudp_inv_def)
  have upd: "sudp_inv (w\<lparr>uwSend := (uwSend w)\<lparr>cqItems := q\<rparr>\<rparr>)" "sudp_inv (w\<lparr>uwRead := (uwRead w)\<lparr>cqItems := p\<rparr>\<rparr>)" for q p
    using assms(1) by (simp_all add: sudp_inv_def)
  have go: "?Q (Some None)" "sudp_inv v \<Longrightarrow> ?Q (Some (Some (v, True)))" for v by simp_all
  have a: "?Q (sudp_reader closed m w)"
    unfolding sudp_reader_def using e [OF assms(1)] go(1) go(2) [OF upd(2)] by (simp split: option.split)
  have b: "?Q (sudp_sender written w)"
    unfolding sudp_sender_def Let_def using e [OF assms(1)] e [OF upd(1)] go(1) go(2) [OF upd(1)]
    by (cases "cqItems (uwSend w)") simp_all
  have c: "?Q (sudp_heartbeat closed w)"
    unfolding sudp_heartbeat_def using e [OF assms(1)] go(1) go(2) [OF upd(1)] by simp
  show ?thesis using assms(2)
  proof (elim insertE emptyE)
    show ?thesis if "r = sudp_reader closed m w" unfolding that by (rule a)
    show ?thesis if "r = sudp_sender written w" unfolding that by (rule b)
    show ?thesis if "r = sudp_heartbeat closed w" unfolding that by (rule c)
  qed
qed

end
