(* ===== verification/SUDP_Visitor.thy ===== *)
theory SUDP_Visitor
  imports Client_Visitor UDP_Tunnel
begin

text \<open>
  Model of \<^verbatim>\<open>client/visitor/sudp.go\<close>: the visitor of a SUDP proxy takes datagrams on its own socket, opens a connection to the
  server for the first one and passes packets in both directions until the connection or the visitor ends. The answers of the
  server and the outcome of reads and writes are inputs.
\<close>

section \<open>The visitor\<close>

record sudp_visitor =
  sdSocket :: bool
  sdHeld :: "UDPPacket option"
  sdSend :: "UDPPacket udp_chan"
  sdRead :: "UDPPacket udp_chan"
  sdCheckClosed :: bool

text \<open>\<^verbatim>\<open>Run\<close>: the two errors are those of resolving and of listening.\<close>

definition SUDPVisitor_Run :: "string option \<Rightarrow> string option \<Rightarrow> (string, sudp_visitor) result" where
  "SUDPVisitor_Run resolve listen =
     (case resolve of
        Some e \<Rightarrow> Inl (''SUDP ResolveUDPAddr error: '' @ e)
      | None \<Rightarrow>
          (case listen of
             Some e \<Rightarrow> Inl (''SUDP listen error: '' @ e)
           | None \<Rightarrow> Inr \<lparr>sdSocket = True, sdHeld = None, sdSend = make_chan 1024, sdRead = make_chan 1024, sdCheckClosed = False\<rparr>))"

definition SUDPVisitor_Close :: "sudp_visitor \<Rightarrow> sudp_visitor option" where
  "SUDPVisitor_Close v =
     (if sdCheckClosed v then Some v
      else (case (close_chan (sdRead v), close_chan (sdSend v)) of
              (Some r, Some q) \<Rightarrow> Some (v\<lparr>sdCheckClosed := True, sdSocket := False, sdRead := r, sdSend := q\<rparr>)
            | _ \<Rightarrow> None))"

text \<open>The loop on the socket, as for the server's proxy; a send on the closed channel is a panic.\<close>

definition sudp_datagram :: "nat \<Rightarrow> string \<Rightarrow> UDPAddr \<Rightarrow> sudp_visitor \<Rightarrow> sudp_visitor option" where
  "sudp_datagram bufSize data remoteAddr v =
     (if sdSocket v \<and> sdHeld v = None then Some (v\<lparr>sdHeld := Some (user_receive bufSize data remoteAddr)\<rparr>) else None)"

definition sudp_forward :: "sudp_visitor \<Rightarrow> sudp_visitor option" where
  "sudp_forward v =
     (case sdHeld v of
        None \<Rightarrow> Some v
      | Some p \<Rightarrow> map_option (\<lambda>q. v\<lparr>sdSend := q, sdHeld := None\<rparr>) (try_send p (sdSend v)))"

section \<open>A connection to the server\<close>

text \<open>The outcome of connecting, of writing the request, of reading the response and its error. The second component are the
  connections that stay open although an error is returned: none of the error paths closes the connection.\<close>

definition getNewVisitorConn :: "(string, 'c) result \<Rightarrow> (NewVisitorConn \<Rightarrow> string option) \<Rightarrow> (NewVisitorConn \<Rightarrow> (string, string) result) \<Rightarrow>
    (string \<Rightarrow> string option) \<Rightarrow> (string \<Rightarrow> string) \<Rightarrow> int \<Rightarrow> string \<Rightarrow> BaseVisitorConf \<Rightarrow> (string, 'c stream) result \<times> 'c list" where
  "getNewVisitorConn connect write response encrypt md5 now runID c =
     (case connect of
        Inl e \<Rightarrow> (Inl (''connect to server error: '' @ e), [])
      | Inr conn \<Rightarrow>
          (let m = visitor_msg md5 now runID c
           in case write m of
                Some e \<Rightarrow> (Inl (''send newVisitorConn error: '' @ e), [conn])
              | None \<Rightarrow>
                  (case response m of
                     Inl e \<Rightarrow> (Inl (''read newVisitorConnResp error: '' @ e), [conn])
                   | Inr respError \<Rightarrow>
                       if respError \<noteq> [] then (Inl (''start new visitor connection error: '' @ respError), [conn])
                       else (case crypt_layers encrypt \<lparr>sfEncryption = vbUseEncryption c, sfCompression = vbUseCompression c\<rparr> (vbSk c) (Raw conn) of
                               Inl e \<Rightarrow> (Inl e, [conn])
                             | Inr s \<Rightarrow> (Inr s, [])))))"

section \<open>The worker of a connection\<close>

text \<open>\<open>wkFirst\<close> is the packet that the connection was opened for, until it is written.\<close>

record sudp_worker =
  wkOpen :: bool
  wkCloseCh :: bool
  wkFirst :: "UDPPacket option"
  wkReader :: bool
  wkSender :: bool

definition worker_start :: "UDPPacket \<Rightarrow> sudp_worker" where
  "worker_start p = \<lparr>wkOpen = True, wkCloseCh = False, wkFirst = Some p, wkReader = True, wkSender = True\<rparr>"

definition reader_end :: "sudp_worker \<Rightarrow> sudp_worker" where
  "reader_end w = w\<lparr>wkOpen := False, wkCloseCh := True, wkReader := False\<rparr>"

definition sender_end :: "sudp_worker \<Rightarrow> sudp_worker" where
  "sender_end w = w\<lparr>wkOpen := False, wkSender := False\<rparr>"

text \<open>Rounds of the two goroutines: \<open>None\<close> is a round that waits. A closed connection gives errors only. The sender's
  \<open>select\<close> may take the closed \<open>closeCh\<close> although a packet is there (\<open>prefer\<close>). The last component is a packet that was
  written.\<close>

definition worker_read :: "work_msg \<Rightarrow> sudp_worker \<Rightarrow> sudp_visitor \<Rightarrow> (sudp_worker \<times> sudp_visitor) option" where
  "worker_read m w v =
     (case (if wkOpen w then m else WError) of
        WError \<Rightarrow> Some (reader_end w, v)
      | WPing \<Rightarrow> Some (w, v)
      | WPacket p \<Rightarrow>
          if cqClosed (sdRead v) then Some (reader_end w, v)
          else if length (cqItems (sdRead v)) \<ge> cqCap (sdRead v) then None
          else Some (w, v\<lparr>sdRead := (sdRead v)\<lparr>cqItems := cqItems (sdRead v) @ [p]\<rparr>\<rparr>))"

definition worker_write :: "bool \<Rightarrow> UDPPacket \<Rightarrow> sudp_worker \<Rightarrow> sudp_worker \<times> UDPPacket option" where
  "worker_write written p w = (if written \<and> wkOpen w then (w, Some p) else (sender_end w, None))"

definition worker_send :: "bool \<Rightarrow> bool \<Rightarrow> sudp_worker \<Rightarrow> sudp_visitor \<Rightarrow> (sudp_worker \<times> sudp_visitor \<times> UDPPacket option) option" where
  "worker_send prefer written w v =
     (case wkFirst w of
        Some p \<Rightarrow> (case worker_write written p (w\<lparr>wkFirst := None\<rparr>) of (w1, o1) \<Rightarrow> Some (w1, v, o1))
      | None \<Rightarrow>
          if wkCloseCh w \<and> (prefer \<or> cqItems (sdSend v) = []) then Some (sender_end w, v, None)
          else (case cqItems (sdSend v) of
                  [] \<Rightarrow> if cqClosed (sdSend v) then Some (sender_end w, v, None) else None
                | p # ps \<Rightarrow>
                    (case worker_write written p w of
                       (w1, o1) \<Rightarrow> Some (w1, v\<lparr>sdSend := (sdSend v)\<lparr>cqItems := ps\<rparr>\<rparr>, o1))))"

text \<open>\<^verbatim>\<open>wg.Wait()\<close> returns.\<close>

definition worker_done :: "sudp_worker \<Rightarrow> bool" where
  "worker_done w \<longleftrightarrow> \<not> wkReader w \<and> \<not> wkSender w"

section \<open>The dispatcher\<close>

text \<open>What \<^verbatim>\<open>select\<close> takes at the head of the loop: a packet, the nil packet of a closed channel, or the closed \<open>checkCloseCh\<close>; with
  a packet, what \<open>getNewVisitorConn\<close> gives and whether the visitor is closed after the worker. A packet whose connection
  fails is lost. The result: whether the loop has ended, the workers that ran and the lost packets.\<close>

datatype 'c dispatch = DNil | DCheckClosed | DPacket UDPPacket "(string, 'c stream) result" bool

fun dispatcher :: "'c dispatch list \<Rightarrow> bool \<times> ('c stream \<times> UDPPacket) list \<times> UDPPacket list" where
  "dispatcher [] = (False, [], [])"
| "dispatcher (DNil # ds) = (True, [], [])"
| "dispatcher (DCheckClosed # ds) = (True, [], [])"
| "dispatcher (DPacket p (Inl e) closed # ds) = (case dispatcher ds of (b, ws, ls) \<Rightarrow> (b, ws, p # ls))"
| "dispatcher (DPacket p (Inr s) closed # ds) =
     (if closed then (True, [(s, p)], []) else (case dispatcher ds of (b, ws, ls) \<Rightarrow> (b, (s, p) # ws, ls)))"

section \<open>What holds\<close>

text \<open>A connection that the visitor gets carries the flags and the secret key of its configuration, and is not among those
  left open; every error after connecting leaves the connection open.\<close>

lemma getNewVisitorConn_cases:
  "getNewVisitorConn connect write response encrypt md5 now runID c = (r, left) \<Longrightarrow>
    (case r of Inl e \<Rightarrow> left = (case connect of Inl _ \<Rightarrow> [] | Inr conn \<Rightarrow> [conn])
     | Inr s \<Rightarrow> left = [] \<and> (\<exists>conn. connect = Inr conn \<and> stream_close again s False s = Some [conn]))"
  by (auto simp: getNewVisitorConn_def crypt_layers_def Let_def stream_close_simps split: sum.splits option.splits if_splits)

text \<open>As soon as one goroutine of a worker has ended the connection is closed, and the other ends with its next round on the
  connection: the reader at once, the sender when it writes or sees \<open>closeCh\<close>.\<close>

lemma worker_ends:
  assumes "\<not> wkOpen w"
  shows "\<exists>w'. worker_read m w v = Some (w', v) \<and> \<not> wkReader w' \<and> wkCloseCh w'"
    and "wkCloseCh w \<or> wkFirst w \<noteq> None \<or> cqItems (sdSend v) \<noteq> [] \<Longrightarrow>
      \<exists>w' v'. worker_send prefer written w v = Some (w', v', None) \<and> \<not> wkSender w'"
  using assms
  by (auto simp: worker_read_def worker_send_def worker_write_def reader_end_def sender_end_def split: option.split list.split)

text \<open>A visitor that is closed while a datagram is on its way to the channel panics; a visitor can be closed twice.\<close>

lemma sudp_visitor_close_race:
  assumes "SUDPVisitor_Run None None = Inr v"
  shows "\<exists>v1 v2. sudp_datagram n data a v = Some v1 \<and> SUDPVisitor_Close v1 = Some v2 \<and> sudp_forward v2 = None \<and>
    SUDPVisitor_Close v2 = Some v2"
  using assms by (auto simp: SUDPVisitor_Run_def sudp_datagram_def SUDPVisitor_Close_def sudp_forward_def try_send_def close_chan_def make_chan_def)

end
