(* ===== verification/Client_Plugin.thy ===== *)
theory Client_Plugin
  imports Base64
begin

text \<open>
  Model of \<^verbatim>\<open>pkg/plugin/client\<close>: the plugins that handle the connections of a proxy on the client instead of a local
  service. Their creation from parameters, the queue that hands connections to an HTTP server, the HTTP proxy with its
  credentials, the static file server and the rewriting reverse proxies. Dialling, the HTTP library and reading certificates
  are inputs.
\<close>

section \<open>Creating plugins\<close>

text \<open>The three plugins that rewrite requests share their fields; two of them have certificates.\<close>

record reverse_plugin =
  rpCrtPath :: string
  rpKeyPath :: string
  rpHostHeaderRewrite :: string
  rpLocalAddr :: string
  rpHeaders :: "string smap"

datatype client_plugin =
    HTTPProxy string string
  | Socks5Plugin "(string \<times> string) option"
  | StaticFilePlugin string string string string
  | UnixDomainSocketPlugin string
  | HTTP2HTTPSPlugin reverse_plugin
  | HTTPS2HTTPPlugin reverse_plugin
  | HTTPS2HTTPSPlugin reverse_plugin

text \<open>An index into a Go map gives the empty string for a missing key.\<close>

definition param :: "string smap \<Rightarrow> string \<Rightarrow> string" where
  "param params k = (case params k of None \<Rightarrow> [] | Some v \<Rightarrow> v)"

text \<open>What the libraries say while a plugin is created.\<close>

record plugin_env =
  peSocks5 :: "string option"
  peUnixAddr :: "string \<Rightarrow> (string, string) result"
  peCert :: "string \<Rightarrow> string \<Rightarrow> string option"

definition NewHTTPProxyPlugin :: "string smap \<Rightarrow> client_plugin" where
  "NewHTTPProxyPlugin params = HTTPProxy (param params ''plugin_http_user'') (param params ''plugin_http_passwd'')"

definition NewSocks5Plugin :: "plugin_env \<Rightarrow> string smap \<Rightarrow> (string, client_plugin) result" where
  "NewSocks5Plugin env params =
     (let user = param params ''plugin_user''; passwd = param params ''plugin_passwd''
      in case peSocks5 env of
           Some e \<Rightarrow> Inl e
         | None \<Rightarrow> Inr (Socks5Plugin (if user \<noteq> [] \<or> passwd \<noteq> [] then Some (user, passwd) else None)))"

definition NewStaticFilePlugin :: "string smap \<Rightarrow> client_plugin" where
  "NewStaticFilePlugin params =
     StaticFilePlugin (param params ''plugin_local_path'') (param params ''plugin_strip_prefix'')
       (param params ''plugin_http_user'') (param params ''plugin_http_passwd'')"

definition NewUnixDomainSocketPlugin :: "plugin_env \<Rightarrow> string smap \<Rightarrow> (string, client_plugin) result" where
  "NewUnixDomainSocketPlugin env params =
     (case params ''plugin_unix_path'' of
        None \<Rightarrow> Inl ''plugin_unix_path not found''
      | Some path \<Rightarrow> map_sum id UnixDomainSocketPlugin (peUnixAddr env path))"

text \<open>The headers to set: the parameters with the prefix, under the rest of their name unless it is empty.\<close>

definition plugin_headers :: "string smap \<Rightarrow> string smap" where
  "plugin_headers params = (\<lambda>k. if k = [] then None else params (''plugin_header_'' @ k))"

definition reverse_params :: "bool \<Rightarrow> string smap \<Rightarrow> (string, reverse_plugin) result" where
  "reverse_params certs params =
     (if param params ''plugin_local_addr'' = [] then Inl ''plugin_local_addr is required''
      else Inr \<lparr>rpCrtPath = (if certs then param params ''plugin_crt_path'' else []),
                rpKeyPath = (if certs then param params ''plugin_key_path'' else []),
                rpHostHeaderRewrite = param params ''plugin_host_header_rewrite'',
                rpLocalAddr = param params ''plugin_local_addr'', rpHeaders = plugin_headers params\<rparr>)"

text \<open>A certificate is read when a path is given; otherwise it is generated, which does not give errors.\<close>

definition with_certificate :: "plugin_env \<Rightarrow> reverse_plugin \<Rightarrow> (string, reverse_plugin) result" where
  "with_certificate env p =
     (case (if rpCrtPath p \<noteq> [] \<or> rpKeyPath p \<noteq> [] then peCert env (rpCrtPath p) (rpKeyPath p) else None) of
        Some e \<Rightarrow> Inl (''gen TLS config error: '' @ e)
      | None \<Rightarrow> Inr p)"

definition NewHTTP2HTTPSPlugin :: "string smap \<Rightarrow> (string, client_plugin) result" where
  "NewHTTP2HTTPSPlugin params = map_sum id HTTP2HTTPSPlugin (reverse_params False params)"

definition NewHTTPS2HTTPPlugin :: "plugin_env \<Rightarrow> string smap \<Rightarrow> (string, client_plugin) result" where
  "NewHTTPS2HTTPPlugin env params =
     (case reverse_params True params of Inl e \<Rightarrow> Inl e | Inr p \<Rightarrow> map_sum id HTTPS2HTTPPlugin (with_certificate env p))"

definition NewHTTPS2HTTPSPlugin :: "plugin_env \<Rightarrow> string smap \<Rightarrow> (string, client_plugin) result" where
  "NewHTTPS2HTTPSPlugin env params =
     (case reverse_params True params of Inl e \<Rightarrow> Inl e | Inr p \<Rightarrow> map_sum id HTTPS2HTTPSPlugin (with_certificate env p))"

text \<open>The registry as the \<^verbatim>\<open>init\<close> functions fill it.\<close>

definition plugin_creators :: "plugin_env \<Rightarrow> string \<Rightarrow> (string smap \<Rightarrow> (string, client_plugin) result) option" where
  "plugin_creators env name =
     (if name = ''http_proxy'' then Some (Inr \<circ> NewHTTPProxyPlugin)
      else if name = ''socks5'' then Some (NewSocks5Plugin env)
      else if name = ''static_file'' then Some (Inr \<circ> NewStaticFilePlugin)
      else if name = ''unix_domain_socket'' then Some (NewUnixDomainSocketPlugin env)
      else if name = ''http2https'' then Some NewHTTP2HTTPSPlugin
      else if name = ''https2http'' then Some (NewHTTPS2HTTPPlugin env)
      else if name = ''https2https'' then Some (NewHTTPS2HTTPSPlugin env)
      else None)"

definition Plugin_Create :: "plugin_env \<Rightarrow> string \<Rightarrow> string smap \<Rightarrow> (string, client_plugin) result" where
  "Plugin_Create env name params =
     (case plugin_creators env name of
        None \<Rightarrow> Inl (''plugin ['' @ name @ ''] is not registered'')
      | Some fn \<Rightarrow> fn params)"

section \<open>The queue of a plugin\<close>

record 'c plugin_listener =
  plConns :: "'c list"
  plClosed :: bool

definition NewProxyListener :: "'c plugin_listener" where
  "NewProxyListener = \<lparr>plConns = [], plClosed = False\<rparr>"

text \<open>\<^verbatim>\<open>Accept\<close>: \<open>None\<close> waits.\<close>

definition ProxyListener_Accept :: "'c plugin_listener \<Rightarrow> ((string, 'c) result \<times> 'c plugin_listener) option" where
  "ProxyListener_Accept l =
     (case plConns l of
        c # cs \<Rightarrow> Some (Inr c, l\<lparr>plConns := cs\<rparr>)
      | [] \<Rightarrow> if plClosed l then Some (Inl ''listener closed'', l) else None)"

text \<open>\<^verbatim>\<open>PutConn\<close>: \<open>None\<close> waits for room among the 64 places; a closed queue is an error and the connection stays as it is.\<close>

definition ProxyListener_PutConn :: "'c \<Rightarrow> 'c plugin_listener \<Rightarrow> (string option \<times> 'c plugin_listener) option" where
  "ProxyListener_PutConn c l =
     (if plClosed l then Some (Some ''panic error: send on closed channel'', l)
      else if length (plConns l) < 64 then Some (None, l\<lparr>plConns := plConns l @ [c]\<rparr>) else None)"

definition ProxyListener_Close :: "'c plugin_listener \<Rightarrow> 'c plugin_listener" where
  "ProxyListener_Close l = (if \<not> plClosed l then l\<lparr>plClosed := True\<rparr> else l)"

section \<open>Headers\<close>

text \<open>\<^verbatim>\<open>http.Header\<close>: values under canonical names, the first letter of each part in upper case.\<close>

type_synonym http_header = "string \<rightharpoonup> string list"

definition upper_char :: "char \<Rightarrow> char" where
  "upper_char c = (if 97 \<le> byte c \<and> byte c \<le> 122 then char_of (byte c - 32) else c)"

fun canonical_key :: "bool \<Rightarrow> string \<Rightarrow> string" where
  "canonical_key up [] = []"
| "canonical_key up (c # cs) = (if up then upper_char c else lower_char c) # canonical_key (c = CHR ''-'') cs"

definition Header_Get :: "http_header \<Rightarrow> string \<Rightarrow> string" where
  "Header_Get h k = (case h (canonical_key True k) of Some (v # _) \<Rightarrow> v | _ \<Rightarrow> [])"

definition Header_Set :: "string \<Rightarrow> string \<Rightarrow> http_header \<Rightarrow> http_header" where
  "Header_Set k v h = h(canonical_key True k \<mapsto> [v])"

definition Header_Add :: "string \<Rightarrow> string \<Rightarrow> http_header \<Rightarrow> http_header" where
  "Header_Add k v h = h(canonical_key True k \<mapsto> (case h (canonical_key True k) of None \<Rightarrow> [v] | Some vs \<Rightarrow> vs @ [v]))"

definition Header_Del :: "string \<Rightarrow> http_header \<Rightarrow> http_header" where
  "Header_Del k h = h(canonical_key True k := None)"

text \<open>The keys of the source in the order of the iteration.\<close>

definition copyHeaders :: "http_header \<Rightarrow> (string \<times> string list) list \<Rightarrow> http_header" where
  "copyHeaders dst src = fold (\<lambda>(k, vs) h. fold (Header_Add k) vs h) src dst"

section \<open>The HTTP proxy\<close>

record proxy_request =
  prMethod :: string
  prURLScheme :: string
  prURLHost :: string
  prHost :: string
  prRequestURI :: string
  prHeader :: http_header

definition proxy_headers :: "string list" where
  "proxy_headers = [''Proxy-Connection'', ''Connection'', ''Proxy-Authenticate'', ''Proxy-Authorization'', ''TE'', ''Trailers'',
     ''Transfer-Encoding'', ''Upgrade'']"

definition removeProxyHeaders :: "proxy_request \<Rightarrow> proxy_request" where
  "removeProxyHeaders req = req\<lparr>prRequestURI := [], prHeader := fold Header_Del proxy_headers (prHeader req)\<rparr>"

text \<open>\<^verbatim>\<open>strings.SplitN(s, sep, 2)\<close>.\<close>

definition SplitN2 :: "string \<Rightarrow> char \<Rightarrow> string list" where
  "SplitN2 s sep = (case IndexByte s sep of None \<Rightarrow> [s] | Some i \<Rightarrow> [take i s, drop (i + 1) s])"

text \<open>The word before the credentials is not looked at.\<close>

definition HTTPProxy_Auth :: "string \<Rightarrow> string \<Rightarrow> proxy_request \<Rightarrow> bool" where
  "HTTPProxy_Auth authUser authPasswd req =
     (if authUser = [] \<and> authPasswd = [] then True
      else (case SplitN2 (Header_Get (prHeader req) ''Proxy-Authorization'') (CHR '' '') of
              [_, credentials] \<Rightarrow>
                (case DecodeString credentials of
                   None \<Rightarrow> False
                 | Some b \<Rightarrow> (case SplitN2 b (CHR '':'') of [user, passwd] \<Rightarrow> user = authUser \<and> passwd = authPasswd | _ \<Rightarrow> False))
            | _ \<Rightarrow> False))"

text \<open>The outcome for a request: the answer of the plugin itself with its headers, a tunnel to a host, or a request that is
  passed on together with the answer to it.\<close>

datatype hp_outcome =
    HpAnswer nat "(string \<times> string) list"
  | HpTunnel string
  | HpForward proxy_request "(nat \<times> http_header) option"

definition HTTPHandler :: "(proxy_request \<Rightarrow> (nat \<times> (string \<times> string list) list) option) \<Rightarrow> proxy_request \<Rightarrow> hp_outcome" where
  "HTTPHandler roundtrip req =
     (let req1 = removeProxyHeaders req
      in HpForward req1 (case roundtrip req1 of
           None \<Rightarrow> Some (500, Map.empty)
         | Some (status, h) \<Rightarrow> Some (status, copyHeaders Map.empty h)))"

text \<open>\<open>hijack\<close> and \<open>dial\<close> say whether taking over the connection and dialling work.\<close>

definition ConnectHandler :: "bool \<Rightarrow> (string \<Rightarrow> bool) \<Rightarrow> proxy_request \<Rightarrow> hp_outcome" where
  "ConnectHandler hijack dial req =
     (if \<not> hijack then HpAnswer 500 [] else if \<not> dial (prURLHost req) then HpAnswer 400 [] else HpTunnel (prURLHost req))"

definition HTTPProxy_ServeHTTP :: "bool \<Rightarrow> (string \<Rightarrow> bool) \<Rightarrow> (proxy_request \<Rightarrow> (nat \<times> (string \<times> string list) list) option) \<Rightarrow> string \<Rightarrow> string \<Rightarrow>
    proxy_request \<Rightarrow> hp_outcome" where
  "HTTPProxy_ServeHTTP hijack dial roundtrip authUser authPasswd req =
     (if \<not> HTTPProxy_Auth authUser authPasswd req then HpAnswer 407 [(''Proxy-Authenticate'', ''Basic'')]
      else if prMethod req = ''CONNECT'' then ConnectHandler hijack dial req
      else HTTPHandler roundtrip req)"

definition handleConnectReq :: "(string \<Rightarrow> bool) \<Rightarrow> string \<Rightarrow> string \<Rightarrow> proxy_request \<Rightarrow> hp_outcome" where
  "handleConnectReq dial authUser authPasswd req =
     (if \<not> HTTPProxy_Auth authUser authPasswd req then HpAnswer 407 [(''Proxy-Authenticate'', ''Basic''), (''Connection'', ''close'')]
      else if \<not> dial (prURLHost req) then HpAnswer 400 []
      else HpTunnel (prURLHost req))"

text \<open>A new connection: what the first read of seven bytes gives (\<open>None\<close> is an error), and the request that the library
  parses. Everything but CONNECT goes to the queue of the HTTP server.\<close>

datatype 'c hp_conn = HpClosed | HpRequest hp_outcome | HpQueued "(string option \<times> 'c plugin_listener) option"

definition HTTPProxy_Handle :: "(string \<Rightarrow> bool) \<Rightarrow> string \<Rightarrow> string \<Rightarrow> string option \<Rightarrow> proxy_request option \<Rightarrow> 'c \<Rightarrow> 'c plugin_listener \<Rightarrow> 'c hp_conn" where
  "HTTPProxy_Handle dial authUser authPasswd firstBytes request conn l =
     (case firstBytes of
        None \<Rightarrow> HpClosed
      | Some b \<Rightarrow>
          if map upper_char b = ''CONNECT'' then
            (case request of None \<Rightarrow> HpClosed | Some req \<Rightarrow> HpRequest (handleConnectReq dial authUser authPasswd req))
          else HpQueued (ProxyListener_PutConn conn l))"

section \<open>Static files and reverse proxies\<close>

definition static_prefix :: "string \<Rightarrow> string" where
  "static_prefix stripPrefix = (if stripPrefix \<noteq> [] then ''/'' @ stripPrefix @ ''/'' else ''/'')"

text \<open>The route of the static file server: the prefix, then the method, then the credentials; the file server sees the path
  without the prefix.\<close>

datatype static_outcome = StaticNotFound | StaticMethodNotAllowed | StaticUnauthorized | StaticFile string

definition static_serve :: "string \<Rightarrow> string \<Rightarrow> string \<Rightarrow> string \<Rightarrow> string \<Rightarrow> (string \<times> string) option \<Rightarrow> static_outcome" where
  "static_serve stripPrefix user passwd meth path auth =
     (if \<not> HasPrefix path (static_prefix stripPrefix) then StaticNotFound
      else if meth \<noteq> ''GET'' then StaticMethodNotAllowed
      else if \<not> (user = [] \<and> passwd = [] \<or> auth = Some (user, passwd)) then StaticUnauthorized
      else StaticFile (TrimPrefix path (static_prefix stripPrefix)))"

text \<open>The director of the reverse proxies, with the headers in the order of the iteration.\<close>

definition director :: "string \<Rightarrow> reverse_plugin \<Rightarrow> (string \<times> string) list \<Rightarrow> proxy_request \<Rightarrow> proxy_request" where
  "director scheme p headers req =
     (let r1 = req\<lparr>prURLScheme := scheme, prURLHost := rpLocalAddr p\<rparr>;
          r2 = (if rpHostHeaderRewrite p \<noteq> [] then r1\<lparr>prHost := rpHostHeaderRewrite p\<rparr> else r1)
      in r2\<lparr>prHeader := fold (\<lambda>(k, v). Header_Set k v) headers (prHeader r2)\<rparr>)"

definition plugin_director :: "client_plugin \<Rightarrow> (string \<times> string) list \<Rightarrow> proxy_request \<Rightarrow> proxy_request option" where
  "plugin_director pl headers req =
     (case pl of
        HTTP2HTTPSPlugin p \<Rightarrow> Some (director ''https'' p headers req)
      | HTTPS2HTTPPlugin p \<Rightarrow> Some (director ''http'' p headers req)
      | HTTPS2HTTPSPlugin p \<Rightarrow> Some (director ''https'' p headers req)
      | _ \<Rightarrow> None)"


section \<open>What holds\<close>

lemma IndexByte_split: "IndexByte s c = Some i \<Longrightarrow> s = take i s @ c # drop (i + 1) s \<and> c \<notin> set (take i s)"
proof (induction s arbitrary: i)
  case (Cons x s)
  show ?case
  proof (cases "x = c")
    case True
    with Cons.prems show ?thesis by simp
  next
    case False
    with Cons.prems obtain j where "IndexByte s c = Some j" "i = Suc j" by auto
    with Cons.IH [of j] False show ?thesis by simp
  qed
qed simp

lemma SplitN2_two: "SplitN2 s c = [a, b] \<longleftrightarrow> s = a @ c # b \<and> c \<notin> set a"
proof
  assume "SplitN2 s c = [a, b]"
  then show "s = a @ c # b \<and> c \<notin> set a" using IndexByte_split [of s c] by (auto simp: SplitN2_def split: option.splits)
next
  assume "s = a @ c # b \<and> c \<notin> set a"
  then show "SplitN2 s c = [a, b]" using IndexByte_append [of c a b] by (simp add: SplitN2_def)
qed

lemma SplitN2_cases: obtains a where "SplitN2 s c = [a]" "c \<notin> set s" | a b where "SplitN2 s c = [a, b]"
  by (cases "IndexByte s c") (auto simp: SplitN2_def IndexByte_None)

lemma HTTPProxy_Auth_iff:
  assumes "authUser \<noteq> [] \<or> authPasswd \<noteq> []"
  shows "HTTPProxy_Auth authUser authPasswd req \<longleftrightarrow> CHR '':'' \<notin> set authUser \<and>
    (\<exists>word cred. Header_Get (prHeader req) ''Proxy-Authorization'' = word @ CHR '' '' # cred \<and> CHR '' '' \<notin> set word \<and>
      DecodeString cred = Some (authUser @ CHR '':'' # authPasswd))"
proof -
  let ?h = "Header_Get (prHeader req) ''Proxy-Authorization''"
  show ?thesis
  proof (cases rule: SplitN2_cases [of ?h "CHR '' ''"])
    case (1 a)
    then show ?thesis using assms by (auto simp: HTTPProxy_Auth_def)
  next
    case (2 w cred)
    then have h: "?h = w @ CHR '' '' # cred" "CHR '' '' \<notin> set w" by (simp_all add: SplitN2_two)
    have uniq: "word = w \<and> c = cred" if "w @ CHR '' '' # cred = word @ CHR '' '' # c" "CHR '' '' \<notin> set word" for word c
      using 2 h that SplitN2_two [of ?h "CHR '' ''" word c] by simp
    show ?thesis
    proof (cases "DecodeString cred")
      case None
      with 2 h assms uniq show ?thesis by (auto simp: HTTPProxy_Auth_def)
    next
      case (Some b)
      have "HTTPProxy_Auth authUser authPasswd req \<longleftrightarrow> SplitN2 b (CHR '':'') = [authUser, authPasswd]"
        using 2 Some assms by (cases rule: SplitN2_cases [of b "CHR '':''"]) (auto simp: HTTPProxy_Auth_def)
      also have "\<dots> \<longleftrightarrow> b = authUser @ CHR '':'' # authPasswd \<and> CHR '':'' \<notin> set authUser" by (rule SplitN2_two)
      finally show ?thesis using Some h uniq by auto
    qed
  qed
qed

lemma fold_Header_Del: "fold Header_Del ks h k = (if k \<in> canonical_key True ` set ks then None else h k)"
  by (induction ks arbitrary: h) (auto simp: Header_Del_def)

lemma removeProxyHeaders_header:
  "prHeader (removeProxyHeaders req) k = (if k \<in> canonical_key True ` set proxy_headers then None else prHeader req k)"
  by (simp add: removeProxyHeaders_def fold_Header_Del)

text \<open>C28: an HTTP proxy with credentials serves only those who know them, by CONNECT and by ordinary requests.
  Whatever it does for a request beyond asking for credentials, the request carried the user and the password; a client that
  sends them in the usual form is admitted unless the user name contains a colon, and what is passed on to the outside has
  neither the credentials nor any other header meant for the proxy.\<close>

theorem http_proxy_admission:
  assumes "authUser \<noteq> [] \<or> authPasswd \<noteq> []"
  shows "(HTTPProxy_ServeHTTP hijack dial roundtrip authUser authPasswd req \<noteq> HpAnswer 407 [(''Proxy-Authenticate'', ''Basic'')] \<or>
      handleConnectReq dial authUser authPasswd req \<noteq> HpAnswer 407 [(''Proxy-Authenticate'', ''Basic''), (''Connection'', ''close'')] \<longrightarrow>
      (\<exists>word cred. Header_Get (prHeader req) ''Proxy-Authorization'' = word @ CHR '' '' # cred \<and>
        DecodeString cred = Some (authUser @ CHR '':'' # authPasswd))) \<and>
    (Header_Get (prHeader req) ''Proxy-Authorization'' = ''Basic '' @ EncodeToString (authUser @ CHR '':'' # authPasswd) \<longrightarrow>
      CHR '':'' \<notin> set authUser \<longrightarrow> dial (prURLHost req) \<longrightarrow>
      handleConnectReq dial authUser authPasswd req = HpTunnel (prURLHost req) \<and>
      HTTPProxy_ServeHTTP True dial roundtrip authUser authPasswd req =
        (if prMethod req = ''CONNECT'' then HpTunnel (prURLHost req) else HTTPHandler roundtrip req)) \<and>
    (\<forall>req' answer. HTTPProxy_ServeHTTP hijack dial roundtrip authUser authPasswd req = HpForward req' answer \<longrightarrow>
      (\<forall>k. prHeader req' k = (if k \<in> canonical_key True ` set proxy_headers then None else prHeader req k)))"
proof (intro conjI impI allI)
  assume "HTTPProxy_ServeHTTP hijack dial roundtrip authUser authPasswd req \<noteq> HpAnswer 407 [(''Proxy-Authenticate'', ''Basic'')] \<or>
      handleConnectReq dial authUser authPasswd req \<noteq> HpAnswer 407 [(''Proxy-Authenticate'', ''Basic''), (''Connection'', ''close'')]"
  then have "HTTPProxy_Auth authUser authPasswd req" by (auto simp: HTTPProxy_ServeHTTP_def handleConnectReq_def split: if_splits)
  then show "\<exists>word cred. Header_Get (prHeader req) ''Proxy-Authorization'' = word @ CHR '' '' # cred \<and>
      DecodeString cred = Some (authUser @ CHR '':'' # authPasswd)"
    using HTTPProxy_Auth_iff [OF assms] by blast
next
  assume h: "Header_Get (prHeader req) ''Proxy-Authorization'' = ''Basic '' @ EncodeToString (authUser @ CHR '':'' # authPasswd)"
    and u: "CHR '':'' \<notin> set authUser" and d: "dial (prURLHost req)"
  have "Header_Get (prHeader req) ''Proxy-Authorization'' = ''Basic'' @ CHR '' '' # EncodeToString (authUser @ CHR '':'' # authPasswd)"
    using h by simp
  moreover have "CHR '' '' \<notin> set ''Basic''" by simp
  ultimately have auth: "HTTPProxy_Auth authUser authPasswd req" using HTTPProxy_Auth_iff [OF assms] u Decode_Encode by blast
  with d show "handleConnectReq dial authUser authPasswd req = HpTunnel (prURLHost req)" by (simp add: handleConnectReq_def)
  from auth d show "HTTPProxy_ServeHTTP True dial roundtrip authUser authPasswd req =
      (if prMethod req = ''CONNECT'' then HpTunnel (prURLHost req) else HTTPHandler roundtrip req)"
    by (simp add: HTTPProxy_ServeHTTP_def ConnectHandler_def)
next
  fix req' answer k
  assume "HTTPProxy_ServeHTTP hijack dial roundtrip authUser authPasswd req = HpForward req' answer"
  then have "req' = removeProxyHeaders req"
    by (auto simp: HTTPProxy_ServeHTTP_def ConnectHandler_def HTTPHandler_def Let_def split: if_splits)
  then show "prHeader req' k = (if k \<in> canonical_key True ` set proxy_headers then None else prHeader req k)"
    by (simp only: removeProxyHeaders_header)
qed

definition example_proxy_request :: proxy_request where
  "example_proxy_request =
     \<lparr>prMethod = ''GET'', prURLScheme = ''http'', prURLHost = ''example.org:80'', prHost = ''example.org'',
      prRequestURI = ''http://example.org/'',
      prHeader = [''Proxy-Authorization'' \<mapsto> [''Basic '' @ EncodeToString ''bob:pw''], ''Accept'' \<mapsto> [''*/*'']]\<rparr>"

theorem http_proxy_admission_witness:
  "\<exists>req'. HTTPProxy_ServeHTTP True (\<lambda>_. True) (\<lambda>_. None) ''bob'' ''pw'' example_proxy_request = HpForward req' (Some (500, Map.empty)) \<and>
     prHeader req' ''Proxy-Authorization'' = None \<and> prHeader req' ''Accept'' = Some [''*/*'']"
proof -
  have key: "canonical_key True ''Proxy-Authorization'' = ''Proxy-Authorization''" "canonical_key True ''Accept'' = ''Accept''"
    by (simp_all add: upper_char_def lower_char_def)
  have hdr: "Header_Get (prHeader example_proxy_request) ''Proxy-Authorization'' = ''Basic '' @ EncodeToString (''bob'' @ CHR '':'' # ''pw'')"
    unfolding Header_Get_def key by (simp add: example_proxy_request_def)
  have keys: "''Proxy-Authorization'' \<in> canonical_key True ` set proxy_headers" "''Accept'' \<notin> canonical_key True ` set proxy_headers"
    by (simp_all add: proxy_headers_def upper_char_def lower_char_def)
  have u: "''bob'' \<noteq> [] \<or> ''pw'' \<noteq> []" "CHR '':'' \<notin> set ''bob''" by simp_all
  note adm = http_proxy_admission [OF u(1), of True "\<lambda>_. True" "\<lambda>_. None" example_proxy_request]
  from adm hdr u(2) have s: "HTTPProxy_ServeHTTP True (\<lambda>_. True) (\<lambda>_. None) ''bob'' ''pw'' example_proxy_request =
      HTTPHandler (\<lambda>_. None) example_proxy_request" by (simp add: example_proxy_request_def)
  have f: "HTTPHandler (\<lambda>_. None) example_proxy_request =
      HpForward (removeProxyHeaders example_proxy_request) (Some (500, Map.empty))" by (simp add: HTTPHandler_def)
  from s f removeProxyHeaders_header [of example_proxy_request] keys show ?thesis by (simp add: example_proxy_request_def)
qed

text \<open>A user name with a colon locks everyone out.\<close>

lemma colon_user_locked_out: "CHR '':'' \<in> set authUser \<Longrightarrow> \<not> HTTPProxy_Auth authUser authPasswd req"
  using HTTPProxy_Auth_iff [of authUser authPasswd req] by (cases authUser) auto

text \<open>The static file server gives out files below its prefix only, and with credentials only to those who know them.\<close>

lemma static_serve_file:
  assumes "static_serve stripPrefix user passwd meth path auth = StaticFile f"
  shows "path = static_prefix stripPrefix @ f \<and> meth = ''GET'' \<and> (user \<noteq> [] \<or> passwd \<noteq> [] \<longrightarrow> auth = Some (user, passwd))"
  using assms by (auto simp: static_serve_def TrimPrefix_def HasPrefix_def split: if_splits) (metis append_take_drop_id)+

text \<open>The reverse proxies send every request to the configured address with the configured headers.\<close>

lemma fold_Header_Set:
  assumes "distinct (map (canonical_key True \<circ> fst) hs)" "(k, v) \<in> set hs"
  shows "fold (\<lambda>(k, v). Header_Set k v) hs h (canonical_key True k) = Some [v]"
proof -
  have keep: "fold (\<lambda>(k, v). Header_Set k v) hs h q = h q" if "q \<notin> (canonical_key True \<circ> fst) ` set hs" for hs h q
    using that by (induction hs arbitrary: h) (auto simp: Header_Set_def)
  show ?thesis using assms
  proof (induction hs arbitrary: h)
    case (Cons p hs)
    show ?case
    proof (cases "p = (k, v)")
      case True
      with Cons.prems(1) have "canonical_key True k \<notin> (canonical_key True \<circ> fst) ` set hs" by auto
      from keep [OF this, of "Header_Set k v h"] True
      have "fold (\<lambda>(k, v). Header_Set k v) (p # hs) h (canonical_key True k) = Header_Set k v h (canonical_key True k)" by simp
      also have "\<dots> = Some [v]" by (simp add: Header_Set_def)
      finally show ?thesis .
    next
      case False
      with Cons show ?thesis by simp
    qed
  qed simp
qed

lemma director_target:
  "prURLScheme (director scheme p hs req) = scheme \<and> prURLHost (director scheme p hs req) = rpLocalAddr p \<and>
   prHost (director scheme p hs req) = (if rpHostHeaderRewrite p \<noteq> [] then rpHostHeaderRewrite p else prHost req)"
  by (simp add: director_def Let_def)

lemma created_reverse_plugin:
  "reverse_params certs params = Inr p \<Longrightarrow> rpLocalAddr p \<noteq> [] \<and> rpHeaders p = plugin_headers params"
  by (auto simp: reverse_params_def split: if_splits)

end
