(* ===== verification/Local_Proxy.thy ===== *)
theory Local_Proxy
  imports Client_Plugin Work_Stream Proxy_Factory Server_Control
begin

text \<open>
  Model of \<^verbatim>\<open>client/proxy/proxy.go\<close> and \<^verbatim>\<open>general_tcp.go\<close>: the proxy of a client and what it does with a work connection:
  the stream around it, the header of the PROXY protocol, and the plugin or the local service it is joined with. What
  becomes of the connection is followed to the end, errors included. Resolving addresses, rendering the header, dialling and
  writing are inputs.
\<close>

section \<open>The proxy\<close>

record base_proxy =
  bpConf :: ProxyConf
  bpLimiter :: "nat option"
  bpToken :: string
  bpPlugin :: "client_plugin option"
  bpPluginClosed :: bool

definition client_limiter :: "ProxyConf \<Rightarrow> nat option" where
  "client_limiter conf =
     (let b = GetBaseConfig conf
      in if qi (bBandwidthLimit b) > 0 \<and> bBandwidthLimitMode b = ''client'' then Some (nat (qi (bBandwidthLimit b))) else None)"

text \<open>The kinds of proxies that the factories make.\<close>

datatype local_proxy = GeneralTCPProxy base_proxy | ClientUDPProxy base_proxy | ClientSUDPProxy base_proxy | ClientXTCPProxy base_proxy

definition NewProxy_client :: "string \<Rightarrow> ProxyConf \<Rightarrow> local_proxy" where
  "NewProxy_client token conf =
     (let b = \<lparr>bpConf = conf, bpLimiter = client_limiter conf, bpToken = token, bpPlugin = None, bpPluginClosed = False\<rparr>
      in case conf of
           UDPConf _ \<Rightarrow> ClientUDPProxy b
         | SUDPConf _ \<Rightarrow> ClientSUDPProxy b
         | XTCPConf _ \<Rightarrow> ClientXTCPProxy b
         | _ \<Rightarrow> GeneralTCPProxy b)"

definition local_conf :: "base_proxy \<Rightarrow> LocalSvrConf" where
  "local_conf p = bLocalSvrConf (GetBaseConfig (bpConf p))"

definition BaseProxy_Run :: "plugin_env \<Rightarrow> base_proxy \<Rightarrow> (string, base_proxy) result" where
  "BaseProxy_Run env p =
     (if LPlugin (local_conf p) \<noteq> [] then
        (case Plugin_Create env (LPlugin (local_conf p)) (map_of (PluginParams (local_conf p))) of
           Inl e \<Rightarrow> Inl e
         | Inr pl \<Rightarrow> Inr (p\<lparr>bpPlugin := Some pl\<rparr>))
      else Inr p)"

definition BaseProxy_Close :: "base_proxy \<Rightarrow> base_proxy" where
  "BaseProxy_Close p = (if bpPlugin p \<noteq> None then p\<lparr>bpPluginClosed := True\<rparr> else p)"

section \<open>The header of the PROXY protocol\<close>

datatype pp_transport = PPv4 | PPv6

record 'a pp_header =
  ppVersion :: nat
  ppTransport :: pp_transport
  ppSource :: "'a option"
  ppDestination :: "'a option"

definition pp_header_of :: "(string \<Rightarrow> 'a option) \<Rightarrow> string \<Rightarrow> StartWorkConn \<Rightarrow> 'a pp_header option" where
  "pp_header_of resolve version m =
     (if version = [] \<or> swSrcAddr m = [] \<or> swSrcPort m = 0 then None
      else (let dst = (if swDstAddr m = [] then ''127.0.0.1'' else swDstAddr m)
            in Some \<lparr>ppVersion = (if version = ''v1'' then 1 else if version = ''v2'' then 2 else 0),
                     ppTransport = (if CHR ''.'' \<in> set (swSrcAddr m) then PPv4 else PPv6),
                     ppSource = resolve (JoinHostPort (swSrcAddr m) (Itoa (uint (swSrcPort m)))),
                     ppDestination = resolve (JoinHostPort dst (Itoa (uint (swDstPort m))))\<rparr>))"

section \<open>A work connection\<close>

text \<open>What becomes of the work connection: closed; joined with a local connection that has got some bytes first; served by a
  plugin and closed when that is over; in the queue of a plugin, or waiting for room there; left open with nobody to use it.\<close>

datatype 'c fate = Closed | Joined "'c stream" string | Served "'c stream" | Queued "'c stream" | Waiting | LeftOpen

record 'a local_env =
  leResolve :: "string \<Rightarrow> 'a option"
  leHeader :: "'a pp_header \<Rightarrow> string"
  leDial :: "string \<Rightarrow> bool"
  leDialUnix :: "string \<Rightarrow> bool"
  leWrite :: "string \<Rightarrow> bool"
  leRemote :: "string \<Rightarrow> bool"
  leFirstBytes :: "string option"
  leRequest :: "proxy_request option"

definition queue_fate :: "'c stream \<Rightarrow> (string option \<times> 'd) option \<Rightarrow> 'c fate" where
  "queue_fate s r = (case r of None \<Rightarrow> Waiting | Some (None, _) \<Rightarrow> Queued s | Some (Some e, _) \<Rightarrow> LeftOpen)"

text \<open>\<open>queue\<close> is the queue of the plugin. Errors of the Unix socket and of the queue are dropped.\<close>

definition Plugin_Handle :: "'a local_env \<Rightarrow> client_plugin \<Rightarrow> 'c stream \<Rightarrow> 'c stream plugin_listener \<Rightarrow> string \<Rightarrow> 'c fate" where
  "Plugin_Handle env pl s queue extraInfo =
     (case pl of
        UnixDomainSocketPlugin path \<Rightarrow>
          if \<not> leDialUnix env path then LeftOpen
          else if extraInfo \<noteq> [] \<and> \<not> leWrite env extraInfo then LeftOpen
          else Joined s extraInfo
      | Socks5Plugin _ \<Rightarrow> Served s
      | HTTPProxy user passwd \<Rightarrow>
          (case HTTPProxy_Handle (leRemote env) user passwd (leFirstBytes env) (leRequest env) s queue of
             HpClosed \<Rightarrow> Closed
           | HpRequest _ \<Rightarrow> Served s
           | HpQueued r \<Rightarrow> queue_fate s r)
      | _ \<Rightarrow> queue_fate s (ProxyListener_PutConn s queue))"

text \<open>The flag says whether a connection to the local service is left open.\<close>

definition HandleTCPWorkConnection :: "'a local_env \<Rightarrow> (string \<Rightarrow> 'e option) \<Rightarrow> 'c stream plugin_listener \<Rightarrow> string \<Rightarrow> 'c \<Rightarrow> StartWorkConn \<Rightarrow>
    base_proxy \<Rightarrow> 'c fate \<times> bool" where
  "HandleTCPWorkConnection env encrypt queue encKey workConn m p =
     (let b = GetBaseConfig (bpConf p)
      in case client_stream encrypt (bpLimiter p) \<lparr>sfEncryption = bUseEncryption b, sfCompression = bUseCompression b\<rparr> encKey workConn of
           Inl _ \<Rightarrow> (Closed, False)
         | Inr remote \<Rightarrow>
             (let extraInfo = (case pp_header_of (leResolve env) (bProxyProtocolVersion b) m of None \<Rightarrow> [] | Some h \<Rightarrow> leHeader env h)
              in case bpPlugin p of
                   Some pl \<Rightarrow> (Plugin_Handle env pl remote queue extraInfo, False)
                 | None \<Rightarrow>
                     if \<not> leDial env (JoinHostPort (LocalIP (local_conf p)) (Itoa (LocalPort (local_conf p)))) then (Closed, False)
                     else if extraInfo \<noteq> [] \<and> \<not> leWrite env extraInfo then (Closed, True)
                     else (Joined remote extraInfo, False)))"

definition InWorkConn :: "'a local_env \<Rightarrow> (string \<Rightarrow> 'e option) \<Rightarrow> 'c stream plugin_listener \<Rightarrow> 'c \<Rightarrow> StartWorkConn \<Rightarrow> base_proxy \<Rightarrow> 'c fate \<times> bool" where
  "InWorkConn env encrypt queue conn m p = HandleTCPWorkConnection env encrypt queue (bpToken p) conn m p"


section \<open>What becomes of a work connection\<close>

text \<open>A work connection is left open, with nobody to use or close it, exactly when the Unix socket of the plugin cannot be
  dialled or written to, or when the queue of a plugin is closed already.\<close>

definition uses_queue :: "'a local_env \<Rightarrow> client_plugin \<Rightarrow> bool" where
  "uses_queue env pl =
     (case pl of
        UnixDomainSocketPlugin _ \<Rightarrow> False
      | Socks5Plugin _ \<Rightarrow> False
      | HTTPProxy _ _ \<Rightarrow> (case leFirstBytes env of None \<Rightarrow> False | Some b \<Rightarrow> map upper_char b \<noteq> ''CONNECT'')
      | _ \<Rightarrow> True)"

lemma queue_fate_LeftOpen: "queue_fate s (ProxyListener_PutConn c queue) = LeftOpen \<longleftrightarrow> plClosed queue"
  by (auto simp: queue_fate_def ProxyListener_PutConn_def)

lemma Plugin_Handle_LeftOpen:
  "Plugin_Handle env pl s queue extra = LeftOpen \<longleftrightarrow>
    (\<exists>path. pl = UnixDomainSocketPlugin path \<and> (\<not> leDialUnix env path \<or> extra \<noteq> [] \<and> \<not> leWrite env extra)) \<or>
    uses_queue env pl \<and> plClosed queue"
  by (cases pl) (auto simp: Plugin_Handle_def uses_queue_def queue_fate_LeftOpen HTTPProxy_Handle_def split: option.splits)

lemma work_conn_left_open:
  assumes "fst (InWorkConn env encrypt queue conn m p) = LeftOpen"
  shows "\<exists>pl extra. bpPlugin p = Some pl \<and>
      ((\<exists>path. pl = UnixDomainSocketPlugin path \<and> (\<not> leDialUnix env path \<or> extra \<noteq> [] \<and> \<not> leWrite env extra)) \<or>
       uses_queue env pl \<and> plClosed queue)"
proof (cases "bpPlugin p")
  case None
  with assms show ?thesis by (auto simp: InWorkConn_def HandleTCPWorkConnection_def Let_def split: sum.splits if_splits)
next
  case (Some pl)
  with assms obtain s extra where "Plugin_Handle env pl s queue extra = LeftOpen"
    by (simp add: InWorkConn_def HandleTCPWorkConnection_def Let_def split: sum.splits)
  with Some show ?thesis unfolding Plugin_Handle_LeftOpen by blast
qed

text \<open>A connection to the local service is left open exactly when the header cannot be written to it.\<close>

lemma local_conn_left_open:
  assumes "snd (InWorkConn env encrypt queue conn m p)"
  shows "bpPlugin p = None \<and> fst (InWorkConn env encrypt queue conn m p) = Closed \<and>
    bProxyProtocolVersion (GetBaseConfig (bpConf p)) \<noteq> []"
proof -
  let ?v = "bProxyProtocolVersion (GetBaseConfig (bpConf p))"
  have none: "pp_header_of (leResolve env) [] m = None" by (simp add: pp_header_of_def)
  from assms have pl: "bpPlugin p = None"
    by (cases "bpPlugin p") (simp_all add: InWorkConn_def HandleTCPWorkConnection_def Let_def split: sum.splits)
  with assms none have "fst (InWorkConn env encrypt queue conn m p) = Closed" "?v \<noteq> []"
    by (auto simp: InWorkConn_def HandleTCPWorkConnection_def Let_def split: sum.splits if_splits)
  with pl show ?thesis by blast
qed

section \<open>From the user to the local service\<close>

lemma server_view_flags:
  "bUseEncryption (GetBaseConfig (server_view cfg)) = bUseEncryption (GetBaseConfig cfg)"
  "bUseCompression (GetBaseConfig (server_view cfg)) = bUseCompression (GetBaseConfig cfg)"
  by (cases cfg; simp add: base_view_def role_view_def BaseProxyConf.defs)+

lemma one_limiter: "client_limiter cfg = None \<or> proxy_limiter cfg = None"
  by (simp add: client_limiter_def proxy_limiter_def Let_def)

definition stream_flags_of :: "ProxyConf \<Rightarrow> stream_flags" where
  "stream_flags_of conf = \<lparr>sfEncryption = bUseEncryption (GetBaseConfig conf), sfCompression = bUseCompression (GetBaseConfig conf)\<rparr>"

lemma start_work_conn_addr:
  assumes "plain_addr_part h" "0 \<le> port" "port \<le> 65535"
  shows "swSrcAddr (start_work_conn n (Some (JoinHostPort h (Itoa port))) dst) = h"
    "uint (swSrcPort (start_work_conn n (Some (JoinHostPort h (Itoa port))) dst)) = port"
proof -
  have "plain_addr_part (Itoa port)" "CHR '':'' \<notin> set (Itoa port)"
    using assms by (simp_all add: plain_addr_part_def Itoa_def nat_digits_no_char)
  from SplitHostPort_JoinHostPort [OF assms(1) this] have "addr_parts (Some (JoinHostPort h (Itoa port))) = (h, of_int port)"
    using ParseInt_Itoa [of port] assms(2,3) by (simp add: addr_parts_def max_int64_def)
  then show "swSrcAddr (start_work_conn n (Some (JoinHostPort h (Itoa port))) dst) = h"
    "uint (swSrcPort (start_work_conn n (Some (JoinHostPort h (Itoa port))) dst)) = port"
    using assms(2,3) by (simp_all add: start_work_conn_def uint_word_of_int_eq take_bit_int_eq_self)
qed

text \<open>C26: a user's connection reaches the local service. For a proxy that the client read from its file and the
  server built from the client's message, both with the same token: when the server hands a user's connection to a work
  connection and the client joins that with its local service, the bytes arrive unchanged in both directions whatever the
  proxy's encryption, compression and limit, at most one end limits them, and with the PROXY protocol the local service first gets a header with
  the address and port of the user.\<close>

theorem user_reaches_local_service:
  assumes "NewProxyConfFromIni flt pre name sec = Inr cfg" "ini_maps sec"
    "NewProxyConfFromMsg flt (MarshalToMsg cfg empty_NewProxy) srv = Inr conf" "stream_lib_ok lib"
    "bpConf p = cfg" "bpLimiter p = client_limiter cfg" "bpPlugin p = None" "bpToken p = token"
    "server_stream encrypt' (map_option nat (proxy_limiter conf)) (stream_flags_of conf) token workConn' = Inr t"
    "InWorkConn env encrypt queue workConn (start_work_conn (pre @ name) (Some (JoinHostPort h (Itoa port))) dst) p = (Joined s extra, left)"
    "plain_addr_part h" "h \<noteq> []" "0 < port" "port \<le> 65535"
  shows "(\<forall>d. stream_read lib t (stream_write lib s d) = d \<and> stream_read lib s (stream_write lib t d) = d) \<and>
    (client_limiter cfg = None \<or> proxy_limiter conf = None) \<and>
    (if bProxyProtocolVersion (GetBaseConfig cfg) = [] then extra = []
     else \<exists>hdr. extra = leHeader env hdr \<and> ppSource hdr = leResolve env (JoinHostPort h (Itoa port)))"
proof -
  let ?m = "start_work_conn (pre @ name) (Some (JoinHostPort h (Itoa port))) dst"
  from NewProxyConfFromMsg_marshal [OF NewProxyConfFromIni_Inr(1) [OF assms(1,2)], of srv] assms(3)
  have conf: "conf = server_view cfg" by (auto split: option.splits)
  then have flags: "stream_flags_of conf = stream_flags_of cfg" by (simp add: stream_flags_of_def server_view_flags)
  from assms(10) obtain r where r: "client_stream encrypt (bpLimiter p) (stream_flags_of cfg) token workConn = Inr r"
    by (cases "client_stream encrypt (bpLimiter p) (stream_flags_of cfg) token workConn")
      (auto simp: InWorkConn_def HandleTCPWorkConnection_def Let_def assms(5,8) stream_flags_of_def)
  with assms(10) have s: "s = r" "extra = (case pp_header_of (leResolve env) (bProxyProtocolVersion (GetBaseConfig cfg)) ?m of
      None \<Rightarrow> [] | Some hh \<Rightarrow> leHeader env hh)"
    by (auto simp: InWorkConn_def HandleTCPWorkConnection_def Let_def assms(5,7,8) stream_flags_of_def split: if_splits)
  have data: "stream_read lib t (stream_write lib s d) = d \<and> stream_read lib s (stream_write lib t d) = d" for d
    using streams_agree [OF assms(4) r assms(9) [unfolded flags], of d] s(1) by blast
  have src: "swSrcAddr ?m = h" "uint (swSrcPort ?m) = port" by (rule start_work_conn_addr; use assms in simp)+
  then have "swSrcPort ?m \<noteq> 0" using assms(13) by (metis less_irrefl uint_0_eq)
  with s(2) src assms(12) have hdr: "if bProxyProtocolVersion (GetBaseConfig cfg) = [] then extra = []
      else \<exists>hdr. extra = leHeader env hdr \<and> ppSource hdr = leResolve env (JoinHostPort h (Itoa port))"
    by (cases "bProxyProtocolVersion (GetBaseConfig cfg) = []") (auto simp: pp_header_of_def Let_def intro!: exI)
  from data hdr one_limiter [of cfg] show ?thesis by (simp add: conf)
qed


lemma streams_without_error:
  "\<exists>s. client_stream (\<lambda>_. None) limiter fl key c = Inr s" "\<exists>t. server_stream (\<lambda>_. None) limiter fl key c = Inr t"
  by (simp_all add: client_stream_def server_stream_def crypt_layers_def Let_def)

definition example_local_env :: "string local_env" where
  "example_local_env =
     \<lparr>leResolve = Some, leHeader = (\<lambda>h. case ppSource h of None \<Rightarrow> [] | Some a \<Rightarrow> ''PROXY '' @ a), leDial = (\<lambda>a. True),
      leDialUnix = (\<lambda>a. True), leWrite = (\<lambda>b. True), leRemote = (\<lambda>a. True), leFirstBytes = None, leRequest = None\<rparr>"

theorem user_reaches_local_service_witness:
  "\<exists>cfg p s t extra. NewProxyConfFromIni no_float ''alice.'' ''ssh'' example_section = Inr cfg \<and> bpConf p = cfg \<and>
     InWorkConn example_local_env (\<lambda>_. None :: string option) NewProxyListener (1::nat)
       (start_work_conn ''alice.ssh'' (Some (JoinHostPort ''192.0.2.7'' (Itoa 4000))) None) p = (Joined s extra, False) \<and>
     stream_read example_stream_lib (t :: nat stream) (stream_write example_stream_lib s ''abc'') = ''abc''"
proof -
  obtain c where c: "NewProxyConfFromIni no_float ''alice.'' ''ssh'' example_section = Inr (TCPConf c)"
    "bBandwidthLimitMode c = ''client''" using example_section_conf by blast
  let ?cfg = "TCPConf c"
  let ?p = "\<lparr>bpConf = ?cfg, bpLimiter = client_limiter ?cfg, bpToken = ''token'', bpPlugin = None, bpPluginClosed = False\<rparr>"
  let ?m = "start_work_conn (''alice.'' @ ''ssh'') (Some (JoinHostPort ''192.0.2.7'' (Itoa 4000))) None"
  have "ValidateForServer example_srv (server_view ?cfg) = None" using c(2) by (simp add: Base_validateForServer_def base_view_def)
  with NewProxyConfFromMsg_marshal [OF NewProxyConfFromIni_Inr(1) [OF c(1) example_section_maps], of example_srv]
  have conf: "NewProxyConfFromMsg no_float (MarshalToMsg ?cfg empty_NewProxy) example_srv = Inr (server_view ?cfg)" by simp
  obtain t :: "nat stream" where t: "server_stream (\<lambda>_. None :: string option) (map_option nat (proxy_limiter (server_view ?cfg)))
      (stream_flags_of (server_view ?cfg)) ''token'' 2 = Inr t"
    using streams_without_error(2) [where limiter = "map_option nat (proxy_limiter (server_view ?cfg))" and fl = "stream_flags_of (server_view ?cfg)" and key = "''token''" and c = "2::nat"] by auto
  obtain s :: "nat stream" where s: "client_stream (\<lambda>_. None :: string option) (client_limiter ?cfg)
      \<lparr>sfEncryption = bUseEncryption (GetBaseConfig ?cfg), sfCompression = bUseCompression (GetBaseConfig ?cfg)\<rparr> ''token'' 1 = Inr s"
    using streams_without_error(1) [where limiter = "client_limiter ?cfg" and key = "''token''" and c = "1::nat"
      and fl = "\<lparr>sfEncryption = bUseEncryption (GetBaseConfig ?cfg), sfCompression = bUseCompression (GetBaseConfig ?cfg)\<rparr>"] by auto
  obtain extra where w: "InWorkConn example_local_env (\<lambda>_. None :: string option) NewProxyListener 1 ?m ?p = (Joined s extra, False)"
    using s by (simp add: InWorkConn_def HandleTCPWorkConnection_def example_local_env_def Let_def)
  have lib: "stream_lib_ok example_stream_lib" by (simp add: stream_lib_ok_def example_stream_lib_def)
  from user_reaches_local_service [OF c(1) example_section_maps conf lib _ _ _ _ t w]
  have "stream_read example_stream_lib t (stream_write example_stream_lib s ''abc'') = ''abc''"
    by (simp add: plain_addr_part_def)
  with c(1) w show ?thesis by (intro exI [of _ ?cfg] exI [of _ ?p] exI [of _ s] exI [of _ t] exI [of _ extra]) simp
qed

end
