(* ===== verification/Spec2Isabelle.thy ===== *)
theory Spec2Isabelle
  imports Dashboard Client_Command Hole_Punch SUDP_Visitor Local_Proxy
begin

text \<open>
  \<^bold>\<open>Verification of the frp reverse proxy (ME-Frp core).\<close>

  frp publishes services behind a NAT through a server with a public address. A client
  (\<^verbatim>\<open>frpc\<close>) logs in on a control connection, registers proxies and is asked by the server
  (\<^verbatim>\<open>frps\<close>) for work connections over which user traffic is copied. On the server a control
  (\<^verbatim>\<open>server/control.go\<close>) registers each proxy by name with the proxy manager; starting a proxy
  takes resources that all clients share: ports of the port manager, routes of the virtual host
  tables, groups of load balanced proxies, listeners for visitors, sessions for hole punching.
  Plugins may veto each operation and metrics count it. On the client a proxy manager keeps one wrapper
  per proxy, which registers it, watches the health of the local service and retries.

  \<^bold>\<open>Theories and the code they model.\<close> Each definition carries the name of the Go function or type it
  translates, prefixed by the receiver type where names clash.

  \<^item> \<open>Frp_Prelude\<close>, \<open>Go_Std\<close>: shared lemmas on lists, association lists and maps, 64-bit signed
    arithmetic (\<open>wrap64\<close>, \<open>quot\<close>), and the functions of the Go library the sources use
    (\<^verbatim>\<open>strings\<close>, \<^verbatim>\<open>strconv\<close>, \<^verbatim>\<open>net.SplitHostPort\<close>, \<^verbatim>\<open>sort\<close>).
  \<^item> \<open>Util\<close>: \<^verbatim>\<open>pkg/util/util\<close> and \<^verbatim>\<open>pkg/util/version\<close>. Port range expressions round trip; the loop of
    the parser is a \<open>partial_function\<close> on options, so that its divergence on the largest integer is a
    theorem.
  \<^item> \<open>Ports\<close>: \<^verbatim>\<open>server/ports/ports.go\<close>. The contexts that free, used and reserved tables share by pointer
    are an explicit heap (\<open>ctxs\<close>). The invariant \<open>pm_inv\<close> is preserved by every step of \<open>port_reach\<close>.
    The locale \<open>port_alloc\<close> states what clients need of an allocator (interpreted as \<open>pmgr\<close>).
  \<^item> \<open>Vhost_Router\<close>, \<open>Vhost\<close>: \<^verbatim>\<open>pkg/util/vhost\<close>. The two level index refines a map
    (locale \<open>route_table\<close>, interpreted as \<open>routers\<close>); lookups are longest prefix matches; wildcard
    resolution, the muxer's listeners, authentication and routing of HTTP requests.
  \<^item> \<open>TCP_Group\<close>, \<open>HTTP_Group\<close>: \<^verbatim>\<open>server/group\<close>. Groups and listeners are heaps of records, since the
    controller's table and the listeners share them by pointer. Registration in two critical sections
    (lookup and join) is modelled as two operations, so that interleavings can be stated.
  \<^item> \<open>Nathole\<close>, \<open>Nathole_Controller\<close>: \<^verbatim>\<open>pkg/nathole\<close> classification, analysis and controller. A session
    is created by \<open>HandleVisitor\<close>, answered by \<open>HandleClient\<close>, decided by \<open>HandleVisitor_decide\<close> after
    the notification and removed by \<open>HandleVisitor_end\<close>.
  \<^item> \<open>Hole_Punch\<close>: the client's side, \<^verbatim>\<open>pkg/nathole/nathole.go\<close>, \<^verbatim>\<open>discovery.go\<close> and the flows of XTCP proxies and visitors. What the
    server decides makes the two ends find each other.
  \<^item> \<open>Base64\<close>, \<open>UDP_Forward\<close>: \<^verbatim>\<open>pkg/proto/udp\<close> and the encoding of its packets. The sessions of the client's UDP
    forwarder as the steps of \<open>fw_step\<close>; its users are kept apart.
  \<^item> \<open>Work_Stream\<close>, \<open>UDP_Tunnel\<close>, \<open>SUDP_Visitor\<close>: the streams around a work connection (\<^verbatim>\<open>client/proxy/proxy.go\<close>,
    \<^verbatim>\<open>server/proxy/proxy.go\<close>, \<^verbatim>\<open>pkg/util/limit\<close>) and the goroutines of UDP tunnels on both sides
    (\<^verbatim>\<open>server/proxy/udp.go\<close>, \<^verbatim>\<open>client/proxy/udp.go\<close>, \<^verbatim>\<open>client/proxy/sudp.go\<close>, \<^verbatim>\<open>client/visitor/sudp.go\<close>). The two ends
    understand each other; what closing reaches and where it panics.
  \<^item> \<open>Client_Plugin\<close>, \<open>Local_Proxy\<close>: \<^verbatim>\<open>pkg/plugin/client\<close> and \<^verbatim>\<open>client/proxy/proxy.go\<close>. A work connection from its arrival
    to the local service or a plugin, and what becomes of it; a user's bytes and address reach the local service.
  \<^item> \<open>Metrics\<close>: \<^verbatim>\<open>pkg/util/metric\<close>, \<^verbatim>\<open>pkg/metrics/mem\<close>. Counters are 32 and 64 bit words. The locale
    \<open>regular_clock\<close> is the assumption that a day has 24 hours (interpreted for UTC as \<open>utc\<close>).
  \<^item> \<open>Dashboard\<close>: \<^verbatim>\<open>server/dashboard_api.go\<close>. The answers over statistics and proxies, and what they disclose.
  \<^item> \<open>Plugin_Manager\<close>: \<^verbatim>\<open>pkg/plugin/server\<close>. \<open>Visitor_Manager\<close>: \<^verbatim>\<open>server/visitor\<close> and the in-memory
    listener of \<^verbatim>\<open>pkg/util/net/listener.go\<close>.
  \<^item> \<open>Server_Control\<close>, \<open>Server_System\<close>: \<^verbatim>\<open>server/control.go\<close> and \<^verbatim>\<open>server/proxy/proxy.go\<close>. The Go
    interface \<^verbatim>\<open>Proxy\<close> is the record \<open>proxy_ops\<close>; the locale \<open>server_proxy\<close> (\<open>Server_System\<close>) states what a
    proxy type must promise and proves from it what logins, registrations, removals and shutdowns keep of the state
    that any number of controls share.
  \<^item> \<open>Acquire_All\<close>, \<open>TCP_Proxy\<close>, \<open>UDP_Proxy\<close>, \<open>HTTP_Proxy\<close>, \<open>HTTPS_Proxy\<close>, \<open>TCPMux_Group\<close>, \<open>TCPMux_Proxy\<close>,
    \<open>Secret_Proxy\<close>: \<^verbatim>\<open>server/proxy\<close>, \<^verbatim>\<open>server/group/tcpmux.go\<close> and \<^verbatim>\<open>pkg/util/tcpmux\<close>. The proxies that
    register a list of routes share the locale \<open>acquisition\<close> (all or nothing, undone in order); each type
    interprets \<open>server_proxy\<close> over the resources it uses (\<open>tcp\<close>, \<open>udp\<close>, \<open>http\<close>, \<open>https\<close>, \<open>tcpmux\<close>,
    \<open>stcp\<close>, \<open>xtcp\<close>).
  \<^item> \<open>Resource_Controller\<close>: \<^verbatim>\<open>server/controller/resource.go\<close> and the factory of proxies. All resources in one
    record, the sum of all proxy types as one interpretation (\<open>pxy\<close>), and with it: what the proxies hold is what the
    shared tables say is in use.
  \<^item> \<open>Proxy_Config\<close>, \<open>Proxy_Factory\<close>: \<^verbatim>\<open>pkg/config/proxy.go\<close> and the factory of \<^verbatim>\<open>server/proxy\<close>. The eight proxy
    configurations as one datatype over records that extend each other as the Go structs embed each other; reading from
    a section, validation on both sides, the message and back. A section that the client accepts reaches the server
    unchanged, and what the server accepts is a proxy of the right type.
  \<^item> \<open>Auth\<close>, \<open>Account_API\<close>: \<^verbatim>\<open>pkg/auth\<close> and \<^verbatim>\<open>pkg/api\<close>. The locale \<open>token_signed\<close> is what signing and verifying
    share, interpreted for logins, heartbeats and work connections (\<open>tlogin\<close>, \<open>tping\<close>, \<open>twork\<close>).
  \<^item> \<open>Server_Service\<close>: \<^verbatim>\<open>server/service.go\<close> and the message loop of \<^verbatim>\<open>server/control.go\<close>. The whole server as a step
    relation \<open>service_step\<close> over one state; its invariant (resources and the table of run ids), the admission of
    logins and the completion of a login that replaces an earlier one.
  \<^item> \<open>Client_Config\<close>, \<open>Server_Config\<close>: \<^verbatim>\<open>pkg/config\<close>, \<^verbatim>\<open>pkg/plugin/server/http.go\<close> and \<^verbatim>\<open>NewService\<close>. The files of
    client and server: a range section expands to one proxy per pair of ports, a file loads to exactly its selected
    sections, and a server starts with exactly the ports its \<^verbatim>\<open>allow_ports\<close> lists.
  \<^item> \<open>Client_Visitor\<close>: \<^verbatim>\<open>client/visitor\<close>. Visitors, their manager and its reload, and the way of a visitor's request
    through the server to the queue of the proxy it names.
  \<^item> \<open>Msg_Transport\<close>, \<open>Client_Control\<close>: \<^verbatim>\<open>pkg/transport/message.go\<close> and \<^verbatim>\<open>client/control.go\<close>. Requests and responses on lanes
    (\<open>lane_step\<close>), and the goroutines of a client's control as the steps of \<open>ctl_step\<close>: a control whose reader ends
    is released completely; a handler that ends alone leaves the control stalled.
  \<^item> \<open>TLS_Config\<close>, \<open>Client_Service\<close>: \<^verbatim>\<open>pkg/transport/tls.go\<close>, \<^verbatim>\<open>pkg/util/net\<close>, \<^verbatim>\<open>HandleListener\<close> and \<^verbatim>\<open>client/service.go\<close>. The
    connection of a client as the server's check of its first byte sees it, the login against the model of the server, the
    loop that reconnects (\<open>client_step\<close>) with its delays (\<open>rk_reach\<close>), and the close of a client.
  \<^item> \<open>Client_Command\<close>, \<open>Server_Command\<close>: \<^verbatim>\<open>cmd/frpc/sub\<close> and \<^verbatim>\<open>cmd/frps\<close>. What the commands start from flags, from a file or from the
    easy start service, and that it reaches the server as described; a server started in either way keeps to its allowed ports.
  \<^item> \<open>Client_Proxy\<close>: \<^verbatim>\<open>client/health\<close> and \<^verbatim>\<open>client/proxy\<close>. The wrapper's mutex sections are
    its steps (\<open>wrapper_step\<close>); messages it sends are recorded in order.

  \<^bold>\<open>State and effects.\<close> A method under a mutex is one function from state to state. Panics and calls
  that never return are \<open>None\<close>; errors are values of a sum type. Goroutines are the steps of
  an inductive relation (\<open>port_step\<close>, \<open>nat_step\<close>, \<open>wrapper_step\<close>, \<open>service_step\<close> and others), so their
  invariants hold under every interleaving of critical sections. Iteration over a Go map takes its order
  as an argument and theorems hold for every order.

  \<^bold>\<open>Parameters.\<close> Code outside the repository is an argument: the operating system's answer to binding a port
  (\<open>os\<close>), MD5 and base64 (\<open>md5_hex\<close>, \<open>b64\<close>), the slice functions of \<^verbatim>\<open>samber/lo\<close> (\<open>lo_lib\<close>, with their
  documented behaviour \<open>lo_ok\<close> and the reference instance \<open>lo_ref\<close>), the start of a day (\<open>midnight\<close>),
  the answer of a plugin process, the transport and the JSON decoder of the account service, the OIDC provider, the
  ini library (\<open>ini_section\<close>: the raw keys and what mapping a section onto a struct yields; \<open>ini_lib\<close> and \<open>server_ini\<close>: files,
  with the documented behaviour \<open>ini_ok\<close> and the instance \<open>ini_ref\<close>), the file system (\<open>file_system\<close>), what the start of the
  server asks of the operating system (\<open>start_env\<close>), dialling and multiplexing of the client (\<open>net_env\<close>), certificates and keys
  (\<open>tls_env\<close>), random numbers, the encryption of detect messages (\<open>sid_codec\<close>, \<open>codec_ok\<close>), the parser of
  floating point numbers, the encryption wrappers of golib. Times are integers in the unit the code compares.

  \<^bold>\<open>Bounds.\<close> No definition uses fuel. Loops are structural recursion over the list they traverse, or
  \<open>partial_function (option)\<close> with the theorem that they return. Counters of indices are kept at 64 bits where
  wrap-around is reachable (the round robin index, day counters, the range parser).

  \<^bold>\<open>Not modelled.\<close> Copying of user data, the TLS handshake, KCP, QUIC and websocket listeners, the
  encoding of STUN, logging, the static files of the dashboard, the parsing of command line flags and the rendering of
  configuration files by text/template: they are I/O around the modelled operations or third party code. The texts of
  errors are translated where the source has them in Chinese.
\<close>

end
